(* ===== verification/Prelude.thy ===== *)
theory Prelude
  imports Complex_Main "HOL-Library.AList" "HOL-Library.Char_ord"
    "HOL-Library.List_Lexorder" "HOL-Library.Product_Lexorder"
begin

text \<open>
  Shared vocabulary of the development.

  \<^item> \<open>prog\<close>: the state-and-exception programs in which the stateful classes are written.  A
    Python method that mutates \<open>self\<close> and may raise is a function from the state before to the
    outcome (\<open>Inl\<close> the exception, \<open>Inr\<close> the value) and the state after; the state after an
    exception is kept, since Python keeps every mutation made before the \<open>raise\<close>.
  \<^item> \<open>preserves\<close> and \<open>evolves\<close>: the two shapes of statement proved of such programs, with a
    collection of composition rules.
  \<^item> Python dictionaries as association lists (insertion order, update in place), finite sorted
    views, clocks, floats with their non-finite values.
\<close>

named_theorems preserves_rules \<open>composition rules for preserved predicates\<close>
named_theorems prog_defs \<open>definitions of the program combinators\<close>

section \<open>Numbers and clocks\<close>

text \<open>
  A finite float is modelled by the rational it denotes; sums are exact (no rounding).
  The non-finite values are kept where the source tests \<open>math.isfinite\<close>.
\<close>

type_synonym time = rat

datatype pyfloat = Finite rat | PosInf | NegInf | NaN

fun isfinite :: "pyfloat \<Rightarrow> bool" where
  "isfinite (Finite _) = True"
| "isfinite _ = False"

fun fin_val :: "pyfloat \<Rightarrow> rat" where
  "fin_val (Finite q) = q"
| "fin_val _ = 0"

text \<open>A clock is a sequence of readings of which each call of \<open>now()\<close> takes the next one.\<close>

record clock =
  readings :: "nat \<Rightarrow> time"
  reads :: nat

definition tick :: "clock \<Rightarrow> time \<times> clock" where
  "tick c = (readings c (reads c), c\<lparr>reads := Suc (reads c)\<rparr>)"

section \<open>State-and-exception programs\<close>

type_synonym ('s, 'e, 'a) prog = "'s \<Rightarrow> ('e + 'a) \<times> 's"

definition retS :: "'a \<Rightarrow> ('s, 'e, 'a) prog" where
  [prog_defs]: "retS x s = (Inr x, s)"

definition raiseS :: "'e \<Rightarrow> ('s, 'e, 'a) prog" where
  [prog_defs]: "raiseS e s = (Inl e, s)"

definition bindS :: "('s, 'e, 'a) prog \<Rightarrow> ('a \<Rightarrow> ('s, 'e, 'b) prog) \<Rightarrow> ('s, 'e, 'b) prog" where
  [prog_defs]: "bindS m f s = (case m s of (Inl e, s') \<Rightarrow> (Inl e, s') | (Inr x, s') \<Rightarrow> f x s')"

definition thenS :: "('s, 'e, 'a) prog \<Rightarrow> ('s, 'e, 'b) prog \<Rightarrow> ('s, 'e, 'b) prog" where
  [prog_defs]: "thenS m n = bindS m (\<lambda>_. n)"

definition catchS :: "('s, 'e, 'a) prog \<Rightarrow> ('e \<Rightarrow> ('s, 'e, 'a) prog) \<Rightarrow> ('s, 'e, 'a) prog" where
  [prog_defs]: "catchS m h s = (case m s of (Inl e, s') \<Rightarrow> h e s' | (Inr x, s') \<Rightarrow> (Inr x, s'))"

definition getS :: "('s \<Rightarrow> 'a) \<Rightarrow> ('s, 'e, 'a) prog" where
  [prog_defs]: "getS f s = (Inr (f s), s)"

definition modifyS :: "('s \<Rightarrow> 's) \<Rightarrow> ('s, 'e, unit) prog" where
  [prog_defs]: "modifyS f s = (Inr (), f s)"

definition guardS :: "bool \<Rightarrow> 'e \<Rightarrow> ('s, 'e, unit) prog" where
  [prog_defs]: "guardS b e = (if b then retS () else raiseS e)"

text \<open>A program on one component of a larger state.\<close>

definition zoomS :: "('w \<Rightarrow> 's) \<Rightarrow> ('s \<Rightarrow> 'w \<Rightarrow> 'w) \<Rightarrow> ('s, 'e, 'a) prog \<Rightarrow> ('w, 'e, 'a) prog" where
  [prog_defs]: "zoomS g p m w = (case m (g w) of (r, s) \<Rightarrow> (r, p s w))"

definition preserves :: "('s \<Rightarrow> bool) \<Rightarrow> ('s, 'e, 'a) prog \<Rightarrow> bool" where
  "preserves P m \<longleftrightarrow> (\<forall>s. P s \<longrightarrow> P (snd (m s)))"

definition evolves :: "('s \<Rightarrow> 's \<Rightarrow> bool) \<Rightarrow> ('s, 'e, 'a) prog \<Rightarrow> bool" where
  "evolves R m \<longleftrightarrow> (\<forall>s. R s (snd (m s)))"

lemma preservesI: "(\<And>s. P s \<Longrightarrow> P (snd (m s))) \<Longrightarrow> preserves P m"
  by (simp add: preserves_def)

lemma preservesD: "preserves P m \<Longrightarrow> P s \<Longrightarrow> P (snd (m s))"
  by (simp add: preserves_def)

lemma preserves_ret [preserves_rules]: "preserves P (retS x)"
  by (simp add: preserves_def prog_defs)

lemma preserves_raise [preserves_rules]: "preserves P (raiseS e)"
  by (simp add: preserves_def prog_defs)

lemma preserves_get [preserves_rules]: "preserves P (getS f)"
  by (simp add: preserves_def prog_defs)

lemma preserves_guard [preserves_rules]: "preserves P (guardS b e)"
  by (simp add: preserves_def prog_defs)

lemma preserves_bind [preserves_rules]:
  "preserves P m \<Longrightarrow> (\<And>x. preserves P (f x)) \<Longrightarrow> preserves P (bindS m f)"
  by (fastforce simp: preserves_def bindS_def split: sum.splits prod.splits)

lemma preserves_then [preserves_rules]:
  "preserves P m \<Longrightarrow> preserves P n \<Longrightarrow> preserves P (thenS m n)"
  by (simp add: thenS_def preserves_bind)

lemma preserves_catch [preserves_rules]:
  "preserves P m \<Longrightarrow> (\<And>e. preserves P (h e)) \<Longrightarrow> preserves P (catchS m h)"
  by (fastforce simp: preserves_def catchS_def split: sum.splits prod.splits)

lemma preserves_if [preserves_rules]:
  "(b \<Longrightarrow> preserves P m) \<Longrightarrow> (\<not> b \<Longrightarrow> preserves P n) \<Longrightarrow> preserves P (if b then m else n)"
  by simp

lemma preserves_option [preserves_rules]:
  "(x = None \<Longrightarrow> preserves P m) \<Longrightarrow> (\<And>y. x = Some y \<Longrightarrow> preserves P (f y)) \<Longrightarrow>
   preserves P (case x of None \<Rightarrow> m | Some y \<Rightarrow> f y)"
  by (cases x) auto

lemma preserves_modify: "(\<And>s. P s \<Longrightarrow> P (f s)) \<Longrightarrow> preserves P (modifyS f)"
  by (simp add: preserves_def prog_defs)

text \<open>An \<open>evolves\<close> statement is a family of preserved predicates, so the same rules serve it.\<close>

lemma evolves_by_preserves:
  "reflp R \<Longrightarrow> (\<And>s0. preserves (R s0) m) \<Longrightarrow> evolves R m"
  by (auto simp: evolves_def preserves_def reflp_def)

lemma preserves_by_evolves: "transp R \<Longrightarrow> evolves R m \<Longrightarrow> preserves (R s0) m"
  by (auto simp: evolves_def preserves_def transp_def)

lemma evolvesD: "evolves R m \<Longrightarrow> R s (snd (m s))"
  by (simp add: evolves_def)

section \<open>Python dictionaries\<close>

text \<open>
  A dictionary keeps insertion order: assigning to a present key updates it in place, a new key
  goes to the end.  \<open>AList.update\<close> and \<open>AList.delete\<close> of the library do exactly this.
\<close>

type_synonym ('k, 'v) dict = "('k \<times> 'v) list"

definition dset :: "'k \<Rightarrow> 'v \<Rightarrow> ('k, 'v) dict \<Rightarrow> ('k, 'v) dict" where
  "dset k v d = AList.update k v d"

definition ddel :: "'k \<Rightarrow> ('k, 'v) dict \<Rightarrow> ('k, 'v) dict" where
  "ddel k d = AList.delete k d"

abbreviation dget :: "('k, 'v) dict \<Rightarrow> 'k \<Rightarrow> 'v option" where
  "dget d k \<equiv> map_of d k"

definition ddistinct :: "('k, 'v) dict \<Rightarrow> bool" where
  "ddistinct d \<longleftrightarrow> distinct (map fst d)"

definition dsorted :: "('k::linorder, 'v) dict \<Rightarrow> ('k, 'v) dict" where
  "dsorted d = sort_key fst d"

lemma dget_dset [simp]: "dget (dset k v d) k' = (if k' = k then Some v else dget d k')"
  by (simp add: dset_def update_conv)

lemma dget_ddel [simp]: "dget (ddel k d) k' = (if k' = k then None else dget d k')"
  by (simp add: ddel_def delete_conv)

lemma map_of_dset: "map_of (dset k v d) = (map_of d)(k \<mapsto> v)"
  by (simp add: dset_def update_conv')

lemma ddistinct_Nil [simp]: "ddistinct []"
  by (simp add: ddistinct_def)

lemma ddistinct_dset [simp]: "ddistinct d \<Longrightarrow> ddistinct (dset k v d)"
  by (simp add: ddistinct_def dset_def distinct_update)

lemma ddistinct_ddel [simp]: "ddistinct d \<Longrightarrow> ddistinct (ddel k d)"
  by (simp add: ddistinct_def ddel_def distinct_delete)

lemma keys_dset [simp]: "fst ` set (dset k v d) = insert k (fst ` set d)"
  by (simp add: dset_def dom_update)

lemma length_dset: "length (dset k v d) = (if k \<in> fst ` set d then length d else Suc (length d))"
  unfolding dset_def by (induction d) auto

lemma ddistinct_in_set: "ddistinct d \<Longrightarrow> (k, v) \<in> set d \<longleftrightarrow> dget d k = Some v"
  by (simp add: ddistinct_def)

lemma dget_None_keys: "dget d k = None \<longleftrightarrow> k \<notin> fst ` set d"
  by (rule map_of_eq_None_iff)

lemma set_dsorted [simp]: "set (dsorted d) = set d"
  by (simp add: dsorted_def)

lemma sorted_dsorted: "sorted (map fst (dsorted d))"
  by (simp add: dsorted_def)

lemma ddistinct_dsorted [simp]: "ddistinct d \<Longrightarrow> ddistinct (dsorted d)"
  unfolding ddistinct_def dsorted_def
  by (simp add: distinct_map)

section \<open>Strings\<close>

text \<open>
  \<open>str.strip\<close> on the ASCII white space of \<open>str.isspace\<close> (tab to carriage return, the four
  separators 28--31, space), \<open>str.lower\<close> on the ASCII letters.
\<close>

definition is_space :: "char \<Rightarrow> bool" where
  "is_space c \<longleftrightarrow> (let n = of_char c :: nat in (9 \<le> n \<and> n \<le> 13) \<or> (28 \<le> n \<and> n \<le> 32))"

definition strip :: "string \<Rightarrow> string" where
  "strip s = rev (dropWhile is_space (rev (dropWhile is_space s)))"

definition lower_char :: "char \<Rightarrow> char" where
  "lower_char c = (let n = of_char c :: nat in if 65 \<le> n \<and> n \<le> 90 then char_of (n + 32) else c)"

definition lower :: "string \<Rightarrow> string" where
  "lower s = map lower_char s"

lemma dropWhile_idem_rev:
  "dropWhile P (rev (dropWhile P (rev (dropWhile P xs)))) = rev (dropWhile P (rev (dropWhile P xs)))"
proof (cases "dropWhile P xs")
  case Nil
  show ?thesis unfolding Nil by simp
next
  case (Cons y ys)
  then have ny: "\<not> P y" by (meson hd_dropWhile list.discI list.sel(1) dropWhile_eq_Cons_conv)
  have "dropWhile P (rev ys @ [y]) = dropWhile P (rev ys) @ [y]"
    by (metis dropWhile_append3 ny)
  with Cons ny show ?thesis by simp
qed

lemma strip_idem [simp]: "strip (strip s) = strip s"
  by (simp add: strip_def dropWhile_idem_rev)

lemma strip_Nil [simp]: "strip [] = []"
  by (simp add: strip_def)

section \<open>Sorted sets\<close>

text \<open>\<open>tuple(sorted(set(xs)))\<close>.\<close>

definition sorted_unique :: "string list \<Rightarrow> string list" where
  "sorted_unique xs = sort (remdups xs)"

lemma sorted_unique_props [simp]:
  "sorted (sorted_unique xs)" "distinct (sorted_unique xs)" "set (sorted_unique xs) = set xs"
  by (simp_all add: sorted_unique_def)

lemma sorted_unique_empty [simp]: "sorted_unique xs = [] \<longleftrightarrow> xs = []"
  by (metis set_empty sorted_unique_props(3))

end
