(* ===== verification/PyValue.thy ===== *)
theory PyValue
  imports Prelude
begin

text \<open>
  The Python values that reach the program as untyped data: metadata, JSON documents, tool
  arguments and results.  Mappings have string keys (the JSON and metadata mappings of the
  source), in insertion order.  \<open>VProxy\<close> is \<open>types.MappingProxyType\<close>; \<open>VObject\<close> is any value
  of another class, of which only the class name is kept.

  The freezing and thawing functions of \<open>core/model_config.py\<close>, \<open>core/gateway_models.py\<close> and
  \<open>security/context.py\<close> are modelled, and that thawing undoes freezing on JSON values.
\<close>

datatype py_error =
  ValueError | TypeError | KeyError | RuntimeError | TimeoutError | RecursionError | AttributeError

datatype pyval =
    VNone
  | VBool bool
  | VInt int
  | VFloat pyfloat
  | VStr string
  | VList "pyval list"
  | VTuple "pyval list"
  | VSet "pyval list"
  | VFrozenSet "pyval list"
  | VDict "(string \<times> pyval) list"
  | VProxy "(string \<times> pyval) list"
  | VObject string

section \<open>Metadata\<close>

text \<open>\<open>freeze_metadata\<close>; \<open>security.context._freeze\<close> has the same body.\<close>

primrec freeze_metadata :: "pyval \<Rightarrow> pyval" where
  "freeze_metadata VNone = VNone"
| "freeze_metadata (VBool b) = VBool b"
| "freeze_metadata (VInt i) = VInt i"
| "freeze_metadata (VFloat x) = VFloat x"
| "freeze_metadata (VStr s) = VStr s"
| "freeze_metadata (VList xs) = VTuple (map freeze_metadata xs)"
| "freeze_metadata (VTuple xs) = VTuple (map freeze_metadata xs)"
| "freeze_metadata (VSet xs) = VFrozenSet (map freeze_metadata xs)"
| "freeze_metadata (VFrozenSet xs) = VFrozenSet (map freeze_metadata xs)"
| "freeze_metadata (VDict kvs) = VProxy (map (map_prod (\<lambda>k. k) freeze_metadata) kvs)"
| "freeze_metadata (VProxy kvs) = VProxy (map (map_prod (\<lambda>k. k) freeze_metadata) kvs)"
| "freeze_metadata (VObject c) = VObject c"

primrec thaw_metadata :: "pyval \<Rightarrow> pyval" where
  "thaw_metadata VNone = VNone"
| "thaw_metadata (VBool b) = VBool b"
| "thaw_metadata (VInt i) = VInt i"
| "thaw_metadata (VFloat x) = VFloat x"
| "thaw_metadata (VStr s) = VStr s"
| "thaw_metadata (VList xs) = VList xs"
| "thaw_metadata (VTuple xs) = VList (map thaw_metadata xs)"
| "thaw_metadata (VSet xs) = VSet xs"
| "thaw_metadata (VFrozenSet xs) = VList (map thaw_metadata xs)"
| "thaw_metadata (VDict kvs) = VDict (map (map_prod (\<lambda>k. k) thaw_metadata) kvs)"
| "thaw_metadata (VProxy kvs) = VDict (map (map_prod (\<lambda>k. k) thaw_metadata) kvs)"
| "thaw_metadata (VObject c) = VObject c"

definition sensitive_keys :: "string set" where
  "sensitive_keys = {''api_key'', ''authorization'', ''credential'', ''credentials'', ''secret'', ''token''}"

text \<open>\<open>validate_metadata\<close> raises on a credential-bearing key at any depth; \<open>True\<close> is no exception.\<close>

fun validate_metadata :: "pyval \<Rightarrow> bool"
  and validate_metadata_list :: "pyval list \<Rightarrow> bool"
  and validate_metadata_items :: "(string \<times> pyval) list \<Rightarrow> bool" where
  "validate_metadata (VDict kvs) =
     ((\<forall>k \<in> set (map fst kvs). lower k \<notin> sensitive_keys) \<and> validate_metadata_items kvs)"
| "validate_metadata (VProxy kvs) =
     ((\<forall>k \<in> set (map fst kvs). lower k \<notin> sensitive_keys) \<and> validate_metadata_items kvs)"
| "validate_metadata (VList xs) = validate_metadata_list xs"
| "validate_metadata (VTuple xs) = validate_metadata_list xs"
| "validate_metadata (VSet xs) = validate_metadata_list xs"
| "validate_metadata (VFrozenSet xs) = validate_metadata_list xs"
| "validate_metadata _ = True"
| "validate_metadata_list [] = True"
| "validate_metadata_list (x # xs) = (validate_metadata x \<and> validate_metadata_list xs)"
| "validate_metadata_items [] = True"
| "validate_metadata_items ((_, x) # kvs) = (validate_metadata x \<and> validate_metadata_items kvs)"

text \<open>The keys that occur at any depth of a value.\<close>

fun deep_keys :: "pyval \<Rightarrow> string set"
  and deep_keys_list :: "pyval list \<Rightarrow> string set"
  and deep_keys_items :: "(string \<times> pyval) list \<Rightarrow> string set" where
  "deep_keys (VDict kvs) = set (map fst kvs) \<union> deep_keys_items kvs"
| "deep_keys (VProxy kvs) = set (map fst kvs) \<union> deep_keys_items kvs"
| "deep_keys (VList xs) = deep_keys_list xs"
| "deep_keys (VTuple xs) = deep_keys_list xs"
| "deep_keys (VSet xs) = deep_keys_list xs"
| "deep_keys (VFrozenSet xs) = deep_keys_list xs"
| "deep_keys _ = {}"
| "deep_keys_list [] = {}"
| "deep_keys_list (x # xs) = deep_keys x \<union> deep_keys_list xs"
| "deep_keys_items [] = {}"
| "deep_keys_items ((_, x) # kvs) = deep_keys x \<union> deep_keys_items kvs"

lemma validate_metadata_deep:
  "validate_metadata v \<longleftrightarrow> (\<forall>k \<in> deep_keys v. lower k \<notin> sensitive_keys)"
  "validate_metadata_list vs \<longleftrightarrow> (\<forall>k \<in> deep_keys_list vs. lower k \<notin> sensitive_keys)"
  "validate_metadata_items kvs \<longleftrightarrow> (\<forall>k \<in> deep_keys_items kvs. lower k \<notin> sensitive_keys)"
  by (induction v and vs and kvs
      rule: validate_metadata_validate_metadata_list_validate_metadata_items.induct) auto

lemma deep_keys_items_map:
  "deep_keys_items kvs = (\<Union>p \<in> set kvs. deep_keys (snd p))"
  by (induction kvs) auto

lemma deep_keys_list_map: "deep_keys_list xs = (\<Union>x \<in> set xs. deep_keys x)"
  by (induction xs) auto

lemma deep_keys_freeze: "deep_keys (freeze_metadata v) = deep_keys v"
  by (induction v) (force simp: deep_keys_items_map deep_keys_list_map image_iff)+

section \<open>JSON\<close>

text \<open>\<open>freeze_json\<close>: the first offending value, in evaluation order, decides the exception.\<close>

fun freeze_json :: "pyval \<Rightarrow> py_error + pyval"
  and freeze_json_list :: "pyval list \<Rightarrow> py_error + pyval list"
  and freeze_json_items :: "(string \<times> pyval) list \<Rightarrow> py_error + (string \<times> pyval) list" where
  "freeze_json (VDict kvs) =
     (case freeze_json_items kvs of Inl e \<Rightarrow> Inl e | Inr kvs' \<Rightarrow> Inr (VProxy kvs'))"
| "freeze_json (VProxy kvs) =
     (case freeze_json_items kvs of Inl e \<Rightarrow> Inl e | Inr kvs' \<Rightarrow> Inr (VProxy kvs'))"
| "freeze_json (VList xs) =
     (case freeze_json_list xs of Inl e \<Rightarrow> Inl e | Inr xs' \<Rightarrow> Inr (VTuple xs'))"
| "freeze_json (VTuple xs) =
     (case freeze_json_list xs of Inl e \<Rightarrow> Inl e | Inr xs' \<Rightarrow> Inr (VTuple xs'))"
| "freeze_json VNone = Inr VNone"
| "freeze_json (VBool b) = Inr (VBool b)"
| "freeze_json (VInt i) = Inr (VInt i)"
| "freeze_json (VFloat x) = (if isfinite x then Inr (VFloat x) else Inl ValueError)"
| "freeze_json (VStr s) = Inr (VStr s)"
| "freeze_json (VSet _) = Inl TypeError"
| "freeze_json (VFrozenSet _) = Inl TypeError"
| "freeze_json (VObject _) = Inl TypeError"
| "freeze_json_list [] = Inr []"
| "freeze_json_list (x # xs) =
     (case freeze_json x of Inl e \<Rightarrow> Inl e | Inr x' \<Rightarrow>
       (case freeze_json_list xs of Inl e \<Rightarrow> Inl e | Inr xs' \<Rightarrow> Inr (x' # xs')))"
| "freeze_json_items [] = Inr []"
| "freeze_json_items ((k, x) # kvs) =
     (case freeze_json x of Inl e \<Rightarrow> Inl e | Inr x' \<Rightarrow>
       (case freeze_json_items kvs of Inl e \<Rightarrow> Inl e | Inr kvs' \<Rightarrow> Inr ((k, x') # kvs')))"

primrec thaw_json :: "pyval \<Rightarrow> pyval" where
  "thaw_json VNone = VNone"
| "thaw_json (VBool b) = VBool b"
| "thaw_json (VInt i) = VInt i"
| "thaw_json (VFloat x) = VFloat x"
| "thaw_json (VStr s) = VStr s"
| "thaw_json (VList xs) = VList xs"
| "thaw_json (VTuple xs) = VList (map thaw_json xs)"
| "thaw_json (VSet xs) = VSet xs"
| "thaw_json (VFrozenSet xs) = VFrozenSet xs"
| "thaw_json (VDict kvs) = VDict (map (map_prod (\<lambda>k. k) thaw_json) kvs)"
| "thaw_json (VProxy kvs) = VDict (map (map_prod (\<lambda>k. k) thaw_json) kvs)"
| "thaw_json (VObject c) = VObject c"

text \<open>The JSON-compatible values, as \<open>json.loads\<close> produces them: finite numbers, lists, dictionaries.\<close>

fun is_json :: "pyval \<Rightarrow> bool"
  and is_json_list :: "pyval list \<Rightarrow> bool"
  and is_json_items :: "(string \<times> pyval) list \<Rightarrow> bool" where
  "is_json VNone = True"
| "is_json (VBool _) = True"
| "is_json (VInt _) = True"
| "is_json (VFloat x) = isfinite x"
| "is_json (VStr _) = True"
| "is_json (VList xs) = is_json_list xs"
| "is_json (VDict kvs) = is_json_items kvs"
| "is_json _ = False"
| "is_json_list [] = True"
| "is_json_list (x # xs) = (is_json x \<and> is_json_list xs)"
| "is_json_items [] = True"
| "is_json_items ((_, x) # kvs) = (is_json x \<and> is_json_items kvs)"

lemma freeze_json_thaw:
  "is_json v \<Longrightarrow> \<exists>w. freeze_json v = Inr w \<and> thaw_json w = v"
  "is_json_list vs \<Longrightarrow> \<exists>ws. freeze_json_list vs = Inr ws \<and> map thaw_json ws = vs"
  "is_json_items kvs \<Longrightarrow>
     \<exists>ws. freeze_json_items kvs = Inr ws \<and> map (map_prod (\<lambda>k. k) thaw_json) ws = kvs"
  by (induction v and vs and kvs rule: is_json_is_json_list_is_json_items.induct)
     (auto split: sum.splits)

text \<open>A frozen JSON value holds no mutable container.\<close>

fun frozen :: "pyval \<Rightarrow> bool"
  and frozen_list :: "pyval list \<Rightarrow> bool"
  and frozen_items :: "(string \<times> pyval) list \<Rightarrow> bool" where
  "frozen (VTuple xs) = frozen_list xs"
| "frozen (VProxy kvs) = frozen_items kvs"
| "frozen (VList _) = False"
| "frozen (VDict _) = False"
| "frozen (VSet _) = False"
| "frozen (VFrozenSet xs) = frozen_list xs"
| "frozen _ = True"
| "frozen_list [] = True"
| "frozen_list (x # xs) = (frozen x \<and> frozen_list xs)"
| "frozen_items [] = True"
| "frozen_items ((_, x) # kvs) = (frozen x \<and> frozen_items kvs)"

lemma freeze_json_frozen:
  "freeze_json v = Inr w \<Longrightarrow> frozen w"
  "freeze_json_list vs = Inr ws \<Longrightarrow> frozen_list ws"
  "freeze_json_items kvs = Inr kws \<Longrightarrow> frozen_items kws"
  by (induction v and vs and kvs arbitrary: w and ws and kws
      rule: freeze_json_freeze_json_list_freeze_json_items.induct)
     (auto split: sum.splits if_splits)

text \<open>
  Freezing is total on JSON values, its result holds no mutable container, and thawing it
  gives the original value back: gateway metadata survives the round trip unchanged.
\<close>

theorem freeze_json_roundtrip:
  assumes "is_json v"
  shows "\<exists>w. freeze_json v = Inr w \<and> frozen w \<and> thaw_json w = v"
  using freeze_json_thaw(1)[OF assms] freeze_json_frozen(1) by blast

theorem freeze_json_roundtrip_witness:
  "\<exists>w. freeze_json (VDict [(''type'', VStr ''object''), (''required'', VList [VStr ''sku''])]) = Inr w
     \<and> frozen w \<and> thaw_json w = VDict [(''type'', VStr ''object''), (''required'', VList [VStr ''sku''])]"
  by (rule freeze_json_roundtrip) simp

text \<open>
  Metadata validation accepts a value exactly when no key at any depth is, up to letter
  case, one of the credential-bearing keys, and freezing the accepted value adds no such key.
\<close>

theorem validated_metadata_credential_free:
  assumes "validate_metadata v"
  shows "k \<in> deep_keys (freeze_metadata v) \<Longrightarrow> lower k \<notin> sensitive_keys"
  using assms by (simp add: deep_keys_freeze validate_metadata_deep)

theorem validated_metadata_credential_free_witness:
  "lower ''Region'' \<notin> sensitive_keys"
  by (rule validated_metadata_credential_free [of "VDict [(''a'', VList [VDict [(''Region'', VNone)]])]"])
     (simp_all add: sensitive_keys_def lower_def lower_char_def Let_def)

end
