(* ===== verification/SecurityContext.thy ===== *)
theory SecurityContext
  imports PyValue
begin

text \<open>
  The errors of \<open>security/errors.py\<close>, the identity and authorization records of
  \<open>security/context.py\<close> with the validation of their constructors, the delegation of an
  authorization context to a nested invocation, and the trust-policy records of
  \<open>security/trust.py\<close>.
\<close>

section \<open>Errors\<close>

text \<open>
  One constructor per exception class; \<open>AuditDelivery\<close> carries the failure's reason code.
  \<open>Foreign\<close> is any exception outside the hierarchy that reaches the callers of this package: it has
  no \<open>reason_code\<close> attribute, and the callers that ask for one fall back to
  \<open>authorization_denied\<close>.
\<close>

datatype sec_error =
    SecurityError
  | MissingAuthorizationContext
  | InsufficientScope
  | ApprovalRequired
  | AuthorizationDenied
  | ApprovalExpired
  | TaskCanceled
  | InvalidApprovalState
  | PolicyEvaluation
  | ApprovalTokenGeneric
  | MalformedApprovalToken
  | UnsupportedApprovalToken
  | UnknownApprovalKey
  | InvalidApprovalSignature
  | PrematureApprovalToken
  | ApprovalTokenExpired
  | ApprovalTokenBinding
  | ApprovalTokenRole
  | ApprovalTokenReplay
  | AuditDelivery string
  | Foreign py_error

fun reason_code :: "sec_error \<Rightarrow> string" where
  "reason_code SecurityError = ''security_error''"
| "reason_code MissingAuthorizationContext = ''missing_context''"
| "reason_code InsufficientScope = ''insufficient_scope''"
| "reason_code ApprovalRequired = ''approval_required''"
| "reason_code AuthorizationDenied = ''denied''"
| "reason_code ApprovalExpired = ''expired''"
| "reason_code TaskCanceled = ''canceled''"
| "reason_code InvalidApprovalState = ''invalid_state_transition''"
| "reason_code PolicyEvaluation = ''policy_failure''"
| "reason_code ApprovalTokenGeneric = ''security_error''"
| "reason_code MalformedApprovalToken = ''malformed_token''"
| "reason_code UnsupportedApprovalToken = ''unsupported_token''"
| "reason_code UnknownApprovalKey = ''unknown_key''"
| "reason_code InvalidApprovalSignature = ''invalid_signature''"
| "reason_code PrematureApprovalToken = ''premature_token''"
| "reason_code ApprovalTokenExpired = ''token_expired''"
| "reason_code ApprovalTokenBinding = ''token_binding''"
| "reason_code ApprovalTokenRole = ''role_mismatch''"
| "reason_code ApprovalTokenReplay = ''replay''"
| "reason_code (AuditDelivery _) = ''audit_delivery_failed''"
| "reason_code (Foreign _) = ''authorization_denied''"

text \<open>The subclasses of \<open>ApprovalTokenError\<close>.\<close>

fun is_token_error :: "sec_error \<Rightarrow> bool" where
  "is_token_error e = (e \<in> {ApprovalTokenGeneric, MalformedApprovalToken, UnsupportedApprovalToken,
     UnknownApprovalKey, InvalidApprovalSignature, PrematureApprovalToken, ApprovalTokenExpired,
     ApprovalTokenBinding, ApprovalTokenRole, ApprovalTokenReplay})"

section \<open>Principals and authorization contexts\<close>

datatype audience = OneAudience string | ManyAudiences "string list"

record principal =
  subject_id :: string
  issuer :: string
  audience :: audience
  claims :: pyval
  roles :: "string set"
  scopes :: "string set"

fun audience_list :: "audience \<Rightarrow> string list" where
  "audience_list (OneAudience a) = [a]"
| "audience_list (ManyAudiences as) = as"

text \<open>\<open>Principal.__post_init__\<close>: \<open>Inl\<close> is its \<open>ValueError\<close>.\<close>

definition mk_principal ::
  "string \<Rightarrow> string \<Rightarrow> audience \<Rightarrow> pyval \<Rightarrow> string list \<Rightarrow> string list \<Rightarrow> py_error + principal" where
  "mk_principal sub iss aud cls rls scs =
     (if sub = [] \<or> iss = [] then Inl ValueError
      else
        let audiences = audience_list aud in
        if audiences = [] \<or> [] \<in> set audiences then Inl ValueError
        else Inr \<lparr>subject_id = sub, issuer = iss,
                  audience = (if length audiences > 1 then ManyAudiences audiences
                              else OneAudience (hd audiences)),
                  claims = freeze_metadata cls, roles = set rls, scopes = set scs\<rparr>)"

record authorization_context =
  ac_principal :: principal
  ac_task_id :: string
  ac_correlation_id :: string
  ac_policy_metadata :: pyval

definition mk_authorization_context ::
  "principal \<Rightarrow> string \<Rightarrow> string \<Rightarrow> pyval \<Rightarrow> py_error + authorization_context" where
  "mk_authorization_context p task corr meta =
     (if task = [] \<or> corr = [] then Inl ValueError
      else Inr \<lparr>ac_principal = p, ac_task_id = task, ac_correlation_id = corr,
                ac_policy_metadata = freeze_metadata meta\<rparr>)"

text \<open>
  \<open>delegate_context\<close>.  The \<open>isinstance\<close> tests of the source always succeed on the typed
  arguments of the model, so \<open>MissingAuthorizationContext\<close> does not occur here.
\<close>

definition broader :: "authorization_context \<Rightarrow> authorization_context \<Rightarrow> bool" where
  "broader parent candidate \<longleftrightarrow>
     (let pp = ac_principal parent; cp = ac_principal candidate in
      subject_id cp \<noteq> subject_id pp \<or> issuer cp \<noteq> issuer pp \<or> audience cp \<noteq> audience pp
      \<or> \<not> roles cp \<subseteq> roles pp \<or> \<not> scopes cp \<subseteq> scopes pp
      \<or> ac_task_id candidate \<noteq> ac_task_id parent
      \<or> ac_correlation_id candidate \<noteq> ac_correlation_id parent)"

fun delegate_context ::
  "authorization_context option \<Rightarrow> authorization_context option \<Rightarrow> sec_error + authorization_context option" where
  "delegate_context parent None = Inr parent"
| "delegate_context None (Some candidate) = Inr (Some candidate)"
| "delegate_context (Some parent) (Some candidate) =
     (if broader parent candidate then Inl AuthorizationDenied else Inr (Some candidate))"

text \<open>A chain of nested invocations, each of which may request its own context.\<close>

fun delegate_chain ::
  "authorization_context option \<Rightarrow> authorization_context option list \<Rightarrow> sec_error + authorization_context option" where
  "delegate_chain parent [] = Inr parent"
| "delegate_chain parent (c # cs) =
     (case delegate_context parent c of Inl e \<Rightarrow> Inl e | Inr next_ctx \<Rightarrow> delegate_chain next_ctx cs)"

definition ctx_within :: "authorization_context \<Rightarrow> authorization_context \<Rightarrow> bool" where
  "ctx_within child parent \<longleftrightarrow> \<not> broader parent child"

lemma ctx_within_refl [simp]: "ctx_within c c"
  by (simp add: ctx_within_def broader_def)

lemma ctx_within_trans: "ctx_within a b \<Longrightarrow> ctx_within b c \<Longrightarrow> ctx_within a c"
  by (auto simp: ctx_within_def broader_def Let_def)

lemma delegate_context_within:
  "delegate_context (Some p) c = Inr r \<Longrightarrow> \<exists>q. r = Some q \<and> ctx_within q p"
  by (cases c) (auto simp: ctx_within_def ctx_within_refl[unfolded ctx_within_def] split: if_splits)

text \<open>
  C18. No authority amplification.  Along any chain of nested invocations that the delegation
  check lets through, the innermost context names the caller's subject, issuer, audience, task
  and correlation, and its roles and scopes are among the outermost caller's.
\<close>

theorem delegation_never_amplifies:
  assumes "delegate_chain (Some caller) cs = Inr r"
  shows "\<exists>leaf. r = Some leaf
     \<and> subject_id (ac_principal leaf) = subject_id (ac_principal caller)
     \<and> issuer (ac_principal leaf) = issuer (ac_principal caller)
     \<and> audience (ac_principal leaf) = audience (ac_principal caller)
     \<and> roles (ac_principal leaf) \<subseteq> roles (ac_principal caller)
     \<and> scopes (ac_principal leaf) \<subseteq> scopes (ac_principal caller)
     \<and> ac_task_id leaf = ac_task_id caller \<and> ac_correlation_id leaf = ac_correlation_id caller"
proof -
  have "\<exists>leaf. r = Some leaf \<and> ctx_within leaf caller"
    using assms
  proof (induction cs arbitrary: caller)
    case (Cons c cs)
    then obtain nxt where d: "delegate_context (Some caller) c = Inr nxt"
      and rest: "delegate_chain nxt cs = Inr r"
      by (auto split: sum.splits)
    from delegate_context_within[OF d] obtain q where q: "nxt = Some q" "ctx_within q caller" by blast
    with Cons.IH rest show ?case using ctx_within_trans by blast
  qed auto
  then show ?thesis by (auto simp: ctx_within_def broader_def Let_def)
qed

theorem delegation_never_amplifies_witness:
  "\<exists>p c1 c2 leaf. delegate_chain (Some p) [Some c1, None, Some c2] = Inr (Some leaf)
     \<and> scopes (ac_principal p) = {''read'', ''write'', ''admin''}
     \<and> scopes (ac_principal leaf) = {''read''}
     \<and> scopes (ac_principal leaf) \<subseteq> scopes (ac_principal p)"
proof -
  define ctx where "ctx = (\<lambda>sc. \<lparr>ac_principal = \<lparr>subject_id = ''u'', issuer = ''i'',
    audience = OneAudience ''a'', claims = VProxy [], roles = {}, scopes = sc\<rparr>,
    ac_task_id = ''t'', ac_correlation_id = ''c'', ac_policy_metadata = VProxy []\<rparr>)"
  have run: "delegate_chain (Some (ctx {''read'', ''write'', ''admin''}))
       [Some (ctx {''read'', ''write''}), None, Some (ctx {''read''})] = Inr (Some (ctx {''read''}))"
    by (simp add: ctx_def broader_def)
  from delegation_never_amplifies[OF run]
  have "scopes (ac_principal (ctx {''read''})) \<subseteq> scopes (ac_principal (ctx {''read'', ''write'', ''admin''}))"
    by auto
  with run show ?thesis by (intro exI conjI) (auto simp: ctx_def)
qed

lemma mk_principal_audience:
  "mk_principal sub iss aud cls rls scs = Inr p \<Longrightarrow>
   audience_list (audience p) = audience_list aud \<and> audience_list (audience p) \<noteq> []
   \<and> [] \<notin> set (audience_list (audience p))"
  by (cases "audience_list aud") (auto simp: mk_principal_def Let_def split: if_splits)

section \<open>Trust policies\<close>

record issuer_policy =
  ip_issuer :: string
  ip_allowed_algorithms :: "string set"

definition mk_issuer_policy :: "string \<Rightarrow> string list \<Rightarrow> py_error + issuer_policy" where
  "mk_issuer_policy iss algs =
     (if iss = [] then Inl ValueError
      else if algs = [] \<or> [] \<in> set algs then Inl ValueError
      else Inr \<lparr>ip_issuer = iss, ip_allowed_algorithms = set algs\<rparr>)"

definition mk_audience_policy :: "string list \<Rightarrow> py_error + string set" where
  "mk_audience_policy auds =
     (if auds = [] \<or> [] \<in> set auds then Inl ValueError else Inr (set auds))"

record scope_policy =
  sp_allowed_scopes :: "string set"
  sp_required_scopes :: "string set"

definition mk_scope_policy :: "string list \<Rightarrow> string list \<Rightarrow> py_error + scope_policy" where
  "mk_scope_policy allowed required =
     (if \<not> set required \<subseteq> set allowed then Inl ValueError
      else Inr \<lparr>sp_allowed_scopes = set allowed, sp_required_scopes = set required\<rparr>)"

definition mk_clock_skew_policy :: "int \<Rightarrow> py_error + int" where
  "mk_clock_skew_policy leeway = (if 0 \<le> leeway \<and> leeway \<le> 300 then Inr leeway else Inl ValueError)"

end
