(* ===== verification/Crypto.thy ===== *)
theory Crypto
  imports SecurityContext
begin

text \<open>
  \<open>security/crypto.py\<close>: the base64url codec, the canonical-JSON check, the key resolver and the
  strict verifier of approval tokens (compact JWS, ES256).

  Byte strings and ASCII strings are \<open>string\<close> (a \<open>char\<close> is a byte).  The elliptic-curve library
  and the JSON text codec are parameters, gathered in the record \<open>jws_env\<close>.
\<close>

section \<open>base64url\<close>

definition b64_alphabet :: string where
  "b64_alphabet = ''ABCDEFGHIJKLMNOPQRSTUVWXYZabcdefghijklmnopqrstuvwxyz0123456789-_''"

definition sextet_char :: "nat \<Rightarrow> char" where
  "sextet_char n = b64_alphabet ! n"

text \<open>The value of a character of the alphabet.\<close>

definition char_sextet :: "char \<Rightarrow> nat option" where
  "char_sextet c = (let n = of_char c :: nat in
     if 65 \<le> n \<and> n \<le> 90 then Some (n - 65)
     else if 97 \<le> n \<and> n \<le> 122 then Some (n - 71)
     else if 48 \<le> n \<and> n \<le> 57 then Some (n + 4)
     else if n = 45 then Some 62
     else if n = 95 then Some 63
     else None)"

fun b64_sextets :: "nat list \<Rightarrow> nat list" where
  "b64_sextets [] = []"
| "b64_sextets [a] = [a div 4, (a mod 4) * 16]"
| "b64_sextets [a, b] = [a div 4, (a mod 4) * 16 + b div 16, (b mod 16) * 4]"
| "b64_sextets (a # b # c # r) =
     [a div 4, (a mod 4) * 16 + b div 16, (b mod 16) * 4 + c div 64, c mod 64] @ b64_sextets r"

definition b64 :: "string \<Rightarrow> string" where
  "b64 bs = map sextet_char (b64_sextets (map of_char bs))"

text \<open>
  The decoder of the standard library is lenient: it skips characters outside the alphabet and
  drops the spare bits of the last group.  \<open>None\<close> is \<open>binascii.Error\<close>: a group of one character,
  or padding that does not complete the last group.
\<close>

fun sextets_bytes :: "nat list \<Rightarrow> nat list" where
  "sextets_bytes (p # q # r # s # rest) =
     [p * 4 + q div 16, (q mod 16) * 16 + r div 4, (r mod 4) * 64 + s] @ sextets_bytes rest"
| "sextets_bytes [p, q, r] = [p * 4 + q div 16, (q mod 16) * 16 + r div 4]"
| "sextets_bytes [p, q] = [p * 4 + q div 16]"
| "sextets_bytes _ = []"

definition a2b :: "string \<Rightarrow> nat \<Rightarrow> string option" where
  "a2b raw pads =
     (let ss = List.map_filter char_sextet raw; q = length ss mod 4 in
      if q = 0 \<or> (2 \<le> q \<and> 4 \<le> q + pads) then Some (map char_of (sextets_bytes ss)) else None)"

definition is_ascii :: "char \<Rightarrow> bool" where
  "is_ascii c \<longleftrightarrow> (of_char c :: nat) < 128"

definition unb64 :: "string \<Rightarrow> sec_error + string" where
  "unb64 v =
     (if v = [] \<or> length v mod 4 = 1 then Inl MalformedApprovalToken
      else if \<not> list_all is_ascii v then Inl MalformedApprovalToken
      else if set v \<inter> {CHR ''+'', CHR ''/'', CHR ''=''} \<noteq> {} then Inl MalformedApprovalToken
      else (case a2b v ((4 - length v mod 4) mod 4) of
              None \<Rightarrow> Inl MalformedApprovalToken
            | Some decoded \<Rightarrow> if b64 decoded \<noteq> v then Inl MalformedApprovalToken else Inr decoded))"

lemma char_sextet_char: "n < 64 \<Longrightarrow> char_sextet (sextet_char n) = Some n"
proof -
  have m: "map char_sextet b64_alphabet = map Some [0..<64]"
    by (simp add: b64_alphabet_def char_sextet_def Let_def upt_conv_Cons)
  have l: "length b64_alphabet = 64" by (simp add: b64_alphabet_def)
  assume "n < 64"
  then have "char_sextet (b64_alphabet ! n) = map char_sextet b64_alphabet ! n" using l by simp
  then show "char_sextet (sextet_char n) = Some n" using \<open>n < 64\<close> m by (simp add: sextet_char_def)
qed

lemma sextet_char_clean:
  "n < 64 \<Longrightarrow> is_ascii (sextet_char n) \<and> sextet_char n \<notin> {CHR ''+'', CHR ''/'', CHR ''=''}"
proof -
  have all: "\<forall>c \<in> set b64_alphabet. is_ascii c \<and> c \<notin> {CHR ''+'', CHR ''/'', CHR ''=''}"
    by (simp add: b64_alphabet_def is_ascii_def)
  have len: "length b64_alphabet = 64" by (simp add: b64_alphabet_def)
  assume "n < 64"
  then have "sextet_char n \<in> set b64_alphabet" using len by (simp add: sextet_char_def)
  with all show "is_ascii (sextet_char n) \<and> sextet_char n \<notin> {CHR ''+'', CHR ''/'', CHR ''=''}" by blast
qed

lemma sextets_small: "\<forall>b \<in> set bs. b < 256 \<Longrightarrow> \<forall>n \<in> set (b64_sextets bs). n < 64"
proof (induction bs rule: b64_sextets.induct)
  case (4 a b c r)
  have "a div 4 < 64" "b div 16 < 16" "c div 64 < 4" using "4.prems" by auto
  moreover have "a mod 4 \<le> 3" "b mod 16 \<le> 15" by simp_all
  ultimately show ?case using 4 by auto
next
  case (3 a b)
  have "a div 4 < 64" "b div 16 < 16" using 3 by auto
  moreover have "a mod 4 \<le> 3" "b mod 16 \<le> 15" by simp_all
  ultimately show ?case by auto
next
  case (2 a)
  moreover have "a mod 4 \<le> 3" by simp
  ultimately show ?case by auto
qed simp

lemma sextets_bytes_sextets: "\<forall>b \<in> set bs. b < 256 \<Longrightarrow> sextets_bytes (b64_sextets bs) = bs"
proof (induction bs rule: b64_sextets.induct)
  case (4 a b c r)
  have "b < 256" "c < 256" using "4.prems" by auto
  then have "b div 16 < 16" "c div 64 < 4" by auto
  moreover have "(a mod 4 * 16 + b div 16) div 16 = a mod 4" "(a mod 4 * 16 + b div 16) mod 16 = b div 16"
    "(b mod 16 * 4 + c div 64) div 4 = b mod 16" "(b mod 16 * 4 + c div 64) mod 4 = c div 64"
    using calculation by (simp_all add: div_mult_self3)
  ultimately show ?case using 4 by simp
next
  case (3 a b)
  then have "b div 16 < 16" by auto
  moreover have "(a mod 4 * 16 + b div 16) div 16 = a mod 4" "(a mod 4 * 16 + b div 16) mod 16 = b div 16"
    using calculation by (simp_all add: div_mult_self3)
  ultimately show ?case by simp
qed simp_all

lemma length_sextets: "length (b64_sextets bs) mod 4 = (if length bs mod 3 = 0 then 0 else Suc (length bs mod 3))"
proof (induction bs rule: b64_sextets.induct)
  case (4 a b c r)
  have m: "Suc (Suc (Suc n)) mod 3 = n mod 3" "Suc (Suc (Suc (Suc n))) mod 4 = n mod 4" for n :: nat
    by presburger+
  have "length (a # b # c # r) mod 3 = length r mod 3" by (simp add: m)
  moreover have "length (b64_sextets (a # b # c # r)) mod 4 = length (b64_sextets r) mod 4"
    by (simp add: m)
  ultimately show ?case using "4.IH" by (simp only:)
qed simp_all

lemma map_filter_sextets:
  "\<forall>n \<in> set ns. n < 64 \<Longrightarrow> List.map_filter char_sextet (map sextet_char ns) = ns"
  by (induction ns) (auto simp: char_sextet_char List.map_filter_simps)

lemma b64_eq_Nil: "b64 bs = [] \<longleftrightarrow> bs = []"
  unfolding b64_def by (cases "map of_char bs :: nat list" rule: b64_sextets.cases) auto

lemma unb64_b64:
  assumes "bs \<noteq> []"
  shows "unb64 (b64 bs) = Inr bs"
proof -
  define ns where "ns = b64_sextets (map of_char bs)"
  have small: "\<forall>n \<in> set ns. n < 64" unfolding ns_def by (rule sextets_small) simp
  have q: "length ns mod 4 = (if length bs mod 3 = 0 then 0 else Suc (length bs mod 3))"
    by (simp add: ns_def length_sextets)
  have m3: "length bs mod 3 < 3" by simp
  have dec: "a2b (b64 bs) ((4 - length (b64 bs) mod 4) mod 4) = Some bs"
    using q m3 sextets_bytes_sextets[of "map of_char bs"]
    by (auto simp: a2b_def b64_def ns_def[symmetric] map_filter_sextets[OF small] Let_def comp_def)
  have len: "length (b64 bs) mod 4 \<noteq> 1" using q by (simp add: b64_def ns_def[symmetric])
  have "list_all is_ascii (b64 bs) \<and> set (b64 bs) \<inter> {CHR ''+'', CHR ''/'', CHR ''=''} = {}"
    using small sextet_char_clean by (fastforce simp: b64_def ns_def[symmetric] list_all_iff)
  with dec len assms show ?thesis by (simp add: unb64_def b64_eq_Nil)
qed

lemma unb64_canonical: "unb64 v = Inr bs \<Longrightarrow> b64 bs = v \<and> bs \<noteq> []"
  by (auto simp: unb64_def b64_eq_Nil split: if_splits option.splits)

text \<open>
  The token segments have one encoding each: \<open>_unb64\<close> accepts a string exactly when it is the
  canonical encoding of the (non-empty) bytes it returns.  So encoding then decoding gives the
  bytes back, and no two different strings are accepted for the same bytes.
\<close>

theorem base64_roundtrip_canonical:
  "unb64 v = Inr bs \<longleftrightarrow> bs \<noteq> [] \<and> v = b64 bs"
  using unb64_canonical unb64_b64 by blast

section \<open>The JWS environment\<close>

text \<open>
  What is not under \<open>src/\<close>: \<open>json_loads\<close> parses a JSON text (its Boolean says whether an object
  repeated a key), \<open>json_dumps\<close> prints with sorted keys and no white space, \<open>ecdsa_ok\<close> is the
  signature check of the elliptic-curve library.
\<close>

record ('priv, 'key) jws_env =
  json_loads :: "string \<Rightarrow> (pyval \<times> bool) option"
  json_dumps :: "pyval \<Rightarrow> string"
  ecdsa_sign :: "'priv \<Rightarrow> string \<Rightarrow> nat \<times> nat"
  ecdsa_ok :: "'key \<Rightarrow> nat \<Rightarrow> nat \<Rightarrow> string \<Rightarrow> bool"
  is_p256 :: "'key \<Rightarrow> bool"

type_synonym json_object = "(string \<times> pyval) list"

definition json_object_of :: "('priv, 'key) jws_env \<Rightarrow> string \<Rightarrow> sec_error + json_object" where
  "json_object_of env v =
     (case json_loads env v of
        Some (VDict kvs, dup) \<Rightarrow>
          if dup \<or> json_dumps env (VDict kvs) \<noteq> v then Inl MalformedApprovalToken else Inr kvs
      | _ \<Rightarrow> Inl MalformedApprovalToken)"

text \<open>\<open>StaticApprovalKeyResolver.resolve\<close>.\<close>

definition static_resolve ::
  "('priv, 'key) jws_env \<Rightarrow> (string \<times> string \<rightharpoonup> 'key) \<Rightarrow> (string \<times> string) set \<Rightarrow> string \<Rightarrow> string \<Rightarrow> sec_error + 'key" where
  "static_resolve env keys revoked iss kid =
     (case keys (iss, kid) of
        None \<Rightarrow> Inl UnknownApprovalKey
      | Some k \<Rightarrow>
          if (iss, kid) \<in> revoked then Inl UnknownApprovalKey
          else if \<not> is_p256 env k then Inl UnknownApprovalKey else Inr k)"

text \<open>\<open>int.to_bytes(32, "big")\<close> and \<open>int.from_bytes(_, "big")\<close>.\<close>

fun to_bytes :: "nat \<Rightarrow> nat \<Rightarrow> string" where
  "to_bytes 0 n = []"
| "to_bytes (Suc k) n = to_bytes k (n div 256) @ [char_of (n mod 256)]"

definition from_bytes :: "string \<Rightarrow> nat" where
  "from_bytes bs = foldl (\<lambda>n b. n * 256 + of_char b) 0 bs"

lemma length_to_bytes [simp]: "length (to_bytes k n) = k"
  by (induction k arbitrary: n) auto

lemma from_to_bytes: "n < 256 ^ k \<Longrightarrow> from_bytes (to_bytes k n) = n"
proof (induction k arbitrary: n)
  case (Suc k)
  then have "n div 256 < 256 ^ k" by (simp add: less_mult_imp_div_less mult.commute)
  from Suc.IH[OF this] show ?case by (simp add: from_bytes_def)
qed (simp add: from_bytes_def)

text \<open>\<open>ES256Signer.sign\<close>; the key pair is the signer's \<open>private_key\<close>.\<close>

definition jws_header :: "string \<Rightarrow> json_object" where
  "jws_header kid = [(''alg'', VStr ''ES256''), (''kid'', VStr kid), (''typ'', VStr ''conducto.approval+jwt;v1'')]"

definition sign :: "('priv, 'key) jws_env \<Rightarrow> string \<Rightarrow> 'priv \<Rightarrow> json_object \<Rightarrow> string" where
  "sign env kid priv cl =
     (let protected = b64 (json_dumps env (VDict (jws_header kid)));
          payload = b64 (json_dumps env (VDict cl));
          (r, s) = ecdsa_sign env priv (protected @ ''.'' @ payload) in
      protected @ ''.'' @ payload @ ''.'' @ b64 (to_bytes 32 r @ to_bytes 32 s))"

section \<open>The verifier\<close>

record 'key es256_verifier =
  vf_resolve :: "string \<Rightarrow> string \<Rightarrow> sec_error + 'key"
  vf_issuer :: string
  vf_audience :: string
  vf_max_lifetime :: int
  vf_skew :: int

definition mk_es256_verifier ::
  "(string \<Rightarrow> string \<Rightarrow> sec_error + 'key) \<Rightarrow> string \<Rightarrow> string \<Rightarrow> int \<Rightarrow> int \<Rightarrow> py_error + 'key es256_verifier" where
  "mk_es256_verifier res iss aud life skew =
     (if life \<le> 0 \<or> life > 900 then Inl ValueError
      else if skew < 0 \<or> skew > 30 then Inl ValueError
      else Inr \<lparr>vf_resolve = res, vf_issuer = iss, vf_audience = aud, vf_max_lifetime = life, vf_skew = skew\<rparr>)"

text \<open>\<open>int()\<close> of a float truncates towards zero.\<close>

definition py_int :: "rat \<Rightarrow> int" where
  "py_int q = (if q \<ge> 0 then \<lfloor>q\<rfloor> else \<lceil>q\<rceil>)"

definition claim_keys :: "string set" where
  "claim_keys = {''iss'', ''aud'', ''sub'', ''iat'', ''nbf'', ''exp'', ''jti'', ''challenge_id'',
     ''task_id'', ''agent_id'', ''capability_id'', ''decision'', ''required_role'',
     ''policy_version'', ''ver''}"

definition string_claims :: "string list" where
  "string_claims = [''iss'', ''aud'', ''sub'', ''jti'', ''challenge_id'', ''task_id'', ''agent_id'',
     ''capability_id'', ''required_role'']"

fun nonempty_str :: "pyval option \<Rightarrow> bool" where
  "nonempty_str (Some (VStr s)) = (s \<noteq> [])"
| "nonempty_str _ = False"

fun int_claim :: "pyval option \<Rightarrow> int option" where
  "int_claim (Some (VInt i)) = Some i"
| "int_claim _ = None"

definition validate_claims :: "'key es256_verifier \<Rightarrow> json_object \<Rightarrow> (clock, sec_error, unit) prog" where
  "validate_claims vf cl clk =
     (if set (map fst cl) \<noteq> claim_keys \<or> dget cl ''ver'' \<noteq> Some (VStr ''1'')
      then (Inl UnsupportedApprovalToken, clk)
      else if dget cl ''aud'' \<noteq> Some (VStr (vf_audience vf))
           \<or> \<not> (\<forall>k \<in> set string_claims. nonempty_str (dget cl k))
      then (Inl ApprovalTokenBinding, clk)
      else if \<not> nonempty_str (dget cl ''policy_version'') then (Inl ApprovalTokenBinding, clk)
      else if dget cl ''decision'' \<noteq> Some (VStr ''approve'') \<and> dget cl ''decision'' \<noteq> Some (VStr ''deny'')
      then (Inl ApprovalTokenBinding, clk)
      else case (int_claim (dget cl ''iat''), int_claim (dget cl ''nbf''), int_claim (dget cl ''exp'')) of
        (Some iat, Some nbf, Some xp) \<Rightarrow>
          (let (t, clk') = tick clk; now = py_int t in
           if nbf > now + vf_skew vf then (Inl PrematureApprovalToken, clk')
           else if xp < now - vf_skew vf then (Inl ApprovalTokenExpired, clk')
           else if xp \<le> iat \<or> xp - iat > vf_max_lifetime vf then (Inl ApprovalTokenExpired, clk')
           else if nbf > xp then (Inl MalformedApprovalToken, clk')
           else (Inr (), clk'))
      | _ \<Rightarrow> (Inl MalformedApprovalToken, clk))"

text \<open>Splitting at every dot.\<close>

fun split_dots :: "string \<Rightarrow> string list" where
  "split_dots [] = [[]]"
| "split_dots (c # cs) =
     (if c = CHR ''.'' then [] # split_dots cs
      else (case split_dots cs of [] \<Rightarrow> [[c]] | p # ps \<Rightarrow> (c # p) # ps))"

definition verify_token :: "('priv, 'key) jws_env \<Rightarrow> 'key es256_verifier \<Rightarrow> string \<Rightarrow> (clock, sec_error, json_object) prog" where
  "verify_token env vf token clk =
     (if length token > 16384 then (Inl MalformedApprovalToken, clk)
      else case split_dots token of
        [p0, p1, p2] \<Rightarrow>
          (case unb64 p0 of Inl e \<Rightarrow> (Inl e, clk) | Inr header_bytes \<Rightarrow>
          (case unb64 p1 of Inl e \<Rightarrow> (Inl e, clk) | Inr payload_bytes \<Rightarrow>
          (case unb64 p2 of Inl e \<Rightarrow> (Inl e, clk) | Inr sig \<Rightarrow>
          (case json_object_of env header_bytes of Inl e \<Rightarrow> (Inl e, clk) | Inr header \<Rightarrow>
             if set (map fst header) \<noteq> {''alg'', ''kid'', ''typ''} then (Inl MalformedApprovalToken, clk)
             else if dget header ''alg'' \<noteq> Some (VStr ''ES256'')
                  \<or> dget header ''typ'' \<noteq> Some (VStr ''conducto.approval+jwt;v1'')
             then (Inl UnsupportedApprovalToken, clk)
             else case dget header ''kid'' of
               Some (VStr kid) \<Rightarrow>
                 if kid = [] then (Inl MalformedApprovalToken, clk)
                 else if length sig \<noteq> 64 then (Inl MalformedApprovalToken, clk)
                 else (case json_object_of env payload_bytes of Inl e \<Rightarrow> (Inl e, clk) | Inr cl \<Rightarrow>
                   if dget cl ''iss'' \<noteq> Some (VStr (vf_issuer vf)) then (Inl ApprovalTokenBinding, clk)
                   else (case vf_resolve vf (vf_issuer vf) kid of Inl e \<Rightarrow> (Inl e, clk) | Inr key \<Rightarrow>
                     if \<not> ecdsa_ok env key (from_bytes (take 32 sig)) (from_bytes (drop 32 sig))
                            (p0 @ ''.'' @ p1)
                     then (Inl InvalidApprovalSignature, clk)
                     else (case validate_claims vf cl clk of
                             (Inl e, clk') \<Rightarrow> (Inl e, clk') | (Inr _, clk') \<Rightarrow> (Inr cl, clk'))))
             | _ \<Rightarrow> (Inl MalformedApprovalToken, clk)))))
      | _ \<Rightarrow> (Inl MalformedApprovalToken, clk))"

text \<open>\<open>verify\<close>, with the list of outcomes reported to the audit hook when there is one.\<close>

record verifier_state =
  vs_clock :: clock
  vs_hook :: "(bool \<times> string) list option"

definition hook_record :: "bool \<Rightarrow> string \<Rightarrow> verifier_state \<Rightarrow> verifier_state" where
  "hook_record ok code v = v\<lparr>vs_hook := map_option (\<lambda>h. h @ [(ok, code)]) (vs_hook v)\<rparr>"

definition verify :: "('priv, 'key) jws_env \<Rightarrow> 'key es256_verifier \<Rightarrow> string \<Rightarrow> (verifier_state, sec_error, json_object) prog" where
  "verify env vf token v =
     (case verify_token env vf token (vs_clock v) of
        (Inl e, clk) \<Rightarrow>
          (Inl e, if is_token_error e then hook_record False (reason_code e) (v\<lparr>vs_clock := clk\<rparr>)
                  else v\<lparr>vs_clock := clk\<rparr>)
      | (Inr cl, clk) \<Rightarrow> (Inr cl, hook_record True ''signature_verified'' (v\<lparr>vs_clock := clk\<rparr>)))"

section \<open>What a verified token guarantees\<close>

definition claims_valid :: "'key es256_verifier \<Rightarrow> int \<Rightarrow> json_object \<Rightarrow> bool" where
  "claims_valid vf now cl \<longleftrightarrow>
     set (map fst cl) = claim_keys
   \<and> dget cl ''ver'' = Some (VStr ''1'')
   \<and> dget cl ''iss'' = Some (VStr (vf_issuer vf)) \<and> dget cl ''aud'' = Some (VStr (vf_audience vf))
   \<and> (\<forall>k \<in> set string_claims. nonempty_str (dget cl k)) \<and> nonempty_str (dget cl ''policy_version'')
   \<and> dget cl ''decision'' \<in> {Some (VStr ''approve''), Some (VStr ''deny'')}
   \<and> (\<exists>iat nbf xp. dget cl ''iat'' = Some (VInt iat) \<and> dget cl ''nbf'' = Some (VInt nbf)
        \<and> dget cl ''exp'' = Some (VInt xp)
        \<and> nbf \<le> now + vf_skew vf \<and> now - vf_skew vf \<le> xp \<and> nbf \<le> xp
        \<and> iat < xp \<and> xp \<le> iat + vf_max_lifetime vf)"

lemma int_claim_Some: "int_claim x = Some i \<longleftrightarrow> x = Some (VInt i)"
  by (cases x rule: int_claim.cases) auto

lemma validate_claims_ok:
  assumes "dget cl ''iss'' = Some (VStr (vf_issuer vf))"
  shows "(\<exists>clk'. validate_claims vf cl clk = (Inr (), clk'))
     \<longleftrightarrow> claims_valid vf (py_int (readings clk (reads clk))) cl"
proof (cases "\<exists>iat nbf xp. dget cl ''iat'' = Some (VInt iat) \<and> dget cl ''nbf'' = Some (VInt nbf)
    \<and> dget cl ''exp'' = Some (VInt xp)")
  case True
  then obtain iat nbf xp where "dget cl ''iat'' = Some (VInt iat)" "dget cl ''nbf'' = Some (VInt nbf)"
    "dget cl ''exp'' = Some (VInt xp)" by blast
  with assms show ?thesis
    by (auto simp: validate_claims_def claims_valid_def tick_def Let_def)
next
  case False
  then have "\<not> claims_valid vf (py_int (readings clk (reads clk))) cl"
    by (auto simp: claims_valid_def)
  with False show ?thesis
    by (auto simp: validate_claims_def tick_def Let_def int_claim_Some split: if_splits option.splits)
qed

fun join_dots :: "string list \<Rightarrow> string" where
  "join_dots [] = []"
| "join_dots [p] = p"
| "join_dots (p # q # ps) = p @ ''.'' @ join_dots (q # ps)"

lemma join_split_dots: "split_dots v \<noteq> [] \<and> join_dots (split_dots v) = v"
proof (induction v)
  case (Cons c cs)
  then obtain p ps where p: "split_dots cs = p # ps" by (cases "split_dots cs") auto
  with Cons show ?case by (cases ps) auto
qed simp

lemma verify_token_ok:
  assumes "verify_token env vf token clk = (Inr cl, clk')"
  shows "claims_valid vf (py_int (readings clk (reads clk))) cl
    \<and> (\<exists>header payload sig kid key.
         token = b64 header @ ''.'' @ b64 payload @ ''.'' @ b64 sig
       \<and> json_object_of env payload = Inr cl
       \<and> vf_resolve vf (vf_issuer vf) kid = Inr key \<and> length sig = 64
       \<and> ecdsa_ok env key (from_bytes (take 32 sig)) (from_bytes (drop 32 sig))
           (b64 header @ ''.'' @ b64 payload))"
proof -
  from assms obtain p0 p1 p2 where sp: "split_dots token = [p0, p1, p2]"
    by (auto simp: verify_token_def split: if_splits list.splits)
  note v = assms[unfolded verify_token_def sp, simplified]
  from v obtain h pl sg header kid key where
    dec: "unb64 p0 = Inr h" "unb64 p1 = Inr pl" "unb64 p2 = Inr sg" "length sg = 64"
    and hd: "json_object_of env h = Inr header"
    and pay: "json_object_of env pl = Inr cl" "dget cl ''iss'' = Some (VStr (vf_issuer vf))"
    and key: "vf_resolve vf (vf_issuer vf) kid = Inr key"
    and sig: "ecdsa_ok env key (from_bytes (take 32 sg)) (from_bytes (drop 32 sg)) (p0 @ ''.'' @ p1)"
    and val: "validate_claims vf cl clk = (Inr (), clk')"
    by (auto split: if_splits sum.splits option.splits pyval.splits prod.splits)
  have tok: "token = p0 @ ''.'' @ p1 @ ''.'' @ p2"
    using join_split_dots[of token] sp by simp
  have enc: "p0 = b64 h" "p1 = b64 pl" "p2 = b64 sg" using dec unb64_canonical by blast+
  show ?thesis
    using validate_claims_ok[OF pay(2), of clk] val tok pay(1) key sig dec(4) unfolding enc by blast
qed

lemma verify_accepts:
  "verify env vf token v = (Inr cl, v') \<Longrightarrow>
   verify_token env vf token (vs_clock v) = (Inr cl, snd (verify_token env vf token (vs_clock v)))"
  by (auto simp: verify_def split: prod.splits sum.splits if_splits)

lemma verified_claims_valid:
  "verify env vf token v = (Inr cl, v') \<Longrightarrow>
   claims_valid vf (py_int (readings (vs_clock v) (reads (vs_clock v)))) cl"
  using verify_token_ok[OF verify_accepts] by blast

text \<open>
  C17. What verification guarantees.  If the verifier accepts a token at clock reading \<open>now\<close>, then
  the token is the canonical encoding of three segments, its signature by a key the resolver
  trusts for the configured issuer covers the first two, and its claims have exactly the expected
  names, the configured issuer and audience, non-empty bindings, a decision that is approve or
  deny, a validity window that contains \<open>now\<close> up to the skew and a lifetime within the bound.
\<close>

theorem verified_token_guarantees:
  assumes "verify env vf token v = (Inr cl, v')"
  shows "claims_valid vf (py_int (readings (vs_clock v) (reads (vs_clock v)))) cl
    \<and> (\<exists>header payload sig kid key.
         token = b64 header @ ''.'' @ b64 payload @ ''.'' @ b64 sig
       \<and> json_object_of env payload = Inr cl
       \<and> vf_resolve vf (vf_issuer vf) kid = Inr key \<and> length sig = 64
       \<and> ecdsa_ok env key (from_bytes (take 32 sig)) (from_bytes (drop 32 sig))
           (b64 header @ ''.'' @ b64 payload))"
  by (rule verify_token_ok[OF verify_accepts[OF assms]])

text \<open>The outcome of every verification reaches the hook, with the stable reason code of its error.\<close>

lemma verify_hook:
  assumes "verify env vf token v = (r, v')" "vs_hook v = Some h"
  shows "vs_hook v' = Some (case r of
      Inl e \<Rightarrow> if is_token_error e then h @ [(False, reason_code e)] else h
    | Inr _ \<Rightarrow> h @ [(True, ''signature_verified'')])"
  using assms by (auto simp: verify_def hook_record_def split: prod.splits sum.splits if_splits)

section \<open>Signing and verifying\<close>

lemma split_dots_append: "CHR ''.'' \<notin> set p \<Longrightarrow> split_dots (p @ CHR ''.'' # q) = p # split_dots q"
  by (induction p) auto

lemma split_dots_single: "CHR ''.'' \<notin> set p \<Longrightarrow> split_dots p = [p]"
  by (induction p) auto

lemma b64_no_dot: "CHR ''.'' \<notin> set (b64 bs)"
proof -
  have "\<forall>n \<in> set (b64_sextets (map of_char bs)). n < 64" by (rule sextets_small) simp
  moreover have "char_sextet CHR ''.'' = None" by (simp add: char_sextet_def Let_def)
  ultimately show ?thesis using char_sextet_char by (force simp: b64_def)
qed

text \<open>
  What is relied on of the JSON library and of the curve library: the documents print to non-empty
  text that parses back to them, and a signature made with the private key verifies.
\<close>

definition json_roundtrips :: "('priv, 'key) jws_env \<Rightarrow> json_object \<Rightarrow> bool" where
  "json_roundtrips env d \<longleftrightarrow> json_dumps env (VDict d) \<noteq> []
     \<and> json_loads env (json_dumps env (VDict d)) = Some (VDict d, False)"

definition key_pair :: "('priv, 'key) jws_env \<Rightarrow> 'priv \<Rightarrow> 'key \<Rightarrow> bool" where
  "key_pair env priv key \<longleftrightarrow> (\<forall>msg. case ecdsa_sign env priv msg of (r, s) \<Rightarrow>
     r < 256 ^ 32 \<and> s < 256 ^ 32 \<and> ecdsa_ok env key r s msg)"

lemma sign_verifies:
  assumes "key_pair env priv key" and "vf_resolve vf (vf_issuer vf) kid = Inr key" and "kid \<noteq> []"
    and "json_roundtrips env (jws_header kid)" and "json_roundtrips env cl"
    and "length (sign env kid priv cl) \<le> 16384"
    and "claims_valid vf (py_int (readings (vs_clock v) (reads (vs_clock v)))) cl"
  shows "fst (verify env vf (sign env kid priv cl) v) = Inr cl"
proof -
  let ?h = "json_dumps env (VDict (jws_header kid))"
  let ?p = "json_dumps env (VDict cl)"
  obtain r s where rs: "ecdsa_sign env priv (b64 ?h @ ''.'' @ b64 ?p) = (r, s)" by fastforce
  let ?sig = "to_bytes 32 r @ to_bytes 32 s"
  have small: "r < 256 ^ 32" "s < 256 ^ 32" and ok: "ecdsa_ok env key r s (b64 ?h @ ''.'' @ b64 ?p)"
    using assms(1) rs unfolding key_pair_def by (auto split: prod.splits)
  have tok: "sign env kid priv cl = b64 ?h @ CHR ''.'' # b64 ?p @ CHR ''.'' # b64 ?sig"
    using rs by (simp add: sign_def Let_def)
  have sp: "split_dots (sign env kid priv cl) = [b64 ?h, b64 ?p, b64 ?sig]"
    unfolding tok by (simp add: split_dots_append split_dots_single b64_no_dot)
  have "?sig \<noteq> []" by (metis append_is_Nil_conv length_to_bytes list.size(3) zero_neq_numeral)
  then have dec: "unb64 (b64 ?h) = Inr ?h" "unb64 (b64 ?p) = Inr ?p" "unb64 (b64 ?sig) = Inr ?sig"
    using assms(4,5) unb64_b64 by (auto simp: json_roundtrips_def)
  have js: "json_object_of env ?h = Inr (jws_header kid)" "json_object_of env ?p = Inr cl"
    using assms(4,5) by (simp_all add: json_object_of_def json_roundtrips_def)
  have iss: "dget cl ''iss'' = Some (VStr (vf_issuer vf))" using assms(7) by (simp add: claims_valid_def)
  obtain clk' where val: "validate_claims vf cl (vs_clock v) = (Inr (), clk')"
    using validate_claims_ok[OF iss] assms(7) by blast
  have sg: "from_bytes (to_bytes 32 r) = r" "from_bytes (to_bytes 32 s) = s"
    using small by (simp_all add: from_to_bytes del: to_bytes.simps)
  have hd: "fst ` set (jws_header kid) = {''alg'', ''kid'', ''typ''}"
    "dget (jws_header kid) ''alg'' = Some (VStr ''ES256'')" "dget (jws_header kid) ''kid'' = Some (VStr kid)"
    "dget (jws_header kid) ''typ'' = Some (VStr ''conducto.approval+jwt;v1'')"
    by (auto simp: jws_header_def)
  have "verify_token env vf (sign env kid priv cl) (vs_clock v) = (Inr cl, clk')"
    unfolding verify_token_def
    using ok assms(6) by (simp add: sp dec js sg iss val assms(2,3) hd del: to_bytes.simps)
  then show ?thesis by (simp add: verify_def)
qed

text \<open>
  C32. Signing then verifying gives the claims back.  A token the reference signer makes for valid
  claims, with a key whose public half the verifier's resolver returns, is accepted by the
  verifier, which returns exactly these claims.
\<close>

theorem sign_then_verify:
  assumes "key_pair env priv key" and "vf_resolve vf (vf_issuer vf) kid = Inr key" and "kid \<noteq> []"
    and "json_roundtrips env (jws_header kid)" and "json_roundtrips env cl"
    and "length (sign env kid priv cl) \<le> 16384"
    and "claims_valid vf (py_int (readings (vs_clock v) (reads (vs_clock v)))) cl"
  shows "fst (verify env vf (sign env kid priv cl) v) = Inr cl"
  using assms by (rule sign_verifies)

text \<open>A toy environment: two documents, a signature scheme that signs everything with (1, 1).\<close>

definition sample_claims :: json_object where
  "sample_claims = [(''agent_id'', VStr ''agent''), (''aud'', VStr ''conducto''),
     (''capability_id'', VStr ''cap''), (''challenge_id'', VStr ''a1''), (''decision'', VStr ''approve''),
     (''exp'', VInt 400), (''iat'', VInt 1), (''iss'', VStr ''issuer''), (''jti'', VStr ''j1''),
     (''nbf'', VInt 1), (''policy_version'', VStr ''1''), (''required_role'', VStr ''ops''),
     (''sub'', VStr ''boss''), (''task_id'', VStr ''t''), (''ver'', VStr ''1'')]"

definition sample_env :: "json_object \<Rightarrow> (unit, unit) jws_env" where
  "sample_env cl = \<lparr>json_loads = (\<lambda>v. if v = ''p'' then Some (VDict cl, False)
                                else Some (VDict (jws_header ''k1''), False)),
     json_dumps = (\<lambda>v. if v = VDict cl then ''p'' else ''h''),
     ecdsa_sign = (\<lambda>_ _. (1, 1)), ecdsa_ok = (\<lambda>_ r s _. r = 1 \<and> s = 1), is_p256 = (\<lambda>_. True)\<rparr>"

definition sample_verifier :: "unit es256_verifier" where
  "sample_verifier = \<lparr>vf_resolve = (\<lambda>_ _. Inr ()), vf_issuer = ''issuer'', vf_audience = ''conducto'',
     vf_max_lifetime = 900, vf_skew = 30\<rparr>"

definition sample_verifier_state :: verifier_state where
  "sample_verifier_state = \<lparr>vs_clock = \<lparr>readings = (\<lambda>_. 10), reads = 0\<rparr>, vs_hook = None\<rparr>"

definition sample_token :: string where
  "sample_token = sign (sample_env sample_claims) ''k1'' () sample_claims"

lemma sample_claims_header: "sample_claims \<noteq> jws_header kid"
  by (simp add: sample_claims_def jws_header_def)

lemma length_b64: "length (b64 bs) = length (b64_sextets (map of_char bs))"
  by (simp add: b64_def)

lemma length_b64_bound: "length (b64 bs) \<le> 2 * length bs + 2"
proof -
  have "length (b64_sextets ns) \<le> 2 * length ns + 2" for ns
    by (induction ns rule: b64_sextets.induct) auto
  from this[of "map of_char bs"] show ?thesis by (simp add: length_b64)
qed

lemma sample_token_length: "length sample_token \<le> 16384"
  using length_b64_bound[of "''h''"] length_b64_bound[of "''p''"]
    length_b64_bound[of "to_bytes 32 1 @ to_bytes 32 1"] sample_claims_header[of "''k1''"]
  by (auto simp: sample_token_def sign_def sample_env_def Let_def simp del: to_bytes.simps)

lemma sample_claim_get:
  "dget sample_claims ''iat'' = Some (VInt 1)" "dget sample_claims ''nbf'' = Some (VInt 1)"
  "dget sample_claims ''exp'' = Some (VInt 400)" "dget sample_claims ''ver'' = Some (VStr ''1'')"
  "dget sample_claims ''iss'' = Some (VStr ''issuer'')" "dget sample_claims ''aud'' = Some (VStr ''conducto'')"
  "dget sample_claims ''decision'' = Some (VStr ''approve'')"
  "dget sample_claims ''policy_version'' = Some (VStr ''1'')"
  by (simp_all add: sample_claims_def)

lemma sample_claims_valid: "claims_valid sample_verifier 10 sample_claims"
  unfolding claims_valid_def
proof (intro conjI)
  show "set (map fst sample_claims) = claim_keys" by (auto simp: sample_claims_def claim_keys_def)
  show "\<forall>k \<in> set string_claims. nonempty_str (dget sample_claims k)"
    by (simp add: sample_claims_def string_claims_def)
qed (simp_all add: sample_claim_get sample_verifier_def)

lemma sample_hypotheses:
  "key_pair (sample_env sample_claims) () ()" "vf_resolve sample_verifier (vf_issuer sample_verifier) ''k1'' = Inr ()"
  "json_roundtrips (sample_env sample_claims) (jws_header ''k1'')"
  "json_roundtrips (sample_env sample_claims) sample_claims"
  "length (sign (sample_env sample_claims) ''k1'' () sample_claims) \<le> 16384"
  "claims_valid sample_verifier (py_int (readings (vs_clock sample_verifier_state)
      (reads (vs_clock sample_verifier_state)))) sample_claims"
  using sample_claims_header[of "''k1''"] sample_token_length sample_claims_valid
  by (simp_all add: key_pair_def sample_env_def sample_verifier_def json_roundtrips_def
      sample_token_def sample_verifier_state_def py_int_def)

theorem sign_then_verify_witness:
  "fst (verify (sample_env sample_claims) sample_verifier sample_token sample_verifier_state) = Inr sample_claims"
  unfolding sample_token_def by (rule sign_then_verify[OF sample_hypotheses(1,2) _ sample_hypotheses(3-6)]) simp

theorem verified_token_guarantees_witness:
  "claims_valid sample_verifier 10 sample_claims
   \<and> (\<exists>header payload sig. sample_token = b64 header @ ''.'' @ b64 payload @ ''.'' @ b64 sig \<and> length sig = 64)"
proof -
  have "fst (verify (sample_env sample_claims) sample_verifier sample_token sample_verifier_state) = Inr sample_claims"
    unfolding sample_token_def by (rule sign_verifies[OF sample_hypotheses(1,2) _ sample_hypotheses(3-6)]) simp
  then have "verify (sample_env sample_claims) sample_verifier sample_token sample_verifier_state
    = (Inr sample_claims, snd (verify (sample_env sample_claims) sample_verifier sample_token sample_verifier_state))"
    by (metis prod.collapse)
  from verified_token_guarantees[OF this] sample_claims_valid show ?thesis by blast
qed

end
