(* ===== verification/Approval.thy ===== *)
theory Approval
  imports SecurityContext
begin

text \<open>
  \<open>security/approval.py\<close>: approval challenges and decisions, and the in-memory approval store.

  The store's three dictionaries and its clock are the record \<open>approval_store\<close>; each method is a
  state-and-exception program over it that runs under the store's lock, hence atomically.  The
  \<open>ApprovalStore\<close> protocol is the record of operations \<open>approval_ops\<close>, with the laws its clients
  rely on in the locale \<open>approval_protocol\<close>, which the in-memory store satisfies.
\<close>

datatype approval_state = REQUIRED | APPROVED | DENIED | EXPIRED | CANCELED | COMPLETED

record approval_challenge =
  ch_approval_id :: string
  ch_agent_id :: string
  ch_capability_id :: string
  ch_task_id :: string
  ch_correlation_id :: string
  ch_reason_code :: string
  ch_required_role :: string
  ch_created_at :: time
  ch_expires_at :: time
  ch_required_roles :: "string list"
  ch_principal_subject_id :: string
  ch_policy_version :: string

record approval_decision =
  dec_approval_id :: string
  dec_approved :: bool
  dec_decided_at :: time
  dec_decided_by :: string
  dec_reason_code :: string
  dec_role :: "string option"

record approval_store =
  items :: "string \<rightharpoonup> approval_challenge"
  states :: "string \<rightharpoonup> approval_state"
  approved_roles :: "string \<rightharpoonup> string set"
  as_clock :: clock

type_synonym 'a store_op = "(approval_store, sec_error, 'a) prog"

text \<open>The roles a challenge needs: \<open>challenge.required_roles or (challenge.required_role,)\<close>.\<close>

definition needed_roles :: "approval_challenge \<Rightarrow> string list" where
  "needed_roles c = (if ch_required_roles c = [] then [ch_required_role c] else ch_required_roles c)"

definition init_store :: "clock \<Rightarrow> approval_store" where
  "init_store clk = \<lparr>items = Map.empty, states = Map.empty, approved_roles = Map.empty, as_clock = clk\<rparr>"

definition store_now :: "time store_op" where
  "store_now s = (let (t, c) = tick (as_clock s) in (Inr t, s\<lparr>as_clock := c\<rparr>))"

definition set_state :: "string \<Rightarrow> approval_state \<Rightarrow> unit store_op" where
  "set_state i st = modifyS (\<lambda>s. s\<lparr>states := (states s)(i \<mapsto> st)\<rparr>)"

definition approval_lookup :: "string \<Rightarrow> approval_challenge store_op" where
  "approval_lookup i s = (case items s i of None \<Rightarrow> (Inl InvalidApprovalState, s) | Some c \<Rightarrow> (Inr c, s))"

text \<open>The expiry test that \<open>get\<close>, \<open>decide\<close> and \<open>cancel\<close> share: the clock is read only while pending.\<close>

definition expire_pending :: "string \<Rightarrow> approval_challenge \<Rightarrow> unit store_op" where
  "expire_pending i c s =
     (if states s i = Some REQUIRED
      then bindS store_now (\<lambda>now.
             if now \<ge> ch_expires_at c then thenS (set_state i EXPIRED) (raiseS ApprovalExpired)
             else retS ()) s
      else (Inr (), s))"

definition approval_create :: "approval_challenge \<Rightarrow> approval_challenge store_op" where
  "approval_create c s =
     (if items s (ch_approval_id c) \<noteq> None then (Inl InvalidApprovalState, s)
      else (Inr c, s\<lparr>items := (items s)(ch_approval_id c \<mapsto> c),
                     states := (states s)(ch_approval_id c \<mapsto> REQUIRED),
                     approved_roles := (approved_roles s)(ch_approval_id c \<mapsto> {})\<rparr>))"

definition approval_get :: "string \<Rightarrow> approval_challenge store_op" where
  "approval_get i = bindS (approval_lookup i) (\<lambda>c. thenS (expire_pending i c) (retS c))"

text \<open>The role a granting decision stands for: its own, or the only role the challenge needs.\<close>

definition decision_role :: "approval_challenge \<Rightarrow> approval_decision \<Rightarrow> string option" where
  "decision_role c d =
     (case dec_role d of
        Some r \<Rightarrow> if r \<noteq> [] then Some r
                  else if length (needed_roles c) = 1 then Some (hd (needed_roles c)) else None
      | None \<Rightarrow> if length (needed_roles c) = 1 then Some (hd (needed_roles c)) else None)"

definition grant_role :: "approval_challenge \<Rightarrow> approval_decision \<Rightarrow> unit store_op" where
  "grant_role c d s =
     (let i = dec_approval_id d in
      case decision_role c d of
        None \<Rightarrow> (Inl InvalidApprovalState, s)
      | Some role \<Rightarrow>
          if role \<notin> set (needed_roles c) then (Inl InvalidApprovalState, s)
          else
            let granted = insert role (case approved_roles s i of None \<Rightarrow> {} | Some rs \<Rightarrow> rs);
                s' = s\<lparr>approved_roles := (approved_roles s)(i \<mapsto> granted)\<rparr> in
            if set (needed_roles c) \<subseteq> granted then set_state i APPROVED s' else (Inr (), s'))"

definition approval_decide :: "approval_decision \<Rightarrow> approval_challenge store_op" where
  "approval_decide d =
     bindS (approval_lookup (dec_approval_id d)) (\<lambda>c.
     thenS (expire_pending (dec_approval_id d) c) (
     bindS (getS (\<lambda>s. states s (dec_approval_id d))) (\<lambda>st.
     thenS (guardS (st = Some REQUIRED) InvalidApprovalState) (
     thenS (if \<not> dec_approved d then set_state (dec_approval_id d) DENIED else grant_role c d)
       (retS c)))))"

definition approval_cancel :: "string \<Rightarrow> approval_challenge store_op" where
  "approval_cancel i =
     bindS (approval_lookup i) (\<lambda>c.
     thenS (expire_pending i c) (
     bindS (getS (\<lambda>s. states s i)) (\<lambda>st.
     thenS (guardS (st = Some REQUIRED) InvalidApprovalState) (
     thenS (set_state i CANCELED) (retS c)))))"

definition approval_state_of :: "string \<Rightarrow> approval_state store_op" where
  "approval_state_of i s =
     (case items s i of None \<Rightarrow> (Inl InvalidApprovalState, s)
      | Some _ \<Rightarrow> (case states s i of None \<Rightarrow> (Inl InvalidApprovalState, s) | Some st \<Rightarrow> (Inr st, s)))"

definition approval_complete :: "string \<Rightarrow> approval_challenge store_op" where
  "approval_complete i =
     bindS (approval_lookup i) (\<lambda>c.
     bindS (getS (\<lambda>s. states s i)) (\<lambda>st.
     thenS (guardS (st = Some APPROVED) InvalidApprovalState) (
     thenS (set_state i COMPLETED) (retS c))))"

text \<open>\<open>default_challenge\<close>, with the fresh identifier and the clock reading as arguments.\<close>

definition default_challenge ::
  "authorization_context \<Rightarrow> string \<Rightarrow> string \<Rightarrow> string \<Rightarrow> string \<Rightarrow> rat \<Rightarrow> string \<Rightarrow> time
   \<Rightarrow> string list \<Rightarrow> string option \<Rightarrow> approval_challenge" where
  "default_challenge ctx agent cap role reason ttl identifier now rls subject =
     \<lparr>ch_approval_id = identifier, ch_agent_id = agent, ch_capability_id = cap,
      ch_task_id = ac_task_id ctx, ch_correlation_id = ac_correlation_id ctx,
      ch_reason_code = reason, ch_required_role = role, ch_created_at = now,
      ch_expires_at = now + ttl, ch_required_roles = rls,
      ch_principal_subject_id =
        (case subject of Some s \<Rightarrow> if s = [] then subject_id (ac_principal ctx) else s
         | None \<Rightarrow> subject_id (ac_principal ctx)),
      ch_policy_version = ''1''\<rparr>"

section \<open>The lifecycle of one approval\<close>

text \<open>The transitions of the lifecycle: the pending state is left once, the approved one once more.\<close>

inductive approval_step :: "approval_state \<Rightarrow> approval_state \<Rightarrow> bool" where
  "approval_step REQUIRED APPROVED"
| "approval_step REQUIRED DENIED"
| "approval_step REQUIRED EXPIRED"
| "approval_step REQUIRED CANCELED"
| "approval_step APPROVED COMPLETED"

inductive_cases approval_step_requiredE: "approval_step REQUIRED st"
inductive_cases approval_step_approvedE: "approval_step APPROVED st"
inductive_simps approval_step_terminal [simp]:
  "approval_step DENIED st" "approval_step EXPIRED st"
  "approval_step CANCELED st" "approval_step COMPLETED st"

definition state_le :: "approval_state \<Rightarrow> approval_state \<Rightarrow> bool" where
  "state_le = approval_step\<^sup>*\<^sup>*"

lemma state_le_refl [simp]: "state_le a a"
  by (simp add: state_le_def)

lemma state_le_step: "approval_step a b \<Longrightarrow> state_le a b"
  by (simp add: state_le_def)

lemma state_le_trans: "state_le a b \<Longrightarrow> state_le b c \<Longrightarrow> state_le a c"
  by (simp add: state_le_def)

lemma state_le_steps [simp]:
  "state_le REQUIRED APPROVED" "state_le REQUIRED DENIED" "state_le REQUIRED EXPIRED"
  "state_le REQUIRED CANCELED" "state_le APPROVED COMPLETED"
  by (auto intro: state_le_step approval_step.intros)

lemma state_le_terminal:
  assumes "state_le a b" and "a \<in> {DENIED, EXPIRED, CANCELED, COMPLETED}"
  shows "b = a"
  using assms unfolding state_le_def by (induction rule: converse_rtranclp_induct) auto

text \<open>How a store may evolve: challenges never change, states follow the lifecycle, roles grow.\<close>

definition store_le :: "approval_store \<Rightarrow> approval_store \<Rightarrow> bool" where
  "store_le s t \<longleftrightarrow>
     (\<forall>i c. items s i = Some c \<longrightarrow> items t i = Some c)
   \<and> (\<forall>i a. states s i = Some a \<longrightarrow> (\<exists>b. states t i = Some b \<and> state_le a b))
   \<and> (\<forall>i rs. approved_roles s i = Some rs \<longrightarrow> (\<exists>rs'. approved_roles t i = Some rs' \<and> rs \<subseteq> rs'))"

lemma store_le_refl [simp]: "store_le s s"
  unfolding store_le_def by (blast intro: state_le_refl)

lemma store_le_trans: "store_le s t \<Longrightarrow> store_le t u \<Longrightarrow> store_le s u"
  unfolding store_le_def by (meson state_le_trans subset_trans)

lemma store_le_clock [simp]: "store_le s (t\<lparr>as_clock := c\<rparr>) = store_le s t"
  by (simp add: store_le_def)

text \<open>
  The store's invariant: the three dictionaries have the same keys, a challenge is filed under its
  own identifier, an approved or completed challenge has every role it needs, and only needed
  roles are ever recorded.
\<close>

fun entry_wf :: "string \<Rightarrow> approval_challenge option \<Rightarrow> approval_state option \<Rightarrow> string set option \<Rightarrow> bool" where
  "entry_wf i None st rs = (st = None \<and> rs = None)"
| "entry_wf i (Some c) (Some st) (Some rs) =
     (ch_approval_id c = i \<and> rs \<subseteq> set (needed_roles c)
      \<and> (st \<in> {APPROVED, COMPLETED} \<longrightarrow> set (needed_roles c) \<subseteq> rs))"
| "entry_wf i (Some c) _ _ = False"

definition store_wf :: "approval_store \<Rightarrow> bool" where
  "store_wf s \<longleftrightarrow> (\<forall>i. entry_wf i (items s i) (states s i) (approved_roles s i))"

lemma store_wf_init: "store_wf (init_store clk)"
  by (simp add: store_wf_def init_store_def)

lemma store_wfD: "store_wf s \<Longrightarrow> entry_wf i (items s i) (states s i) (approved_roles s i)"
  by (simp add: store_wf_def)

lemma store_wf_entry:
  assumes "store_wf s" "items s i = Some c"
  obtains st rs where "states s i = Some st" "approved_roles s i = Some rs"
    "ch_approval_id c = i" "rs \<subseteq> set (needed_roles c)"
    "st \<in> {APPROVED, COMPLETED} \<longrightarrow> set (needed_roles c) \<subseteq> rs"
  using store_wfD[OF assms(1), of i] assms(2)
  by (cases "states s i"; cases "approved_roles s i") auto

lemma store_wf_update:
  "store_wf s \<Longrightarrow> entry_wf i x y z \<Longrightarrow>
   store_wf (s\<lparr>items := (items s)(i := x), states := (states s)(i := y),
     approved_roles := (approved_roles s)(i := z)\<rparr>)"
  by (simp add: store_wf_def)

lemmas store_op_defs = approval_create_def approval_get_def approval_decide_def approval_cancel_def
  approval_state_of_def approval_complete_def approval_lookup_def expire_pending_def grant_role_def
  set_state_def store_now_def tick_def prog_defs

text \<open>The operations one by one, on every branch.\<close>

lemma approval_create_run:
  assumes "approval_create c s = (r, s')" "store_wf s"
  shows "store_wf s' \<and> store_le s s'"
proof (cases "items s (ch_approval_id c)")
  case None
  with store_wfD[OF assms(2), of "ch_approval_id c"]
  have "states s (ch_approval_id c) = None" "approved_roles s (ch_approval_id c) = None" by simp_all
  with None assms show ?thesis
    by (auto simp: approval_create_def store_le_def intro!: store_wf_update)
next
  case Some
  then show ?thesis using assms by (auto simp: approval_create_def)
qed

lemma set_state_wf:
  assumes "store_wf s" "items s i = Some c" "states s i = Some a" "approval_step a b"
    "b \<noteq> APPROVED"
  shows "store_wf (s\<lparr>states := (states s)(i \<mapsto> b)\<rparr>)
    \<and> store_le s (s\<lparr>states := (states s)(i \<mapsto> b)\<rparr>)"
proof
  obtain rs where rs: "approved_roles s i = Some rs" "ch_approval_id c = i" "rs \<subseteq> set (needed_roles c)"
    "a \<in> {APPROVED, COMPLETED} \<longrightarrow> set (needed_roles c) \<subseteq> rs"
    using store_wf_entry[OF assms(1,2)] assms(3) by (metis option.inject)
  have "b = COMPLETED \<Longrightarrow> a = APPROVED" using assms(4) by (auto elim: approval_step.cases)
  with rs assms(5) have e: "entry_wf i (Some c) (Some b) (Some rs)" by auto
  show "store_wf (s\<lparr>states := (states s)(i \<mapsto> b)\<rparr>)"
    using store_wfD[OF assms(1)] e assms(2) rs(1) by (simp add: store_wf_def)
  show "store_le s (s\<lparr>states := (states s)(i \<mapsto> b)\<rparr>)"
    using assms(3,4) by (auto simp: store_le_def intro: state_le_step)
qed

lemma expire_pending_run:
  assumes "expire_pending i c s = (r, s')" "store_wf s" "items s i = Some c"
  shows "store_wf s' \<and> store_le s s' \<and> items s' = items s
    \<and> (r = Inr () \<longrightarrow> states s' = states s \<and> approved_roles s' = approved_roles s)"
proof -
  let ?t = "s\<lparr>as_clock := snd (tick (as_clock s))\<rparr>"
  have wf: "store_wf ?t" using assms(2) by (simp add: store_wf_def)
  show ?thesis
  proof (cases "states s i = Some REQUIRED")
    case True
    then have "store_wf (?t\<lparr>states := (states ?t)(i \<mapsto> EXPIRED)\<rparr>)
      \<and> store_le ?t (?t\<lparr>states := (states ?t)(i \<mapsto> EXPIRED)\<rparr>)"
      using assms(3) by (intro set_state_wf[OF wf]) (auto intro: approval_step.intros)
    moreover from this have "store_le s (?t\<lparr>states := (states ?t)(i \<mapsto> EXPIRED)\<rparr>)"
      by (auto intro: store_le_trans [where t = ?t])
    ultimately show ?thesis using assms(1) wf True
      by (auto simp: expire_pending_def store_now_def tick_def set_state_def prog_defs
          split: if_splits)
  next
    case False
    then show ?thesis using assms by (auto simp: expire_pending_def)
  qed
qed

lemma approval_get_run:
  assumes "approval_get i s = (r, s')" "store_wf s"
  shows "store_wf s' \<and> store_le s s'"
proof (cases "items s i")
  case None
  then show ?thesis using assms by (auto simp: approval_get_def approval_lookup_def prog_defs)
next
  case (Some c)
  obtain r1 s1 where e: "expire_pending i c s = (r1, s1)" by fastforce
  from expire_pending_run[OF e assms(2) Some] have "store_wf s1 \<and> store_le s s1" by simp
  then show ?thesis using assms(1) e Some
    by (auto simp: approval_get_def approval_lookup_def prog_defs split: sum.splits)
qed

lemma grant_role_run:
  assumes "grant_role c d s = (r, s')" "store_wf s" "items s (dec_approval_id d) = Some c"
    "states s (dec_approval_id d) = Some REQUIRED"
  shows "store_wf s' \<and> store_le s s'"
proof (cases "\<exists>role. decision_role c d = Some role \<and> role \<in> set (needed_roles c)")
  case False
  then show ?thesis using assms
    by (auto simp: grant_role_def Let_def split: option.splits if_splits)
next
  case True
  then obtain role where role: "decision_role c d = Some role" "role \<in> set (needed_roles c)" by blast
  obtain rs where rs: "approved_roles s (dec_approval_id d) = Some rs"
    and sub: "rs \<subseteq> set (needed_roles c)" and cid: "ch_approval_id c = dec_approval_id d"
    using assms(2,3) by (auto elim: store_wf_entry)
  define i where "i = dec_approval_id d"
  define g where "g = insert role rs"
  have s': "s' = s\<lparr>approved_roles := (approved_roles s)(i \<mapsto> g)\<rparr> \<and> \<not> set (needed_roles c) \<subseteq> g
    \<or> s' = s\<lparr>approved_roles := (approved_roles s)(i \<mapsto> g), states := (states s)(i \<mapsto> APPROVED)\<rparr>
      \<and> set (needed_roles c) \<subseteq> g"
    using assms(1) role rs
    by (auto simp: grant_role_def Let_def set_state_def prog_defs i_def g_def split: if_splits)
  have gsub: "g \<subseteq> set (needed_roles c)" using sub role(2) by (auto simp: g_def)
  have le: "store_le s s'"
    using s' rs assms(4) by (auto simp: store_le_def i_def g_def)
  have "\<And>j. j \<noteq> i \<Longrightarrow> entry_wf j (items s j) (states s j) (approved_roles s j)"
    "entry_wf i (items s i) (Some REQUIRED) (Some g)"
    "set (needed_roles c) \<subseteq> g \<Longrightarrow> entry_wf i (items s i) (Some APPROVED) (Some g)"
    using store_wfD[OF assms(2)] assms(3) gsub cid by (auto simp: i_def)
  then have "store_wf s'"
    using s' assms(4)
    by (auto simp: store_wf_def i_def[symmetric] split: if_splits)
  with le show ?thesis by simp
qed

lemma approval_decide_run:
  assumes "approval_decide d s = (r, s')" "store_wf s"
  shows "store_wf s' \<and> store_le s s'"
proof (cases "items s (dec_approval_id d)")
  case None
  then show ?thesis using assms by (auto simp: approval_decide_def approval_lookup_def prog_defs)
next
  case (Some c)
  let ?i = "dec_approval_id d"
  obtain r1 s1 where e: "expire_pending ?i c s = (r1, s1)" by fastforce
  from expire_pending_run[OF e assms(2) Some]
  have s1: "store_wf s1" "store_le s s1" "items s1 ?i = Some c" using Some by auto
  show ?thesis
  proof (cases "r1 = Inr () \<and> states s1 ?i = Some REQUIRED")
    case False
    then show ?thesis using assms(1) e Some s1
      by (auto simp: approval_decide_def approval_lookup_def prog_defs split: sum.splits if_splits)
  next
    case True
    obtain r2 s2 where m: "(if \<not> dec_approved d then set_state ?i DENIED else grant_role c d) s1 = (r2, s2)"
      by fastforce
    have "store_wf s2 \<and> store_le s1 s2"
    proof (cases "dec_approved d")
      case True
      with m \<open>r1 = Inr () \<and> states s1 ?i = Some REQUIRED\<close> show ?thesis
        using grant_role_run[OF _ s1(1,3)] by simp
    next
      case False
      with m have "s2 = s1\<lparr>states := (states s1)(?i \<mapsto> DENIED)\<rparr>" by (simp add: set_state_def prog_defs)
      then show ?thesis using set_state_wf[OF s1(1,3)] True by (auto intro: approval_step.intros)
    qed
    moreover have "s' = s2" using assms(1) e Some True m
      by (auto simp: approval_decide_def approval_lookup_def prog_defs split: sum.splits)
    ultimately show ?thesis using s1(2) store_le_trans by blast
  qed
qed

lemma approval_cancel_run:
  assumes "approval_cancel i s = (r, s')" "store_wf s"
  shows "store_wf s' \<and> store_le s s'"
proof (cases "items s i")
  case None
  then show ?thesis using assms by (auto simp: approval_cancel_def approval_lookup_def prog_defs)
next
  case (Some c)
  obtain r1 s1 where e: "expire_pending i c s = (r1, s1)" by fastforce
  from expire_pending_run[OF e assms(2) Some]
  have s1: "store_wf s1" "store_le s s1" "items s1 i = Some c" using Some by auto
  have "s' = s1 \<or> states s1 i = Some REQUIRED \<and> s' = s1\<lparr>states := (states s1)(i \<mapsto> CANCELED)\<rparr>"
    using assms(1) e Some
    by (auto simp: approval_cancel_def approval_lookup_def set_state_def prog_defs
        split: sum.splits if_splits)
  then show ?thesis
    using s1 set_state_wf[OF s1(1,3) _ approval_step.intros(4)] store_le_trans by auto
qed

lemma approval_complete_run:
  assumes "approval_complete i s = (r, s')" "store_wf s"
  shows "store_wf s' \<and> store_le s s'"
proof (cases "items s i = None \<or> states s i \<noteq> Some APPROVED")
  case True
  then show ?thesis using assms
    by (auto simp: approval_complete_def approval_lookup_def prog_defs split: option.splits)
next
  case False
  then obtain c where c: "items s i = Some c" by auto
  have "s' = s\<lparr>states := (states s)(i \<mapsto> COMPLETED)\<rparr>" using assms(1) c False
    by (auto simp: approval_complete_def approval_lookup_def set_state_def prog_defs)
  then show ?thesis using set_state_wf[OF assms(2) c] False by (auto intro: approval_step.intros)
qed

lemma approval_state_of_run: "approval_state_of i s = (r, s') \<Longrightarrow> s' = s"
  by (auto simp: approval_state_of_def split: option.splits)

section \<open>The store protocol\<close>

text \<open>
  \<open>ApprovalStore\<close> is a protocol: an application may bring its own store.  The clients (the token
  service and the guardrail pipeline) are modelled over this record of operations.
\<close>

record 's approval_ops =
  op_create :: "approval_challenge \<Rightarrow> ('s, sec_error, approval_challenge) prog"
  op_get :: "string \<Rightarrow> ('s, sec_error, approval_challenge) prog"
  op_decide :: "approval_decision \<Rightarrow> ('s, sec_error, approval_challenge) prog"
  op_cancel :: "string \<Rightarrow> ('s, sec_error, approval_challenge) prog"
  op_complete :: "string \<Rightarrow> ('s, sec_error, approval_challenge) prog"
  op_state :: "string \<Rightarrow> ('s, sec_error, approval_state) prog"

definition in_memory_ops :: "approval_store approval_ops" where
  "in_memory_ops = \<lparr>op_create = approval_create, op_get = approval_get, op_decide = approval_decide,
     op_cancel = approval_cancel, op_complete = approval_complete, op_state = approval_state_of\<rparr>"

datatype approval_op =
    OpCreate approval_challenge
  | OpGet string
  | OpDecide approval_decision
  | OpCancel string
  | OpComplete string

fun apply_op :: "'s approval_ops \<Rightarrow> approval_op \<Rightarrow> ('s, sec_error, approval_challenge) prog" where
  "apply_op ops (OpCreate c) = op_create ops c"
| "apply_op ops (OpGet i) = op_get ops i"
| "apply_op ops (OpDecide d) = op_decide ops d"
| "apply_op ops (OpCancel i) = op_cancel ops i"
| "apply_op ops (OpComplete i) = op_complete ops i"

type_synonym approval_event = "approval_op \<times> (sec_error + approval_challenge)"

fun run_ops :: "'s approval_ops \<Rightarrow> approval_op list \<Rightarrow> 's \<Rightarrow> approval_event list \<times> 's" where
  "run_ops ops [] s = ([], s)"
| "run_ops ops (op # rest) s =
     (let (r, s') = apply_op ops op s; (es, t) = run_ops ops rest s' in ((op, r) # es, t))"

lemma run_ops_Cons [simp]:
  "run_ops ops (op # rest) s =
     ((op, fst (apply_op ops op s)) # fst (run_ops ops rest (snd (apply_op ops op s))),
      snd (run_ops ops rest (snd (apply_op ops op s))))"
  by (simp add: Let_def case_prod_unfold)

declare run_ops.simps(2) [simp del]

definition completions :: "string \<Rightarrow> approval_event list \<Rightarrow> nat" where
  "completions i es = length (filter (\<lambda>(op, r). op = OpComplete i \<and> \<not> isl r) es)"

locale approval_protocol =
  fixes ops :: "'s approval_ops"
    and wf :: "'s \<Rightarrow> bool"
    and view :: "'s \<Rightarrow> string \<Rightarrow> approval_state option"
  assumes step_wf: "wf s \<Longrightarrow> wf (snd (apply_op ops op s))"
    and step_mono: "wf s \<Longrightarrow> view s i = Some a \<Longrightarrow>
          \<exists>b. view (snd (apply_op ops op s)) i = Some b \<and> state_le a b"
    and complete_approved: "wf s \<Longrightarrow> op_complete ops i s = (Inr c, s') \<Longrightarrow>
          view s i = Some APPROVED \<and> view s' i = Some COMPLETED"
    and state_reads: "wf s \<Longrightarrow> op_state ops i s = (r, s') \<Longrightarrow>
          s' = s \<and> (\<forall>st. r = Inr st \<longrightarrow> view s i = Some st)"
begin

lemma run_wf: "wf s \<Longrightarrow> wf (snd (run_ops ops xs s))"
proof (induction xs arbitrary: s)
  case (Cons op xs)
  then show ?case using step_wf[of s op] by simp
qed simp

lemma run_mono:
  "wf s \<Longrightarrow> view s i = Some a \<Longrightarrow> \<exists>b. view (snd (run_ops ops xs s)) i = Some b \<and> state_le a b"
proof (induction xs arbitrary: s a)
  case (Cons op xs)
  obtain b where b: "view (snd (apply_op ops op s)) i = Some b" "state_le a b"
    using step_mono[OF Cons.prems] by blast
  from Cons.IH[OF step_wf[OF Cons.prems(1)] b(1)] b(2) show ?case
    by (auto intro: state_le_trans)
qed simp

lemma terminal_stays:
  assumes "wf s" "view s i = Some a" "a \<in> {DENIED, EXPIRED, CANCELED, COMPLETED}"
  shows "view (snd (run_ops ops xs s)) i = Some a"
  using run_mono[OF assms(1,2)] state_le_terminal[OF _ assms(3)] by blast

lemma terminal_no_completion:
  assumes "wf s" "view s i = Some a" "a \<in> {DENIED, EXPIRED, CANCELED, COMPLETED}"
  shows "completions i (fst (run_ops ops xs s)) = 0"
  using assms(1,2)
proof (induction xs arbitrary: s)
  case Nil
  then show ?case by (simp add: completions_def)
next
  case (Cons op xs)
  obtain r s' where st: "apply_op ops op s = (r, s')" by fastforce
  have v: "view s' i = Some a" "wf s'"
    using terminal_stays[OF Cons.prems assms(3), of "[op]"] step_wf[OF Cons.prems(1), of op] st
    by simp_all
  have "\<not> (op = OpComplete i \<and> \<not> isl r)"
    using complete_approved[OF Cons.prems(1), of i] st Cons.prems(2) assms(3) by (cases r) auto
  with Cons.IH[OF v(2,1)] st show ?case by (auto simp: completions_def)
qed

lemma complete_at_most_once: "wf s \<Longrightarrow> completions i (fst (run_ops ops xs s)) \<le> 1"
proof (induction xs arbitrary: s)
  case Nil
  then show ?case by (simp add: completions_def)
next
  case (Cons op xs)
  obtain r s' where st: "apply_op ops op s = (r, s')" by fastforce
  have wf': "wf s'" using step_wf[OF Cons.prems, of op] st by simp
  show ?case
  proof (cases "op = OpComplete i \<and> \<not> isl r")
    case True
    then have "view s' i = Some COMPLETED"
      using complete_approved[OF Cons.prems, of i] st by (cases r) auto
    from terminal_no_completion[OF wf' this] True st show ?thesis
      by (auto simp: completions_def)
  next
    case False
    with Cons.IH[OF wf'] st show ?thesis
      by (auto simp: completions_def)
  qed
qed

end

lemma in_memory_step:
  "store_wf s \<Longrightarrow> store_wf (snd (apply_op in_memory_ops op s)) \<and> store_le s (snd (apply_op in_memory_ops op s))"
  using approval_create_run[OF prod.collapse[symmetric], where s = s]
    approval_get_run[OF prod.collapse[symmetric], where s = s]
    approval_decide_run[OF prod.collapse[symmetric], where s = s]
    approval_cancel_run[OF prod.collapse[symmetric], where s = s]
    approval_complete_run[OF prod.collapse[symmetric], where s = s]
  by (cases op) (simp_all add: in_memory_ops_def)

lemma approval_complete_ok:
  "approval_complete i s = (Inr c, s') \<Longrightarrow>
   states s i = Some APPROVED \<and> states s' i = Some COMPLETED \<and> items s i = Some c"
  by (auto simp: approval_complete_def approval_lookup_def set_state_def prog_defs
      split: option.splits if_splits)

interpretation mem: approval_protocol in_memory_ops store_wf states
proof unfold_locales
  fix s op assume "store_wf s"
  then show "store_wf (snd (apply_op in_memory_ops op s))" using in_memory_step by blast
next
  fix s i a op assume "store_wf s" "states s i = Some a"
  then show "\<exists>b. states (snd (apply_op in_memory_ops op s)) i = Some b \<and> state_le a b"
    using in_memory_step[of s op] by (auto simp: store_le_def)
next
  fix s i c s' assume "op_complete in_memory_ops i s = (Inr c, s')"
  then show "states s i = Some APPROVED \<and> states s' i = Some COMPLETED"
    using approval_complete_ok by (simp add: in_memory_ops_def)
next
  fix s i r s' assume "op_state in_memory_ops i s = (r, s')"
  then show "s' = s \<and> (\<forall>st. r = Inr st \<longrightarrow> states s i = Some st)"
    by (auto simp: in_memory_ops_def approval_state_of_def split: option.splits)
qed

section \<open>Properties of the in-memory store\<close>

text \<open>
  Exactly-once consumption.  Whatever sequence of operations a store serves from its
  creation on (creations, reads, decisions, cancellations, completions, at any clock readings),
  an approval is successfully completed at most once.
\<close>

theorem approval_consumed_at_most_once:
  "completions i (fst (run_ops in_memory_ops xs (init_store clk))) \<le> 1"
  by (rule mem.complete_at_most_once[OF store_wf_init])

text \<open>The history behind an approval: which granting decisions a run has applied.\<close>

definition granted :: "approval_event list \<Rightarrow> string \<Rightarrow> string \<Rightarrow> bool" where
  "granted es i role \<longleftrightarrow> (\<exists>d c. (OpDecide d, Inr c) \<in> set es \<and> dec_approval_id d = i
     \<and> dec_approved d \<and> decision_role c d = Some role)"

definition roles_granted :: "approval_event list \<Rightarrow> approval_store \<Rightarrow> bool" where
  "roles_granted es s \<longleftrightarrow>
     (\<forall>i rs. approved_roles s i = Some rs \<longrightarrow> (\<forall>role \<in> rs. granted es i role))"

lemma granted_mono: "granted es i role \<Longrightarrow> set es \<subseteq> set es' \<Longrightarrow> granted es' i role"
  by (auto simp: granted_def)

lemma approval_decide_roles:
  assumes "approval_decide d s = (r, s')" "approved_roles s' i = Some rs" "role \<in> rs"
  shows "(\<exists>rs0. approved_roles s i = Some rs0 \<and> role \<in> rs0)
    \<or> (\<exists>c. r = Inr c \<and> dec_approved d \<and> dec_approval_id d = i \<and> decision_role c d = Some role)"
  using assms
  by (auto simp: store_op_defs approval_decide_def Let_def split: option.splits sum.splits if_splits)

lemma other_op_roles:
  "approval_get j s = (r, s') \<Longrightarrow> approved_roles s' = approved_roles s"
  "approval_cancel j s = (r, s') \<Longrightarrow> approved_roles s' = approved_roles s"
  "approval_complete j s = (r, s') \<Longrightarrow> approved_roles s' = approved_roles s"
  "approval_create c s = (r, s') \<Longrightarrow> approved_roles s' i = Some rs \<Longrightarrow> role \<in> rs \<Longrightarrow>
     \<exists>rs0. approved_roles s i = Some rs0 \<and> role \<in> rs0"
  by (auto simp: store_op_defs Let_def split: option.splits sum.splits if_splits)

lemma step_roles_granted:
  assumes "roles_granted es s" "apply_op in_memory_ops op s = (r, s')"
  shows "roles_granted (es @ [(op, r)]) s'"
  unfolding roles_granted_def
proof (intro allI impI ballI)
  fix i rs role assume a: "approved_roles s' i = Some rs" "role \<in> rs"
  show "granted (es @ [(op, r)]) i role"
  proof (cases "\<exists>rs0. approved_roles s i = Some rs0 \<and> role \<in> rs0")
    case True
    then have "granted es i role" using assms(1) by (auto simp: roles_granted_def)
    then show ?thesis by (rule granted_mono) auto
  next
    case False
    have "\<exists>d c. op = OpDecide d \<and> r = Inr c \<and> dec_approved d \<and> dec_approval_id d = i
      \<and> decision_role c d = Some role"
    proof (cases op)
      case (OpDecide d)
      then have "approval_decide d s = (r, s')" using assms(2) by (simp add: in_memory_ops_def)
      from approval_decide_roles[OF this a] False OpDecide show ?thesis by blast
    qed (use assms(2) a False other_op_roles(1-3)[of _ s r s'] other_op_roles(4)[of _ s r s' i rs role]
         in \<open>auto simp: in_memory_ops_def\<close>)
    then show ?thesis by (auto simp: granted_def)
  qed
qed

lemma run_roles_granted:
  "roles_granted es s \<Longrightarrow> run_ops in_memory_ops xs s = (fs, t) \<Longrightarrow> roles_granted (es @ fs) t"
proof (induction xs arbitrary: es s fs t)
  case (Cons op xs)
  obtain r s' where st: "apply_op in_memory_ops op s = (r, s')" by fastforce
  obtain fs' where fs: "fs = (op, r) # fs'" "run_ops in_memory_ops xs s' = (fs', t)"
    using Cons.prems(2) st by (auto simp: prod_eq_iff)
  from Cons.IH[OF step_roles_granted[OF Cons.prems(1) st] fs(2)] fs(1) show ?case by simp
qed simp

text \<open>
  C16. The quorum behind an approval.  If, after any history of operations, the completion of an
  approval succeeds, then every role its challenge needs was granted in that history by a
  successful, approving decision for this approval that stands for this role.
\<close>

theorem completion_needs_every_role:
  assumes "run_ops in_memory_ops xs (init_store clk) = (es, s)"
    and "approval_complete i s = (Inr c, s')"
    and "role \<in> set (needed_roles c)"
  shows "granted es i role"
proof -
  have wf: "store_wf s" using mem.run_wf[OF store_wf_init, of xs clk] assms(1) by simp
  note ok = approval_complete_ok[OF assms(2)]
  then obtain rs where "approved_roles s i = Some rs" "set (needed_roles c) \<subseteq> rs"
    using store_wf_entry[OF wf, of i c] by (metis insertCI option.inject)
  moreover have "roles_granted ([] @ es) s"
    by (rule run_roles_granted[OF _ assms(1)]) (simp add: roles_granted_def init_store_def)
  ultimately show ?thesis using assms(3) by (auto simp: roles_granted_def)
qed

text \<open>A two-role approval, granted by both roles and then completed.\<close>

definition sample_challenge :: "string list \<Rightarrow> approval_challenge" where
  "sample_challenge rls =
     \<lparr>ch_approval_id = ''a1'', ch_agent_id = ''agent'', ch_capability_id = ''cap'', ch_task_id = ''t'',
      ch_correlation_id = ''c'', ch_reason_code = ''approval_required'', ch_required_role = ''ops'',
      ch_created_at = 0, ch_expires_at = 300, ch_required_roles = rls,
      ch_principal_subject_id = ''u'', ch_policy_version = ''1''\<rparr>"

definition sample_decision :: "string option \<Rightarrow> approval_decision" where
  "sample_decision role = \<lparr>dec_approval_id = ''a1'', dec_approved = True, dec_decided_at = 1,
     dec_decided_by = ''boss'', dec_reason_code = [], dec_role = role\<rparr>"

definition sample_clock :: clock where
  "sample_clock = \<lparr>readings = (\<lambda>n. 10), reads = 0\<rparr>"

theorem completion_needs_every_role_witness:
  "\<exists>es s s' c. run_ops in_memory_ops
      [OpCreate (sample_challenge [''legal'', ''ops'']), OpDecide (sample_decision (Some ''ops'')),
       OpDecide (sample_decision (Some ''legal''))] (init_store sample_clock) = (es, s)
    \<and> approval_complete ''a1'' s = (Inr c, s') \<and> granted es ''a1'' ''legal''"
proof -
  let ?xs = "[OpCreate (sample_challenge [''legal'', ''ops'']), OpDecide (sample_decision (Some ''ops'')),
       OpDecide (sample_decision (Some ''legal''))]"
  obtain es s where run: "run_ops in_memory_ops ?xs (init_store sample_clock) = (es, s)" by fastforce
  moreover have "s = snd (run_ops in_memory_ops ?xs (init_store sample_clock))" using run by simp
  then have "\<exists>s'. approval_complete ''a1'' s = (Inr (sample_challenge [''legal'', ''ops'']), s')"
    by (simp add: in_memory_ops_def store_op_defs init_store_def sample_challenge_def
        sample_decision_def sample_clock_def needed_roles_def decision_role_def Let_def)
  then obtain s' where c: "approval_complete ''a1'' s = (Inr (sample_challenge [''legal'', ''ops'']), s')"
    by blast
  moreover have "granted es ''a1'' ''legal''"
    by (rule completion_needs_every_role[OF run c])
       (simp add: needed_roles_def sample_challenge_def)
  ultimately show ?thesis by blast
qed

text \<open>
  Expiry closes the door.  Deciding, canceling or reading a pending approval at a clock
  reading at or after its expiry raises \<open>ApprovalExpired\<close>, records no role and leaves the
  approval expired.
\<close>

theorem expired_approval_refused:
  assumes "items s i = Some c" "states s i = Some REQUIRED"
    and "readings (as_clock s) (reads (as_clock s)) \<ge> ch_expires_at c"
    and "dec_approval_id d = i"
  shows "fst (approval_decide d s) = Inl ApprovalExpired
     \<and> fst (approval_cancel i s) = Inl ApprovalExpired
     \<and> fst (approval_get i s) = Inl ApprovalExpired
     \<and> states (snd (approval_decide d s)) i = Some EXPIRED
     \<and> approved_roles (snd (approval_decide d s)) = approved_roles s"
  using assms by (simp add: store_op_defs)

theorem expired_approval_refused_witness:
  "fst (approval_decide (sample_decision None)
     (snd (approval_create ((sample_challenge [])\<lparr>ch_expires_at := 10\<rparr>) (init_store sample_clock))))
   = Inl ApprovalExpired"
  using expired_approval_refused[of "snd (approval_create ((sample_challenge [])\<lparr>ch_expires_at := 10\<rparr>)
     (init_store sample_clock))" "''a1''" "(sample_challenge [])\<lparr>ch_expires_at := 10\<rparr>" "sample_decision None"]
  by (simp add: approval_create_def init_store_def sample_challenge_def sample_clock_def sample_decision_def)

section \<open>Successful reads and decisions\<close>

lemma approval_get_ok:
  "approval_get i s = (Inr c, s') \<Longrightarrow> items s i = Some c \<and> items s' = items s \<and> states s' = states s"
  by (auto simp: store_op_defs split: option.splits if_splits)

lemma approval_decide_ok:
  "approval_decide d s = (Inr c, s') \<Longrightarrow>
   items s (dec_approval_id d) = Some c \<and> states s (dec_approval_id d) = Some REQUIRED
   \<and> (\<forall>st. states s' (dec_approval_id d) = Some st \<and> st = APPROVED \<longrightarrow> dec_approved d)"
  by (auto simp: store_op_defs Let_def split: option.splits if_splits sum.splits)

end
