(* ===== verification/AuditTrail.thy ===== *)
theory AuditTrail
  imports SecurityContext
begin

text \<open>
  \<open>security/audit.py\<close>: the audit event envelope with its validation, the in-memory sink, and the
  emitter that sequences the events of a task, applies the delivery policy and buffers.

  The sink is a protocol: an operation \<open>sink_emit\<close> over a sink state of any type, whose result is a
  receipt, an explicit failure or a time-out (\<open>asyncio.wait_for\<close> expired).  The laws the emitter's
  clients rely on are the locale \<open>audit_boundary\<close>.
\<close>

section \<open>Events\<close>

datatype audit_event_name =
    AUTHORIZATION_ALLOWED | AUTHORIZATION_DENIED | APPROVAL_REQUESTED | APPROVAL_APPROVED
  | APPROVAL_DENIED | APPROVAL_EXPIRED | APPROVAL_CANCELED | SIGNATURE_VERIFIED
  | SIGNATURE_REJECTED | REPLAY_REJECTED | EXECUTION_ACCEPTED | EXECUTION_STARTED
  | EXECUTION_COMPLETED | EXECUTION_FAILED | DELIVERY_FAILED | TOKEN_EXCHANGE_SUCCEEDED
  | TOKEN_EXCHANGE_FAILED | TOKEN_VALIDATED | TOKEN_VALIDATION_REJECTED | MTLS_AUTHENTICATED
  | MTLS_REJECTED | DELEGATION_ATTENUATED | DELEGATION_REJECTED | REGISTRATION_REQUESTED
  | REGISTRATION_COMPLETED | REGISTRATION_EXPIRED

text \<open>The stable names on the wire.\<close>

fun event_value :: "audit_event_name \<Rightarrow> string" where
  "event_value AUTHORIZATION_ALLOWED = ''security.authorization.allowed''"
| "event_value AUTHORIZATION_DENIED = ''security.authorization.denied''"
| "event_value APPROVAL_REQUESTED = ''security.approval.requested''"
| "event_value APPROVAL_APPROVED = ''security.approval.approved''"
| "event_value APPROVAL_DENIED = ''security.approval.denied''"
| "event_value APPROVAL_EXPIRED = ''security.approval.expired''"
| "event_value APPROVAL_CANCELED = ''security.approval.canceled''"
| "event_value SIGNATURE_VERIFIED = ''security.signature.verified''"
| "event_value SIGNATURE_REJECTED = ''security.signature.rejected''"
| "event_value REPLAY_REJECTED = ''security.replay.rejected''"
| "event_value EXECUTION_ACCEPTED = ''security.execution.accepted''"
| "event_value EXECUTION_STARTED = ''security.execution.started''"
| "event_value EXECUTION_COMPLETED = ''security.execution.completed''"
| "event_value EXECUTION_FAILED = ''security.execution.failed''"
| "event_value DELIVERY_FAILED = ''security.audit_delivery.failed''"
| "event_value TOKEN_EXCHANGE_SUCCEEDED = ''security.token_exchange.succeeded''"
| "event_value TOKEN_EXCHANGE_FAILED = ''security.token_exchange.failed''"
| "event_value TOKEN_VALIDATED = ''security.token.validated''"
| "event_value TOKEN_VALIDATION_REJECTED = ''security.token.rejected''"
| "event_value MTLS_AUTHENTICATED = ''security.mtls.authenticated''"
| "event_value MTLS_REJECTED = ''security.mtls.rejected''"
| "event_value DELEGATION_ATTENUATED = ''security.delegation.attenuated''"
| "event_value DELEGATION_REJECTED = ''security.delegation.rejected''"
| "event_value REGISTRATION_REQUESTED = ''catalog.registration.requested''"
| "event_value REGISTRATION_COMPLETED = ''catalog.registration.completed''"
| "event_value REGISTRATION_EXPIRED = ''catalog.registration.expired''"

datatype audit_decision = ALLOW | DENY | REQUIRE_APPROVAL | NOT_APPLICABLE
datatype audit_outcome = SUCCESS | FAILURE | PENDING | REJECTED
datatype audit_severity = INFO | WARNING | ERROR
datatype audit_category = AUTHORIZATION | APPROVAL | CRYPTOGRAPHY | EXECUTION | DELIVERY | CATALOG
datatype audit_delivery_mode = FAIL_CLOSED | FAIL_OPEN

record audit_event =
  ev_event_name :: audit_event_name
  ev_category :: audit_category
  ev_decision :: audit_decision
  ev_outcome :: audit_outcome
  ev_reason_code :: string
  ev_subject_id :: string
  ev_issuer :: string
  ev_audience :: audience
  ev_task_id :: string
  ev_challenge_id :: string
  ev_agent_id :: string
  ev_capability_id :: string
  ev_policy_id :: string
  ev_policy_version :: string
  ev_correlation_id :: string
  ev_resource :: string
  ev_severity :: audit_severity
  ev_event_id :: string
  ev_occurred_at :: time
  ev_sequence :: nat
  ev_extensions :: "(string \<times> pyval) list"
  ev_instruction_chain :: "string list"

definition audit_forbidden :: "string list" where
  "audit_forbidden = [''token'', ''authorization'', ''credential'', ''password'', ''secret'',
     ''signature'', ''private_key'', ''prompt'', ''argument'', ''args'', ''result'', ''payload'',
     ''traceback'', ''exception'']"

text \<open>Python's \<open>word in text\<close> for strings.\<close>

fun contains :: "string \<Rightarrow> string \<Rightarrow> bool" where
  "contains w [] = (w = [])"
| "contains w (c # cs) = (take (length w) (c # cs) = w \<or> contains w cs)"

definition forbidden_text :: "string \<Rightarrow> bool" where
  "forbidden_text s \<longleftrightarrow> (\<exists>w \<in> set audit_forbidden. contains w (lower s))"

definition safe_extension_value :: "pyval \<Rightarrow> bool" where
  "safe_extension_value v = (case v of
      VStr s \<Rightarrow> length s \<le> 256 \<and> \<not> forbidden_text s
    | VInt _ \<Rightarrow> True | VFloat _ \<Rightarrow> True | VBool _ \<Rightarrow> True | _ \<Rightarrow> False)"

text \<open>\<open>_safe_extensions\<close>: \<open>Inl\<close> is its \<open>ValueError\<close>.\<close>

fun safe_extensions :: "(string \<times> pyval) list \<Rightarrow> py_error + (string \<times> pyval) list" where
  "safe_extensions [] = Inr []"
| "safe_extensions ((k, v) # kvs) =
     (if forbidden_text k then Inl ValueError
      else if \<not> safe_extension_value v then Inl ValueError
      else (case safe_extensions kvs of Inl e \<Rightarrow> Inl e | Inr kvs' \<Rightarrow> Inr ((k, v) # kvs')))"

text \<open>\<open>AuditEvent.__post_init__\<close>; the time zone conversion is the identity on UTC times.\<close>

definition check_event :: "audit_event \<Rightarrow> py_error + audit_event" where
  "check_event ev =
     (if ev_event_id ev = [] \<or> ev_reason_code ev = [] then Inl ValueError
      else (case safe_extensions (ev_extensions ev) of Inl e \<Rightarrow> Inl e
            | Inr ext \<Rightarrow> Inr (ev\<lparr>ev_extensions := ext\<rparr>)))"

definition idempotency_key :: "audit_event \<Rightarrow> string" where
  "idempotency_key ev = ''1'' @ '':'' @ ev_event_id ev"

record delivery_receipt =
  rc_event_id :: string
  rc_idempotency_key :: string
  rc_duplicate :: bool
  rc_buffered :: bool

record delivery_failure =
  df_event_id :: string
  df_reason_code :: string
  df_retryable :: bool

datatype sink_result = Receipt delivery_receipt | Failure delivery_failure | SinkTimeout

type_synonym 'k sink = "audit_event \<Rightarrow> 'k \<Rightarrow> sink_result \<times> 'k"

section \<open>The in-memory sink\<close>

record memory_sink =
  ms_max_events :: nat
  ms_events :: "audit_event list"
  ms_seen :: "string set"
  ms_dropped :: nat

definition memory_sink_emit :: "memory_sink sink" where
  "memory_sink_emit ev k =
     (let key = idempotency_key ev in
      if key \<in> ms_seen k
      then (Receipt \<lparr>rc_event_id = ev_event_id ev, rc_idempotency_key = key,
              rc_duplicate = True, rc_buffered = False\<rparr>, k)
      else if length (ms_events k) \<ge> ms_max_events k
      then (Failure \<lparr>df_event_id = ev_event_id ev, df_reason_code = ''audit_backpressure'',
              df_retryable = True\<rparr>, k\<lparr>ms_dropped := Suc (ms_dropped k)\<rparr>)
      else (Receipt \<lparr>rc_event_id = ev_event_id ev, rc_idempotency_key = key,
              rc_duplicate = False, rc_buffered = False\<rparr>,
            k\<lparr>ms_seen := insert key (ms_seen k), ms_events := ms_events k @ [ev]\<rparr>))"

definition init_memory_sink :: "nat \<Rightarrow> memory_sink" where
  "init_memory_sink n = \<lparr>ms_max_events = n, ms_events = [], ms_seen = {}, ms_dropped = 0\<rparr>"

text \<open>\<open>FailingAuditSink\<close>, the fixture that records every attempt and accepts none.\<close>

definition failing_sink_emit :: "string \<Rightarrow> bool \<Rightarrow> (audit_event list) sink" where
  "failing_sink_emit reason retry ev k =
     (Failure \<lparr>df_event_id = ev_event_id ev, df_reason_code = reason, df_retryable = retry\<rparr>, k @ [ev])"

section \<open>The emitter\<close>

record delivery_policy =
  dp_mode :: audit_delivery_mode
  dp_timeout_seconds :: rat
  dp_max_buffered_events :: int

definition mk_delivery_policy :: "audit_delivery_mode \<Rightarrow> rat \<Rightarrow> int \<Rightarrow> py_error + delivery_policy" where
  "mk_delivery_policy m t n =
     (if t \<le> 0 \<or> n < 0 then Inl ValueError
      else Inr \<lparr>dp_mode = m, dp_timeout_seconds = t, dp_max_buffered_events = n\<rparr>)"

text \<open>\<open>_TaskDeliveryState\<close>; the asyncio lock is implicit in the atomicity of \<open>emit\<close>.\<close>

record task_delivery =
  td_sequence :: nat
  td_active :: nat
  td_terminal :: bool

record 'k emitter =
  em_sink :: 'k
  em_tasks :: "(string, task_delivery) dict"
  em_buffer :: "audit_event list"
  em_dropped :: nat
  em_signals :: "(string \<times> string) list"
  em_log :: "(audit_event \<times> bool) list"

text \<open>
  \<open>em_signals\<close> is what \<open>_emergency_signal\<close> logs.  \<open>em_log\<close> is a history variable the code does not
  have: the sequenced events in the order in which they were offered for delivery, each with whether
  its delivery returned (\<open>False\<close>: it raised).
\<close>

definition init_emitter :: "'k \<Rightarrow> 'k emitter" where
  "init_emitter k = \<lparr>em_sink = k, em_tasks = [], em_buffer = [], em_dropped = 0, em_signals = [], em_log = []\<rparr>"

definition task_key :: "audit_event \<Rightarrow> string" where
  "task_key ev = (if ev_task_id ev \<noteq> [] then ev_task_id ev
     else if ev_correlation_id ev \<noteq> [] then ev_correlation_id ev else ev_event_id ev)"

definition is_terminal :: "audit_event \<Rightarrow> bool" where
  "is_terminal ev \<longleftrightarrow> ev_event_name ev \<in> {AUTHORIZATION_DENIED, APPROVAL_DENIED, APPROVAL_EXPIRED,
     APPROVAL_CANCELED, SIGNATURE_REJECTED, REPLAY_REJECTED, EXECUTION_COMPLETED, EXECUTION_FAILED,
     REGISTRATION_COMPLETED, REGISTRATION_EXPIRED}"

definition emergency_signal :: "delivery_failure \<Rightarrow> 'k emitter \<Rightarrow> 'k emitter" where
  "emergency_signal f em = em\<lparr>em_signals := em_signals em @ [(df_event_id f, df_reason_code f)]\<rparr>"

definition sink_failure :: "audit_event \<Rightarrow> sink_result \<Rightarrow> delivery_failure" where
  "sink_failure ev r = (case r of Failure f \<Rightarrow> f
     | _ \<Rightarrow> \<lparr>df_event_id = ev_event_id ev, df_reason_code = ''audit_sink_timeout'', df_retryable = True\<rparr>)"

definition deliver ::
  "'k sink \<Rightarrow> delivery_policy \<Rightarrow> audit_event \<Rightarrow> bool \<Rightarrow> ('k emitter, sec_error, delivery_receipt option) prog" where
  "deliver sink pol ev required em =
     (let (r, k) = sink ev (em_sink em); em1 = em\<lparr>em_sink := k\<rparr> in
      case r of Receipt rc \<Rightarrow> (Inr (Some rc), em1)
      | _ \<Rightarrow>
        let f = sink_failure ev r; em2 = emergency_signal f em1 in
        if df_retryable f \<and> int (length (em_buffer em2)) < dp_max_buffered_events pol
        then (Inr (Some \<lparr>rc_event_id = ev_event_id ev, rc_idempotency_key = idempotency_key ev,
                        rc_duplicate = False, rc_buffered = True\<rparr>),
              em2\<lparr>em_buffer := em_buffer em2 @ [ev]\<rparr>)
        else
          let em3 = (if df_retryable f then em2\<lparr>em_dropped := Suc (em_dropped em2)\<rparr> else em2) in
          if required then (Inl (AuditDelivery (df_reason_code f)), em3) else (Inr None, em3))"

text \<open>
  \<open>emit\<close> in its three parts: the entry (\<open>setdefault\<close>, \<open>active += 1\<close>), the body under the task's
  lock, and the \<open>finally\<close> clause.  Concurrent calls for one task interleave between the parts.
\<close>

definition task_of :: "string \<Rightarrow> 'k emitter \<Rightarrow> task_delivery" where
  "task_of key em = (case dget (em_tasks em) key of Some t \<Rightarrow> t
     | None \<Rightarrow> \<lparr>td_sequence = 0, td_active = 0, td_terminal = False\<rparr>)"

definition set_task :: "string \<Rightarrow> task_delivery \<Rightarrow> 'k emitter \<Rightarrow> 'k emitter" where
  "set_task key t em = em\<lparr>em_tasks := dset key t (em_tasks em)\<rparr>"

definition emit_enter :: "string \<Rightarrow> 'k emitter \<Rightarrow> 'k emitter" where
  "emit_enter key em = (let t = task_of key em in set_task key (t\<lparr>td_active := Suc (td_active t)\<rparr>) em)"

definition emit_locked ::
  "'k sink \<Rightarrow> delivery_policy \<Rightarrow> audit_event \<Rightarrow> bool \<Rightarrow> ('k emitter, sec_error, delivery_receipt option) prog" where
  "emit_locked sink pol ev required em =
     (let key = task_key ev; t = task_of key em;
          ev' = ev\<lparr>ev_sequence := Suc (td_sequence t)\<rparr>;
          em1 = set_task key (t\<lparr>td_sequence := Suc (td_sequence t)\<rparr>) em;
          (r, em2) = deliver sink pol ev' required em1;
          em3 = em2\<lparr>em_log := em_log em2 @ [(ev', \<not> isl r)]\<rparr> in
      case r of Inl e \<Rightarrow> (Inl e, em3)
      | Inr rc \<Rightarrow>
        (Inr rc, if is_terminal ev' then set_task key ((task_of key em3)\<lparr>td_terminal := True\<rparr>) em3 else em3))"

definition emit_leave :: "string \<Rightarrow> 'k emitter \<Rightarrow> 'k emitter" where
  "emit_leave key em =
     (let t = task_of key em; t' = t\<lparr>td_active := td_active t - 1\<rparr> in
      if td_terminal t' \<and> td_active t' = 0 then em\<lparr>em_tasks := ddel key (em_tasks em)\<rparr>
      else set_task key t' em)"

definition emit ::
  "'k sink \<Rightarrow> delivery_policy \<Rightarrow> audit_event \<Rightarrow> bool \<Rightarrow> ('k emitter, sec_error, delivery_receipt option) prog" where
  "emit sink pol ev required em =
     (let (r, em') = emit_locked sink pol ev required (emit_enter (task_key ev) em) in
      (r, emit_leave (task_key ev) em'))"

text \<open>\<open>flush\<close>: each buffered event is offered once more, and dropped when it fails again.\<close>

fun flush_pending :: "'k sink \<Rightarrow> audit_event list \<Rightarrow> 'k emitter \<Rightarrow> 'k emitter" where
  "flush_pending sink [] em = em"
| "flush_pending sink (ev # evs) em =
     (let (r, k) = sink ev (em_sink em); em1 = em\<lparr>em_sink := k\<rparr> in
      flush_pending sink evs (case r of Receipt _ \<Rightarrow> em1
        | _ \<Rightarrow> emergency_signal (sink_failure ev r) (em1\<lparr>em_dropped := Suc (em_dropped em1)\<rparr>)))"

definition flush :: "'k sink \<Rightarrow> 'k emitter \<Rightarrow> 'k emitter" where
  "flush sink em = flush_pending sink (em_buffer em) (em\<lparr>em_buffer := []\<rparr>)"

section \<open>Lemmas\<close>

lemmas emitter_defs = emergency_signal_def sink_failure_def set_task_def

lemma deliver_frame:
  "deliver sink pol ev required em = (r, em') \<Longrightarrow>
   em_tasks em' = em_tasks em \<and> em_log em' = em_log em"
  by (auto simp: deliver_def emitter_defs Let_def split: prod.splits sink_result.splits if_splits)

lemma deliver_required:
  "deliver sink pol ev True em = (r, em') \<Longrightarrow>
   (\<exists>rc. r = Inr (Some rc) \<and> (rc_buffered rc \<longrightarrow> ev \<in> set (em_buffer em')
        \<or> fst (sink ev (em_sink em)) = Receipt rc))
   \<or> (\<exists>reason. r = Inl (AuditDelivery reason) \<and> (\<forall>rc. fst (sink ev (em_sink em)) \<noteq> Receipt rc))"
  by (auto simp: deliver_def emitter_defs Let_def split: prod.splits sink_result.splits if_splits)

lemma deliver_buffer:
  "deliver sink pol ev required em = (r, em') \<Longrightarrow>
   em_buffer em' = em_buffer em
   \<or> em_buffer em' = em_buffer em @ [ev] \<and> int (length (em_buffer em)) < dp_max_buffered_events pol"
  by (auto simp: deliver_def emitter_defs Let_def split: prod.splits sink_result.splits if_splits)

lemma emit_buffer:
  "emit sink pol ev required em = (r, em') \<Longrightarrow>
   em_buffer em' = em_buffer em
   \<or> (\<exists>ev'. em_buffer em' = em_buffer em @ [ev'])
      \<and> int (length (em_buffer em)) < dp_max_buffered_events pol"
  using deliver_buffer
  by (fastforce simp: emit_def emit_locked_def emit_leave_def emit_enter_def set_task_def Let_def
      split: prod.splits sum.splits if_splits)

lemma emit_result:
  "\<exists>ev' em'. fst (emit sink pol ev required em) = fst (deliver sink pol ev' required em')"
  by (auto simp: emit_def emit_locked_def Let_def split: prod.splits sum.splits) (metis fst_conv)+

lemma emit_required_result:
  "(\<exists>rc. fst (emit sink pol ev True em) = Inr (Some rc))
   \<or> (\<exists>reason. fst (emit sink pol ev True em) = Inl (AuditDelivery reason))"
  using emit_result[of sink pol ev True em] deliver_required[OF prod.collapse[symmetric]] by metis

lemma deliver_optional: "\<exists>rc. fst (deliver sink pol ev False em) = Inr rc"
  by (auto simp: deliver_def Let_def split: prod.splits sink_result.splits)

lemma emit_optional_result: "\<exists>rc. fst (emit sink pol ev False em) = Inr rc"
  using emit_result[of sink pol ev False em] deliver_optional[of sink pol] by metis

section \<open>The delivery boundary\<close>

text \<open>
  What the clients of the emitter rely on: mandatory evidence is accepted or its emission raises
  \<open>AuditDeliveryError\<close>; optional evidence never stops the caller.
\<close>

locale audit_boundary =
  fixes emit_op :: "audit_event \<Rightarrow> bool \<Rightarrow> ('m, sec_error, delivery_receipt option) prog"
  assumes required_fails_closed: "emit_op ev True s = (r, s') \<Longrightarrow>
      (\<exists>rc. r = Inr (Some rc)) \<or> (\<exists>reason. r = Inl (AuditDelivery reason))"
    and optional_never_raises: "emit_op ev False s = (r, s') \<Longrightarrow> \<exists>rc. r = Inr rc"
begin

lemma required_error: "emit_op ev True s = (Inl e, s') \<Longrightarrow> \<exists>reason. e = AuditDelivery reason"
  using required_fails_closed by blast

lemma optional_then: "thenS (emit_op ev False) m s = m (snd (emit_op ev False s))"
  using optional_never_raises[of ev s "fst (emit_op ev False s)" "snd (emit_op ev False s)"]
  by (auto simp: thenS_def bindS_def split: prod.splits)

end

interpretation emitter: audit_boundary "emit sink pol" for sink pol
proof unfold_locales
  fix ev r and s s' :: "'a emitter"
  show "emit sink pol ev True s = (r, s') \<Longrightarrow>
      (\<exists>rc. r = Inr (Some rc)) \<or> (\<exists>reason. r = Inl (AuditDelivery reason))"
    using emit_required_result[of sink pol ev s] by simp
  show "emit sink pol ev False s = (r, s') \<Longrightarrow> \<exists>rc. r = Inr rc"
    using emit_optional_result[of sink pol ev s] by simp
qed

lemma deliver_required_accepted:
  "deliver sink pol ev True em = (r, em') \<Longrightarrow>
   (case r of Inl e \<Rightarrow> (\<exists>reason. e = AuditDelivery reason) \<and> (\<forall>rc. fst (sink ev (em_sink em)) \<noteq> Receipt rc)
    | Inr None \<Rightarrow> False
    | Inr (Some rc) \<Rightarrow> fst (sink ev (em_sink em)) = Receipt rc \<or> ev \<in> set (em_buffer em'))"
  by (auto simp: deliver_def emitter_defs Let_def split: prod.splits sink_result.splits if_splits)

text \<open>
  C19. Mandatory evidence fails closed.  Emitting a required event either returns a receipt, and then
  the sink has accepted the sequenced event or the bounded buffer holds it, or raises
  \<open>AuditDeliveryError\<close>, and then the sink has not accepted it; it never returns without a receipt,
  whatever the sink does and whatever the delivery mode is.
\<close>

theorem required_audit_fails_closed:
  "\<exists>n. let ev' = ev\<lparr>ev_sequence := n\<rparr> in
     case emit sink pol ev True em of
       (Inl e, em') \<Rightarrow> (\<exists>reason. e = AuditDelivery reason) \<and> (\<forall>rc. fst (sink ev' (em_sink em)) \<noteq> Receipt rc)
     | (Inr None, em') \<Rightarrow> False
     | (Inr (Some rc), em') \<Rightarrow> fst (sink ev' (em_sink em)) = Receipt rc \<or> ev' \<in> set (em_buffer em')"
proof -
  define em1 where "em1 = emit_enter (task_key ev) em"
  define n where "n = Suc (td_sequence (task_of (task_key ev) em1))"
  define em2 where "em2 = set_task (task_key ev) ((task_of (task_key ev) em1)\<lparr>td_sequence := n\<rparr>) em1"
  obtain r em3 where d: "deliver sink pol (ev\<lparr>ev_sequence := n\<rparr>) True em2 = (r, em3)" by fastforce
  have k: "em_sink em2 = em_sink em" by (simp add: em2_def em1_def emit_enter_def set_task_def Let_def)
  have leave: "em_buffer (emit_leave key e) = em_buffer e" "em_buffer (set_task key t e) = em_buffer e" for key e t
    by (simp_all add: emit_leave_def set_task_def Let_def)
  have "fst (emit_locked sink pol ev True em1) = r \<and> em_buffer (snd (emit_locked sink pol ev True em1)) = em_buffer em3"
    using d unfolding emit_locked_def Let_def em2_def n_def
    by (auto simp: leave split: sum.splits)
  then have "fst (emit sink pol ev True em) = r \<and> em_buffer (snd (emit sink pol ev True em)) = em_buffer em3"
    by (simp add: emit_def em1_def leave case_prod_unfold)
  with deliver_required_accepted[OF d] k show ?thesis
    by (intro exI[of _ n]) (auto simp: Let_def split: prod.splits sum.splits option.splits)
qed

fun emit_all :: "'k sink \<Rightarrow> delivery_policy \<Rightarrow> (audit_event \<times> bool) list \<Rightarrow> 'k emitter \<Rightarrow> 'k emitter" where
  "emit_all sink pol [] em = em"
| "emit_all sink pol ((ev, required) # rest) em =
     emit_all sink pol rest (snd (emit sink pol ev required em))"

lemma emit_all_buffer:
  "int (length (em_buffer em)) \<le> dp_max_buffered_events pol \<Longrightarrow>
   int (length (em_buffer (emit_all sink pol evs em))) \<le> dp_max_buffered_events pol"
proof (induction evs arbitrary: em)
  case (Cons e evs)
  obtain ev required where e: "e = (ev, required)" by fastforce
  have "int (length (em_buffer (snd (emit sink pol ev required em)))) \<le> dp_max_buffered_events pol"
    using emit_buffer[OF prod.collapse[symmetric], of sink pol ev required em] Cons.prems by auto
  from Cons.IH[OF this] e show ?case by simp
qed simp

text \<open>
  The retry buffer is bounded by the policy: whatever events are emitted through an emitter
  with a valid policy, and however the sink answers, it holds at most \<open>max_buffered_events\<close>.
\<close>

theorem audit_buffer_bounded:
  assumes "mk_delivery_policy m t n = Inr pol"
  shows "int (length (em_buffer (emit_all sink pol evs (init_emitter k)))) \<le> n"
proof -
  from assms have "dp_max_buffered_events pol = n" "0 \<le> n"
    by (auto simp: mk_delivery_policy_def split: if_splits)
  with emit_all_buffer[of "init_emitter k" pol sink evs] show ?thesis by (simp add: init_emitter_def)
qed

definition sample_event :: "audit_event_name \<Rightarrow> string \<Rightarrow> audit_event" where
  "sample_event name i = \<lparr>ev_event_name = name, ev_category = EXECUTION, ev_decision = ALLOW,
     ev_outcome = SUCCESS, ev_reason_code = ''r'', ev_subject_id = [], ev_issuer = [],
     ev_audience = OneAudience [], ev_task_id = ''task'', ev_challenge_id = [], ev_agent_id = [],
     ev_capability_id = [], ev_policy_id = [], ev_policy_version = [], ev_correlation_id = [],
     ev_resource = [], ev_severity = INFO, ev_event_id = i, ev_occurred_at = 0, ev_sequence = 0,
     ev_extensions = [], ev_instruction_chain = []\<rparr>"

theorem audit_buffer_bounded_witness:
  "int (length (em_buffer (emit_all (failing_sink_emit ''down'' True)
      \<lparr>dp_mode = FAIL_OPEN, dp_timeout_seconds = 1, dp_max_buffered_events = 1\<rparr>
      [(sample_event EXECUTION_STARTED ''e1'', False), (sample_event EXECUTION_FAILED ''e2'', False)]
      (init_emitter [])))) \<le> 1"
  by (rule audit_buffer_bounded[of FAIL_OPEN 1]) (simp add: mk_delivery_policy_def)

section \<open>Sequence numbers\<close>

text \<open>
  The logged deliveries of one task key, and the shape their sequence numbers must have, latest
  first: the number after a delivered terminal event is 1 again (the task's state was evicted),
  otherwise one more than the latest.
\<close>

definition task_log :: "string \<Rightarrow> (audit_event \<times> bool) list \<Rightarrow> (audit_event \<times> bool) list" where
  "task_log key entries = filter (\<lambda>(ev, _). task_key ev = key) entries"

fun next_sequence :: "(audit_event \<times> bool) list \<Rightarrow> nat" where
  "next_sequence [] = 1"
| "next_sequence ((ev, returned) # older) =
     (if returned \<and> is_terminal ev then 1 else Suc (ev_sequence ev))"

fun sequenced :: "(audit_event \<times> bool) list \<Rightarrow> bool" where
  "sequenced [] = True"
| "sequenced ((ev, returned) # older) = (ev_sequence ev = next_sequence older \<and> sequenced older)"

text \<open>Between two calls no call is active, and a task's state agrees with its log.\<close>

definition emitter_inv :: "'k emitter \<Rightarrow> bool" where
  "emitter_inv em \<longleftrightarrow> (\<forall>key. sequenced (rev (task_log key (em_log em)))
     \<and> Suc (td_sequence (task_of key em)) = next_sequence (rev (task_log key (em_log em)))
     \<and> td_active (task_of key em) = 0 \<and> \<not> td_terminal (task_of key em))"

lemma emitter_inv_init: "emitter_inv (init_emitter k)"
  by (simp add: emitter_inv_def init_emitter_def task_log_def task_of_def)

lemma task_of_set_task [simp]:
  "task_of key (set_task key' t em) = (if key = key' then t else task_of key em)"
  by (auto simp: task_of_def set_task_def)

lemma em_log_set_task [simp]: "em_log (set_task key t em) = em_log em"
  by (simp add: set_task_def)

lemma task_of_em_log [simp]: "task_of key (em\<lparr>em_log := l\<rparr>) = task_of key em"
  by (simp add: task_of_def)

lemma task_of_del [simp]:
  "task_of key (em\<lparr>em_tasks := ddel key' (em_tasks em)\<rparr>) =
   (if key = key' then \<lparr>td_sequence = 0, td_active = 0, td_terminal = False\<rparr> else task_of key em)"
  by (auto simp: task_of_def)

lemma emit_trace:
  assumes "emit sink pol ev required em = (r, em')" "emitter_inv em"
  defines "key \<equiv> task_key ev"
  defines "ev' \<equiv> ev\<lparr>ev_sequence := Suc (td_sequence (task_of key em))\<rparr>"
  shows "em_log em' = em_log em @ [(ev', \<not> isl r)]
    \<and> (\<forall>k. k \<noteq> key \<longrightarrow> task_of k em' = task_of k em)
    \<and> task_of key em' = \<lparr>td_sequence = (if \<not> isl r \<and> is_terminal ev then 0 else ev_sequence ev'),
         td_active = 0, td_terminal = False\<rparr>"
proof -
  define em1 where "em1 = set_task key \<lparr>td_sequence = ev_sequence ev', td_active = 1, td_terminal = False\<rparr>
    (emit_enter key em)"
  obtain r2 em2 where d: "deliver sink pol ev' required em1 = (r2, em2)" by fastforce
  have t: "td_active (task_of key em) = 0" "\<not> td_terminal (task_of key em)"
    using assms(2) by (simp_all add: emitter_inv_def)
  have fr: "em_log em2 = em_log em" "\<And>k. task_of k em2 =
      (if k = key then \<lparr>td_sequence = ev_sequence ev', td_active = 1, td_terminal = False\<rparr> else task_of k em)"
    using deliver_frame[OF d] by (auto simp: em1_def emit_enter_def Let_def task_of_def set_task_def)
  have term_eq: "is_terminal ev' = is_terminal ev" by (simp add: ev'_def is_terminal_def)
  obtain n where t0: "task_of key em = \<lparr>td_sequence = n, td_active = 0, td_terminal = False\<rparr>"
    using t by (cases "task_of key em") simp
  have em1': "set_task key ((task_of key (emit_enter key em))\<lparr>td_sequence := ev_sequence ev'\<rparr>)
      (emit_enter key em) = em1"
    by (simp add: em1_def emit_enter_def Let_def t0)
  have "td_sequence (task_of key (emit_enter key em)) = td_sequence (task_of key em)"
    by (simp add: emit_enter_def Let_def)
  then have locked: "emit_locked sink pol ev required (emit_enter key em) =
    (r2, let em3 = em2\<lparr>em_log := em_log em2 @ [(ev', \<not> isl r2)]\<rparr> in
         if \<not> isl r2 \<and> is_terminal ev' then set_task key ((task_of key em3)\<lparr>td_terminal := True\<rparr>) em3 else em3)"
    using d em1' by (auto simp: emit_locked_def Let_def key_def[symmetric] ev'_def split: sum.splits)
  have r: "r = r2" and em': "em' = emit_leave key (let em3 = em2\<lparr>em_log := em_log em2 @ [(ev', \<not> isl r2)]\<rparr> in
         if \<not> isl r2 \<and> is_terminal ev' then set_task key ((task_of key em3)\<lparr>td_terminal := True\<rparr>) em3 else em3)"
    using assms(1) locked by (auto simp: emit_def key_def[symmetric])
  show ?thesis
    unfolding em' r using fr term_eq by (simp add: emit_leave_def Let_def)
qed

lemma emit_inv: "emitter_inv em \<Longrightarrow> emitter_inv (snd (emit sink pol ev required em))"
proof -
  assume inv: "emitter_inv em"
  obtain r em' where e: "emit sink pol ev required em = (r, em')" by fastforce
  note tr = emit_trace[OF e inv]
  have term_eq: "is_terminal (ev\<lparr>ev_sequence := n\<rparr>) = is_terminal ev" for n
    by (simp add: is_terminal_def)
  have key_eq: "task_key (ev\<lparr>ev_sequence := n\<rparr>) = task_key ev" for n
    by (simp add: task_key_def)
  have "sequenced (rev (task_log key (em_log em')))
     \<and> Suc (td_sequence (task_of key em')) = next_sequence (rev (task_log key (em_log em')))
     \<and> td_active (task_of key em') = 0 \<and> \<not> td_terminal (task_of key em')" for key
    using tr inv[unfolded emitter_inv_def, rule_format, of key]
    by (cases "key = task_key ev") (simp_all add: task_log_def key_eq term_eq)
  then show ?thesis by (simp add: emitter_inv_def e)
qed

lemma emit_all_inv: "emitter_inv em \<Longrightarrow> emitter_inv (emit_all sink pol evs em)"
  by (induction evs arbitrary: em) (auto simp: emit_inv)

text \<open>
  Sequencing.  Whatever events are emitted through one emitter, for every task the delivered
  sequence numbers start at 1 and increase by one from event to event, except that they start
  at 1 again after an event that ends the task's lifecycle has been delivered; and between calls
  no evicted or active task state lingers with the terminal mark set.
\<close>

theorem audit_sequence_numbers:
  "sequenced (rev (task_log key (em_log (emit_all sink pol evs (init_emitter k)))))
   \<and> \<not> td_terminal (task_of key (emit_all sink pol evs (init_emitter k)))"
  using emit_all_inv[OF emitter_inv_init, of sink pol evs k] by (simp add: emitter_inv_def)

text \<open>
  Sequence numbers are not unique within a task: after a delivered terminal event of a task the
  next event of the same task carries sequence number 1 again, as the very first one did.
\<close>

theorem audit_sequence_restarts:
  assumes "emitter_inv em"
    and "emit sink pol ev1 req1 em = (Inr rc, em1)" and "is_terminal ev1"
    and "emit sink pol ev2 req2 em1 = (r, em2)" and "task_key ev2 = task_key ev1"
  shows "ev_sequence (fst (last (em_log em2))) = 1"
proof -
  have "emitter_inv em1" using emit_inv[OF assms(1), of sink pol ev1 req1] assms(2) by simp
  from emit_trace[OF assms(4) this] emit_trace[OF assms(2,1)] assms(3,5) show ?thesis by simp
qed

theorem audit_sequence_restarts_witness:
  "\<exists>em1 em2 rc r.
     emit memory_sink_emit \<lparr>dp_mode = FAIL_CLOSED, dp_timeout_seconds = 1, dp_max_buffered_events = 0\<rparr>
       (sample_event EXECUTION_COMPLETED ''e1'') False (init_emitter (init_memory_sink 5)) = (Inr rc, em1)
   \<and> emit memory_sink_emit \<lparr>dp_mode = FAIL_CLOSED, dp_timeout_seconds = 1, dp_max_buffered_events = 0\<rparr>
       (sample_event EXECUTION_STARTED ''e2'') False em1 = (r, em2)
   \<and> ev_sequence (fst (last (em_log em2))) = 1"
proof -
  let ?pol = "\<lparr>dp_mode = FAIL_CLOSED, dp_timeout_seconds = 1, dp_max_buffered_events = 0\<rparr>"
  obtain rc em1 where e1: "emit memory_sink_emit ?pol (sample_event EXECUTION_COMPLETED ''e1'') False
      (init_emitter (init_memory_sink 5)) = (Inr rc, em1)"
    using emit_optional_result[of memory_sink_emit ?pol "sample_event EXECUTION_COMPLETED ''e1''"
        "init_emitter (init_memory_sink 5)"] by (metis prod.collapse)
  obtain r em2 where e2: "emit memory_sink_emit ?pol (sample_event EXECUTION_STARTED ''e2'') False em1 = (r, em2)"
    by fastforce
  have "ev_sequence (fst (last (em_log em2))) = 1"
    by (rule audit_sequence_restarts[OF emitter_inv_init e1 _ e2])
       (simp_all add: sample_event_def is_terminal_def task_key_def)
  with e1 e2 show ?thesis by blast
qed

section \<open>The in-memory sink keeps each event once\<close>

definition sink_inv :: "memory_sink \<Rightarrow> bool" where
  "sink_inv k \<longleftrightarrow> ms_seen k = set (map idempotency_key (ms_events k))
     \<and> distinct (map idempotency_key (ms_events k)) \<and> length (ms_events k) \<le> ms_max_events k"

lemma memory_sink_inv: "sink_inv k \<Longrightarrow> sink_inv (snd (memory_sink_emit ev k))"
  by (auto simp: sink_inv_def memory_sink_emit_def Let_def)

fun offer_all :: "audit_event list \<Rightarrow> memory_sink \<Rightarrow> sink_result list \<times> memory_sink" where
  "offer_all [] k = ([], k)"
| "offer_all (ev # evs) k =
     (let (r, k') = memory_sink_emit ev k; (rs, k'') = offer_all evs k' in (r # rs, k''))"

lemma offer_all_inv: "sink_inv k \<Longrightarrow> sink_inv (snd (offer_all evs k))"
proof (induction evs arbitrary: k)
  case (Cons ev evs)
  from Cons.IH[OF memory_sink_inv[OF Cons.prems]] show ?case
    by (simp add: Let_def case_prod_unfold)
qed simp

text \<open>
  The reference sink deduplicates and is bounded: whatever events are offered to a fresh
  sink, it stores no idempotency key twice and at most \<open>max_events\<close> events.
\<close>

theorem memory_sink_dedup_bounded:
  "distinct (map idempotency_key (ms_events (snd (offer_all evs (init_memory_sink n)))))
   \<and> length (ms_events (snd (offer_all evs (init_memory_sink n)))) \<le> n"
proof -
  have "ms_max_events (snd (offer_all evs k)) = ms_max_events k" for k
    by (induction evs arbitrary: k) (simp_all add: Let_def memory_sink_emit_def case_prod_unfold)
  moreover have "sink_inv (init_memory_sink n)" by (simp add: sink_inv_def init_memory_sink_def)
  ultimately show ?thesis
    using offer_all_inv[of "init_memory_sink n" evs] by (simp add: sink_inv_def init_memory_sink_def)
qed

end
