(* ===== verification/ApprovalToken.thy ===== *)
theory ApprovalToken
  imports Crypto Approval AuditTrail
begin

text \<open>
  \<open>security/approval_token.py\<close>: the claims of an approval token, the replay store, and the service
  that verifies a token, binds it to a challenge, consumes it and runs the protected work.

  The service works on a \<open>world\<close>: the approval store (any store with the operations
  \<open>approval_ops\<close>), the audit boundary (any emitter with an \<open>emit\<close> operation), the verifier's clock
  and hook, the replay store, the state of the application, whose protected callback is a program
  on it, counters of the audit events and challenges made, and the history \<open>w_runs\<close> of the runs of protected work, each with the identifier of
  the token, if it was resumed by one, and of the approval it was run for.
\<close>

section \<open>The world of the protected services\<close>

record ('s, 'm, 'a) world =
  w_approvals :: 's
  w_audit :: 'm
  w_verifier :: verifier_state
  w_replay :: "string set"
  w_app :: 'a
  w_events :: nat
  w_ids :: nat
  w_runs :: "(string option \<times> string) list"

text \<open>
  The audit boundary, when there is one.  \<open>d_event_id\<close> and \<open>d_event_time\<close> supply the identifier and the time of the
  \<open>n\<close>-th audit event (\<open>uuid4\<close> and the system clock in the code).
\<close>

type_synonym 'm emit_op = "audit_event \<Rightarrow> bool \<Rightarrow> ('m, sec_error, delivery_receipt option) prog"

record 'm services =
  d_audit :: "'m emit_op option"
  d_event_id :: "nat \<Rightarrow> string"
  d_event_time :: "nat \<Rightarrow> time"

abbreviation on_approvals :: "('s, 'e, 'r) prog \<Rightarrow> (('s, 'm, 'a) world, 'e, 'r) prog" where
  "on_approvals \<equiv> zoomS w_approvals (\<lambda>s w. w\<lparr>w_approvals := s\<rparr>)"

text \<open>
  Building an \<open>AuditEvent\<close> runs its validation, then the emitter delivers it; without an emitter
  nothing happens.
\<close>

definition record_event ::
  "('m, 'z) services_scheme \<Rightarrow> (string \<Rightarrow> time \<Rightarrow> audit_event) \<Rightarrow> bool \<Rightarrow> (('s, 'm, 'a) world, sec_error, unit) prog" where
  "record_event d mk required w =
     (case d_audit d of None \<Rightarrow> (Inr (), w)
      | Some emit_op \<Rightarrow>
          let n = w_events w; w1 = w\<lparr>w_events := Suc n\<rparr> in
          case check_event (mk (d_event_id d n) (d_event_time d n)) of
            Inl e \<Rightarrow> (Inl (Foreign e), w1)
          | Inr ev \<Rightarrow>
              (case emit_op ev required (w_audit w1) of
                 (Inl e, m) \<Rightarrow> (Inl e, w1\<lparr>w_audit := m\<rparr>)
               | (Inr _, m) \<Rightarrow> (Inr (), w1\<lparr>w_audit := m\<rparr>)))"

definition run_protected ::
  "string option \<Rightarrow> string \<Rightarrow> ('a, sec_error, 'v) prog \<Rightarrow> (('s, 'm, 'a) world, sec_error, 'v) prog" where
  "run_protected jti i execute w =
     (let (r, a) = execute (w_app w) in (r, w\<lparr>w_app := a, w_runs := w_runs w @ [(jti, i)]\<rparr>))"

text \<open>What an event leaves alone.\<close>

definition same_but_audit :: "('s, 'm, 'a) world \<Rightarrow> ('s, 'm, 'a) world \<Rightarrow> bool" where
  "same_but_audit w w' \<longleftrightarrow> w_approvals w' = w_approvals w \<and> w_verifier w' = w_verifier w
     \<and> w_replay w' = w_replay w \<and> w_app w' = w_app w \<and> w_runs w' = w_runs w"

lemma same_but_audit_refl [simp]: "same_but_audit w w"
  by (simp add: same_but_audit_def)

lemma same_but_audit_trans: "same_but_audit u v \<Longrightarrow> same_but_audit v w \<Longrightarrow> same_but_audit u w"
  by (simp add: same_but_audit_def)

lemma record_event_frame: "record_event d mk required w = (r, w') \<Longrightarrow> same_but_audit w w'"
  by (auto simp: record_event_def same_but_audit_def Let_def split: option.splits sum.splits prod.splits)

section \<open>Claims\<close>

record approval_token_claims =
  tc_issuer :: string
  tc_audience :: string
  tc_subject :: string
  tc_issued_at :: int
  tc_not_before :: int
  tc_expires_at :: int
  tc_token_id :: string
  tc_challenge_id :: string
  tc_task_id :: string
  tc_agent_id :: string
  tc_capability_id :: string
  tc_decision :: string
  tc_required_role :: string
  tc_policy_version :: string
  tc_contract_version :: string

definition as_dict :: "approval_token_claims \<Rightarrow> json_object" where
  "as_dict c = [(''iss'', VStr (tc_issuer c)), (''aud'', VStr (tc_audience c)), (''sub'', VStr (tc_subject c)),
     (''iat'', VInt (tc_issued_at c)), (''nbf'', VInt (tc_not_before c)), (''exp'', VInt (tc_expires_at c)),
     (''jti'', VStr (tc_token_id c)), (''challenge_id'', VStr (tc_challenge_id c)),
     (''task_id'', VStr (tc_task_id c)), (''agent_id'', VStr (tc_agent_id c)),
     (''capability_id'', VStr (tc_capability_id c)), (''decision'', VStr (tc_decision c)),
     (''required_role'', VStr (tc_required_role c)), (''policy_version'', VStr (tc_policy_version c)),
     (''ver'', VStr (tc_contract_version c))]"

text \<open>
  The claims object built from a verified payload.  Verification has established the type of every
  claim, so the default of the other cases is never used (lemma \<open>as_dict_claims_of\<close>).
\<close>

definition str_claim :: "json_object \<Rightarrow> string \<Rightarrow> string" where
  "str_claim cl k = (case dget cl k of Some (VStr s) \<Rightarrow> s | _ \<Rightarrow> [])"

definition num_claim :: "json_object \<Rightarrow> string \<Rightarrow> int" where
  "num_claim cl k = (case dget cl k of Some (VInt i) \<Rightarrow> i | _ \<Rightarrow> 0)"

definition claims_of :: "json_object \<Rightarrow> approval_token_claims" where
  "claims_of cl =
     \<lparr>tc_issuer = str_claim cl ''iss'', tc_audience = str_claim cl ''aud'', tc_subject = str_claim cl ''sub'',
      tc_issued_at = num_claim cl ''iat'', tc_not_before = num_claim cl ''nbf'', tc_expires_at = num_claim cl ''exp'',
      tc_token_id = str_claim cl ''jti'', tc_challenge_id = str_claim cl ''challenge_id'',
      tc_task_id = str_claim cl ''task_id'', tc_agent_id = str_claim cl ''agent_id'',
      tc_capability_id = str_claim cl ''capability_id'', tc_decision = str_claim cl ''decision'',
      tc_required_role = str_claim cl ''required_role'', tc_policy_version = str_claim cl ''policy_version'',
      tc_contract_version = str_claim cl ''ver''\<rparr>"

lemma nonempty_str_claim: "nonempty_str (dget cl k) \<Longrightarrow> dget cl k = Some (VStr (str_claim cl k)) \<and> str_claim cl k \<noteq> []"
  by (cases "dget cl k" rule: nonempty_str.cases) (auto simp: str_claim_def)

lemma as_dict_claims_of:
  assumes "claims_valid vf now cl" "k \<in> claim_keys"
  shows "dget (as_dict (claims_of cl)) k = dget cl k"
proof -
  have s: "\<And>k. k \<in> set string_claims \<Longrightarrow> dget cl k = Some (VStr (str_claim cl k))"
    "dget cl ''policy_version'' = Some (VStr (str_claim cl ''policy_version''))"
    using assms(1) nonempty_str_claim unfolding claims_valid_def by blast+
  have d: "dget cl ''decision'' = Some (VStr (str_claim cl ''decision''))"
    "dget cl ''ver'' = Some (VStr (str_claim cl ''ver''))"
    using assms(1) by (auto simp: claims_valid_def str_claim_def)
  have n: "dget cl ''iat'' = Some (VInt (num_claim cl ''iat''))" "dget cl ''nbf'' = Some (VInt (num_claim cl ''nbf''))"
    "dget cl ''exp'' = Some (VInt (num_claim cl ''exp''))"
    using assms(1) by (auto simp: claims_valid_def num_claim_def)
  show ?thesis
    using assms(2) s(1) s(2) d n
    by (auto simp: claim_keys_def as_dict_def claims_of_def string_claims_def)
qed

section \<open>The service\<close>

record ('s, 'm, 'priv, 'key) token_service = "'m services" +
  d_approvals :: "'s approval_ops"
  ts_env :: "('priv, 'key) jws_env"
  ts_verifier :: "'key es256_verifier"

text \<open>\<open>InMemoryApprovalReplayStore.consume\<close>, atomic under its lock.\<close>

definition replay_consume :: "string \<Rightarrow> (string set, sec_error, unit) prog" where
  "replay_consume jti consumed =
     (if jti \<in> consumed then (Inl ApprovalTokenReplay, consumed) else (Inr (), insert jti consumed))"

abbreviation on_replay :: "(string set, 'e, 'r) prog \<Rightarrow> (('s, 'm, 'a) world, 'e, 'r) prog" where
  "on_replay \<equiv> zoomS w_replay (\<lambda>s w. w\<lparr>w_replay := s\<rparr>)"

abbreviation on_verifier :: "(verifier_state, 'e, 'r) prog \<Rightarrow> (('s, 'm, 'a) world, 'e, 'r) prog" where
  "on_verifier \<equiv> zoomS w_verifier (\<lambda>s w. w\<lparr>w_verifier := s\<rparr>)"

text \<open>The years 1 to 9999, outside which \<open>datetime.fromtimestamp\<close> raises.\<close>

definition datetime_range :: "int \<Rightarrow> bool" where
  "datetime_range t \<longleftrightarrow> -62135596800 \<le> t \<and> t < 253402300800"

definition token_bound :: "approval_token_claims \<Rightarrow> approval_challenge \<Rightarrow> bool" where
  "token_bound c ch \<longleftrightarrow> ch_approval_id ch = tc_challenge_id c \<and> ch_task_id ch = tc_task_id c
     \<and> ch_agent_id ch = tc_agent_id c \<and> ch_capability_id ch = tc_capability_id c
     \<and> ch_required_role ch = tc_required_role c \<and> ch_policy_version ch = tc_policy_version c"

definition token_decision :: "approval_token_claims \<Rightarrow> approval_decision" where
  "token_decision c = \<lparr>dec_approval_id = tc_challenge_id c, dec_approved = (tc_decision c = ''approve''),
     dec_decided_at = of_int (tc_issued_at c), dec_decided_by = tc_subject c, dec_reason_code = [],
     dec_role = Some (tc_required_role c)\<rparr>"

text \<open>\<open>ApprovalTokenService.verify\<close>: the verified claims and the decision they make.\<close>

definition service_verify ::
  "('s, 'm, 'priv, 'key) token_service \<Rightarrow> string \<Rightarrow> approval_challenge
   \<Rightarrow> (('s, 'm, 'a) world, sec_error, approval_token_claims \<times> approval_decision) prog" where
  "service_verify ts token ch =
     bindS (on_verifier (verify (ts_env ts) (ts_verifier ts) token)) (\<lambda>raw.
       let c = claims_of raw in
       thenS (guardS (token_bound c ch) ApprovalTokenBinding) (
       thenS (guardS (tc_required_role c \<in> set (needed_roles ch)) ApprovalTokenRole) (
       thenS (guardS (datetime_range (tc_issued_at c)) (Foreign ValueError))
         (retS (c, token_decision c)))))"

text \<open>\<open>_audit\<close>: the events of the token service are optional evidence.\<close>

definition token_event ::
  "audit_event_name \<Rightarrow> authorization_context \<Rightarrow> approval_challenge \<Rightarrow> audit_outcome \<Rightarrow> string \<Rightarrow> string \<Rightarrow> time \<Rightarrow> audit_event" where
  "token_event name ctx ch outcome reason i t =
     \<lparr>ev_event_name = name, ev_category = CRYPTOGRAPHY,
      ev_decision = (if outcome = SUCCESS then ALLOW else DENY), ev_outcome = outcome,
      ev_reason_code = reason, ev_subject_id = subject_id (ac_principal ctx),
      ev_issuer = issuer (ac_principal ctx), ev_audience = audience (ac_principal ctx),
      ev_task_id = ac_task_id ctx, ev_challenge_id = ch_approval_id ch, ev_agent_id = ch_agent_id ch,
      ev_capability_id = ch_capability_id ch, ev_policy_id = ''conducto.approval-token'',
      ev_policy_version = ch_policy_version ch, ev_correlation_id = ac_correlation_id ctx,
      ev_resource = ''approval-token'', ev_severity = (if outcome \<noteq> SUCCESS then ERROR else INFO),
      ev_event_id = i, ev_occurred_at = t, ev_sequence = 0, ev_extensions = [],
      ev_instruction_chain = []\<rparr>"

text \<open>The event of a token that does not verify, which names no challenge.\<close>

definition signature_rejected_event :: "authorization_context \<Rightarrow> string \<Rightarrow> time \<Rightarrow> audit_event" where
  "signature_rejected_event ctx i t =
     \<lparr>ev_event_name = SIGNATURE_REJECTED, ev_category = CRYPTOGRAPHY, ev_decision = DENY,
      ev_outcome = REJECTED, ev_reason_code = ''signature_verification_failed'',
      ev_subject_id = subject_id (ac_principal ctx), ev_issuer = issuer (ac_principal ctx),
      ev_audience = audience (ac_principal ctx), ev_task_id = ac_task_id ctx, ev_challenge_id = [],
      ev_agent_id = [], ev_capability_id = [], ev_policy_id = [], ev_policy_version = [],
      ev_correlation_id = ac_correlation_id ctx, ev_resource = ''approval-token'', ev_severity = ERROR,
      ev_event_id = i, ev_occurred_at = t, ev_sequence = 0, ev_extensions = [],
      ev_instruction_chain = []\<rparr>"

text \<open>
  \<open>consume_and_resume\<close>, in its two parts: up to the only point at which the coroutine yields
  before the token is consumed, and the part after it, which runs to the protected work without
  yielding.  Concurrent calls interleave between the parts.
\<close>

definition token_begin ::
  "('s, 'm, 'priv, 'key) token_service \<Rightarrow> string \<Rightarrow> approval_challenge \<Rightarrow> authorization_context
   \<Rightarrow> (('s, 'm, 'a) world, sec_error, approval_token_claims \<times> approval_decision) prog" where
  "token_begin ts token ch ctx =
     bindS (service_verify ts token ch) (\<lambda>res.
     thenS (record_event ts (token_event SIGNATURE_VERIFIED ctx ch SUCCESS ''signature_verified'') False)
       (retS res))"

definition token_finish ::
  "('s, 'm, 'priv, 'key) token_service \<Rightarrow> ('a, sec_error, 'v) prog \<Rightarrow> approval_challenge \<Rightarrow> authorization_context
   \<Rightarrow> approval_token_claims \<Rightarrow> approval_decision \<Rightarrow> (('s, 'm, 'a) world, sec_error, 'v) prog" where
  "token_finish ts execute ch ctx c d =
     thenS (guardS (ch_principal_subject_id ch = [] \<or> ch_principal_subject_id ch = subject_id (ac_principal ctx))
              ApprovalTokenBinding) (
     thenS (catchS (on_replay (replay_consume (tc_token_id c)))
              (\<lambda>e. thenS (if e = ApprovalTokenReplay
                 then record_event ts (token_event REPLAY_REJECTED ctx ch REJECTED ''replay'') False
                 else retS ()) (raiseS e))) (
     thenS (on_approvals (op_decide (d_approvals ts) d)) (
     thenS (guardS (dec_approved d) AuthorizationDenied) (
     bindS (on_approvals (op_state (d_approvals ts) (ch_approval_id ch))) (\<lambda>st.
     thenS (guardS (st = APPROVED) ApprovalRequired) (
     thenS (on_approvals (op_complete (d_approvals ts) (ch_approval_id ch)))
       (run_protected (Some (tc_token_id c)) (ch_approval_id ch) execute)))))))"

definition consume_and_resume ::
  "('s, 'm, 'priv, 'key) token_service \<Rightarrow> string \<Rightarrow> ('a, sec_error, 'v) prog \<Rightarrow> approval_challenge
   \<Rightarrow> authorization_context \<Rightarrow> (('s, 'm, 'a) world, sec_error, 'v) prog" where
  "consume_and_resume ts token execute ch ctx =
     bindS (token_begin ts token ch ctx) (\<lambda>(c, d). token_finish ts execute ch ctx c d)"

definition consume_token_and_resume ::
  "('s, 'm, 'priv, 'key) token_service \<Rightarrow> string \<Rightarrow> ('a, sec_error, 'v) prog \<Rightarrow> authorization_context
   \<Rightarrow> (('s, 'm, 'a) world, sec_error, 'v) prog" where
  "consume_token_and_resume ts token execute ctx =
     bindS (catchS (on_verifier (verify (ts_env ts) (ts_verifier ts) token))
              (\<lambda>e. thenS (if is_token_error e then record_event ts (signature_rejected_event ctx) False
                           else retS ()) (raiseS e)))
       (\<lambda>raw. bindS (on_approvals (op_get (d_approvals ts) (str_claim raw ''challenge_id'')))
         (\<lambda>ch. consume_and_resume ts token execute ch ctx))"

section \<open>At most one run for a token and for an approval\<close>

text \<open>
  What can happen to a world: an operation of the approval store, a delivery of audit evidence or
  any other change of the application, the first part of a resume, or the second part of a resume
  for a challenge, claims and decision of whatever origin.
\<close>

inductive token_step ::
  "('s, 'm, 'priv, 'key) token_service \<Rightarrow> ('s, 'm, 'a) world \<Rightarrow> ('s, 'm, 'a) world \<Rightarrow> bool"
  for ts where
  step_store: "token_step ts w (w\<lparr>w_approvals := snd (apply_op (d_approvals ts) op (w_approvals w))\<rparr>)"
| step_outside: "token_step ts w (w\<lparr>w_audit := m, w_verifier := v, w_app := a, w_events := n, w_ids := k\<rparr>)"
| step_begin: "token_step ts w (snd (token_begin ts token ch ctx w))"
| step_finish: "token_step ts w (snd (token_finish ts (execute :: ('a, sec_error, pyval) prog) ch ctx c d w))"

definition init_world :: "'s \<Rightarrow> 'm \<Rightarrow> verifier_state \<Rightarrow> 'a \<Rightarrow> ('s, 'm, 'a) world" where
  "init_world s m v a = \<lparr>w_approvals = s, w_audit = m, w_verifier = v, w_replay = {}, w_app = a,
     w_events = 0, w_ids = 0, w_runs = []\<rparr>"

definition run_tokens :: "(string option \<times> string) list \<Rightarrow> string list" where
  "run_tokens runs = List.map_filter fst runs"

lemma run_tokens_simps [simp]:
  "run_tokens [] = []" "run_tokens (runs @ [(Some j, i)]) = run_tokens runs @ [j]"
  "run_tokens (runs @ [(None, i)]) = run_tokens runs"
  by (simp_all add: run_tokens_def List.map_filter_def)

text \<open>
  The invariant: every token that ran is consumed, every approval that ran is completed, and
  neither repeats.
\<close>

definition runs_inv :: "('s \<Rightarrow> bool) \<Rightarrow> ('s \<Rightarrow> string \<Rightarrow> approval_state option) \<Rightarrow> ('s, 'm, 'a) world \<Rightarrow> bool" where
  "runs_inv ok view w \<longleftrightarrow> ok (w_approvals w)
     \<and> distinct (run_tokens (w_runs w)) \<and> set (run_tokens (w_runs w)) \<subseteq> w_replay w
     \<and> distinct (map snd (w_runs w)) \<and> (\<forall>i \<in> set (map snd (w_runs w)). view (w_approvals w) i = Some COMPLETED)"

lemma token_begin_frame:
  assumes "token_begin ts token ch ctx w = (r, w')"
  shows "w_approvals w' = w_approvals w \<and> w_replay w' = w_replay w \<and> w_runs w' = w_runs w"
  using assms record_event_frame
  by (fastforce simp: token_begin_def service_verify_def prog_defs Let_def same_but_audit_def
      split: prod.splits sum.splits if_splits)

text \<open>The second part of a resume, on every branch: nothing ran, or everything held.\<close>

lemma token_finish_cases:
  assumes "token_finish ts execute ch ctx c d w = (r, w')"
  obtains (quiet) "w_approvals w' = w_approvals w" "w_replay w \<subseteq> w_replay w'" "w_runs w' = w_runs w"
  | (decided) "w_approvals w' = snd (op_decide (d_approvals ts) d (w_approvals w))"
      "w_replay w \<subseteq> w_replay w'" "w_runs w' = w_runs w"
  | (asked) st where "op_state (d_approvals ts) (ch_approval_id ch)
        (snd (op_decide (d_approvals ts) d (w_approvals w))) = (st, w_approvals w')"
      "w_replay w \<subseteq> w_replay w'" "w_runs w' = w_runs w"
  | (failed) st s1 e where "op_state (d_approvals ts) (ch_approval_id ch)
        (snd (op_decide (d_approvals ts) d (w_approvals w))) = (st, s1)"
      "op_complete (d_approvals ts) (ch_approval_id ch) s1 = (Inl e, w_approvals w')"
      "w_replay w \<subseteq> w_replay w'" "w_runs w' = w_runs w"
  | (ran) ch1 ch2 s0 s1 where "tc_token_id c \<notin> w_replay w" "w_replay w' = insert (tc_token_id c) (w_replay w)"
      "ch_principal_subject_id ch = [] \<or> ch_principal_subject_id ch = subject_id (ac_principal ctx)"
      "op_decide (d_approvals ts) d (w_approvals w) = (Inr ch1, s0)" "dec_approved d"
      "op_state (d_approvals ts) (ch_approval_id ch) s0 = (Inr APPROVED, s1)"
      "op_complete (d_approvals ts) (ch_approval_id ch) s1 = (Inr ch2, w_approvals w')"
      "w_runs w' = w_runs w @ [(Some (tc_token_id c), ch_approval_id ch)]"
proof -
  obtain de s0 where d: "op_decide (d_approvals ts) d (w_approvals w) = (de, s0)" by fastforce
  obtain st s1 where s: "op_state (d_approvals ts) (ch_approval_id ch) s0 = (st, s1)" by fastforce
  obtain co s2 where c: "op_complete (d_approvals ts) (ch_approval_id ch) s1 = (co, s2)" by fastforce
  let ?bound = "ch_principal_subject_id ch = [] \<or> ch_principal_subject_id ch = subject_id (ac_principal ctx)"
  consider "\<not> ?bound" | "?bound" "tc_token_id c \<in> w_replay w" | "?bound" "tc_token_id c \<notin> w_replay w" by blast
  then show ?thesis
  proof cases
    case 1
    with assms show ?thesis by (intro quiet) (auto simp: token_finish_def prog_defs)
  next
    case 2
    obtain r1 w1 where "record_event ts (token_event REPLAY_REJECTED ctx ch REJECTED ''replay'') False w = (r1, w1)"
      by fastforce
    with 2 assms record_event_frame[OF this] show ?thesis
      by (intro quiet)
         (auto simp: token_finish_def replay_consume_def prog_defs same_but_audit_def split: sum.splits)
  next
    case 3
    show ?thesis
    proof (cases "(\<exists>e. de = Inl e) \<or> \<not> dec_approved d")
      case True
      with 3 assms d show ?thesis
        by (intro decided)
           (auto simp: token_finish_def replay_consume_def prog_defs split: sum.splits if_splits)
    next
      case False
      then obtain ch1 where ch1: "de = Inr ch1" "dec_approved d" by (cases de) auto
      show ?thesis
      proof (cases "st = Inr APPROVED")
        case False
        with 3 assms d s ch1 show ?thesis
          by (intro asked[of st])
             (auto simp: token_finish_def replay_consume_def prog_defs split: sum.splits if_splits)
      next
        case True
        show ?thesis
        proof (cases co)
          case (Inl e)
          with 3 assms d s c ch1 True show ?thesis
            by (intro failed[of st s1 e]) (auto simp: token_finish_def replay_consume_def prog_defs)
        next
          case (Inr ch2)
          with 3 assms d s c ch1 True show ?thesis
            by (intro ran[of ch1 s0 s1 ch2])
               (auto simp: token_finish_def replay_consume_def prog_defs run_protected_def Let_def
                 split: prod.splits)
        qed
      qed
    qed
  qed
qed

context approval_protocol begin

lemma runs_inv_mono:
  assumes "runs_inv wf view w" "wf (w_approvals w')" "w_replay w \<subseteq> w_replay w'" "w_runs w' = w_runs w"
    and "\<And>i a. view (w_approvals w) i = Some a \<Longrightarrow> \<exists>b. view (w_approvals w') i = Some b \<and> state_le a b"
  shows "runs_inv wf view w'"
proof -
  have "view (w_approvals w') i = Some COMPLETED" if "view (w_approvals w) i = Some COMPLETED" for i
    using assms(5)[OF that] state_le_terminal[of COMPLETED] by blast
  with assms show ?thesis by (auto simp: runs_inv_def)
qed

lemma store_op_mono:
  assumes "wf s"
  shows "wf (snd (op_decide ops d s))"
    and "view s i = Some a \<Longrightarrow> \<exists>b. view (snd (op_decide ops d s)) i = Some b \<and> state_le a b"
    and "wf (snd (op_complete ops j s))"
    and "view s i = Some a \<Longrightarrow> \<exists>b. view (snd (op_complete ops j s)) i = Some b \<and> state_le a b"
  using step_wf[OF assms, of "OpDecide d"] step_mono[OF assms, of i a "OpDecide d"]
    step_wf[OF assms, of "OpComplete j"] step_mono[OF assms, of i a "OpComplete j"] by simp_all

lemma preserves_store_op:
  "preserves (runs_inv wf view) (on_approvals (apply_op ops op))"
proof (rule preservesI)
  fix w :: "('s, 'm, 'z) world"
  assume inv: "runs_inv wf view w"
  have w0: "wf (w_approvals w)" using inv by (simp add: runs_inv_def)
  show "runs_inv wf view (snd (on_approvals (apply_op ops op) w))"
    by (rule runs_inv_mono[OF inv])
       (use step_wf[OF w0, of op] step_mono[OF w0, of _ _ op] in \<open>auto simp: zoomS_def split: prod.splits\<close>)
qed

lemmas preserves_store_ops [preserves_rules] =
  preserves_store_op[of "OpCreate c" for c, simplified]
  preserves_store_op[of "OpGet i" for i, simplified]
  preserves_store_op[of "OpDecide d" for d, simplified]
  preserves_store_op[of "OpCancel i" for i, simplified]
  preserves_store_op[of "OpComplete i" for i, simplified]

lemma preserves_store_state [preserves_rules]: "preserves (runs_inv wf view) (on_approvals (op_state ops i))"
proof (rule preservesI)
  fix w :: "('s, 'm, 'z) world"
  assume inv: "runs_inv wf view w"
  have "snd (op_state ops i (w_approvals w)) = w_approvals w"
    using inv state_reads[OF _ prod.collapse[symmetric]] by (simp add: runs_inv_def)
  with inv show "runs_inv wf view (snd (on_approvals (op_state ops i) w))"
    by (simp add: zoomS_def runs_inv_def case_prod_unfold)
qed

lemma preserves_record_event [preserves_rules]:
  fixes d :: "('m, 'z) services_scheme"
  shows "preserves (runs_inv wf view :: ('s, 'm, 'a) world \<Rightarrow> bool) (record_event d mk required)"
proof (rule preservesI)
  fix w :: "('s, 'm, 'a) world"
  assume "runs_inv wf view w"
  then show "runs_inv wf view (snd (record_event d mk required w))"
    using record_event_frame[of d mk required w, OF prod.collapse[symmetric]]
    by (simp add: runs_inv_def same_but_audit_def)
qed

lemma finish_inv:
  assumes "runs_inv wf view w" "token_finish ts execute ch ctx c d w = (r, w')" "d_approvals ts = ops"
  shows "runs_inv wf view w'"
proof -
  have w0: "wf (w_approvals w)" using assms(1) by (simp add: runs_inv_def)
  note dec = store_op_mono(1,2)[OF w0, where d = d]
  show ?thesis
    using assms(2)
  proof (cases rule: token_finish_cases)
    case quiet
    then show ?thesis using w0 by (intro runs_inv_mono[OF assms(1)]) (auto intro: state_le_refl)
  next
    case decided
    then show ?thesis using dec assms(3) by (intro runs_inv_mono[OF assms(1)]) auto
  next
    case (asked st)
    then have "w_approvals w' = snd (op_decide ops d (w_approvals w))"
      using state_reads[OF dec(1)] assms(3) by blast
    with asked dec show ?thesis by (intro runs_inv_mono[OF assms(1)]) auto
  next
    case (failed st s1 e)
    then have s1: "s1 = snd (op_decide ops d (w_approvals w))"
      using state_reads[OF dec(1)] assms(3) by blast
    have "w_approvals w' = snd (op_complete ops (ch_approval_id ch) s1)" using failed(2) assms(3) by simp
    with failed(3,4) dec store_op_mono(3,4)[of s1] s1 show ?thesis
      by (intro runs_inv_mono[OF assms(1)]) (auto, metis state_le_trans)
  next
    case (ran ch1 ch2 s0 s1)
    have s0: "s0 = snd (op_decide ops d (w_approvals w))" using ran(4) assms(3) by simp
    have s1: "s1 = s0" using state_reads[OF dec(1)] ran(6) assms(3) s0 by blast
    have w1: "wf s1" using dec(1) s0 s1 by simp
    have co: "view s1 (ch_approval_id ch) = Some APPROVED"
      "view (w_approvals w') (ch_approval_id ch) = Some COMPLETED"
      using complete_approved[OF w1] ran(7) assms(3) by blast+
    have w2: "wf (w_approvals w')" using store_op_mono(3)[OF w1, where j = "ch_approval_id ch"] ran(7) assms(3) by simp
    have old: "view s1 i = Some COMPLETED \<and> view (w_approvals w') i = Some COMPLETED"
      if i: "i \<in> set (map snd (w_runs w))" for i
    proof -
      have "view (w_approvals w) i = Some COMPLETED" using assms(1) i by (auto simp: runs_inv_def)
      then have 1: "view s1 i = Some COMPLETED"
        using dec(2) s0 s1 state_le_terminal[of COMPLETED] by blast
      moreover have "view (w_approvals w') i = Some COMPLETED"
        using store_op_mono(4)[OF w1 1, where j = "ch_approval_id ch"] ran(7) assms(3)
          state_le_terminal[of COMPLETED] by auto
      ultimately show ?thesis by blast
    qed
    have "ch_approval_id ch \<notin> set (map snd (w_runs w))" using old co(1) by force
    moreover have "tc_token_id c \<notin> set (run_tokens (w_runs w))" using assms(1) ran(1) by (auto simp: runs_inv_def)
    ultimately show ?thesis
      using assms(1) ran(2,8) w2 co(2) old by (auto simp: runs_inv_def)
  qed
qed

lemma token_step_inv:
  assumes "token_step ts w w'" "runs_inv wf view w" "d_approvals ts = ops"
  shows "runs_inv wf view w'"
  using assms
proof (cases rule: token_step.cases)
  case (step_store op)
  have "wf (w_approvals w)" using assms(2) by (simp add: runs_inv_def)
  with step_store step_wf[of "w_approvals w" op] step_mono[of "w_approvals w" _ _ op] assms(3) show ?thesis
    by (intro runs_inv_mono[OF assms(2)]) auto
next
  case (step_outside m v a n k)
  then show ?thesis using assms(2) by (simp add: runs_inv_def)
next
  case (step_begin token ch ctx)
  then show ?thesis using assms(2) token_begin_frame[OF prod.collapse[symmetric], of ts token ch ctx w]
    by (simp add: runs_inv_def)
next
  case (step_finish execute ch ctx c d)
  then show ?thesis using finish_inv[OF assms(2) prod.collapse[symmetric] assms(3)] by simp
qed

lemma token_steps_inv:
  "(token_step ts)\<^sup>*\<^sup>* w w' \<Longrightarrow> runs_inv wf view w \<Longrightarrow> d_approvals ts = ops \<Longrightarrow> runs_inv wf view w'"
  by (induction rule: rtranclp_induct) (auto intro: token_step_inv)

end

text \<open>
  A token and an approval are spent at most once.  Let any number of resumes of any tokens run
  against one service and one in-memory store, each in its two parts and interleaved in any order
  with each other, with operations of the store and with anything the application and the audit
  boundary do.  Then no token identifier and no approval identifier has run protected work twice,
  and every approval whose work ran is completed.
\<close>

theorem token_runs_once:
  assumes "(token_step ts)\<^sup>*\<^sup>* (init_world (init_store clk) m v a) w"
    and "d_approvals ts = in_memory_ops"
  shows "distinct (run_tokens (w_runs w)) \<and> distinct (map snd (w_runs w))
     \<and> (\<forall>i \<in> set (map snd (w_runs w)). states (w_approvals w) i = Some COMPLETED)"
proof -
  have "runs_inv store_wf states (init_world (init_store clk) m v a)"
    by (simp add: runs_inv_def init_world_def store_wf_init)
  from mem.token_steps_inv[OF assms(1) this assms(2)] show ?thesis by (simp add: runs_inv_def)
qed

section \<open>What stands behind a run\<close>

lemma service_verify_ok:
  assumes "service_verify ts token ch w = (Inr (c, d), w')"
  shows "\<exists>raw v'. verify (ts_env ts) (ts_verifier ts) token (w_verifier w) = (Inr raw, v')
     \<and> c = claims_of raw \<and> d = token_decision c \<and> token_bound c ch
     \<and> tc_required_role c \<in> set (needed_roles ch) \<and> w' = w\<lparr>w_verifier := v'\<rparr>"
  using assms
  by (auto simp: service_verify_def prog_defs Let_def split: sum.splits prod.splits if_splits)

lemma token_begin_ok:
  assumes "token_begin ts token ch ctx w = (Inr (c, d), w')"
  shows "\<exists>raw v'. verify (ts_env ts) (ts_verifier ts) token (w_verifier w) = (Inr raw, v')
     \<and> c = claims_of raw \<and> d = token_decision c \<and> token_bound c ch \<and> tc_required_role c \<in> set (needed_roles ch)
     \<and> w_approvals w' = w_approvals w \<and> w_replay w' = w_replay w \<and> w_runs w' = w_runs w"
proof -
  obtain w1 where sv: "service_verify ts token ch w = (Inr (c, d), w1)"
    using assms by (auto simp: token_begin_def prog_defs split: sum.splits prod.splits)
  from service_verify_ok[OF this] token_begin_frame[OF assms] show ?thesis by blast
qed

definition now_of :: "verifier_state \<Rightarrow> int" where
  "now_of v = py_int (readings (vs_clock v) (reads (vs_clock v)))"

lemma consume_run:
  assumes "consume_and_resume ts token execute ch ctx w = (r, w')" "w_runs w' \<noteq> w_runs w"
    and "d_approvals ts = in_memory_ops"
  shows "\<exists>raw. claims_valid (ts_verifier ts) (now_of (w_verifier w)) raw
     \<and> token_bound (claims_of raw) ch \<and> str_claim raw ''required_role'' \<in> set (needed_roles ch)
     \<and> str_claim raw ''decision'' = ''approve''
     \<and> (ch_principal_subject_id ch = [] \<or> ch_principal_subject_id ch = subject_id (ac_principal ctx))
     \<and> str_claim raw ''jti'' \<notin> w_replay w \<and> str_claim raw ''jti'' \<in> w_replay w'
     \<and> states (w_approvals w) (ch_approval_id ch) = Some REQUIRED
     \<and> states (w_approvals w') (ch_approval_id ch) = Some COMPLETED
     \<and> w_runs w' = w_runs w @ [(Some (str_claim raw ''jti''), ch_approval_id ch)]"
proof -
  obtain rb w1 where b: "token_begin ts token ch ctx w = (rb, w1)" by fastforce
  have "\<exists>c d. rb = Inr (c, d)"
    using assms(1,2) b token_begin_frame[OF b]
    by (cases rb) (auto simp: consume_and_resume_def prog_defs)
  then obtain c d where rb: "rb = Inr (c, d)" by blast
  from token_begin_ok[OF b[unfolded rb]] obtain raw v' where
    v: "verify (ts_env ts) (ts_verifier ts) token (w_verifier w) = (Inr raw, v')"
    and cd: "c = claims_of raw" "d = token_decision c" "token_bound c ch"
      "tc_required_role c \<in> set (needed_roles ch)"
    and fr: "w_approvals w1 = w_approvals w" "w_replay w1 = w_replay w" "w_runs w1 = w_runs w" by blast
  have fin: "token_finish ts execute ch ctx c d w1 = (r, w')"
    using assms(1) b rb by (simp add: consume_and_resume_def prog_defs)
  have valid: "claims_valid (ts_verifier ts) (now_of (w_verifier w)) raw"
    using verified_claims_valid[OF v] by (simp add: now_of_def)
  from fin show ?thesis
  proof (cases rule: token_finish_cases)
    case (ran ch1 ch2 s0 s1)
    have "approval_decide d (w_approvals w) = (Inr ch1, s0)" using ran(4) fr(1) assms(3) by (simp add: in_memory_ops_def)
    from approval_decide_ok[OF this] have pend: "states (w_approvals w) (ch_approval_id ch) = Some REQUIRED"
      using cd by (simp add: token_decision_def token_bound_def)
    have "approval_complete (ch_approval_id ch) s1 = (Inr ch2, w_approvals w')"
      using ran(7) assms(3) by (simp add: in_memory_ops_def)
    from approval_complete_ok[OF this] have comp: "states (w_approvals w') (ch_approval_id ch) = Some COMPLETED" by simp
    from valid cd pend comp ran fr show ?thesis
      by (intro exI[of _ raw]) (auto simp: claims_of_def token_decision_def)
  qed (use assms(2) fr in auto)
qed

lemma rejected_token_quiet:
  assumes "verify (ts_env ts) (ts_verifier ts) token (w_verifier w) = (Inl e, v1)"
    and "consume_token_and_resume ts token execute ctx w = (r, w')"
  shows "w_runs w' = w_runs w"
proof -
  obtain r2 w2 where rec: "record_event ts (signature_rejected_event ctx) False (w\<lparr>w_verifier := v1\<rparr>) = (r2, w2)"
    by fastforce
  have "w' = w2 \<or> w' = w\<lparr>w_verifier := v1\<rparr>"
    using assms rec by (cases r2) (simp_all add: consume_token_and_resume_def prog_defs split: if_splits)
  with record_event_frame[OF rec] show ?thesis by (auto simp: same_but_audit_def)
qed


text \<open>
  A role outside the needed ones never gets a token accepted.  When the displayed role of a
  challenge is not itself one of the roles the challenge needs, as for every challenge that
  aggregates several roles, no token verifies for it.
\<close>

lemma aggregate_role_unreachable:
  assumes "ch_required_role ch \<notin> set (needed_roles ch)"
  shows "\<exists>e. fst (service_verify ts token ch w) = Inl e"
proof (cases "fst (service_verify ts token ch w)")
  case (Inr res)
  then obtain c d w' where "service_verify ts token ch w = (Inr (c, d), w')" by (metis prod.collapse)
  from service_verify_ok[OF this] assms show ?thesis by (auto simp: token_bound_def)
qed blast

section \<open>A sample service\<close>

definition sample_service :: "(approval_store, 'm, unit, unit) token_service" where
  "sample_service = \<lparr>d_audit = None, d_event_id = (\<lambda>_. ''e''),
     d_event_time = (\<lambda>_. 0), d_approvals = in_memory_ops, ts_env = sample_env sample_claims, ts_verifier = sample_verifier\<rparr>"

definition sample_context :: authorization_context where
  "sample_context = \<lparr>ac_principal = \<lparr>subject_id = ''u'', issuer = ''i'', audience = OneAudience ''a'',
     claims = VProxy [], roles = {}, scopes = {''write''}\<rparr>, ac_task_id = ''t'', ac_correlation_id = ''c'',
     ac_policy_metadata = VProxy []\<rparr>"

definition sample_world :: "(approval_store, unit, nat) world" where
  "sample_world = init_world (snd (approval_create (sample_challenge []) (init_store sample_clock))) ()
     sample_verifier_state 0"

text \<open>The protected work of the samples counts its runs.\<close>

definition sample_work :: "(nat, sec_error, pyval) prog" where
  "sample_work n = (Inr VNone, Suc n)"

lemma sample_claims_of:
  "claims_of sample_claims = \<lparr>tc_issuer = ''issuer'', tc_audience = ''conducto'', tc_subject = ''boss'',
     tc_issued_at = 1, tc_not_before = 1, tc_expires_at = 400, tc_token_id = ''j1'', tc_challenge_id = ''a1'',
     tc_task_id = ''t'', tc_agent_id = ''agent'', tc_capability_id = ''cap'', tc_decision = ''approve'',
     tc_required_role = ''ops'', tc_policy_version = ''1'', tc_contract_version = ''1''\<rparr>"
  by (simp add: claims_of_def sample_claims_def str_claim_def num_claim_def)

lemma verify_readings: "readings (vs_clock (snd (verify env vf token v))) = readings (vs_clock v)"
proof -
  have valid: "validate_claims vf cl clk = (r, clk') \<Longrightarrow> readings clk' = readings clk" for cl clk clk' r
    by (auto simp: validate_claims_def tick_def Let_def split: option.splits if_splits)
  have tok: "verify_token env vf token clk = (r, clk') \<Longrightarrow> readings clk' = readings clk" for clk clk' r
    by (auto simp: verify_token_def dest: valid
        split: if_splits list.splits sum.splits option.splits pyval.splits prod.splits)
  then show ?thesis
    by (auto simp: verify_def hook_record_def dest: tok split: prod.splits sum.splits)
qed

lemma sample_verify:
  assumes "readings (vs_clock v) = (\<lambda>_. 10)"
  obtains v' where "verify (sample_env sample_claims) sample_verifier sample_token v = (Inr sample_claims, v')"
    "readings (vs_clock v') = (\<lambda>_. 10)"
proof -
  have "fst (verify (sample_env sample_claims) sample_verifier sample_token v) = Inr sample_claims"
    unfolding sample_token_def using assms sample_claims_valid
    by (intro sign_verifies[OF sample_hypotheses(1,2) _ sample_hypotheses(3-5)]) (simp_all add: py_int_def)
  with verify_readings[of "sample_env sample_claims" sample_verifier sample_token v] assms show ?thesis
    by (intro that[of "snd (verify (sample_env sample_claims) sample_verifier sample_token v)"])
       (auto simp: prod_eq_iff)
qed

lemma sample_finish:
  assumes "w_approvals w = w_approvals sample_world" "w_replay w = {}" "w_runs w = []"
  shows "\<exists>w'. token_finish sample_service sample_work (sample_challenge []) sample_context
      (claims_of sample_claims) (token_decision (claims_of sample_claims)) w = (Inr VNone, w')
    \<and> w_runs w' = [(Some ''j1'', ''a1'')]"
  using assms
  by (simp add: token_finish_def sample_service_def sample_challenge_def sample_context_def sample_claims_of
      token_decision_def sample_world_def init_world_def in_memory_ops_def store_op_defs init_store_def
      sample_clock_def replay_consume_def run_protected_def sample_work_def needed_roles_def
      decision_role_def Let_def)

theorem token_runs_once_witness:
  "\<exists>w. (token_step sample_service)\<^sup>*\<^sup>* (init_world (init_store sample_clock) () sample_verifier_state (0::nat)) w
     \<and> w_runs w = [(Some ''j1'', ''a1'')] \<and> distinct (run_tokens (w_runs w))
     \<and> states (w_approvals w) ''a1'' = Some COMPLETED"
proof -
  let ?w0 = "init_world (init_store sample_clock) () sample_verifier_state (0::nat)"
  have "sample_world = ?w0\<lparr>w_approvals := snd (apply_op (d_approvals sample_service)
      (OpCreate (sample_challenge [])) (w_approvals ?w0))\<rparr>"
    by (simp add: sample_world_def sample_service_def init_world_def in_memory_ops_def)
  then have s1: "token_step sample_service ?w0 sample_world" using step_store by metis
  obtain w' where fin: "token_finish sample_service sample_work (sample_challenge []) sample_context
      (claims_of sample_claims) (token_decision (claims_of sample_claims)) sample_world = (Inr VNone, w')"
    "w_runs w' = [(Some ''j1'', ''a1'')]"
    using sample_finish[of sample_world] by (auto simp: sample_world_def init_world_def)
  have "token_step sample_service sample_world w'" using step_finish fin(1) by (metis snd_conv)
  with s1 have steps: "(token_step sample_service)\<^sup>*\<^sup>* ?w0 w'" by simp
  from token_runs_once[OF steps] fin(2) show ?thesis
    by (intro exI[of _ w'] conjI steps) (simp_all add: sample_service_def)
qed

lemma sample_world_wf: "store_wf (w_approvals sample_world)"
  using approval_create_run[OF prod.collapse[symmetric] store_wf_init]
  by (simp add: sample_world_def init_world_def)


end
