(* ===== verification/Pipeline.thy ===== *)
theory Pipeline
  imports ApprovalToken "HOL-Library.Multiset"
begin

text \<open>
  \<open>security/guardrails.py\<close> (the metadata that decorators attach to a capability) and
  \<open>security/pipeline.py\<close> (the checks before an invocation, the resumption of an approved one, its
  cancellation, and the audit evidence of each).

  The pipeline works on the same \<open>world\<close> as the token service; the two share the application's
  approval store and audit boundary.
\<close>

section \<open>Guardrails\<close>

text \<open>
  A condition is an application callback of the caller and the validated arguments; \<open>None\<close> as its
  result means that it raised.
\<close>

type_synonym condition = "authorization_context \<Rightarrow> json_object \<Rightarrow> bool option"

record approval_requirement =
  ar_role :: string
  ar_condition :: "condition option"

record guardrails =
  gr_scopes :: "string list"
  gr_approvals :: "approval_requirement list"

definition no_guardrails :: guardrails where
  "no_guardrails = \<lparr>gr_scopes = [], gr_approvals = []\<rparr>"

text \<open>The attribute of a callable, if it has been set.\<close>

definition get_guardrails :: "guardrails option \<Rightarrow> guardrails" where
  "get_guardrails attribute = (case attribute of None \<Rightarrow> no_guardrails | Some g \<Rightarrow> g)"

definition merge_guardrails ::
  "string option \<Rightarrow> approval_requirement option \<Rightarrow> guardrails option \<Rightarrow> guardrails option" where
  "merge_guardrails scope approval attribute =
     (let current = get_guardrails attribute;
          scs = (case scope of None \<Rightarrow> gr_scopes current | Some s \<Rightarrow> s # gr_scopes current);
          approvals = gr_approvals current @ (case approval of None \<Rightarrow> [] | Some a \<Rightarrow> [a]) in
      Some \<lparr>gr_scopes = sorted_unique scs, gr_approvals = sort_key ar_role approvals\<rparr>)"

text \<open>The two decorators: \<open>Inl\<close> is the exception of the decorator call.\<close>

datatype decorator = RequireScope "string list" | RequireApproval string "condition option"

definition decorate :: "decorator \<Rightarrow> guardrails option \<Rightarrow> py_error + guardrails option" where
  "decorate d attribute =
     (case d of
        RequireScope scs \<Rightarrow>
          if scs = [] \<or> [] \<in> set scs then Inl ValueError
          else Inr (fold (\<lambda>s a. merge_guardrails (Some s) None a) scs attribute)
      | RequireApproval role condition \<Rightarrow>
          if role = [] then Inl ValueError
          else Inr (merge_guardrails None (Some \<lparr>ar_role = role, ar_condition = condition\<rparr>) attribute))"

fun decorate_all :: "decorator list \<Rightarrow> guardrails option \<Rightarrow> py_error + guardrails option" where
  "decorate_all [] a = Inr a"
| "decorate_all (d # ds) a = (case decorate d a of Inl e \<Rightarrow> Inl e | Inr a' \<Rightarrow> decorate_all ds a')"

fun decorator_scopes :: "decorator \<Rightarrow> string set" where
  "decorator_scopes (RequireScope scs) = set scs"
| "decorator_scopes (RequireApproval _ _) = {}"

fun decorator_approvals :: "decorator \<Rightarrow> approval_requirement multiset" where
  "decorator_approvals (RequireScope _) = {#}"
| "decorator_approvals (RequireApproval role c) = {#\<lparr>ar_role = role, ar_condition = c\<rparr>#}"

definition guardrails_wf :: "guardrails \<Rightarrow> bool" where
  "guardrails_wf g \<longleftrightarrow> sorted (gr_scopes g) \<and> distinct (gr_scopes g) \<and> sorted (map ar_role (gr_approvals g))"

lemma merge_guardrails_props:
  "\<exists>g. merge_guardrails scope approval a = Some g \<and> guardrails_wf g
     \<and> set (gr_scopes g) = set_option scope \<union> set (gr_scopes (get_guardrails a))
     \<and> mset (gr_approvals g) = mset (gr_approvals (get_guardrails a))
          + (case approval of None \<Rightarrow> {#} | Some r \<Rightarrow> {#r#})"
  by (auto simp: merge_guardrails_def guardrails_wf_def Let_def split: option.splits)

lemma merge_scopes_props:
  "scs \<noteq> [] \<Longrightarrow> \<exists>g. fold (\<lambda>s a. merge_guardrails (Some s) None a) scs a = Some g \<and> guardrails_wf g
     \<and> set (gr_scopes g) = set scs \<union> set (gr_scopes (get_guardrails a))
     \<and> mset (gr_approvals g) = mset (gr_approvals (get_guardrails a))"
proof (induction scs arbitrary: a)
  case (Cons s scs)
  obtain g where g: "merge_guardrails (Some s) None a = Some g" "guardrails_wf g"
    "set (gr_scopes g) = insert s (set (gr_scopes (get_guardrails a)))"
    "mset (gr_approvals g) = mset (gr_approvals (get_guardrails a))"
    using merge_guardrails_props[of "Some s" None a] by auto
  show ?case
  proof (cases "scs = []")
    case False
    from Cons.IH[OF False, of "Some g"] obtain h where
      "fold (\<lambda>s a. merge_guardrails (Some s) None a) scs (Some g) = Some h" "guardrails_wf h"
      "set (gr_scopes h) = set scs \<union> set (gr_scopes g)" "mset (gr_approvals h) = mset (gr_approvals g)"
      by (auto simp: get_guardrails_def)
    with g show ?thesis by simp
  qed (use g in simp)
qed simp

lemma decorate_props:
  assumes "decorate d a = Inr a'"
  shows "\<exists>g. a' = Some g \<and> guardrails_wf g
     \<and> set (gr_scopes g) = set (gr_scopes (get_guardrails a)) \<union> decorator_scopes d
     \<and> mset (gr_approvals g) = mset (gr_approvals (get_guardrails a)) + decorator_approvals d"
proof (cases d)
  case (RequireScope scs)
  then show ?thesis using assms merge_scopes_props[of scs a]
    by (auto simp: decorate_def split: if_splits)
next
  case (RequireApproval role c)
  then show ?thesis
    using assms merge_guardrails_props[of None "Some \<lparr>ar_role = role, ar_condition = c\<rparr>" a]
    by (force simp: decorate_def split: if_splits)
qed

lemma decorate_all_props:
  "decorate_all ds a = Inr a' \<Longrightarrow> guardrails_wf (get_guardrails a) \<Longrightarrow>
   guardrails_wf (get_guardrails a')
   \<and> set (gr_scopes (get_guardrails a')) = set (gr_scopes (get_guardrails a)) \<union> (\<Union>d \<in> set ds. decorator_scopes d)
   \<and> mset (gr_approvals (get_guardrails a')) = mset (gr_approvals (get_guardrails a)) + (\<Sum>d \<leftarrow> ds. decorator_approvals d)"
proof (induction ds arbitrary: a)
  case (Cons d ds)
  then obtain a1 where d: "decorate d a = Inr a1" and rest: "decorate_all ds a1 = Inr a'"
    by (auto split: sum.splits)
  from decorate_props[OF d] Cons.IH[OF rest] show ?case
    by (auto simp: get_guardrails_def Un_assoc add.assoc)
qed simp

text \<open>
  Decorators accumulate.  Whatever scope and approval decorators are stacked on a capability,
  in whatever order, the requirements they leave are exactly the union of the scopes, sorted and
  without repetition, and all the approval requirements, sorted by role: no decorator undoes
  another.
\<close>

theorem guardrails_accumulate:
  assumes "decorate_all ds None = Inr a"
  shows "sorted (gr_scopes (get_guardrails a)) \<and> distinct (gr_scopes (get_guardrails a))
     \<and> sorted (map ar_role (gr_approvals (get_guardrails a)))
     \<and> set (gr_scopes (get_guardrails a)) = (\<Union>d \<in> set ds. decorator_scopes d)
     \<and> mset (gr_approvals (get_guardrails a)) = (\<Sum>d \<leftarrow> ds. decorator_approvals d)"
  using decorate_all_props[OF assms] by (simp add: get_guardrails_def guardrails_wf_def no_guardrails_def)

theorem guardrails_accumulate_witness:
  "\<exists>a. decorate_all [RequireScope [''write'', ''read''], RequireApproval ''ops'' None, RequireScope [''read'']] None = Inr a
     \<and> set (gr_scopes (get_guardrails a)) = {''read'', ''write''}
     \<and> mset (gr_approvals (get_guardrails a)) = {#\<lparr>ar_role = ''ops'', ar_condition = None\<rparr>#}"
proof -
  let ?ds = "[RequireScope [''write'', ''read''], RequireApproval ''ops'' None, RequireScope [''read'']]"
  obtain a where a: "decorate_all ?ds None = Inr a" by (simp add: decorate_def)
  from guardrails_accumulate[OF a] a show ?thesis by auto
qed

section \<open>The pipeline\<close>

text \<open>
  \<open>pl_new_id\<close> and \<open>pl_now\<close> are the identifier generator and the clock for the \<open>n\<close>-th challenge.
\<close>

record ('s, 'm, 'priv, 'key) pipeline = "'m services" +
  pl_store :: "'s approval_ops option"
  pl_new_id :: "nat \<Rightarrow> string"
  pl_now :: "nat \<Rightarrow> time"
  pl_tokens :: "('s, 'm, 'priv, 'key) token_service option"

record guardrail_result =
  rs_allowed :: bool
  rs_challenge :: "approval_challenge option"
  rs_error :: "sec_error option"

definition allowed_result :: guardrail_result where
  "allowed_result = \<lparr>rs_allowed = True, rs_challenge = None, rs_error = None\<rparr>"

definition denied_result :: "sec_error \<Rightarrow> guardrail_result" where
  "denied_result e = \<lparr>rs_allowed = False, rs_challenge = None, rs_error = Some e\<rparr>"

definition challenge_result :: "approval_challenge \<Rightarrow> guardrail_result" where
  "challenge_result c = \<lparr>rs_allowed = False, rs_challenge = Some c, rs_error = None\<rparr>"

text \<open>The roles whose condition applies; \<open>None\<close> when a condition raised.\<close>

fun applicable_roles ::
  "authorization_context \<Rightarrow> json_object \<Rightarrow> approval_requirement list \<Rightarrow> string list option" where
  "applicable_roles ctx args [] = Some []"
| "applicable_roles ctx args (r # rs) =
     (case (case ar_condition r of None \<Rightarrow> Some True | Some c \<Rightarrow> c ctx args) of
        None \<Rightarrow> None
      | Some applies \<Rightarrow>
          map_option (\<lambda>roles. if applies then ar_role r # roles else roles) (applicable_roles ctx args rs))"

fun join_commas :: "string list \<Rightarrow> string" where
  "join_commas [] = []"
| "join_commas [r] = r"
| "join_commas (r # q # rs) = r @ '','' @ join_commas (q # rs)"

definition pipeline_challenge ::
  "('s, 'm, 'priv, 'key) pipeline \<Rightarrow> nat \<Rightarrow> authorization_context \<Rightarrow> string \<Rightarrow> string \<Rightarrow> string list \<Rightarrow> approval_challenge" where
  "pipeline_challenge pl n ctx agent cap applicable =
     default_challenge ctx agent cap (join_commas (sorted_unique applicable)) ''approval_required'' 300
       (pl_new_id pl n) (pl_now pl n) (sorted_unique applicable) None"

definition next_id :: "(('s, 'm, 'a) world, 'e, nat) prog" where
  "next_id w = (Inr (w_ids w), w\<lparr>w_ids := Suc (w_ids w)\<rparr>)"

text \<open>\<open>check\<close>, on an application callable with the attribute \<open>target\<close>.\<close>

definition check ::
  "('s, 'm, 'priv, 'key) pipeline \<Rightarrow> guardrails option \<Rightarrow> authorization_context option \<Rightarrow> json_object
   \<Rightarrow> string \<Rightarrow> string \<Rightarrow> string option \<Rightarrow> (('s, 'm, 'a) world, sec_error, guardrail_result) prog" where
  "check pl target caller args agent cap approved_id =
     (let g = get_guardrails target in
      if approved_id \<noteq> None then
        retS (if pl_store pl = None then denied_result InvalidApprovalState else allowed_result)
      else if gr_scopes g = [] \<and> gr_approvals g = [] then retS allowed_result
      else case caller of
        None \<Rightarrow> retS (denied_result MissingAuthorizationContext)
      | Some ctx \<Rightarrow>
          if \<not> set (gr_scopes g) \<subseteq> scopes (ac_principal ctx) then retS (denied_result InsufficientScope)
          else case applicable_roles ctx args (gr_approvals g) of
            None \<Rightarrow> retS (denied_result PolicyEvaluation)
          | Some applicable \<Rightarrow>
              if applicable = [] then retS allowed_result
              else bindS next_id (\<lambda>n.
                let ch = pipeline_challenge pl n ctx agent cap applicable in
                case pl_store pl of
                  None \<Rightarrow> retS (challenge_result ch)
                | Some ops \<Rightarrow> bindS (on_approvals (op_create ops ch)) (\<lambda>c. retS (challenge_result c))))"

text \<open>\<open>_emit\<close>, with the fields that every event of the pipeline shares.\<close>

definition starts_with :: "string \<Rightarrow> string \<Rightarrow> bool" where
  "starts_with p s \<longleftrightarrow> take (length p) s = p"

definition event_category :: "audit_event_name \<Rightarrow> audit_category" where
  "event_category name =
     (if starts_with ''security.authorization'' (event_value name) then AUTHORIZATION
      else if starts_with ''security.approval'' (event_value name) then APPROVAL else EXECUTION)"

record invocation_site =
  is_agent :: string
  is_capability :: string
  is_chain :: "string list"

definition pipeline_event ::
  "audit_event_name \<Rightarrow> authorization_context option \<Rightarrow> invocation_site \<Rightarrow> audit_decision \<Rightarrow> audit_outcome
   \<Rightarrow> string \<Rightarrow> string \<Rightarrow> string \<Rightarrow> (string \<times> pyval) list \<Rightarrow> string \<Rightarrow> time \<Rightarrow> audit_event" where
  "pipeline_event name caller site decision outcome reason challenge_id policy_version extensions i t =
     \<lparr>ev_event_name = name, ev_category = event_category name, ev_decision = decision, ev_outcome = outcome,
      ev_reason_code = reason,
      ev_subject_id = (case caller of None \<Rightarrow> [] | Some c \<Rightarrow> subject_id (ac_principal c)),
      ev_issuer = (case caller of None \<Rightarrow> [] | Some c \<Rightarrow> issuer (ac_principal c)),
      ev_audience = (case caller of None \<Rightarrow> OneAudience [] | Some c \<Rightarrow> audience (ac_principal c)),
      ev_task_id = (case caller of None \<Rightarrow> [] | Some c \<Rightarrow> ac_task_id c),
      ev_challenge_id = challenge_id, ev_agent_id = is_agent site, ev_capability_id = is_capability site,
      ev_policy_id = ''conducto.guardrails'', ev_policy_version = policy_version,
      ev_correlation_id = (case caller of None \<Rightarrow> [] | Some c \<Rightarrow> ac_correlation_id c),
      ev_resource = ''capability:'' @ is_agent site @ '':'' @ is_capability site,
      ev_severity = (if outcome \<in> {FAILURE, REJECTED} then ERROR else INFO),
      ev_event_id = i, ev_occurred_at = t, ev_sequence = 0, ev_extensions = extensions,
      ev_instruction_chain = is_chain site\<rparr>"

text \<open>The extensions of an event: the caller's, then the failure classification when there is one.\<close>

definition event_extensions :: "(string \<times> pyval) list \<Rightarrow> string option \<Rightarrow> (string \<times> pyval) list" where
  "event_extensions extensions classification =
     (case classification of None \<Rightarrow> extensions
      | Some c \<Rightarrow> dset ''failure_classification'' (VStr c) extensions)"

abbreviation evidence ::
  "('m, 'z) services_scheme \<Rightarrow> authorization_context option \<Rightarrow> invocation_site \<Rightarrow> bool \<Rightarrow> audit_event_name
   \<Rightarrow> audit_decision \<Rightarrow> audit_outcome \<Rightarrow> string \<Rightarrow> string \<Rightarrow> string \<Rightarrow> (('s, 'm, 'a) world, sec_error, unit) prog" where
  "evidence d caller site required name decision outcome reason challenge_id policy_version \<equiv>
     record_event d (pipeline_event name caller site decision outcome reason challenge_id policy_version []) required"

definition emit_execution ::
  "('m, 'z) services_scheme \<Rightarrow> audit_event_name \<Rightarrow> authorization_context option \<Rightarrow> invocation_site \<Rightarrow> audit_outcome
   \<Rightarrow> string \<Rightarrow> string option \<Rightarrow> (string \<times> pyval) list \<Rightarrow> (('s, 'm, 'a) world, sec_error, unit) prog" where
  "emit_execution d name caller site outcome reason classification extensions =
     record_event d (pipeline_event name caller site ALLOW outcome reason [] ''1''
       (event_extensions extensions classification)) False"

text \<open>\<open>check_async\<close>: the check, then its mandatory evidence.\<close>

definition check_async ::
  "('s, 'm, 'priv, 'key) pipeline \<Rightarrow> guardrails option \<Rightarrow> authorization_context option \<Rightarrow> json_object
   \<Rightarrow> invocation_site \<Rightarrow> string option \<Rightarrow> (('s, 'm, 'a) world, sec_error, guardrail_result) prog" where
  "check_async pl target caller args site approved_id =
     bindS (check pl target caller args (is_agent site) (is_capability site) approved_id) (\<lambda>result.
       let g = get_guardrails target in
       if d_audit pl = None then retS result
       else if gr_scopes g = [] \<and> gr_approvals g = [] \<and> (approved_id = None \<or> approved_id = Some []) then retS result
       else thenS
         (case rs_challenge result of
            Some ch \<Rightarrow> evidence pl caller site True APPROVAL_REQUESTED REQUIRE_APPROVAL PENDING
              (ch_reason_code ch) (ch_approval_id ch) (ch_policy_version ch)
          | None \<Rightarrow>
              if rs_allowed result then
                thenS (evidence pl caller site True AUTHORIZATION_ALLOWED ALLOW SUCCESS ''authorized'' [] ''1'')
                  (evidence pl caller site True EXECUTION_ACCEPTED ALLOW SUCCESS ''audit_accepted'' [] ''1'')
              else evidence pl caller site True AUTHORIZATION_DENIED DENY REJECTED
                (case rs_error result of None \<Rightarrow> ''authorization_denied'' | Some e \<Rightarrow> reason_code e) [] ''1'')
         (retS result))"

text \<open>
  \<open>resume\<close>, in the parts between which the coroutine yields: the decision (with the evidence of
  its failures), the mandatory evidence of the approval, and the completion with the protected
  work.
\<close>

definition when_expired ::
  "('s, 'm, 'priv, 'key) pipeline \<Rightarrow> authorization_context \<Rightarrow> invocation_site \<Rightarrow> string
   \<Rightarrow> (('s, 'm, 'a) world, sec_error, 'r) prog \<Rightarrow> (('s, 'm, 'a) world, sec_error, 'r) prog" where
  "when_expired pl ctx site i m =
     catchS m (\<lambda>e. thenS (if e = ApprovalExpired
                     then evidence pl (Some ctx) site False APPROVAL_EXPIRED DENY REJECTED ''expired'' i ''1''
                     else retS ()) (raiseS e))"

definition challenge_bound :: "approval_challenge \<Rightarrow> invocation_site \<Rightarrow> authorization_context \<Rightarrow> bool" where
  "challenge_bound ch site ctx \<longleftrightarrow> ch_agent_id ch = is_agent site \<and> ch_capability_id ch = is_capability site
     \<and> ch_task_id ch = ac_task_id ctx \<and> ch_correlation_id ch = ac_correlation_id ctx
     \<and> (ch_principal_subject_id ch = [] \<or> ch_principal_subject_id ch = subject_id (ac_principal ctx))"

definition reason_or :: "string \<Rightarrow> string \<Rightarrow> string" where
  "reason_or r fallback = (if r = [] then fallback else r)"

definition resume_decide ::
  "('s, 'm, 'priv, 'key) pipeline \<Rightarrow> 's approval_ops \<Rightarrow> approval_decision \<Rightarrow> invocation_site \<Rightarrow> authorization_context
   \<Rightarrow> (('s, 'm, 'a) world, sec_error, approval_challenge) prog" where
  "resume_decide pl ops d site ctx =
     bindS (when_expired pl ctx site (dec_approval_id d)
        (catchS (on_approvals (op_get ops (dec_approval_id d)))
           (\<lambda>e. raiseS (if e = Foreign KeyError then InvalidApprovalState else e)))) (\<lambda>ch0.
     thenS (guardS (challenge_bound ch0 site ctx) InvalidApprovalState) (
     bindS (when_expired pl ctx site (dec_approval_id d) (on_approvals (op_decide ops d))) (\<lambda>ch.
     if \<not> dec_approved d then
       thenS (evidence pl (Some ctx) site True APPROVAL_DENIED DENY REJECTED
                (reason_or (dec_reason_code d) ''denied'') (ch_approval_id ch) (ch_policy_version ch))
         (raiseS AuthorizationDenied)
     else bindS (on_approvals (op_state ops (ch_approval_id ch))) (\<lambda>st.
       if st \<noteq> APPROVED then
         thenS (evidence pl (Some ctx) site True APPROVAL_APPROVED REQUIRE_APPROVAL PENDING
                  ''additional_approval_required'' (ch_approval_id ch) (ch_policy_version ch))
           (raiseS ApprovalRequired)
       else retS ch))))"

definition resume_finish ::
  "'s approval_ops \<Rightarrow> ('a, sec_error, 'v) prog \<Rightarrow> string \<Rightarrow> (('s, 'm, 'a) world, sec_error, 'v) prog" where
  "resume_finish ops execute i = thenS (on_approvals (op_complete ops i)) (run_protected None i execute)"

definition resume ::
  "('s, 'm, 'priv, 'key) pipeline \<Rightarrow> approval_decision \<Rightarrow> ('a, sec_error, 'v) prog \<Rightarrow> invocation_site
   \<Rightarrow> authorization_context \<Rightarrow> (('s, 'm, 'a) world, sec_error, 'v) prog" where
  "resume pl d execute site ctx =
     (case pl_store pl of
        None \<Rightarrow> raiseS InvalidApprovalState
      | Some ops \<Rightarrow>
          bindS (resume_decide pl ops d site ctx) (\<lambda>ch.
          thenS (evidence pl (Some ctx) site True APPROVAL_APPROVED ALLOW SUCCESS
                   (reason_or (dec_reason_code d) ''approved'') (ch_approval_id ch) (ch_policy_version ch))
            (resume_finish ops execute (ch_approval_id ch))))"

definition cancel_approval ::
  "('s, 'm, 'priv, 'key) pipeline \<Rightarrow> string \<Rightarrow> invocation_site \<Rightarrow> authorization_context
   \<Rightarrow> (('s, 'm, 'a) world, sec_error, approval_challenge) prog" where
  "cancel_approval pl i site ctx =
     (case pl_store pl of
        None \<Rightarrow> raiseS InvalidApprovalState
      | Some ops \<Rightarrow>
          bindS (when_expired pl ctx site i (on_approvals (op_cancel ops i))) (\<lambda>ch.
          thenS (evidence pl (Some ctx) site False APPROVAL_CANCELED DENY REJECTED ''canceled''
                   (ch_approval_id ch) (ch_policy_version ch)) (retS ch)))"

definition resume_token ::
  "('s, 'm, 'priv, 'key) pipeline \<Rightarrow> string \<Rightarrow> ('a, sec_error, 'v) prog \<Rightarrow> authorization_context
   \<Rightarrow> (('s, 'm, 'a) world, sec_error, 'v) prog" where
  "resume_token pl token execute ctx =
     (case pl_tokens pl of
        None \<Rightarrow> raiseS InvalidApprovalState
      | Some ts \<Rightarrow> consume_token_and_resume ts token execute ctx)"

section \<open>What the check decides\<close>

lemma applicable_roles_Some:
  "applicable_roles ctx args rs = Some xs \<longleftrightarrow>
   (\<forall>r \<in> set rs. \<forall>c. ar_condition r = Some c \<longrightarrow> c ctx args \<noteq> None)
   \<and> xs = map ar_role (filter (\<lambda>r. case ar_condition r of None \<Rightarrow> True | Some c \<Rightarrow> c ctx args = Some True) rs)"
  by (induction rs arbitrary: xs) (auto split: option.splits)

lemma no_applicable_role:
  "applicable_roles ctx args rs = Some [] \<longleftrightarrow>
   list_all (\<lambda>r. \<exists>c. ar_condition r = Some c \<and> c ctx args = Some False) rs"
  by (induction rs) (auto split: option.splits)


lemma check_challenge:
  assumes "check pl target caller args agent cap approved_id w = (Inr r, w')" "rs_challenge r = Some ch"
  shows "\<exists>ctx rls. caller = Some ctx \<and> rls \<noteq> []
     \<and> applicable_roles ctx args (gr_approvals (get_guardrails target)) = Some rls
     \<and> (case pl_store pl of
          None \<Rightarrow> ch = pipeline_challenge pl (w_ids w) ctx agent cap rls \<and> w' = w\<lparr>w_ids := Suc (w_ids w)\<rparr>
        | Some ops \<Rightarrow> \<exists>s'. op_create ops (pipeline_challenge pl (w_ids w) ctx agent cap rls) (w_approvals w) = (Inr ch, s')
            \<and> w' = w\<lparr>w_ids := Suc (w_ids w), w_approvals := s'\<rparr>)"
  using assms
  by (auto simp: check_def prog_defs Let_def allowed_result_def denied_result_def challenge_result_def next_id_def
       split: option.splits prod.splits sum.splits if_splits)

lemma approval_create_ok:
  "approval_create c s = (Inr ch, s') \<Longrightarrow> ch = c \<and> items s' (ch_approval_id c) = Some c
   \<and> states s' (ch_approval_id c) = Some REQUIRED \<and> approved_roles s' (ch_approval_id c) = Some {}"
  by (auto simp: approval_create_def split: if_splits)

lemma pipeline_challenge_needed:
  "rls \<noteq> [] \<Longrightarrow> needed_roles (pipeline_challenge pl n ctx agent cap rls) = sorted_unique rls"
  by (simp add: needed_roles_def pipeline_challenge_def default_challenge_def)

lemma stored_challenge:
  assumes "check pl target caller args agent cap approved_id w = (Inr r, w')" "rs_challenge r = Some ch"
    and "pl_store pl = None \<or> pl_store pl = Some in_memory_ops"
  obtains ctx rls where "caller = Some ctx" "rls \<noteq> []"
    "applicable_roles ctx args (gr_approvals (get_guardrails target)) = Some rls"
    "ch = pipeline_challenge pl (w_ids w) ctx agent cap rls"
    "pl_store pl = Some in_memory_ops \<Longrightarrow> items (w_approvals w') (ch_approval_id ch) = Some ch
       \<and> states (w_approvals w') (ch_approval_id ch) = Some REQUIRED
       \<and> approved_roles (w_approvals w') (ch_approval_id ch) = Some {}"
  using check_challenge[OF assms(1,2)] assms(3) approval_create_ok
  by (auto simp: in_memory_ops_def)

text \<open>
  The challenge that a check raises is bound to the invocation: it names the agent, the
  capability, the task, the correlation and the subject of the caller, it needs exactly the roles
  whose requirements apply to these arguments, each once, it expires 300 seconds after its
  creation, and the store holds it pending and without a granted role.
\<close>

theorem challenge_bound_to_invocation:
  assumes "check pl target caller args agent cap approved_id w = (Inr r, w')"
    and "rs_challenge r = Some ch" and "pl_store pl = Some in_memory_ops"
  shows "\<exists>ctx rls. caller = Some ctx
     \<and> applicable_roles ctx args (gr_approvals (get_guardrails target)) = Some rls
     \<and> ch_agent_id ch = agent \<and> ch_capability_id ch = cap \<and> ch_task_id ch = ac_task_id ctx
     \<and> ch_correlation_id ch = ac_correlation_id ctx
     \<and> ch_principal_subject_id ch = subject_id (ac_principal ctx)
     \<and> set (needed_roles ch) = set rls \<and> distinct (needed_roles ch)
     \<and> ch_expires_at ch = ch_created_at ch + 300
     \<and> items (w_approvals w') (ch_approval_id ch) = Some ch
     \<and> states (w_approvals w') (ch_approval_id ch) = Some REQUIRED
     \<and> approved_roles (w_approvals w') (ch_approval_id ch) = Some {} \<and> \<not> rs_allowed r"
proof -
  obtain ctx rls where c: "caller = Some ctx" "rls \<noteq> []"
    "applicable_roles ctx args (gr_approvals (get_guardrails target)) = Some rls"
    "ch = pipeline_challenge pl (w_ids w) ctx agent cap rls"
    "items (w_approvals w') (ch_approval_id ch) = Some ch
       \<and> states (w_approvals w') (ch_approval_id ch) = Some REQUIRED
       \<and> approved_roles (w_approvals w') (ch_approval_id ch) = Some {}"
    using stored_challenge[OF assms(1,2)] assms(3) by metis
  have "\<not> rs_allowed r" using assms(1,2)
    by (auto simp: check_def prog_defs Let_def allowed_result_def denied_result_def challenge_result_def next_id_def
       split: option.splits prod.splits sum.splits if_splits)
  moreover have "needed_roles ch = sorted_unique rls" using pipeline_challenge_needed[OF c(2)] c(4) by simp
  moreover have "ch_agent_id ch = agent \<and> ch_capability_id ch = cap \<and> ch_task_id ch = ac_task_id ctx
     \<and> ch_correlation_id ch = ac_correlation_id ctx \<and> ch_principal_subject_id ch = subject_id (ac_principal ctx)
     \<and> ch_expires_at ch = ch_created_at ch + 300"
    by (simp add: c(4) pipeline_challenge_def default_challenge_def)
  ultimately show ?thesis using c(1,3,5) by (intro exI[of _ ctx] exI[of _ rls]) simp
qed

section \<open>Challenges for several roles\<close>

lemma join_commas_length: "r \<in> set rs \<Longrightarrow> 2 \<le> length rs \<Longrightarrow> length r < length (join_commas rs)"
proof (induction rs rule: join_commas.induct)
  case (3 r' q rs)
  then show ?case by (cases rs) auto
qed simp_all

lemma join_commas_not_member: "2 \<le> length rs \<Longrightarrow> join_commas rs \<notin> set rs"
  using join_commas_length by blast

text \<open>
  A challenge for several roles cannot be granted by token.  Whenever the check raises a
  challenge that needs at least two roles, the token service rejects every token for it: the
  challenge displays the roles joined by commas, a token must carry that joined text as its role,
  and the joined text is not one of the roles.
\<close>

theorem multi_role_tokens_rejected:
  assumes "check pl target caller args agent cap approved_id w = (Inr r, w')"
    and "rs_challenge r = Some ch" and "pl_store pl = None \<or> pl_store pl = Some in_memory_ops"
    and "2 \<le> length (needed_roles ch)"
  shows "\<exists>e. fst (service_verify ts token ch u) = Inl e"
proof -
  obtain ctx rls where c: "rls \<noteq> []" "ch = pipeline_challenge pl (w_ids w) ctx agent cap rls"
    using stored_challenge[OF assms(1-3)] by metis
  have "needed_roles ch = sorted_unique rls" "ch_required_role ch = join_commas (sorted_unique rls)"
    using c pipeline_challenge_needed[OF c(1)] by (simp_all add: pipeline_challenge_def default_challenge_def)
  then show ?thesis using assms(4) join_commas_not_member aggregate_role_unreachable by metis
qed

section \<open>What a resumption needs\<close>

lemma preserves_runs [preserves_rules]:
  "preserves (\<lambda>w. w_runs w = R) (on_approvals m)" "preserves (\<lambda>w. w_runs w = R) (record_event d mk required)"
  using record_event_frame[OF prod.collapse[symmetric]]
  by (auto simp: preserves_def zoomS_def same_but_audit_def split: prod.splits)

lemma when_expired_ok: "when_expired pl ctx site i m w = (Inr x, w') \<longleftrightarrow> m w = (Inr x, w')"
  by (auto simp: when_expired_def prog_defs split: prod.splits sum.splits)

lemma preserves_when_expired [preserves_rules]:
  "preserves P m \<Longrightarrow> preserves P (evidence pl (Some ctx) site False APPROVAL_EXPIRED DENY REJECTED ''expired'' i ''1'')
   \<Longrightarrow> preserves P (when_expired pl ctx site i m)"
  unfolding when_expired_def by (intro preserves_rules)

lemma resume_decide_quiet: "preserves (\<lambda>w. w_runs w = R) (resume_decide pl ops d site ctx)"
  unfolding resume_decide_def by (intro preserves_rules)

lemma approval_get_same: "approval_get i s = (Inr c, s') \<Longrightarrow> s' = s\<lparr>as_clock := as_clock s'\<rparr>"
  by (auto simp: store_op_defs split: option.splits if_splits)

lemma resume_decide_ok:
  assumes "resume_decide pl in_memory_ops d site ctx w = (Inr ch, w1)" "store_wf (w_approvals w)"
  shows "items (w_approvals w) (dec_approval_id d) = Some ch \<and> challenge_bound ch site ctx \<and> dec_approved d
     \<and> ch_approval_id ch = dec_approval_id d
     \<and> states (w_approvals w) (dec_approval_id d) = Some REQUIRED
     \<and> states (w_approvals w1) (dec_approval_id d) = Some APPROVED \<and> store_wf (w_approvals w1)
     \<and> items (w_approvals w1) (dec_approval_id d) = Some ch
     \<and> w_runs w1 = w_runs w"
proof -
  let ?i = "dec_approval_id d"
  obtain ch0 s0 s1 where g: "approval_get ?i (w_approvals w) = (Inr ch0, s0)"
    and b: "challenge_bound ch0 site ctx"
    and dec: "approval_decide d s0 = (Inr ch, s1)" and ok: "dec_approved d"
    and st: "approval_state_of (ch_approval_id ch) s1 = (Inr APPROVED, w_approvals w1)"
    using assms(1)
    by (auto simp: resume_decide_def when_expired_ok prog_defs in_memory_ops_def
        split: prod.splits sum.splits if_splits)
  have s0: "items s0 = items (w_approvals w)" "states s0 = states (w_approvals w)" "store_wf s0"
    using approval_get_ok[OF g] approval_get_run[OF g assms(2)] by simp_all
  note d = approval_decide_ok[OF dec] approval_decide_run[OF dec s0(3)]
  have id: "ch_approval_id ch = ?i" using d(1) s0(3) by (auto elim: store_wf_entry)
  have w1: "w_approvals w1 = s1" "states s1 ?i = Some APPROVED"
    using st id by (auto simp: approval_state_of_def split: option.splits)
  have "w_runs w1 = w_runs w" using preservesD[OF resume_decide_quiet refl] assms(1) by (metis snd_conv)
  moreover have "items s1 ?i = Some ch" using d by (simp add: store_le_def)
  ultimately show ?thesis using d s0 w1 id ok b approval_get_ok[OF g] by auto
qed

lemma resume_run:
  assumes "resume pl d execute site ctx w = (r, w')" "w_runs w' \<noteq> w_runs w"
  obtains ops ch w1 w2 where "pl_store pl = Some ops" "resume_decide pl ops d site ctx w = (Inr ch, w1)"
    "evidence pl (Some ctx) site True APPROVAL_APPROVED ALLOW SUCCESS (reason_or (dec_reason_code d) ''approved'')
       (ch_approval_id ch) (ch_policy_version ch) w1 = (Inr (), w2)"
    "resume_finish ops execute (ch_approval_id ch) w2 = (r, w')"
proof -
  from assms obtain ops where ops: "pl_store pl = Some ops"
    by (auto simp: resume_def prog_defs split: option.splits)
  obtain rd w1 where rd: "resume_decide pl ops d site ctx w = (rd, w1)" by fastforce
  have q: "w_runs w1 = w_runs w" using preservesD[OF resume_decide_quiet refl] rd by (metis snd_conv)
  from assms ops rd q obtain ch where ch: "rd = Inr ch" by (cases rd) (auto simp: resume_def prog_defs)
  let ?ev = "evidence pl (Some ctx) site True APPROVAL_APPROVED ALLOW SUCCESS
      (reason_or (dec_reason_code d) ''approved'') (ch_approval_id ch) (ch_policy_version ch)"
  obtain re w2 where re: "?ev w1 = (re, w2)" by fastforce
  have "w_runs w2 = w_runs w" using record_event_frame[OF re] q by (simp add: same_but_audit_def)
  with assms ops rd ch re have "re = Inr ()" by (cases re) (auto simp: resume_def prog_defs)
  with assms ops rd ch re show ?thesis by (intro that) (auto simp: resume_def prog_defs)
qed

lemma resume_finish_run:
  assumes "resume_finish in_memory_ops execute i w = (r, w')" "w_runs w' \<noteq> w_runs w"
  shows "states (w_approvals w') i = Some COMPLETED \<and> w_runs w' = w_runs w @ [(None, i)] \<and> w_audit w' = w_audit w"
  using assms approval_complete_ok
  by (auto simp: resume_finish_def run_protected_def prog_defs in_memory_ops_def Let_def
      split: prod.splits sum.splits)

text \<open>
  C6. A resumption runs protected work only for an approved, bound and pending approval.  If a
  resume by decision runs the work, then the store holds the decision's challenge, the challenge is
  bound to this agent, capability, task, correlation and subject, the decision approves, the
  approval was pending before the call and is completed after it with every needed role granted,
  and the work runs once.
\<close>

theorem resume_needs_approval:
  assumes "resume pl d execute site ctx w = (r, w')" and "w_runs w' \<noteq> w_runs w"
    and "pl_store pl = Some in_memory_ops" and "store_wf (w_approvals w)"
  shows "\<exists>ch granted. items (w_approvals w) (dec_approval_id d) = Some ch \<and> challenge_bound ch site ctx
     \<and> dec_approved d \<and> states (w_approvals w) (dec_approval_id d) = Some REQUIRED
     \<and> states (w_approvals w') (dec_approval_id d) = Some COMPLETED
     \<and> approved_roles (w_approvals w') (dec_approval_id d) = Some granted \<and> set (needed_roles ch) \<subseteq> granted
     \<and> w_runs w' = w_runs w @ [(None, dec_approval_id d)]"
proof -
  obtain ch w1 w2 where rs: "resume_decide pl in_memory_ops d site ctx w = (Inr ch, w1)"
    "evidence pl (Some ctx) site True APPROVAL_APPROVED ALLOW SUCCESS (reason_or (dec_reason_code d) ''approved'')
       (ch_approval_id ch) (ch_policy_version ch) w1 = (Inr (), w2)"
    "resume_finish in_memory_ops execute (ch_approval_id ch) w2 = (r, w')"
    using resume_run[OF assms(1,2)] assms(3) by (metis option.inject)
  note ok = resume_decide_ok[OF rs(1) assms(4)]
  have w2: "w_approvals w2 = w_approvals w1" "w_runs w2 = w_runs w"
    using record_event_frame[OF rs(2)] ok by (simp_all add: same_but_audit_def)
  from resume_finish_run[OF rs(3)] assms(2) w2(2) ok
  have fin: "states (w_approvals w') (dec_approval_id d) = Some COMPLETED"
    "w_runs w' = w_runs w @ [(None, dec_approval_id d)]" by auto
  obtain c s' where co: "approval_complete (ch_approval_id ch) (w_approvals w2) = (c, s')" by fastforce
  have s': "w_approvals w' = s'" using rs(3) co
    by (auto simp: resume_finish_def run_protected_def prog_defs in_memory_ops_def Let_def
        split: prod.splits sum.splits)
  have wf': "store_wf s'" "store_le (w_approvals w2) s'" using approval_complete_run[OF co] ok w2(1) by simp_all
  have "items s' (dec_approval_id d) = Some ch" using wf'(2) ok w2(1) by (simp add: store_le_def)
  then obtain granted where "approved_roles s' (dec_approval_id d) = Some granted" "set (needed_roles ch) \<subseteq> granted"
    using store_wf_entry[OF wf'(1)] fin(1) s' by (metis insertCI option.inject)
  with ok fin s' show ?thesis by auto
qed

section \<open>Mandatory evidence\<close>

lemma emit_logged:
  assumes "emit sink pol ev required em = (Inr rc, em')"
  shows "\<exists>n. em_log em' = em_log em @ [(ev\<lparr>ev_sequence := n\<rparr>, True)]"
proof -
  define em1 where "em1 = emit_enter (task_key ev) em"
  define n where "n = Suc (td_sequence (task_of (task_key ev) em1))"
  obtain r2 em2 where d: "deliver sink pol (ev\<lparr>ev_sequence := n\<rparr>) required
      (set_task (task_key ev) ((task_of (task_key ev) em1)\<lparr>td_sequence := n\<rparr>) em1) = (r2, em2)" by fastforce
  have l2: "em_log em2 = em_log em"
    using deliver_frame[OF d] by (simp add: em1_def emit_enter_def Let_def)
  have "em_log em' = em_log em2 @ [(ev\<lparr>ev_sequence := n\<rparr>, True)]"
    using assms d unfolding emit_def em1_def[symmetric]
    by (auto simp: emit_locked_def n_def Let_def emit_leave_def split: sum.splits if_splits)
  with l2 show ?thesis by auto
qed

lemma safe_extensions_id: "safe_extensions kvs = Inr kvs' \<Longrightarrow> kvs' = kvs"
  by (induction kvs arbitrary: kvs') (auto split: if_splits sum.splits)

lemma check_event_id: "check_event ev = Inr ev' \<Longrightarrow> ev' = ev"
  using safe_extensions_id by (auto simp: check_event_def split: if_splits sum.splits)

lemma record_event_logged:
  assumes "record_event d mk True w = (Inr (), w')" "d_audit d = Some (emit sink pol)"
  shows "\<exists>i t n. em_log (w_audit w') = em_log (w_audit w) @ [((mk i t)\<lparr>ev_sequence := n\<rparr>, True)]"
proof -
  let ?ev = "mk (d_event_id d (w_events w)) (d_event_time d (w_events w))"
  obtain ev where ev: "check_event ?ev = Inr ev"
    using assms by (auto simp: record_event_def Let_def split: sum.splits)
  then obtain rc m where m: "emit sink pol ?ev True (w_audit w) = (Inr rc, m)" "w_audit w' = m"
    using assms check_event_id[OF ev] by (auto simp: record_event_def Let_def split: prod.splits sum.splits)
  from emit_logged[OF m(1)] m(2) show ?thesis by blast
qed



section \<open>The whole system runs an approval at most once\<close>

text \<open>
  The steps of the token service, and those of the pipeline: an asynchronous check, the three parts
  of a resume by decision, and a cancellation.  The parts of concurrent calls interleave freely.
\<close>

inductive system_step ::
  "('s, 'm, 'priv, 'key) pipeline \<Rightarrow> ('s, 'm, 'priv, 'key) token_service \<Rightarrow> 's approval_ops
   \<Rightarrow> ('s, 'm, 'a) world \<Rightarrow> ('s, 'm, 'a) world \<Rightarrow> bool"
  for pl ts ops where
  sys_token: "token_step ts w w' \<Longrightarrow> system_step pl ts ops w w'"
| sys_check: "system_step pl ts ops w (snd (check_async pl target caller args site approved_id w))"
| sys_decide: "system_step pl ts ops w (snd (resume_decide pl ops d site ctx w))"
| sys_evidence: "system_step pl ts ops w (snd (record_event pl mk required w))"
| sys_finish: "system_step pl ts ops w (snd (resume_finish ops (execute :: ('a, sec_error, pyval) prog) i w))"
| sys_cancel: "system_step pl ts ops w (snd (cancel_approval pl i site ctx w))"

context approval_protocol begin

lemma preserves_next_id [preserves_rules]: "preserves (runs_inv wf view) next_id"
  by (simp add: preserves_def next_id_def runs_inv_def)

lemma check_async_inv:
  "pl_store pl = None \<or> pl_store pl = Some ops \<Longrightarrow>
   preserves (runs_inv wf view) (check_async pl target caller args site approved_id)"
  unfolding check_async_def check_def Let_def by (auto intro!: preserves_rules)

lemma resume_decide_inv: "preserves (runs_inv wf view) (resume_decide pl ops d site ctx)"
  unfolding resume_decide_def by (intro preserves_rules)

lemma cancel_inv:
  "pl_store pl = None \<or> pl_store pl = Some ops \<Longrightarrow>
   preserves (runs_inv wf view) (cancel_approval pl i site ctx)"
  unfolding cancel_approval_def by (auto intro!: preserves_rules)

lemma resume_finish_inv:
  fixes execute :: "('a, sec_error, 'v) prog"
  shows "preserves (runs_inv wf view :: ('s, 'm, 'a) world \<Rightarrow> bool) (resume_finish ops execute i)"
proof (rule preservesI)
  fix w :: "('s, 'm, 'a) world"
  assume inv: "runs_inv wf view w"
  then have w0: "wf (w_approvals w)" by (simp add: runs_inv_def)
  obtain rc s1 where co: "op_complete ops i (w_approvals w) = (rc, s1)" by fastforce
  show "runs_inv wf view (snd (resume_finish ops execute i w))"
  proof (cases rc)
    case (Inl e)
    then show ?thesis using preservesD[OF preserves_store_ops(5) inv, of i] co
      by (simp add: resume_finish_def prog_defs)
  next
    case (Inr c)
    note ap = complete_approved[OF w0 co[unfolded Inr]]
    have inv1: "runs_inv wf view (w\<lparr>w_approvals := s1\<rparr>)"
      using preservesD[OF preserves_store_ops(5) inv, of i] co by (simp add: prog_defs)
    have "i \<notin> set (map snd (w_runs w))" using inv ap by (auto simp: runs_inv_def)
    with inv1 ap co Inr show ?thesis
      by (auto simp: resume_finish_def run_protected_def prog_defs Let_def runs_inv_def split: prod.splits)
  qed
qed

lemma system_step_inv:
  assumes "system_step pl ts ops w w'" "runs_inv wf view w" "d_approvals ts = ops"
    and "pl_store pl = None \<or> pl_store pl = Some ops"
  shows "runs_inv wf view w'"
  using assms(1)
proof (cases rule: system_step.cases)
  case sys_token
  then show ?thesis using token_step_inv assms(2,3) by blast
next
  case sys_check
  then show ?thesis using preservesD[OF check_async_inv[OF assms(4)] assms(2)] by simp
next
  case sys_decide
  then show ?thesis using preservesD[OF resume_decide_inv assms(2)] by simp
next
  case sys_evidence
  then show ?thesis using preservesD[OF preserves_record_event assms(2)] by simp
next
  case sys_finish
  then show ?thesis using preservesD[OF resume_finish_inv assms(2)] by simp
next
  case sys_cancel
  then show ?thesis using preservesD[OF cancel_inv[OF assms(4)] assms(2)] by simp
qed

lemma system_steps_inv:
  "(system_step pl ts ops)\<^sup>*\<^sup>* w w' \<Longrightarrow> runs_inv wf view w \<Longrightarrow> d_approvals ts = ops \<Longrightarrow>
   pl_store pl = None \<or> pl_store pl = Some ops \<Longrightarrow> runs_inv wf view w'"
  by (induction rule: rtranclp_induct) (auto intro: system_step_inv)

end

text \<open>
  C1. One approval, one run, across both doors.  Let checks, resumes by decision, resumes by
  token, cancellations, store operations and deliveries of evidence interleave in any way, part by
  part, from an empty in-memory store on.  Then no approval runs protected work twice, no token
  does, and every approval that ran is completed.
\<close>

theorem approval_runs_once:
  assumes "(system_step pl ts in_memory_ops)\<^sup>*\<^sup>* (init_world (init_store clk) m v a) w"
    and "d_approvals ts = in_memory_ops" and "pl_store pl = None \<or> pl_store pl = Some in_memory_ops"
  shows "distinct (map snd (w_runs w)) \<and> distinct (run_tokens (w_runs w))
     \<and> (\<forall>i \<in> set (map snd (w_runs w)). states (w_approvals w) i = Some COMPLETED)"
proof -
  have "runs_inv store_wf states (init_world (init_store clk) m v a)"
    by (simp add: runs_inv_def init_world_def store_wf_init)
  from mem.system_steps_inv[OF assms(1) this assms(2,3)] show ?thesis by (simp add: runs_inv_def)
qed

section \<open>A sample pipeline\<close>

definition accepting_sink :: "unit sink" where
  "accepting_sink ev k = (Receipt \<lparr>rc_event_id = ev_event_id ev, rc_idempotency_key = idempotency_key ev,
     rc_duplicate = False, rc_buffered = False\<rparr>, k)"

definition sample_policy :: delivery_policy where
  "sample_policy = \<lparr>dp_mode = FAIL_CLOSED, dp_timeout_seconds = 1, dp_max_buffered_events = 0\<rparr>"

definition sample_pipeline :: "(approval_store, unit emitter, unit, unit) pipeline" where
  "sample_pipeline = \<lparr>d_audit = Some (emit accepting_sink sample_policy), d_event_id = (\<lambda>_. ''e''),
     d_event_time = (\<lambda>_. 0), pl_store = Some in_memory_ops, pl_new_id = (\<lambda>_. ''a1''),
     pl_now = (\<lambda>_. 0), pl_tokens = None\<rparr>"

definition sample_site :: invocation_site where
  "sample_site = \<lparr>is_agent = ''agent'', is_capability = ''cap'', is_chain = [''policy'']\<rparr>"

text \<open>A capability that needs one scope and, when \<open>guarded\<close>, two roles.\<close>

definition sample_target :: "bool \<Rightarrow> guardrails option" where
  "sample_target guarded = Some \<lparr>gr_scopes = [''write''], gr_approvals =
     [\<lparr>ar_role = ''legal'', ar_condition = Some (\<lambda>_ _. Some guarded)\<rparr>,
      \<lparr>ar_role = ''ops'', ar_condition = Some (\<lambda>_ _. Some guarded)\<rparr>]\<rparr>"

definition empty_world :: "(approval_store, unit emitter, nat) world" where
  "empty_world = init_world (init_store sample_clock) (init_emitter ()) sample_verifier_state 0"

text \<open>The same with the pending approval \<open>a1\<close>.\<close>

definition pending_world :: "(approval_store, unit emitter, nat) world" where
  "pending_world = empty_world\<lparr>w_approvals := snd (approval_create (sample_challenge []) (init_store sample_clock))\<rparr>"

lemma emit_accepting: "\<exists>rc. fst (emit accepting_sink pol ev req em) = Inr (Some rc)"
  by (simp add: emit_def emit_locked_def deliver_def accepting_sink_def Let_def)

lemma sample_evidence:
  assumes "reason \<noteq> []"
  shows "\<exists>w'. evidence sample_pipeline caller site req name decision outcome reason i v w = (Inr (), w')
    \<and> same_but_audit w w'"
proof -
  let ?ev = "pipeline_event name caller site decision outcome reason i v [] ''e'' 0"
  have ok: "check_event ?ev = Inr ?ev" using assms by (simp add: check_event_def pipeline_event_def)
  obtain rc em' where "emit accepting_sink sample_policy ?ev req (w_audit w) = (Inr (Some rc), em')"
    using emit_accepting by (metis prod.collapse)
  then have "\<exists>w'. evidence sample_pipeline caller site req name decision outcome reason i v w = (Inr (), w')"
    using ok by (simp add: record_event_def sample_pipeline_def Let_def)
  then show ?thesis using record_event_frame by blast
qed

lemma sample_check:
  "check sample_pipeline (sample_target True) (Some sample_context) [] ''agent'' ''cap'' None empty_world
   = (Inr (challenge_result (pipeline_challenge sample_pipeline 0 sample_context ''agent'' ''cap'' [''legal'', ''ops''])),
      snd (check sample_pipeline (sample_target True) (Some sample_context) [] ''agent'' ''cap'' None empty_world))"
  by (simp add: check_def sample_target_def get_guardrails_def sample_context_def prog_defs Let_def next_id_def
      sample_pipeline_def empty_world_def init_world_def init_store_def in_memory_ops_def approval_create_def)

lemma sample_challenge_needed:
  "needed_roles (pipeline_challenge sample_pipeline 0 sample_context ''agent'' ''cap'' [''legal'', ''ops'']) = [''legal'', ''ops'']"
proof -
  have "''legal'' \<le> ''ops''" by (simp add: less_eq_char_def)
  then show ?thesis by (simp add: pipeline_challenge_needed sorted_unique_def)
qed

theorem challenge_bound_to_invocation_witness:
  "\<exists>r w' ch. check sample_pipeline (sample_target True) (Some sample_context) [] ''agent'' ''cap'' None empty_world = (Inr r, w')
     \<and> rs_challenge r = Some ch \<and> ch_principal_subject_id ch = ''u''
     \<and> states (w_approvals w') (ch_approval_id ch) = Some REQUIRED"
proof -
  let ?ch = "pipeline_challenge sample_pipeline 0 sample_context ''agent'' ''cap'' [''legal'', ''ops'']"
  have "rs_challenge (challenge_result ?ch) = Some ?ch" "pl_store sample_pipeline = Some in_memory_ops"
    by (simp_all add: challenge_result_def sample_pipeline_def)
  from challenge_bound_to_invocation[OF sample_check this] sample_check this(1) show ?thesis
    by (intro exI[of _ "challenge_result ?ch"] exI[of _ ?ch] exI) (auto simp: sample_context_def)
qed

theorem multi_role_tokens_rejected_witness:
  "\<exists>e. fst (service_verify sample_service sample_token
      (pipeline_challenge sample_pipeline 0 sample_context ''agent'' ''cap'' [''legal'', ''ops'']) sample_world) = Inl e"
proof (rule multi_role_tokens_rejected[OF sample_check])
  show "pl_store sample_pipeline = None \<or> pl_store sample_pipeline = Some in_memory_ops"
    by (simp add: sample_pipeline_def)
qed (simp_all add: challenge_result_def sample_challenge_needed)

lemma pending_world_wf: "store_wf (w_approvals pending_world)"
  using approval_create_run[OF prod.collapse[symmetric] store_wf_init] by (simp add: pending_world_def)

lemma sample_decide:
  "\<exists>w1. resume_decide sample_pipeline in_memory_ops (sample_decision (Some ''ops'')) sample_site sample_context pending_world
      = (Inr (sample_challenge []), w1) \<and> states (w_approvals w1) ''a1'' = Some APPROVED
      \<and> items (w_approvals w1) ''a1'' = Some (sample_challenge []) \<and> w_runs w1 = []"
  by (simp add: resume_decide_def when_expired_def prog_defs in_memory_ops_def pending_world_def empty_world_def
        init_world_def store_op_defs init_store_def sample_challenge_def sample_decision_def sample_clock_def
        sample_site_def sample_context_def challenge_bound_def needed_roles_def decision_role_def Let_def)

lemma sample_complete:
  "states (w_approvals w2) ''a1'' = Some APPROVED \<Longrightarrow> items (w_approvals w2) ''a1'' = Some c \<Longrightarrow> w_runs w2 = [] \<Longrightarrow>
   \<exists>w'. resume_finish in_memory_ops sample_work ''a1'' w2 = (Inr VNone, w') \<and> w_runs w' = [(None, ''a1'')]"
  by (simp add: resume_finish_def run_protected_def sample_work_def in_memory_ops_def store_op_defs)

lemma sample_resume:
  obtains w' where "resume sample_pipeline (sample_decision (Some ''ops'')) sample_work sample_site sample_context
      pending_world = (Inr VNone, w')" "w_runs w' = [(None, ''a1'')]"
proof -
  obtain w1 where w1: "resume_decide sample_pipeline in_memory_ops (sample_decision (Some ''ops'')) sample_site
      sample_context pending_world = (Inr (sample_challenge []), w1)" "states (w_approvals w1) ''a1'' = Some APPROVED"
      "items (w_approvals w1) ''a1'' = Some (sample_challenge [])" "w_runs w1 = []" using sample_decide by blast
  have "''approved'' \<noteq> []" by simp
  from sample_evidence[OF this] obtain w2 where
    w2: "evidence sample_pipeline (Some sample_context) sample_site True APPROVAL_APPROVED ALLOW SUCCESS
      ''approved'' ''a1'' ''1'' w1 = (Inr (), w2)" "same_but_audit w1 w2" by blast
  obtain w' where "resume_finish in_memory_ops sample_work ''a1'' w2 = (Inr VNone, w')"
    "w_runs w' = [(None, ''a1'')]"
    using sample_complete[of w2] w1(2-4) w2(2) by (auto simp: same_but_audit_def)
  then show ?thesis using w1(1) w2(1)
    by (intro that[of w'])
       (simp_all add: resume_def prog_defs sample_pipeline_def sample_decision_def sample_challenge_def reason_or_def)
qed

theorem resume_needs_approval_witness:
  "\<exists>w'. resume sample_pipeline (sample_decision (Some ''ops'')) sample_work sample_site sample_context
      pending_world = (Inr VNone, w') \<and> states (w_approvals w') ''a1'' = Some COMPLETED"
proof -
  obtain w' where run: "resume sample_pipeline (sample_decision (Some ''ops'')) sample_work sample_site sample_context
      pending_world = (Inr VNone, w')" "w_runs w' = [(None, ''a1'')]" by (rule sample_resume)
  from resume_needs_approval[OF run(1) _ _ pending_world_wf] run show ?thesis
    by (auto simp: sample_pipeline_def pending_world_def empty_world_def init_world_def sample_decision_def)
qed



theorem approval_runs_once_witness:
  "\<exists>w. (system_step sample_pipeline (sample_service :: (approval_store, unit emitter, unit, unit) token_service)
        in_memory_ops)\<^sup>*\<^sup>* empty_world w
     \<and> w_runs w = [(None, ''a1'')] \<and> distinct (map snd (w_runs w))"
proof -
  let ?ts = "sample_service :: (approval_store, unit emitter, unit, unit) token_service"
  have "pending_world = empty_world\<lparr>w_approvals := snd (apply_op (d_approvals ?ts)
      (OpCreate (sample_challenge [])) (w_approvals empty_world))\<rparr>"
    by (simp add: pending_world_def sample_service_def empty_world_def init_world_def in_memory_ops_def)
  then have s1: "system_step sample_pipeline ?ts in_memory_ops empty_world pending_world"
    using sys_token[OF step_store] by metis
  obtain w1 where w1: "resume_decide sample_pipeline in_memory_ops (sample_decision (Some ''ops'')) sample_site
      sample_context pending_world = (Inr (sample_challenge []), w1)" "states (w_approvals w1) ''a1'' = Some APPROVED"
      "items (w_approvals w1) ''a1'' = Some (sample_challenge [])" "w_runs w1 = []" using sample_decide by blast
  have s2: "system_step sample_pipeline ?ts in_memory_ops pending_world w1"
    using sys_decide w1(1) by (metis snd_conv)
  obtain w' where w': "resume_finish in_memory_ops sample_work ''a1'' w1 = (Inr VNone, w')"
    "w_runs w' = [(None, ''a1'')]" using sample_complete[OF w1(2-4)] by blast
  have s3: "system_step sample_pipeline ?ts in_memory_ops w1 w'" using sys_finish w'(1) by (metis snd_conv)
  from s1 s2 s3 have steps: "(system_step sample_pipeline ?ts in_memory_ops)\<^sup>*\<^sup>* empty_world w'"
    by (meson rtranclp.rtrancl_into_rtrancl rtranclp.rtrancl_refl)
  from approval_runs_once[OF steps[unfolded empty_world_def]] steps w'(2) show ?thesis
    by (auto simp: sample_service_def sample_pipeline_def)
qed

end
