(* ===== verification/Json.thy ===== *)
theory Json
  imports PyValue
begin

text \<open>
  \<open>canonical_json\<close> of \<open>core/gateway_models.py\<close>: the compact ASCII text of a JSON value with sorted
  keys, on which digests and size limits are computed.  \<open>None\<close> is the \<open>TypeError\<close> of \<open>json.dumps\<close>
  on a value that is not JSON.  The decimal text of a float is the parameter \<open>fr\<close>.
\<close>

definition hex_digit :: "nat \<Rightarrow> char" where
  "hex_digit n = ''0123456789abcdef'' ! n"

text \<open>The escapes of \<open>ensure_ascii=True\<close>.\<close>

definition json_char :: "char \<Rightarrow> string" where
  "json_char c = (let n = of_char c :: nat in
     if c = CHR 0x22 then [CHR 0x5C, CHR 0x22]
     else if c = CHR 0x5C then [CHR 0x5C, CHR 0x5C]
     else if n = 10 then [CHR 0x5C, CHR ''n'']
     else if n = 13 then [CHR 0x5C, CHR ''r'']
     else if n = 9 then [CHR 0x5C, CHR ''t'']
     else if n = 12 then [CHR 0x5C, CHR ''f'']
     else if n = 8 then [CHR 0x5C, CHR ''b'']
     else if n < 32 \<or> 126 < n then [CHR 0x5C, CHR ''u'', CHR ''0'', CHR ''0'', hex_digit (n div 16), hex_digit (n mod 16)]
     else [c])"

definition json_string :: "string \<Rightarrow> string" where
  "json_string s = [CHR 0x22] @ concat (map json_char s) @ [CHR 0x22]"

fun nat_digits :: "nat \<Rightarrow> string" where
  "nat_digits n = (if n < 10 then [char_of (48 + n)] else nat_digits (n div 10) @ [char_of (48 + n mod 10)])"

declare nat_digits.simps [simp del]

definition int_text :: "int \<Rightarrow> string" where
  "int_text i = (if i < 0 then CHR ''-'' # nat_digits (nat (- i)) else nat_digits (nat i))"

fun join_with :: "string \<Rightarrow> string list \<Rightarrow> string" where
  "join_with sep [] = []"
| "join_with sep [s] = s"
| "join_with sep (s # t # ts) = s @ sep @ join_with sep (t # ts)"

definition json_array :: "string list \<Rightarrow> string" where
  "json_array parts = ''['' @ join_with '','' parts @ '']''"

definition json_object :: "(string \<times> string) list \<Rightarrow> string" where
  "json_object kvs = ''{'' @ join_with '','' (map (\<lambda>(k, v). json_string k @ '':'' @ v) (dsorted kvs)) @ ''}''"

primrec canonical_json :: "(pyfloat \<Rightarrow> string) \<Rightarrow> pyval \<Rightarrow> string option" where
  "canonical_json fr VNone = Some ''null''"
| "canonical_json fr (VBool b) = Some (if b then ''true'' else ''false'')"
| "canonical_json fr (VInt i) = Some (int_text i)"
| "canonical_json fr (VFloat x) = Some (fr x)"
| "canonical_json fr (VStr s) = Some (json_string s)"
| "canonical_json fr (VList xs) = map_option json_array (those (map (canonical_json fr) xs))"
| "canonical_json fr (VTuple xs) = map_option json_array (those (map (canonical_json fr) xs))"
| "canonical_json fr (VSet xs) = None"
| "canonical_json fr (VFrozenSet xs) = None"
| "canonical_json fr (VDict kvs) =
     map_option (\<lambda>ts. json_object (zip (map fst kvs) ts)) (those (map snd (map (map_prod (\<lambda>k. k) (canonical_json fr)) kvs)))"
| "canonical_json fr (VProxy kvs) =
     map_option (\<lambda>ts. json_object (zip (map fst kvs) ts)) (those (map snd (map (map_prod (\<lambda>k. k) (canonical_json fr)) kvs)))"
| "canonical_json fr (VObject c) = None"

text \<open>Freezing does not change the text.\<close>

lemma those_Some_map: "(\<And>x. x \<in> set xs \<Longrightarrow> f x = g x) \<Longrightarrow> those (map f xs) = those (map g xs)"
  by (metis map_eq_conv)

lemma freeze_json_text:
  "freeze_json v = Inr w \<Longrightarrow> canonical_json fr w = canonical_json fr v"
  "freeze_json_list vs = Inr ws \<Longrightarrow> map (canonical_json fr) ws = map (canonical_json fr) vs"
  "freeze_json_items kvs = Inr kws \<Longrightarrow> map fst kws = map fst kvs
     \<and> map (canonical_json fr \<circ> snd) kws = map (canonical_json fr \<circ> snd) kvs"
proof (induction v and vs and kvs arbitrary: w and ws and kws
      rule: freeze_json_freeze_json_list_freeze_json_items.induct)
qed (auto split: sum.splits if_splits simp: comp_def snd_map_prod)

lemma length_join: "xs \<noteq> [] \<Longrightarrow> Suc (length (join_with '','' xs)) = sum_list (map length xs) + length xs"
  by (induction "'',''" xs rule: join_with.induct) auto

text \<open>The size of an array: brackets, elements and the commas between them.\<close>

lemma json_array_length:
  "length (json_array ts) = 2 + sum_list (map length ts) + (length ts - 1)"
  using length_join[of ts] by (cases ts) (auto simp: json_array_def)

text \<open>A quoted string holds no bare delimiter: every character of it is a printable ASCII character.\<close>

lemma hex_digit_ascii: "n < 16 \<Longrightarrow> 48 \<le> (of_char (hex_digit n) :: nat) \<and> (of_char (hex_digit n) :: nat) < 127
   \<and> hex_digit n \<noteq> CHR ''['' \<and> hex_digit n \<noteq> CHR '']''"
proof -
  have all: "\<forall>c \<in> set ''0123456789abcdef''. 48 \<le> (of_char c :: nat) \<and> (of_char c :: nat) < 127
      \<and> c \<noteq> CHR ''['' \<and> c \<noteq> CHR '']''" by simp
  assume "n < 16"
  then have "hex_digit n \<in> set ''0123456789abcdef''"
    unfolding hex_digit_def by (intro nth_mem) simp
  with all show ?thesis by blast
qed

end
