(* ===== verification/DataSources.thy ===== *)
theory DataSources
  imports PyValue
begin

text \<open>
  \<open>core/data_sources.py\<close>: the credential-free declarations of external data sources and the registry
  that owns them.  Declarations are typed here, so the \<open>isinstance\<close> tests of the source on their
  fields do not occur; \<open>digest\<close> is \<open>hashlib.sha256(...).hexdigest()\<close>.
\<close>

section \<open>Declarations\<close>

datatype data_source_error =
    DataSourceRegistrationError
  | MissingDataSourceError "string list"

record data_source =
  ds_name :: string
  ds_kind :: string
  ds_description :: "string option"
  ds_read_scopes :: "string list"
  ds_write_scopes :: "string list"
  ds_read_only :: bool
  ds_binding_id :: string

definition required_text :: "string \<Rightarrow> data_source_error + string" where
  "required_text v = (if strip v = [] then Inl DataSourceRegistrationError else Inr (strip v))"

definition optional_text :: "string option \<Rightarrow> data_source_error + string option" where
  "optional_text v = (case v of None \<Rightarrow> Inr None | Some s \<Rightarrow> map_sum id Some (required_text s))"

definition normalize_scopes :: "string list \<Rightarrow> data_source_error + string list" where
  "normalize_scopes vs =
     (if list_ex (\<lambda>v. strip v = []) vs then Inl DataSourceRegistrationError
      else Inr (sorted_unique (map strip vs)))"

text \<open>An opaque identifier: ASCII letters, digits, dots, underscores and hyphens.\<close>

definition binding_char :: "char \<Rightarrow> bool" where
  "binding_char c \<longleftrightarrow> (let n = of_char c :: nat in
     (48 \<le> n \<and> n \<le> 57) \<or> (65 \<le> n \<and> n \<le> 90) \<or> (97 \<le> n \<and> n \<le> 122)
     \<or> c = CHR ''.'' \<or> c = CHR ''_'' \<or> c = CHR ''-'')"

text \<open>\<open>DataSourceMetadata.__post_init__\<close>: the checks in their order, the normalised fields.\<close>

definition mk_data_source :: "data_source \<Rightarrow> data_source_error + data_source" where
  "mk_data_source d =
     (case required_text (ds_name d) of Inl e \<Rightarrow> Inl e | Inr name \<Rightarrow>
     (case required_text (ds_kind d) of Inl e \<Rightarrow> Inl e | Inr kind \<Rightarrow>
     (case optional_text (ds_description d) of Inl e \<Rightarrow> Inl e | Inr description \<Rightarrow>
     (case normalize_scopes (ds_read_scopes d) of Inl e \<Rightarrow> Inl e | Inr rds \<Rightarrow>
     (case normalize_scopes (ds_write_scopes d) of Inl e \<Rightarrow> Inl e | Inr wrs \<Rightarrow>
      if ds_read_only d \<and> wrs \<noteq> [] then Inl DataSourceRegistrationError
      else
     (case required_text (ds_binding_id d) of Inl e \<Rightarrow> Inl e | Inr binding \<Rightarrow>
      if \<not> list_all binding_char binding then Inl DataSourceRegistrationError
      else Inr \<lparr>ds_name = name, ds_kind = kind, ds_description = description, ds_read_scopes = rds,
             ds_write_scopes = wrs, ds_read_only = ds_read_only d, ds_binding_id = binding\<rparr>))))))"

definition declared_scopes :: "data_source \<Rightarrow> string list" where
  "declared_scopes d = sorted_unique (ds_read_scopes d @ ds_write_scopes d)"

definition opt_value :: "string option \<Rightarrow> pyval" where
  "opt_value v = (case v of None \<Rightarrow> VNone | Some s \<Rightarrow> VStr s)"

definition str_list :: "string list \<Rightarrow> pyval" where
  "str_list vs = VList (map VStr vs)"

definition data_source_dict :: "data_source \<Rightarrow> pyval" where
  "data_source_dict d = VDict [(''name'', VStr (ds_name d)), (''kind'', VStr (ds_kind d)),
     (''description'', opt_value (ds_description d)), (''read_scopes'', str_list (ds_read_scopes d)),
     (''write_scopes'', str_list (ds_write_scopes d)), (''declared_scopes'', str_list (declared_scopes d)),
     (''read_only'', VBool (ds_read_only d)), (''binding_id'', VStr (ds_binding_id d))]"

definition audit_projection :: "data_source \<Rightarrow> pyval" where
  "audit_projection d = VDict [(''name'', VStr (ds_name d)), (''kind'', VStr (ds_kind d)),
     (''binding_id'', VStr (ds_binding_id d)), (''read_only'', VBool (ds_read_only d)),
     (''declared_scopes'', str_list (declared_scopes d))]"

text \<open>The \<open>data_source\<close> decorator: the metadata it attaches; \<open>binding\<close> is generated when omitted.\<close>

definition declare_source ::
  "(string \<Rightarrow> string) \<Rightarrow> string \<Rightarrow> string \<Rightarrow> string option \<Rightarrow> string list \<Rightarrow> string list \<Rightarrow> bool \<Rightarrow> string option
   \<Rightarrow> data_source_error + data_source" where
  "declare_source digest name kind description rds wrs read_only binding =
     (case required_text name of Inl e \<Rightarrow> Inl e | Inr name' \<Rightarrow>
     (case required_text kind of Inl e \<Rightarrow> Inl e | Inr kind' \<Rightarrow>
     (case optional_text description of Inl e \<Rightarrow> Inl e | Inr description' \<Rightarrow>
     (case normalize_scopes rds of Inl e \<Rightarrow> Inl e | Inr rds' \<Rightarrow>
     (case normalize_scopes wrs of Inl e \<Rightarrow> Inl e | Inr wrs' \<Rightarrow>
      if read_only \<and> wrs' \<noteq> [] then Inl DataSourceRegistrationError
      else
     (case (case binding of Some b \<Rightarrow> required_text b
            | None \<Rightarrow> Inr (''ds-'' @ take 24 (digest (name' @ '':'' @ kind')))) of
        Inl e \<Rightarrow> Inl e
      | Inr binding' \<Rightarrow>
          mk_data_source \<lparr>ds_name = name', ds_kind = kind', ds_description = description', ds_read_scopes = rds',
            ds_write_scopes = wrs', ds_read_only = read_only, ds_binding_id = binding'\<rparr>))))))"

section \<open>The registry\<close>

record source_registry =
  sr_sources :: "(string, data_source) dict"
  sr_revision :: int

definition empty_sources :: source_registry where
  "empty_sources = \<lparr>sr_sources = [], sr_revision = 0\<rparr>"

definition register_source :: "data_source \<Rightarrow> (source_registry, data_source_error, data_source) prog" where
  "register_source d s =
     (if dget (sr_sources s) (ds_name d) \<noteq> None then (Inl DataSourceRegistrationError, s)
      else (Inr d, s\<lparr>sr_sources := dset (ds_name d) d (sr_sources s), sr_revision := sr_revision s + 1\<rparr>))"

definition resolve_sources :: "string list \<Rightarrow> source_registry \<Rightarrow> data_source_error + data_source list" where
  "resolve_sources names s =
     (if list_ex (\<lambda>n. strip n = []) names then Inl DataSourceRegistrationError
      else let wanted = sorted_unique (map strip names);
               missing = filter (\<lambda>n. dget (sr_sources s) n = None) wanted in
        if missing \<noteq> [] then Inl (MissingDataSourceError missing)
        else Inr (map (\<lambda>n. the (dget (sr_sources s) n)) wanted))"

record source_snapshot =
  ss_revision :: int
  ss_sources :: "data_source list"

definition mk_source_snapshot :: "int \<Rightarrow> data_source list \<Rightarrow> source_snapshot" where
  "mk_source_snapshot r ds = \<lparr>ss_revision = r, ss_sources = sort_key ds_name ds\<rparr>"

definition sources_snapshot :: "source_registry \<Rightarrow> source_snapshot" where
  "sources_snapshot s = mk_source_snapshot (sr_revision s) (map snd (sr_sources s))"

definition source_snapshot_dict :: "source_snapshot \<Rightarrow> pyval" where
  "source_snapshot_dict s = VDict [(''revision'', VInt (ss_revision s)),
     (''data_sources'', VList (map data_source_dict (ss_sources s)))]"

text \<open>The names are the keys, each occurs once, and the revision counts the registrations.\<close>

definition sources_wf :: "source_registry \<Rightarrow> bool" where
  "sources_wf s \<longleftrightarrow> ddistinct (sr_sources s) \<and> (\<forall>(n, d) \<in> set (sr_sources s). ds_name d = n)
     \<and> sr_revision s = int (length (sr_sources s))"

lemma empty_sources_wf [simp]: "sources_wf empty_sources"
  by (simp add: sources_wf_def empty_sources_def)

lemma sources_wf_get: "sources_wf s \<Longrightarrow> dget (sr_sources s) n = Some d \<Longrightarrow> ds_name d = n"
  by (auto simp: sources_wf_def dest: map_of_SomeD)

lemma in_dset_fresh: "dget d k = None \<Longrightarrow> set (dset k v d) = insert (k, v) (set d)"
  unfolding dset_def by (induction d) (auto split: if_splits)

lemma register_source_wf [preserves_rules]: "preserves sources_wf (register_source d)"
  by (auto simp: preserves_def register_source_def sources_wf_def in_dset_fresh length_dset dget_None_keys)

text \<open>A history of registrations and the declarations that were accepted.\<close>

fun register_sources :: "data_source list \<Rightarrow> source_registry \<Rightarrow> source_registry" where
  "register_sources [] s = s"
| "register_sources (d # ds) s = register_sources ds (snd (register_source d s))"

lemma register_sources_wf: "sources_wf s \<Longrightarrow> sources_wf (register_sources ds s)"
proof (induction ds arbitrary: s)
  case (Cons d ds)
  then show ?case using register_source_wf[of d] by (simp add: preserves_def)
qed simp

lemma register_sources_first:
  "dget (sr_sources (register_sources ds s)) n =
     (case dget (sr_sources s) n of Some d \<Rightarrow> Some d | None \<Rightarrow> List.find (\<lambda>d. ds_name d = n) ds)"
proof (induction ds arbitrary: s)
  case (Cons d ds)
  then show ?case by (auto simp: register_source_def split: option.splits)
qed (simp split: option.split)

lemma sorted_map_the:
  assumes "sources_wf s" and "\<forall>n \<in> set ns. dget (sr_sources s) n \<noteq> None"
  shows "map ds_name (map (\<lambda>n. the (dget (sr_sources s) n)) ns) = ns"
  using assms by (induction ns) (auto dest: sources_wf_get)

text \<open>
  The data-source registry is write-once.  After any history of registrations, resolving names
  that are not blank either reports exactly the requested names that no declaration carries, or
  returns one declaration per requested name, sorted by name and without repetition, each of which is the
  first declaration ever offered under its name: a later declaration never replaces it.
\<close>

theorem sources_resolve_first:
  assumes "list_all (\<lambda>n. strip n \<noteq> []) names"
  shows "resolve_sources names (register_sources history empty_sources) =
    (let wanted = sorted_unique (map strip names); first = (\<lambda>n. List.find (\<lambda>d. ds_name d = n) history);
         missing = filter (\<lambda>n. first n = None) wanted in
     if missing \<noteq> [] then Inl (MissingDataSourceError missing)
     else Inr (map (\<lambda>n. the (first n)) wanted))
   \<and> (\<forall>ds. resolve_sources names (register_sources history empty_sources) = Inr ds \<longrightarrow>
        map ds_name ds = sorted_unique (map strip names))"
proof -
  let ?s = "register_sources history empty_sources"
  have first: "dget (sr_sources ?s) n = List.find (\<lambda>d. ds_name d = n) history" for n
    by (simp add: register_sources_first empty_sources_def)
  have names: "\<not> list_ex (\<lambda>n. strip n = []) names"
    using assms by (simp add: list_all_iff list_ex_iff)
  have "map ds_name ds = sorted_unique (map strip names)" if "resolve_sources names ?s = Inr ds" for ds
  proof -
    have "\<forall>n \<in> set (sorted_unique (map strip names)). dget (sr_sources ?s) n \<noteq> None"
      and "ds = map (\<lambda>n. the (dget (sr_sources ?s) n)) (sorted_unique (map strip names))"
      using that names by (auto simp: resolve_sources_def Let_def filter_empty_conv split: if_splits)
    then show ?thesis using sorted_map_the[OF register_sources_wf[OF empty_sources_wf]] by simp
  qed
  with names first show ?thesis by (simp add: resolve_sources_def Let_def)
qed

definition sample_source :: "string \<Rightarrow> string \<Rightarrow> data_source" where
  "sample_source n k = \<lparr>ds_name = n, ds_kind = k, ds_description = None, ds_read_scopes = [], ds_write_scopes = [],
     ds_read_only = True, ds_binding_id = ''b''\<rparr>"

theorem sources_resolve_first_witness:
  "resolve_sources ['' crm ''] (register_sources [sample_source ''crm'' ''sql'', sample_source ''crm'' ''file''] empty_sources)
     = Inr [sample_source ''crm'' ''sql'']"
proof -
  have "strip '' crm '' = ''crm''" by code_simp
  then show ?thesis
    using sources_resolve_first[of "['' crm '']" "[sample_source ''crm'' ''sql'', sample_source ''crm'' ''file'']"]
    by (simp add: sample_source_def sorted_unique_def)
qed

text \<open>Construction is idempotent: metadata that was accepted is its own normal form.\<close>

lemma required_text_Inr: "required_text v = Inr t \<Longrightarrow> required_text t = Inr t"
  by (auto simp: required_text_def split: if_splits)

lemma strip_sorted_unique:
  "map strip (sorted_unique (map strip vs)) = sorted_unique (map strip vs)"
  by (rule map_idI) auto

lemma sorted_unique_idem [simp]: "sorted_unique (sorted_unique vs) = sorted_unique vs"
  unfolding sorted_unique_def by (simp add: distinct_remdups_id sorted_sort_id)

lemma normalize_scopes_Inr: "normalize_scopes vs = Inr ws \<Longrightarrow> normalize_scopes ws = Inr ws"
  by (auto simp: normalize_scopes_def strip_sorted_unique list_ex_iff split: if_splits)

lemma optional_text_Inr: "optional_text v = Inr t \<Longrightarrow> optional_text t = Inr t"
  by (cases v) (auto simp: optional_text_def required_text_def split: if_splits)

lemma mk_data_source_idem:
  assumes "mk_data_source d = Inr m"
  shows "mk_data_source m = Inr m"
proof -
  obtain n where n: "required_text (ds_name d) = Inr n"
    using assms by (cases "required_text (ds_name d)") (simp_all add: mk_data_source_def)
  obtain k where k: "required_text (ds_kind d) = Inr k"
    using assms n by (cases "required_text (ds_kind d)") (simp_all add: mk_data_source_def)
  obtain c where c: "optional_text (ds_description d) = Inr c"
    using assms n k by (cases "optional_text (ds_description d)") (simp_all add: mk_data_source_def)
  obtain r where r: "normalize_scopes (ds_read_scopes d) = Inr r"
    using assms n k c by (cases "normalize_scopes (ds_read_scopes d)") (simp_all add: mk_data_source_def)
  obtain w where w: "normalize_scopes (ds_write_scopes d) = Inr w"
    using assms n k c r by (cases "normalize_scopes (ds_write_scopes d)") (simp_all add: mk_data_source_def)
  obtain b where b: "required_text (ds_binding_id d) = Inr b" and ro: "\<not> (ds_read_only d \<and> w \<noteq> [])"
    using assms n k c r w by (cases "required_text (ds_binding_id d)") (simp_all add: mk_data_source_def split: if_splits)
  have "m = \<lparr>ds_name = n, ds_kind = k, ds_description = c, ds_read_scopes = r, ds_write_scopes = w,
      ds_read_only = ds_read_only d, ds_binding_id = b\<rparr>" and "list_all binding_char b"
    using assms n k c r w b ro by (simp_all add: mk_data_source_def split: if_splits)
  with required_text_Inr[OF n] required_text_Inr[OF k] optional_text_Inr[OF c] normalize_scopes_Inr[OF r]
    normalize_scopes_Inr[OF w] required_text_Inr[OF b] ro
  show ?thesis by (simp add: mk_data_source_def)
qed

end
