(* ===== verification/GatewayModels.thy ===== *)
theory GatewayModels
  imports Json DataSources
begin

text \<open>
  The model-neutral data of the gateway, \<open>core/gateway_models.py\<close>, and the governance metadata of
  \<open>core/decorators.py\<close> that its descriptors carry.  The constructors freeze their JSON fields.
  A field that \<open>frozenset\<close> normalises is a set; \<open>sorted\<close> of it is \<open>sorted_list_of_set\<close>.
\<close>

section \<open>Governance metadata\<close>

text \<open>\<open>cb_max_cost\<close> is the decimal as the text \<open>str\<close> gives it.\<close>

record capability_budget =
  cb_max_model_calls :: "int option"
  cb_max_tool_calls :: "int option"
  cb_max_cost :: "string option"

record capability_policy =
  cp_required_scopes :: "string list"
  cp_side_effect :: "string option"
  cp_timeout :: "pyfloat option"
  cp_budget :: "capability_budget option"
  cp_data_classification :: "string option"

definition entry :: "string \<Rightarrow> ('a \<Rightarrow> pyval) \<Rightarrow> 'a option \<Rightarrow> (string \<times> pyval) list" where
  "entry k f v = (case v of None \<Rightarrow> [] | Some x \<Rightarrow> [(k, f x)])"

definition budget_dict :: "capability_budget \<Rightarrow> pyval" where
  "budget_dict b = VDict (entry ''maxModelCalls'' VInt (cb_max_model_calls b)
     @ entry ''maxToolCalls'' VInt (cb_max_tool_calls b) @ entry ''maxCostUsd'' VStr (cb_max_cost b))"

definition empty_policy :: capability_policy where
  "empty_policy = \<lparr>cp_required_scopes = [], cp_side_effect = None, cp_timeout = None, cp_budget = None,
     cp_data_classification = None\<rparr>"

definition policy_is_empty :: "capability_policy \<Rightarrow> bool" where
  "policy_is_empty p \<longleftrightarrow> cp_required_scopes p = [] \<and> cp_side_effect p = None \<and> cp_timeout p = None
     \<and> cp_budget p = None \<and> cp_data_classification p = None"

definition policy_dict :: "capability_policy \<Rightarrow> pyval" where
  "policy_dict p = VDict (
     (if cp_required_scopes p = [] then [] else [(''requiredScopes'', str_list (cp_required_scopes p))])
     @ entry ''sideEffect'' VStr (cp_side_effect p) @ entry ''timeoutSeconds'' VFloat (cp_timeout p)
     @ entry ''budget'' budget_dict (cp_budget p) @ entry ''dataClassification'' VStr (cp_data_classification p))"

section \<open>Queries and descriptors\<close>

datatype lifecycle = ACTIVE | DRAINING | DISABLED | REMOVED

fun lifecycle_value :: "lifecycle \<Rightarrow> string" where
  "lifecycle_value ACTIVE = ''active''"
| "lifecycle_value DRAINING = ''draining''"
| "lifecycle_value DISABLED = ''disabled''"
| "lifecycle_value REMOVED = ''removed''"

definition freeze_option :: "pyval option \<Rightarrow> py_error + pyval option" where
  "freeze_option v = (case v of None \<Rightarrow> Inr None | Some x \<Rightarrow> map_sum id Some (freeze_json x))"

record discovery_query =
  dq_agent_id :: "string option"
  dq_capability_ids :: "string set"
  dq_tags :: "string set"
  dq_version :: "string option"
  dq_input_schema :: "pyval option"
  dq_output_schema :: "pyval option"
  dq_limit :: int
  dq_include_approval :: bool

definition mk_discovery_query :: "discovery_query \<Rightarrow> py_error + discovery_query" where
  "mk_discovery_query q =
     (if (case dq_agent_id q of None \<Rightarrow> False | Some a \<Rightarrow> strip a = []) then Inl ValueError
      else if dq_limit q < 1 then Inl ValueError
      else (case freeze_option (dq_input_schema q) of Inl e \<Rightarrow> Inl e | Inr i \<Rightarrow>
           (case freeze_option (dq_output_schema q) of Inl e \<Rightarrow> Inl e | Inr out \<Rightarrow>
              Inr (q\<lparr>dq_input_schema := i, dq_output_schema := out\<rparr>))))"

record capability_descriptor =
  cd_agent_id :: string
  cd_agent_version :: string
  cd_capability_id :: string
  cd_description :: "string option"
  cd_tags :: "string set"
  cd_input_schema :: pyval
  cd_output_schema :: "pyval option"
  cd_schema_digest :: string
  cd_required_scopes :: "string list"
  cd_approval_required :: bool
  cd_policy :: capability_policy
  cd_data_sources :: "string list"

definition mk_capability_descriptor :: "capability_descriptor \<Rightarrow> py_error + capability_descriptor" where
  "mk_capability_descriptor d =
     (case freeze_json (cd_input_schema d) of Inl e \<Rightarrow> Inl e | Inr i \<Rightarrow>
     (case freeze_option (cd_output_schema d) of Inl e \<Rightarrow> Inl e | Inr out \<Rightarrow>
        Inr (d\<lparr>cd_input_schema := i, cd_output_schema := out, cd_data_sources := sorted_unique (cd_data_sources d)\<rparr>)))"

definition tags_list :: "string set \<Rightarrow> pyval" where
  "tags_list ts = str_list (sorted_list_of_set ts)"

definition thaw_option :: "pyval option \<Rightarrow> pyval" where
  "thaw_option v = (case v of None \<Rightarrow> VNone | Some x \<Rightarrow> thaw_json x)"

definition capability_dict :: "capability_descriptor \<Rightarrow> pyval" where
  "capability_dict d = VDict (
     [(''agent_id'', VStr (cd_agent_id d)), (''agent_version'', VStr (cd_agent_version d)),
      (''capability_id'', VStr (cd_capability_id d)), (''description'', opt_value (cd_description d)),
      (''tags'', tags_list (cd_tags d)), (''input_schema'', thaw_json (cd_input_schema d)),
      (''output_schema'', thaw_option (cd_output_schema d)), (''schema_digest'', VStr (cd_schema_digest d)),
      (''required_scopes'', str_list (cd_required_scopes d)), (''approval_required'', VBool (cd_approval_required d))]
     @ (if policy_is_empty (cd_policy d) then [] else [(''policy'', policy_dict (cd_policy d))])
     @ (if cd_data_sources d = [] then [] else [(''data_sources'', str_list (cd_data_sources d))]))"

record agent_descriptor =
  ad_agent_id :: string
  ad_version :: string
  ad_description :: "string option"
  ad_tags :: "string set"
  ad_lifecycle :: lifecycle
  ad_healthy :: bool
  ad_generation :: int
  ad_capabilities :: "capability_descriptor list"

definition agent_dict :: "agent_descriptor \<Rightarrow> pyval" where
  "agent_dict a = VDict [(''agent_id'', VStr (ad_agent_id a)), (''version'', VStr (ad_version a)),
     (''description'', opt_value (ad_description a)), (''tags'', tags_list (ad_tags a)),
     (''lifecycle'', VStr (lifecycle_value (ad_lifecycle a))), (''healthy'', VBool (ad_healthy a)),
     (''generation'', VInt (ad_generation a)), (''capabilities'', VList (map capability_dict (ad_capabilities a)))]"

record registry_snapshot =
  rs_revision :: int
  rs_agents :: "agent_descriptor list"
  rs_data_sources :: "data_source list"

definition mk_registry_snapshot :: "int \<Rightarrow> agent_descriptor list \<Rightarrow> data_source list \<Rightarrow> registry_snapshot" where
  "mk_registry_snapshot r as ds = \<lparr>rs_revision = r, rs_agents = as, rs_data_sources = sort_key ds_name ds\<rparr>"

definition snapshot_capabilities :: "registry_snapshot \<Rightarrow> capability_descriptor list" where
  "snapshot_capabilities s = concat (map ad_capabilities (rs_agents s))"

definition registry_snapshot_dict :: "registry_snapshot \<Rightarrow> pyval" where
  "registry_snapshot_dict s = VDict [(''revision'', VInt (rs_revision s)),
     (''agents'', VList (map agent_dict (rs_agents s))),
     (''data_sources'', VList (map data_source_dict (rs_data_sources s)))]"

section \<open>Bindings, tools and results\<close>

record capability_binding =
  bd_agent_id :: string
  bd_capability_id :: string
  bd_schema_digest :: string
  bd_registry_revision :: int
  bd_generation :: int
  bd_runtime_id :: string
  bd_issued_at :: pyfloat
  bd_expires_at :: pyfloat
  bd_nonce :: string
  bd_signature :: string

record bound_capability =
  bc_descriptor :: capability_descriptor
  bc_binding :: capability_binding

record tool_descriptor =
  td_tool_id :: string
  td_name :: string
  td_description :: string
  td_input_schema :: pyval
  td_binding :: capability_binding

definition mk_tool_descriptor :: "tool_descriptor \<Rightarrow> py_error + tool_descriptor" where
  "mk_tool_descriptor t = map_sum id (\<lambda>s. t\<lparr>td_input_schema := s\<rparr>) (freeze_json (td_input_schema t))"

definition tool_dict :: "tool_descriptor \<Rightarrow> pyval" where
  "tool_dict t = VDict [(''id'', VStr (td_tool_id t)), (''name'', VStr (td_name t)),
     (''description'', VStr (td_description t)), (''input_schema'', thaw_json (td_input_schema t))]"

datatype gateway_failure_code = NO_MATCH | AMBIGUOUS | DISCOVERY_DENIED | STALE_BINDING | INVALID_BINDING
  | FOREIGN_RUNTIME | EXPIRED_BINDING | TARGET_UNAVAILABLE | NO_ELIGIBLE_INSTANCE | SCHEMA_MISMATCH
  | BUDGET_EXHAUSTED | CYCLE_DETECTED | DEPTH_EXCEEDED | RESULT_LIMIT_EXCEEDED | POLICY_EVALUATION_FAILED
  | UNSUPPORTED_SCHEMA | TOOL_ID_COLLISION

fun failure_value :: "gateway_failure_code \<Rightarrow> string" where
  "failure_value NO_MATCH = ''no_match''"
| "failure_value AMBIGUOUS = ''ambiguous''"
| "failure_value DISCOVERY_DENIED = ''discovery_denied''"
| "failure_value STALE_BINDING = ''stale_binding''"
| "failure_value INVALID_BINDING = ''invalid_binding''"
| "failure_value FOREIGN_RUNTIME = ''foreign_runtime''"
| "failure_value EXPIRED_BINDING = ''expired_binding''"
| "failure_value TARGET_UNAVAILABLE = ''target_unavailable''"
| "failure_value NO_ELIGIBLE_INSTANCE = ''no_eligible_instance''"
| "failure_value SCHEMA_MISMATCH = ''schema_mismatch''"
| "failure_value BUDGET_EXHAUSTED = ''budget_exhausted''"
| "failure_value CYCLE_DETECTED = ''cycle_detected''"
| "failure_value DEPTH_EXCEEDED = ''depth_exceeded''"
| "failure_value RESULT_LIMIT_EXCEEDED = ''result_limit_exceeded''"
| "failure_value POLICY_EVALUATION_FAILED = ''policy_evaluation_failed''"
| "failure_value UNSUPPORTED_SCHEMA = ''unsupported_schema''"
| "failure_value TOOL_ID_COLLISION = ''tool_id_collision''"

record gateway_failure =
  gf_code :: gateway_failure_code
  gf_message :: string

record discovery_result =
  dr_revision :: int
  dr_candidates :: "bound_capability list"
  dr_failure :: "gateway_failure option"
  dr_truncated :: bool

record tool_discovery_result =
  tr_revision :: int
  tr_tools :: "tool_descriptor list"
  tr_failure :: "gateway_failure option"
  tr_truncated :: bool

datatype selection_status = SELECTED | SEL_NO_MATCH | SEL_AMBIGUOUS | SEL_DENIED | SEL_FAILED

record selection_outcome =
  so_status :: selection_status
  so_binding :: "capability_binding option"
  so_descriptor :: "capability_descriptor option"
  so_candidates :: "capability_descriptor list"
  so_failure :: "gateway_failure option"
  so_truncated :: bool

definition failed_selection :: "selection_status \<Rightarrow> gateway_failure \<Rightarrow> selection_outcome" where
  "failed_selection st f = \<lparr>so_status = st, so_binding = None, so_descriptor = None, so_candidates = [],
     so_failure = Some f, so_truncated = False\<rparr>"

end
