(* ===== verification/Toolbox.thy ===== *)
theory Toolbox
  imports GatewayModels Schema
begin

text \<open>
  What the model sees of the capabilities: the projection of discovered candidates into tools
  (\<open>core/gateway/_projection.py\<close>) and the bounded toolbox of one decision (\<open>core/gateway_tools.py\<close>).
  \<open>digest\<close> is the hexadecimal SHA-256 of a text, \<open>fr\<close> the decimal text of a float; the discovery
  of a gateway is a program over a state of its own.
\<close>

section \<open>Projection\<close>

text \<open>The length of the UTF-8 encoding; \<open>canonical_json\<close> is ASCII, so its length is its size.\<close>

definition utf8_length :: "string \<Rightarrow> nat" where
  "utf8_length s = sum_list (map (\<lambda>c. if (of_char c :: nat) < 128 then 1 else 2) s)"

definition slug_char :: "char \<Rightarrow> bool" where
  "slug_char c \<longleftrightarrow> (let n = of_char c :: nat in
     (48 \<le> n \<and> n \<le> 57) \<or> (65 \<le> n \<and> n \<le> 90) \<or> (97 \<le> n \<and> n \<le> 122) \<or> c = CHR ''_'' \<or> c = CHR ''-'')"

text \<open>\<open>re.sub\<close>: every maximal run of other characters becomes one underscore.\<close>

fun collapse :: "bool \<Rightarrow> string \<Rightarrow> string" where
  "collapse in_run [] = []"
| "collapse in_run (c # cs) =
     (if slug_char c then c # collapse False cs
      else if in_run then collapse True cs else CHR ''_'' # collapse True cs)"

definition strip_underscores :: "string \<Rightarrow> string" where
  "strip_underscores s = rev (dropWhile ((=) (CHR ''_'')) (rev (dropWhile ((=) (CHR ''_'')) s)))"

definition tool_slug :: "string \<Rightarrow> string" where
  "tool_slug v = (let slug = lower (strip_underscores (collapse False v)) in
     take 48 (if slug = [] then ''capability'' else slug))"

text \<open>The tool of one candidate; an unsupported schema raises \<open>_UnsupportedSchemaError\<close>, a \<open>ValueError\<close>.\<close>

definition project_candidate :: "(string \<Rightarrow> string) \<Rightarrow> bound_capability \<Rightarrow> py_error + tool_descriptor" where
  "project_candidate digest c =
     (let d = bc_descriptor c;
          suffix = take 12 (digest (cd_agent_id d @ [CHR 0x00] @ cd_capability_id d));
          stem = tool_slug (cd_agent_id d @ ''__'' @ cd_capability_id d);
          text = (case cd_description d of Some s \<Rightarrow> if s = [] then cd_capability_id d else s | None \<Rightarrow> cd_capability_id d) in
      case model_safe_schema (cd_input_schema d) of
        None \<Rightarrow> Inl ValueError
      | Some schema \<Rightarrow>
          mk_tool_descriptor \<lparr>td_tool_id = ''conducto_'' @ suffix, td_name = stem @ ''_'' @ suffix,
            td_description = safe_untrusted_text text ''capability description'', td_input_schema = schema,
            td_binding = bc_binding c\<rparr>)"

text \<open>
  The loop: the tools so far, the serialized size so far.  The result is the tools and whether the
  size limit cut the list; \<open>None\<close> is the early return when not even the first tool fits.
\<close>

fun project_loop ::
  "(string \<Rightarrow> string) \<Rightarrow> (pyfloat \<Rightarrow> string) \<Rightarrow> int \<Rightarrow> bound_capability list \<Rightarrow> tool_descriptor list \<Rightarrow> int
   \<Rightarrow> py_error + (tool_descriptor list \<times> bool) option" where
  "project_loop digest fr max_bytes [] tools size_so_far = Inr (Some (tools, False))"
| "project_loop digest fr max_bytes (c # cs) tools size_so_far =
     (case project_candidate digest c of Inl e \<Rightarrow> Inl e
      | Inr tool \<Rightarrow>
          (case canonical_json fr (tool_dict tool) of None \<Rightarrow> Inl TypeError
           | Some txt \<Rightarrow>
               if size_so_far + int (length txt) > max_bytes
               then Inr (if tools = [] then None else Some (tools, True))
               else project_loop digest fr max_bytes cs (tools @ [tool]) (size_so_far + int (length txt) + 1)))"

definition project_tools ::
  "(string \<Rightarrow> string) \<Rightarrow> (pyfloat \<Rightarrow> string) \<Rightarrow> int \<Rightarrow> discovery_result \<Rightarrow> py_error + tool_discovery_result" where
  "project_tools digest fr max_bytes r =
     (case project_loop digest fr max_bytes (dr_candidates r) [] 2 of
        Inl e \<Rightarrow> Inl e
      | Inr None \<Rightarrow> Inr \<lparr>tr_revision = dr_revision r, tr_tools = [],
          tr_failure = Some \<lparr>gf_code = RESULT_LIMIT_EXCEEDED,
            gf_message = ''The first tool exceeds the configured serialized-size limit''\<rparr>, tr_truncated = True\<rparr>
      | Inr (Some (tools, shortened)) \<Rightarrow> Inr \<lparr>tr_revision = dr_revision r, tr_tools = tools,
          tr_failure = (if tools = [] then dr_failure r else None), tr_truncated = dr_truncated r \<or> shortened\<rparr>)"

section \<open>Declared uses and limits\<close>

datatype use_requirement = USE_REQUIRED | USE_OPTIONAL

record capability_use =
  cu_capability_ids :: "string set"
  cu_tags :: "string set"
  cu_version :: "string option"
  cu_input_schema :: "pyval option"
  cu_output_schema :: "pyval option"
  cu_limit :: int
  cu_requirement :: use_requirement

definition max_use_limit :: int where
  "max_use_limit = 100"

definition mk_capability_use :: "capability_use \<Rightarrow> py_error + capability_use" where
  "mk_capability_use u =
     (if cu_capability_ids u = {} \<and> cu_tags u = {} then Inl ValueError
      else if \<exists>c \<in> cu_capability_ids u. strip c = [] then Inl ValueError
      else if \<exists>t \<in> cu_tags u. strip t = [] then Inl ValueError
      else if (case cu_version u of None \<Rightarrow> False | Some v \<Rightarrow> strip v = []) then Inl ValueError
      else if cu_limit u < 1 then Inl ValueError
      else if cu_limit u > max_use_limit then Inl ValueError
      else Inr u)"

definition use_required :: "capability_use \<Rightarrow> bool" where
  "use_required u \<longleftrightarrow> cu_requirement u = USE_REQUIRED"

definition use_query :: "bool \<Rightarrow> capability_use \<Rightarrow> py_error + discovery_query" where
  "use_query include_approval u = mk_discovery_query \<lparr>dq_agent_id = None, dq_capability_ids = cu_capability_ids u,
     dq_tags = cu_tags u, dq_version = cu_version u, dq_input_schema = cu_input_schema u,
     dq_output_schema = cu_output_schema u, dq_limit = cu_limit u, dq_include_approval = include_approval\<rparr>"

record toolbox_policy =
  tp_uses :: "capability_use list"
  tp_max_tools :: int
  tp_max_schema_bytes :: int
  tp_max_description_bytes :: int
  tp_max_total_bytes :: int

definition mk_toolbox_policy :: "toolbox_policy \<Rightarrow> py_error + toolbox_policy" where
  "mk_toolbox_policy p =
     (if tp_max_tools p < 1 then Inl ValueError
      else if tp_max_schema_bytes p < 1 \<or> tp_max_description_bytes p < 1 then Inl ValueError
      else if tp_max_total_bytes p < 1 then Inl ValueError
      else if \<not> distinct (map (\<lambda>u. (cu_capability_ids u, cu_tags u)) (tp_uses p)) then Inl ValueError
      else Inr p)"

section \<open>The toolbox of one decision\<close>

datatype toolbox_status = TB_SUCCESS | TB_REQUIRED_UNAVAILABLE | TB_DISCOVERY_DENIED | TB_AMBIGUOUS
  | TB_UNSUPPORTED_SCHEMA | TB_DUPLICATE_TOOL_ID | TB_LIMIT_EXCEEDED

record toolbox_snapshot =
  ts_revision :: int
  ts_tools :: "tool_descriptor list"

definition snapshot_contains :: "toolbox_snapshot \<Rightarrow> string \<Rightarrow> bool" where
  "snapshot_contains s i \<longleftrightarrow> list_ex (\<lambda>t. td_tool_id t = i) (ts_tools s)"

definition snapshot_resolve :: "toolbox_snapshot \<Rightarrow> string \<Rightarrow> capability_binding option" where
  "snapshot_resolve s i = map_option td_binding (List.find (\<lambda>t. td_tool_id t = i) (ts_tools s))"

definition model_payload :: "toolbox_snapshot \<Rightarrow> pyval list" where
  "model_payload s = map tool_dict (ts_tools s)"

record use_failure =
  uf_use :: capability_use
  uf_failure :: gateway_failure

record toolbox_result =
  tb_status :: toolbox_status
  tb_snapshot :: "toolbox_snapshot option"
  tb_failure :: "gateway_failure option"
  tb_skipped :: "use_failure list"

definition toolbox_ok :: "toolbox_result \<Rightarrow> bool" where
  "toolbox_ok r \<longleftrightarrow> tb_status r = TB_SUCCESS"

fun status_for_required_failure :: "gateway_failure_code \<Rightarrow> toolbox_status" where
  "status_for_required_failure NO_MATCH = TB_REQUIRED_UNAVAILABLE"
| "status_for_required_failure DISCOVERY_DENIED = TB_DISCOVERY_DENIED"
| "status_for_required_failure AMBIGUOUS = TB_AMBIGUOUS"
| "status_for_required_failure UNSUPPORTED_SCHEMA = TB_UNSUPPORTED_SCHEMA"
| "status_for_required_failure RESULT_LIMIT_EXCEEDED = TB_LIMIT_EXCEEDED"
| "status_for_required_failure POLICY_EVALUATION_FAILED = TB_REQUIRED_UNAVAILABLE"
| "status_for_required_failure _ = TB_REQUIRED_UNAVAILABLE"

definition toolbox_failed :: "toolbox_status \<Rightarrow> gateway_failure \<Rightarrow> toolbox_result" where
  "toolbox_failed st f = \<lparr>tb_status = st, tb_snapshot = None, tb_failure = Some f, tb_skipped = []\<rparr>"

definition limit_failure :: "string \<Rightarrow> toolbox_result" where
  "limit_failure msg = toolbox_failed TB_LIMIT_EXCEEDED \<lparr>gf_code = RESULT_LIMIT_EXCEEDED, gf_message = msg\<rparr>"

text \<open>The tools so far and their serialized size so far.\<close>

type_synonym tool_acc = "tool_descriptor list \<times> int"

definition quoted :: "string \<Rightarrow> string" where
  "quoted s = [CHR 0x27] @ s @ [CHR 0x27]"

text \<open>One tool: an early return of a result (\<open>Inl\<close> inside), or the tools and size after it.\<close>

definition add_tool ::
  "(pyfloat \<Rightarrow> string) \<Rightarrow> toolbox_policy \<Rightarrow> tool_descriptor \<Rightarrow> tool_acc \<Rightarrow> py_error + (toolbox_result + tool_acc)" where
  "add_tool fr p tool acc =
     (case acc of (tools, used) \<Rightarrow>
      (case List.find (\<lambda>x. td_tool_id x = td_tool_id tool) tools of
         Some old \<Rightarrow>
           if bd_agent_id (td_binding old) \<noteq> bd_agent_id (td_binding tool)
              \<or> bd_capability_id (td_binding old) \<noteq> bd_capability_id (td_binding tool)
           then Inr (Inl (toolbox_failed TB_DUPLICATE_TOOL_ID \<lparr>gf_code = TOOL_ID_COLLISION,
                  gf_message = ''Tool ID '' @ quoted (td_tool_id tool) @ '' collides across distinct capabilities''\<rparr>))
           else Inr (Inr (tools, used))
       | None \<Rightarrow>
           if int (utf8_length (td_description tool)) > tp_max_description_bytes p
           then Inr (Inl (limit_failure (''Tool '' @ quoted (td_tool_id tool) @ '' description exceeds the configured size limit'')))
           else (case canonical_json fr (td_input_schema tool) of None \<Rightarrow> Inl TypeError
           | Some schema \<Rightarrow>
             if int (length schema) > tp_max_schema_bytes p
             then Inr (Inl (limit_failure (''Tool '' @ quoted (td_tool_id tool) @ '' input schema exceeds the configured size limit'')))
             else if int (length tools) \<ge> tp_max_tools p
             then Inr (Inl (limit_failure ''Toolbox exceeds the configured maximum tool count''))
             else (case canonical_json fr (tool_dict tool) of None \<Rightarrow> Inl TypeError
             | Some txt \<Rightarrow>
               let separator = (if tools = [] then 0 else 1) in
               if used + separator + int (length txt) > tp_max_total_bytes p
               then Inr (Inl (limit_failure ''Toolbox exceeds the configured maximum serialized size''))
               else Inr (Inr (tools @ [tool], used + (separator + int (length txt))))))))"

fun add_tools ::
  "(pyfloat \<Rightarrow> string) \<Rightarrow> toolbox_policy \<Rightarrow> tool_descriptor list \<Rightarrow> tool_acc \<Rightarrow> py_error + (toolbox_result + tool_acc)" where
  "add_tools fr p [] acc = Inr (Inr acc)"
| "add_tools fr p (t # ts) acc =
     (case add_tool fr p t acc of Inr (Inr acc') \<Rightarrow> add_tools fr p ts acc' | r \<Rightarrow> r)"

definition no_eligible :: gateway_failure where
  "no_eligible = \<lparr>gf_code = NO_MATCH, gf_message = ''No eligible capability matched the declared use''\<rparr>"

fun build_uses ::
  "(pyfloat \<Rightarrow> string) \<Rightarrow> (discovery_query \<Rightarrow> ('g, py_error, tool_discovery_result) prog) \<Rightarrow> toolbox_policy \<Rightarrow> bool
   \<Rightarrow> capability_use list \<Rightarrow> int \<Rightarrow> tool_acc \<Rightarrow> use_failure list \<Rightarrow> ('g, py_error, toolbox_result) prog" where
  "build_uses fr discover p include_approval [] revision acc skipped g =
     (Inr \<lparr>tb_status = TB_SUCCESS, tb_snapshot = Some \<lparr>ts_revision = revision, ts_tools = fst acc\<rparr>,
           tb_failure = None, tb_skipped = skipped\<rparr>, g)"
| "build_uses fr discover p include_approval (u # us) revision acc skipped g =
     (case use_query include_approval u of Inl e \<Rightarrow> (Inl e, g)
      | Inr q \<Rightarrow>
        (case discover q g of
           (Inl e, g') \<Rightarrow> (Inl e, g')
         | (Inr found, g') \<Rightarrow>
             let revision' = max revision (tr_revision found) in
             if tr_tools found = [] then
               let failure = (case tr_failure found of Some f \<Rightarrow> f | None \<Rightarrow> no_eligible) in
               if use_required u then (Inr (toolbox_failed (status_for_required_failure (gf_code failure)) failure), g')
               else build_uses fr discover p include_approval us revision' acc
                      (skipped @ [\<lparr>uf_use = u, uf_failure = failure\<rparr>]) g'
             else (case add_tools fr p (tr_tools found) acc of
                 Inl e \<Rightarrow> (Inl e, g')
               | Inr (Inl result) \<Rightarrow> (Inr result, g')
               | Inr (Inr acc') \<Rightarrow> build_uses fr discover p include_approval us revision' acc' skipped g')))"

definition build_toolbox ::
  "(pyfloat \<Rightarrow> string) \<Rightarrow> (discovery_query \<Rightarrow> ('g, py_error, tool_discovery_result) prog) \<Rightarrow> toolbox_policy \<Rightarrow> bool
   \<Rightarrow> ('g, py_error, toolbox_result) prog" where
  "build_toolbox fr discover p include_approval g =
     (if tp_uses p = [] then (Inr \<lparr>tb_status = TB_SUCCESS, tb_snapshot = Some \<lparr>ts_revision = -1, ts_tools = []\<rparr>,
           tb_failure = None, tb_skipped = []\<rparr>, g)
      else build_uses fr discover p include_approval (tp_uses p) (-1) ([], 2) [] g)"

section \<open>What a toolbox guarantees\<close>

definition tool_within :: "(pyfloat \<Rightarrow> string) \<Rightarrow> toolbox_policy \<Rightarrow> tool_descriptor \<Rightarrow> bool" where
  "tool_within fr p t \<longleftrightarrow> int (utf8_length (td_description t)) \<le> tp_max_description_bytes p
     \<and> (case canonical_json fr (td_input_schema t) of None \<Rightarrow> False | Some s \<Rightarrow> int (length s) \<le> tp_max_schema_bytes p)"

definition tool_texts :: "(pyfloat \<Rightarrow> string) \<Rightarrow> tool_descriptor list \<Rightarrow> string list option" where
  "tool_texts fr tools = those (map (\<lambda>t. canonical_json fr (tool_dict t)) tools)"

definition acc_inv :: "(pyfloat \<Rightarrow> string) \<Rightarrow> toolbox_policy \<Rightarrow> tool_acc \<Rightarrow> bool" where
  "acc_inv fr p acc \<longleftrightarrow> distinct (map td_tool_id (fst acc)) \<and> int (length (fst acc)) \<le> tp_max_tools p
     \<and> list_all (tool_within fr p) (fst acc)
     \<and> (\<exists>txts. tool_texts fr (fst acc) = Some txts \<and> snd acc = int (length (json_array txts)))
     \<and> (fst acc = [] \<or> snd acc \<le> tp_max_total_bytes p)"

lemma tool_texts_snoc:
  "tool_texts fr (tools @ [t]) = (case tool_texts fr tools of None \<Rightarrow> None
     | Some txts \<Rightarrow> map_option (\<lambda>x. txts @ [x]) (canonical_json fr (tool_dict t)))"
  unfolding tool_texts_def by (induction tools) (auto split: option.splits simp: option.map_comp comp_def)

lemma tool_texts_Nil [simp]: "tool_texts fr [] = Some []"
  by (simp add: tool_texts_def)

lemma tool_texts_length: "tool_texts fr tools = Some txts \<Longrightarrow> length txts = length tools"
proof (induction tools arbitrary: txts rule: rev_induct)
  case (snoc t tools)
  then show ?case by (auto simp: tool_texts_snoc split: option.splits)
qed simp

lemma json_array_snoc:
  "length (json_array (txts @ [x])) = length (json_array txts) + (if txts = [] then 0 else 1) + length x"
  by (cases txts) (auto simp: json_array_length)

lemma find_None_ids: "List.find (\<lambda>x. td_tool_id x = i) tools = None \<longleftrightarrow> i \<notin> td_tool_id ` set tools"
  by (auto simp: find_None_iff)

lemma add_tool_inv:
  assumes "acc_inv fr p acc" and "add_tool fr p t acc = Inr (Inr acc')"
  shows "acc_inv fr p acc' \<and> (fst acc' = fst acc \<or> fst acc' = fst acc @ [t])"
proof (cases "List.find (\<lambda>x. td_tool_id x = td_tool_id t) (fst acc)")
  case (Some old)
  with assms show ?thesis by (auto simp: add_tool_def split: prod.splits if_splits)
next
  case None
  obtain tools n where acc: "acc = (tools, n)" by (cases acc)
  obtain sch where sch: "canonical_json fr (td_input_schema t) = Some sch"
    using assms None acc by (cases "canonical_json fr (td_input_schema t)") (auto simp: add_tool_def split: if_splits)
  obtain enc where enc: "canonical_json fr (tool_dict t) = Some enc"
    using assms None acc sch
    by (cases "canonical_json fr (tool_dict t)") (auto simp: add_tool_def split: if_splits)
  obtain txts where txts: "tool_texts fr tools = Some txts" "n = int (length (json_array txts))"
    using assms(1) acc by (auto simp: acc_inv_def)
  have acc': "acc' = (tools @ [t], n + ((if tools = [] then 0 else 1) + int (length enc)))"
    and lim: "int (utf8_length (td_description t)) \<le> tp_max_description_bytes p" "int (length sch) \<le> tp_max_schema_bytes p"
      "int (length tools) < tp_max_tools p" "n + (if tools = [] then 0 else 1) + int (length enc) \<le> tp_max_total_bytes p"
    using assms(2) None acc sch enc by (auto simp: add_tool_def Let_def split: if_splits)
  have "txts = [] \<longleftrightarrow> tools = []" using tool_texts_length[OF txts(1)] by auto
  with acc' lim enc txts sch assms(1) acc None show ?thesis
    by (auto simp: acc_inv_def tool_within_def tool_texts_snoc json_array_snoc find_None_ids)
qed

lemma add_tools_inv:
  "acc_inv fr p acc \<Longrightarrow> add_tools fr p ts acc = Inr (Inr acc') \<Longrightarrow>
     acc_inv fr p acc' \<and> set (fst acc) \<subseteq> set (fst acc') \<and> set (fst acc') \<subseteq> set (fst acc) \<union> set ts"
proof (induction ts arbitrary: acc)
  case (Cons t ts)
  from Cons.prems(2) obtain acc1 where step: "add_tool fr p t acc = Inr (Inr acc1)"
    and rest: "add_tools fr p ts acc1 = Inr (Inr acc')"
    by (auto split: sum.splits)
  from add_tool_inv[OF Cons.prems(1) step] Cons.IH[of acc1] rest show ?case by auto
qed simp

lemma add_tool_status: "add_tool fr p t acc = Inr (Inl r) \<Longrightarrow> tb_status r \<noteq> TB_SUCCESS"
  by (auto simp: add_tool_def limit_failure_def toolbox_failed_def Let_def
      split: prod.splits option.splits if_splits)

lemma add_tools_status: "add_tools fr p ts acc = Inr (Inl r) \<Longrightarrow> tb_status r \<noteq> TB_SUCCESS"
proof (induction ts arbitrary: acc)
  case (Cons t ts)
  then show ?case by (auto split: sum.splits dest: add_tool_status)
qed simp

text \<open>A successful build: every accumulated tool is within the limits, nothing required was skipped.\<close>

lemma build_uses_success:
  assumes "build_uses fr discover p ia us rv acc skipped g = (Inr r, g')" and "tb_status r = TB_SUCCESS"
    and "acc_inv fr p acc" and "list_all (\<lambda>f. \<not> use_required (uf_use f)) skipped"
  shows "\<exists>s. tb_snapshot r = Some s \<and> (\<exists>n. acc_inv fr p (ts_tools s, n)) \<and> rv \<le> ts_revision s
     \<and> list_all (\<lambda>f. \<not> use_required (uf_use f)) (tb_skipped r)
     \<and> tb_failure r = None"
  using assms
proof (induction us arbitrary: rv acc skipped g)
  case Nil
  then show ?case by (cases acc) auto
next
  case (Cons u us)
  obtain q where q: "use_query ia u = Inr q"
    using Cons.prems(1) by (cases "use_query ia u") auto
  obtain found g1 where d: "discover q g = (Inr found, g1)"
    using Cons.prems(1) q by (cases "discover q g"; cases "fst (discover q g)") auto
  show ?case
  proof (cases "tr_tools found = []")
    case True
    let ?f = "case tr_failure found of Some f \<Rightarrow> f | None \<Rightarrow> no_eligible"
    have "\<not> use_required u"
      using Cons.prems(1,2) q d True
      by (cases "gf_code ?f") (auto simp: toolbox_failed_def Let_def split: if_splits)
    then have "build_uses fr discover p ia us (max rv (tr_revision found)) acc
        (skipped @ [\<lparr>uf_use = u, uf_failure = ?f\<rparr>]) g1 = (Inr r, g')"
      using Cons.prems(1) q d True by (simp add: Let_def)
    from Cons.IH[OF this Cons.prems(2,3)] Cons.prems(4) \<open>\<not> use_required u\<close> show ?thesis by force
  next
    case False
    obtain acc1 where a: "add_tools fr p (tr_tools found) acc = Inr (Inr acc1)"
      using Cons.prems(1,2) q d False by (auto simp: Let_def split: sum.splits dest: add_tools_status)
    then have "build_uses fr discover p ia us (max rv (tr_revision found)) acc1 skipped g1 = (Inr r, g')"
      using Cons.prems(1) q d False by (simp add: Let_def)
    from Cons.IH[OF this Cons.prems(2) _ Cons.prems(4)] add_tools_inv[OF Cons.prems(3) a]
    show ?thesis by fastforce
  qed
qed

text \<open>
  A successful toolbox is within every configured limit.  Whatever the gateway answers, when
  building succeeds for a policy that declares uses, the snapshot has at most the allowed number of
  tools, no two tools share an identifier, every description and every input schema respects its
  own limit, the serialized size of the whole list of tools respects the total limit, nothing that
  was required is missing, and an identifier resolves exactly when the snapshot lists it.
\<close>

theorem toolbox_within_limits:
  assumes "build_toolbox fr discover p ia g = (Inr r, g')" and "tb_status r = TB_SUCCESS"
    and "tp_uses p \<noteq> []" and "mk_toolbox_policy p = Inr p"
  shows "\<exists>s. tb_snapshot r = Some s
     \<and> int (length (ts_tools s)) \<le> tp_max_tools p \<and> distinct (map td_tool_id (ts_tools s))
     \<and> list_all (tool_within fr p) (ts_tools s)
     \<and> (ts_tools s = [] \<or> (\<exists>txts. tool_texts fr (ts_tools s) = Some txts
          \<and> int (length (json_array txts)) \<le> tp_max_total_bytes p))
     \<and> list_all (\<lambda>f. \<not> use_required (uf_use f)) (tb_skipped r)
     \<and> (snapshot_resolve s i \<noteq> None \<longleftrightarrow> snapshot_contains s i)"
proof -
  have start: "acc_inv fr p ([], 2)"
    using assms(4) by (simp add: acc_inv_def json_array_length mk_toolbox_policy_def split: if_splits)
  have "build_uses fr discover p ia (tp_uses p) (-1) ([], 2) [] g = (Inr r, g')"
    using assms(1,3) by (simp add: build_toolbox_def)
  from build_uses_success[OF this assms(2) start] obtain s n where s: "tb_snapshot r = Some s"
    "acc_inv fr p (ts_tools s, n)" "list_all (\<lambda>f. \<not> use_required (uf_use f)) (tb_skipped r)" by auto
  have "snapshot_resolve s i \<noteq> None \<longleftrightarrow> snapshot_contains s i"
    by (auto simp: snapshot_resolve_def snapshot_contains_def list_ex_iff find_None_iff)
  with s show ?thesis by (fastforce simp: acc_inv_def)
qed

definition sample_binding :: "string \<Rightarrow> string \<Rightarrow> capability_binding" where
  "sample_binding a c = \<lparr>bd_agent_id = a, bd_capability_id = c, bd_schema_digest = ''d'', bd_registry_revision = 1,
     bd_generation = 1, bd_runtime_id = ''r'', bd_issued_at = Finite 0, bd_expires_at = Finite 9, bd_nonce = ''n'', bd_signature = ''s''\<rparr>"

definition sample_tool :: "string \<Rightarrow> string \<Rightarrow> tool_descriptor" where
  "sample_tool i c = \<lparr>td_tool_id = i, td_name = c, td_description = ''look up'', td_input_schema = VProxy [(''type'', VStr ''object'')],
     td_binding = sample_binding ''crm'' c\<rparr>"

definition sample_use :: "string \<Rightarrow> use_requirement \<Rightarrow> capability_use" where
  "sample_use c r = \<lparr>cu_capability_ids = {c}, cu_tags = {}, cu_version = None, cu_input_schema = None, cu_output_schema = None,
     cu_limit = 5, cu_requirement = r\<rparr>"

definition sample_toolbox :: toolbox_policy where
  "sample_toolbox = \<lparr>tp_uses = [sample_use ''find'' USE_REQUIRED, sample_use ''mail'' USE_OPTIONAL], tp_max_tools = 2,
     tp_max_schema_bytes = 64, tp_max_description_bytes = 32, tp_max_total_bytes = 512\<rparr>"

text \<open>A gateway that knows one capability.\<close>

definition sample_discover :: "discovery_query \<Rightarrow> (unit, py_error, tool_discovery_result) prog" where
  "sample_discover q g = (Inr (if ''find'' \<in> dq_capability_ids q
     then \<lparr>tr_revision = 3, tr_tools = [sample_tool ''t1'' ''find''], tr_failure = None, tr_truncated = False\<rparr>
     else \<lparr>tr_revision = 3, tr_tools = [], tr_failure = None, tr_truncated = False\<rparr>), g)"

lemma sample_toolbox_built:
  "build_toolbox (\<lambda>_. []) sample_discover sample_toolbox True () = (Inr \<lparr>tb_status = TB_SUCCESS,
     tb_snapshot = Some \<lparr>ts_revision = 3, ts_tools = [sample_tool ''t1'' ''find'']\<rparr>, tb_failure = None,
     tb_skipped = [\<lparr>uf_use = sample_use ''mail'' USE_OPTIONAL, uf_failure = no_eligible\<rparr>]\<rparr>, ())"
  by code_simp

theorem toolbox_within_limits_witness:
  "int (length [sample_tool ''t1'' ''find'']) \<le> tp_max_tools sample_toolbox"
  using toolbox_within_limits[OF sample_toolbox_built, of undefined]
  by (auto simp: sample_toolbox_def mk_toolbox_policy_def sample_use_def)

lemma project_candidate_binding:
  assumes "project_candidate digest c = Inr t"
  shows "td_binding t = bc_binding c"
proof (cases "model_safe_schema (cd_input_schema (bc_descriptor c))")
  case (Some sch)
  then show ?thesis
    using assms by (cases "freeze_json sch") (auto simp: project_candidate_def Let_def mk_tool_descriptor_def)
qed (use assms in \<open>simp add: project_candidate_def Let_def\<close>)

definition array_fits :: "(pyfloat \<Rightarrow> string) \<Rightarrow> int \<Rightarrow> tool_descriptor list \<Rightarrow> bool" where
  "array_fits fr m tools \<longleftrightarrow> tools = [] \<or>
     (case tool_texts fr tools of None \<Rightarrow> False | Some encs \<Rightarrow> int (length (json_array encs)) \<le> m)"

definition loop_size :: "(pyfloat \<Rightarrow> string) \<Rightarrow> tool_descriptor list \<Rightarrow> int \<Rightarrow> bool" where
  "loop_size fr tools n \<longleftrightarrow> (\<exists>encs. tool_texts fr tools = Some encs
     \<and> n = 2 + int (sum_list (map length encs)) + int (length encs))"

lemma project_loop_prefix:
  "project_loop digest fr m cs tools n = Inr (Some (out, flag)) \<Longrightarrow> loop_size fr tools n \<Longrightarrow> array_fits fr m tools \<Longrightarrow>
   \<exists>k new. out = tools @ new \<and> list_all2 (\<lambda>c t. project_candidate digest c = Inr t) (take k cs) new
     \<and> array_fits fr m out \<and> (flag \<or> length cs \<le> k)"
proof (induction cs arbitrary: tools n)
  case Nil
  then show ?case by auto
next
  case (Cons c cs)
  obtain t where t: "project_candidate digest c = Inr t"
    using Cons.prems(1) by (cases "project_candidate digest c") auto
  obtain enc where enc: "canonical_json fr (tool_dict t) = Some enc"
    using Cons.prems(1) t by (cases "canonical_json fr (tool_dict t)") auto
  show ?case
  proof (cases "n + int (length enc) > m")
    case True
    with Cons.prems t enc show ?thesis by (intro exI[of _ 0]) (auto split: if_splits)
  next
    case False
    obtain encs where encs: "tool_texts fr tools = Some encs" "n = 2 + int (sum_list (map length encs)) + int (length encs)"
      using Cons.prems(2) by (auto simp: loop_size_def)
    have step: "project_loop digest fr m cs (tools @ [t]) (n + int (length enc) + 1) = Inr (Some (out, flag))"
      using Cons.prems(1) t enc False by simp
    have "loop_size fr (tools @ [t]) (n + int (length enc) + 1)"
      using encs enc by (simp add: loop_size_def tool_texts_snoc)
    moreover have "array_fits fr m (tools @ [t])"
      using encs enc False by (simp add: array_fits_def tool_texts_snoc json_array_length)
    ultimately obtain k new where "out = (tools @ [t]) @ new" "array_fits fr m out" "flag \<or> length cs \<le> k"
      "list_all2 (\<lambda>c t. project_candidate digest c = Inr t) (take k cs) new"
      using Cons.IH[OF step] by blast
    then show ?thesis using t by (intro exI[of _ "Suc k"] exI[of _ "t # new"]) auto
  qed
qed

text \<open>
  The projection is a faithful prefix of what was discovered.  The tools are the projections,
  in order, of the first candidates; each tool carries exactly the binding of its candidate; the
  serialized array of the tools fits the size limit; and unless the result is marked truncated,
  every candidate has its tool.
\<close>

theorem projection_faithful_prefix:
  assumes "project_tools digest fr m r = Inr res"
  shows "\<exists>k. list_all2 (\<lambda>c t. project_candidate digest c = Inr t \<and> td_binding t = bc_binding c)
           (take k (dr_candidates r)) (tr_tools res)
     \<and> array_fits fr m (tr_tools res) \<and> tr_revision res = dr_revision r
     \<and> (tr_truncated res \<or> length (dr_candidates r) \<le> k)"
proof (cases "project_loop digest fr m (dr_candidates r) [] 2")
  case (Inr out)
  show ?thesis
  proof (cases out)
    case None
    with Inr assms show ?thesis
      by (intro exI[of _ 0]) (auto simp: project_tools_def array_fits_def)
  next
    case (Some p)
    obtain tools flag where p: "p = (tools, flag)" by (cases p)
    have "loop_size fr [] 2" "array_fits fr m []" by (simp_all add: loop_size_def array_fits_def)
    from project_loop_prefix[OF Inr[unfolded Some p] this] obtain k where
      k: "list_all2 (\<lambda>c t. project_candidate digest c = Inr t) (take k (dr_candidates r)) tools"
      "array_fits fr m tools" "flag \<or> length (dr_candidates r) \<le> k" by auto
    have "list_all2 (\<lambda>c t. project_candidate digest c = Inr t \<and> td_binding t = bc_binding c)
        (take k (dr_candidates r)) tools"
      by (rule list_all2_mono[OF k(1)]) (auto dest: project_candidate_binding)
    with k Inr Some p assms show ?thesis
      by (intro exI[of _ k]) (auto simp: project_tools_def)
  qed
qed (use assms in \<open>simp add: project_tools_def\<close>)

definition sample_capability :: "string \<Rightarrow> capability_descriptor" where
  "sample_capability c = \<lparr>cd_agent_id = ''crm'', cd_agent_version = ''1.0.0'', cd_capability_id = c, cd_description = None,
     cd_tags = {}, cd_input_schema = VProxy [(''type'', VStr ''object'')], cd_output_schema = None, cd_schema_digest = ''d'',
     cd_required_scopes = [], cd_approval_required = False, cd_policy = empty_policy, cd_data_sources = []\<rparr>"

definition sample_result :: discovery_result where
  "sample_result = \<lparr>dr_revision = 3, dr_candidates = [\<lparr>bc_descriptor = sample_capability ''find'', bc_binding = sample_binding ''crm'' ''find''\<rparr>],
     dr_failure = None, dr_truncated = False\<rparr>"

theorem projection_faithful_prefix_witness:
  "\<exists>t. tr_tools (projr (project_tools (\<lambda>_. ''0123456789abcdef'') (\<lambda>_. []) 4096 sample_result)) = [t]
     \<and> td_binding t = sample_binding ''crm'' ''find''"
proof -
  let ?res = "projr (project_tools (\<lambda>_. ''0123456789abcdef'') (\<lambda>_. []) 4096 sample_result)"
  have "project_tools (\<lambda>_. ''0123456789abcdef'') (\<lambda>_. []) 4096 sample_result = Inr ?res" and "\<not> tr_truncated ?res"
    by code_simp+
  from projection_faithful_prefix[OF this(1)] this(2) obtain k where
    "list_all2 (\<lambda>c t. project_candidate (\<lambda>_. ''0123456789abcdef'') c = Inr t \<and> td_binding t = bc_binding c)
       (take k (dr_candidates sample_result)) (tr_tools ?res)" "length (dr_candidates sample_result) \<le> k" by blast
  then show ?thesis by (auto simp: sample_result_def list_all2_Cons1)
qed

end
