(* ===== verification/RunContext.thy ===== *)
theory RunContext
  imports PyValue
begin

text \<open>
  \<open>core/run_context.py\<close>: the shared delegation budget, the aggregation of model usage, and the
  activation state that ties the model gateway to one invocation.

  A budget is one object shared by a whole tree of delegated invocations; its methods run under its
  lock, so the model is a sequence of atomic operations.  Costs are exact (no rounding).
\<close>

section \<open>The delegation budget\<close>

record delegation_budget =
  bu_max_depth :: int
  bu_calls :: int
  bu_tokens :: "int option"
  bu_cost :: "rat option"

record remaining_budget =
  rb_depth :: int
  rb_calls :: int
  rb_tokens :: "int option"
  rb_cost :: "rat option"
  rb_time :: "time option"

definition mk_delegation_budget ::
  "int \<Rightarrow> int \<Rightarrow> int option \<Rightarrow> pyfloat option \<Rightarrow> py_error + delegation_budget" where
  "mk_delegation_budget depth calls tokens cost =
     (if depth < 0 \<or> calls < 0 then Inl ValueError
      else if (case tokens of None \<Rightarrow> False | Some t \<Rightarrow> t < 0) then Inl ValueError
      else if (case cost of None \<Rightarrow> False | Some c \<Rightarrow> \<not> isfinite c \<or> fin_val c < 0) then Inl ValueError
      else Inr \<lparr>bu_max_depth = depth, bu_calls = calls, bu_tokens = tokens,
                bu_cost = map_option fin_val cost\<rparr>)"

definition snapshot :: "delegation_budget \<Rightarrow> int \<Rightarrow> time option \<Rightarrow> remaining_budget" where
  "snapshot b current_depth remaining =
     \<lparr>rb_depth = max 0 (bu_max_depth b - current_depth), rb_calls = bu_calls b,
      rb_tokens = bu_tokens b, rb_cost = bu_cost b, rb_time = remaining\<rparr>"

definition reserve :: "int \<Rightarrow> int \<Rightarrow> pyfloat \<Rightarrow> (delegation_budget, py_error, bool) prog" where
  "reserve calls tokens cost b =
     (if calls < 0 \<or> tokens < 0 \<or> \<not> isfinite cost \<or> fin_val cost < 0 then (Inl ValueError, b)
      else if bu_calls b < calls then (Inr False, b)
      else if (case bu_tokens b of None \<Rightarrow> False | Some t \<Rightarrow> t < tokens) then (Inr False, b)
      else if (case bu_cost b of None \<Rightarrow> False | Some c \<Rightarrow> c < fin_val cost) then (Inr False, b)
      else (Inr True, b\<lparr>bu_calls := bu_calls b - calls,
                        bu_tokens := map_option (\<lambda>t. t - tokens) (bu_tokens b),
                        bu_cost := map_option (\<lambda>c. c - fin_val cost) (bu_cost b)\<rparr>))"

text \<open>A history of reservations: each request with its answer.\<close>

type_synonym request = "int \<times> int \<times> pyfloat"

fun reserve_all :: "request list \<Rightarrow> delegation_budget \<Rightarrow> (request \<times> (py_error + bool)) list \<times> delegation_budget" where
  "reserve_all [] b = ([], b)"
| "reserve_all ((calls, tokens, cost) # rest) b =
     (let (r, b') = reserve calls tokens cost b; (rs, b'') = reserve_all rest b' in
      (((calls, tokens, cost), r) # rs, b''))"

definition accepted :: "(request \<times> (py_error + bool)) list \<Rightarrow> request list" where
  "accepted rs = map fst (filter (\<lambda>(_, r). r = Inr True) rs)"

definition budget_wf :: "delegation_budget \<Rightarrow> bool" where
  "budget_wf b \<longleftrightarrow> 0 \<le> bu_max_depth b \<and> 0 \<le> bu_calls b
     \<and> (case bu_tokens b of None \<Rightarrow> True | Some t \<Rightarrow> 0 \<le> t)
     \<and> (case bu_cost b of None \<Rightarrow> True | Some c \<Rightarrow> 0 \<le> c)"

lemma reserve_wf: "budget_wf b \<Longrightarrow> reserve calls tokens cost b = (r, b') \<Longrightarrow> budget_wf b'"
  by (auto simp: budget_wf_def reserve_def split: if_splits option.splits)

lemma reserve_all_spent:
  assumes "reserve_all xs b = (rs, b')" "budget_wf b"
  shows "budget_wf b' \<and> bu_max_depth b' = bu_max_depth b
    \<and> bu_calls b' = bu_calls b - sum_list (map fst (accepted rs))
    \<and> bu_tokens b' = map_option (\<lambda>t. t - sum_list (map (fst \<circ> snd) (accepted rs))) (bu_tokens b)
    \<and> bu_cost b' = map_option (\<lambda>c. c - sum_list (map (fin_val \<circ> snd \<circ> snd) (accepted rs))) (bu_cost b)"
  using assms
proof (induction xs arbitrary: b rs)
  case Nil
  then show ?case by (simp add: accepted_def option.map_ident)
next
  case (Cons x xs)
  obtain calls tokens cost where x: "x = (calls, tokens, cost)" by (cases x)
  obtain r b1 where r: "reserve calls tokens cost b = (r, b1)" by fastforce
  obtain rs1 where rs1: "reserve_all xs b1 = (rs1, b')" "rs = (x, r) # rs1"
    using Cons.prems(1) x r by (auto split: prod.splits)
  note IH = Cons.IH[OF rs1(1) reserve_wf[OF Cons.prems(2) r]]
  have step: "r = Inr True \<and> bu_max_depth b1 = bu_max_depth b \<and> bu_calls b1 = bu_calls b - calls
      \<and> bu_tokens b1 = map_option (\<lambda>t. t - tokens) (bu_tokens b)
      \<and> bu_cost b1 = map_option (\<lambda>c. c - fin_val cost) (bu_cost b)
    \<or> r \<noteq> Inr True \<and> b1 = b"
    using r by (auto simp: reserve_def split: if_splits)
  then show ?case
  proof
    assume s: "r = Inr True \<and> bu_max_depth b1 = bu_max_depth b \<and> bu_calls b1 = bu_calls b - calls
      \<and> bu_tokens b1 = map_option (\<lambda>t. t - tokens) (bu_tokens b)
      \<and> bu_cost b1 = map_option (\<lambda>c. c - fin_val cost) (bu_cost b)"
    have "accepted rs = x # accepted rs1" using s rs1(2) by (simp add: accepted_def)
    with IH s x show ?thesis
      by (cases "bu_tokens b"; cases "bu_cost b") (auto simp: algebra_simps)
  next
    assume "r \<noteq> Inr True \<and> b1 = b"
    moreover from this have "accepted rs = accepted rs1" using rs1(2) by (simp add: accepted_def)
    ultimately show ?thesis using IH by simp
  qed
qed

text \<open>
  The shared budget is conserved.  Take any budget the constructor accepts and any sequence of
  reservation requests from any children, in any order.  Then what remains is exactly what was
  configured less the accepted requests, for calls, tokens and cost, and never negative: the tree
  of invocations together never spends more than the root configured.
\<close>

theorem budget_conserved:
  assumes "mk_delegation_budget depth calls tokens cost = Inr b" and "reserve_all xs b = (rs, b')"
  shows "bu_calls b' = calls - sum_list (map fst (accepted rs)) \<and> 0 \<le> bu_calls b'
     \<and> bu_tokens b' = map_option (\<lambda>t. t - sum_list (map (fst \<circ> snd) (accepted rs))) tokens
     \<and> bu_cost b' = map_option (\<lambda>c. fin_val c - sum_list (map (fin_val \<circ> snd \<circ> snd) (accepted rs))) cost
     \<and> (case bu_tokens b' of None \<Rightarrow> True | Some t \<Rightarrow> 0 \<le> t) \<and> (case bu_cost b' of None \<Rightarrow> True | Some c \<Rightarrow> 0 \<le> c)
     \<and> bu_max_depth b' = depth"
proof -
  have "budget_wf b" "bu_max_depth b = depth" "bu_calls b = calls" "bu_tokens b = tokens"
    "bu_cost b = map_option fin_val cost"
    using assms(1) by (auto simp: mk_delegation_budget_def budget_wf_def split: if_splits option.splits)
  with reserve_all_spent[OF assms(2)] show ?thesis
    by (cases cost) (auto simp: budget_wf_def)
qed

theorem budget_conserved_witness:
  "\<exists>b rs b'. mk_delegation_budget 8 2 (Some 100) None = Inr b
     \<and> reserve_all [(1, 60, Finite 0), (1, 60, Finite 0), (1, 40, Finite 0), (1, 0, Finite 0)] b = (rs, b')
     \<and> accepted rs = [(1, 60, Finite 0), (1, 40, Finite 0)] \<and> bu_calls b' = 0 \<and> bu_tokens b' = Some 0"
proof -
  let ?xs = "[(1, 60, Finite 0), (1, 60, Finite 0), (1, 40, Finite 0), (1, 0, Finite 0)] :: request list"
  obtain b where b: "mk_delegation_budget 8 2 (Some 100) None = Inr b" by (simp add: mk_delegation_budget_def)
  obtain rs b' where rs: "reserve_all ?xs b = (rs, b')" by fastforce
  have acc: "accepted rs = [(1, 60, Finite 0), (1, 40, Finite 0)]"
    using rs b by (auto simp: mk_delegation_budget_def reserve_def accepted_def Let_def)
  from budget_conserved[OF b rs] acc b rs show ?thesis by auto
qed

text \<open>
  A reservation is all or nothing and exact: it succeeds precisely when every configured
  budget covers the request, and when it is refused or raises the ledger is unchanged.
\<close>

theorem reserve_all_or_nothing:
  "(fst (reserve calls tokens cost b) = Inr True \<longleftrightarrow>
      0 \<le> calls \<and> 0 \<le> tokens \<and> isfinite cost \<and> 0 \<le> fin_val cost \<and> calls \<le> bu_calls b
      \<and> (case bu_tokens b of None \<Rightarrow> True | Some t \<Rightarrow> tokens \<le> t)
      \<and> (case bu_cost b of None \<Rightarrow> True | Some c \<Rightarrow> fin_val cost \<le> c))
   \<and> (fst (reserve calls tokens cost b) = Inr True \<or> snd (reserve calls tokens cost b) = b)"
  by (auto simp: reserve_def split: if_splits option.splits)

section \<open>Usage\<close>

record usage =
  us_input_tokens :: "int option"
  us_output_tokens :: "int option"
  us_total_tokens :: "int option"
  us_cost :: "rat option"

definition unknown_usage :: usage where
  "unknown_usage = \<lparr>us_input_tokens = None, us_output_tokens = None, us_total_tokens = None, us_cost = None\<rparr>"

datatype resolution_source = CALL_OVERRIDE | RUN_OVERRIDE | AGENT_DEFAULT | RUNTIME_DEFAULT

fun source_value :: "resolution_source \<Rightarrow> string" where
  "source_value CALL_OVERRIDE = ''call_override''"
| "source_value RUN_OVERRIDE = ''run_override''"
| "source_value AGENT_DEFAULT = ''agent_default''"
| "source_value RUNTIME_DEFAULT = ''runtime_default''"

record model_call =
  mc_purpose :: string
  mc_model_reference :: string
  mc_provider :: string
  mc_resolution_source :: resolution_source
  mc_usage :: usage
  mc_instruction_chain :: "string list"

text \<open>A total is known only when every call reported its part.\<close>

definition total :: "'n::comm_monoid_add option list \<Rightarrow> 'n option" where
  "total values = (if None \<in> set values then None else Some (sum_list (map the values)))"

definition aggregate_usage :: "model_call list \<Rightarrow> usage" where
  "aggregate_usage calls =
     \<lparr>us_input_tokens = total (map (us_input_tokens \<circ> mc_usage) calls),
      us_output_tokens = total (map (us_output_tokens \<circ> mc_usage) calls),
      us_total_tokens = total (map (us_total_tokens \<circ> mc_usage) calls),
      us_cost = total (map (us_cost \<circ> mc_usage) calls)\<rparr>"

definition add_known :: "'n::comm_monoid_add option \<Rightarrow> 'n option \<Rightarrow> 'n option" where
  "add_known x y = (case (x, y) of (Some a, Some b) \<Rightarrow> Some (a + b) | _ \<Rightarrow> None)"

definition add_usage :: "usage \<Rightarrow> usage \<Rightarrow> usage" where
  "add_usage u v =
     \<lparr>us_input_tokens = add_known (us_input_tokens u) (us_input_tokens v),
      us_output_tokens = add_known (us_output_tokens u) (us_output_tokens v),
      us_total_tokens = add_known (us_total_tokens u) (us_total_tokens v),
      us_cost = add_known (us_cost u) (us_cost v)\<rparr>"

lemma total_append: "total (xs @ ys) = add_known (total xs) (total ys)"
  by (auto simp: total_def add_known_def split: option.splits)

lemma aggregate_append: "aggregate_usage (xs @ ys) = add_usage (aggregate_usage xs) (aggregate_usage ys)"
  by (simp add: aggregate_usage_def add_usage_def total_append)

text \<open>
  The payload-free summary of a retrieval (\<open>RetrievalProvenance\<close> of \<open>core/retrieval.py\<close>), the
  metadata of an invocation, and the copies with more model calls.
\<close>

record retrieval =
  rv_retriever_id :: string
  rv_document_count :: int
  rv_sources :: "string list"
  rv_citations :: "string list"

record invocation_metadata =
  im_run_id :: string
  im_correlation_id :: string
  im_parent_run_id :: "string option"
  im_delegation_path :: "(string \<times> string) list"
  im_model_reference :: "string option"
  im_provider :: "string option"
  im_resolution_source :: "resolution_source option"
  im_usage :: usage
  im_model_calls :: "model_call list"
  im_retrievals :: "retrieval list"
  im_attributes :: pyval
  im_instruction_chain :: "string list"
  im_failure_classification :: "string option"

definition with_model_calls :: "model_call list list \<Rightarrow> invocation_metadata \<Rightarrow> invocation_metadata" where
  "with_model_calls groups m =
     (let calls = im_model_calls m @ concat groups in
      m\<lparr>im_usage := aggregate_usage calls, im_model_calls := calls\<rparr>)"

definition with_failure_classification :: "string \<Rightarrow> invocation_metadata \<Rightarrow> invocation_metadata" where
  "with_failure_classification c m = m\<lparr>im_failure_classification := Some c\<rparr>"

definition with_prior_model_calls :: "model_call list \<Rightarrow> invocation_metadata \<Rightarrow> invocation_metadata" where
  "with_prior_model_calls calls m =
     (let combined = calls @ im_model_calls m in
      m\<lparr>im_usage := aggregate_usage combined, im_model_calls := combined\<rparr>)"

text \<open>
  Usage is accounted exactly once per call.  When metadata whose usage is the aggregate of its
  calls is merged with the calls of children before and after it, the usage of the result is the
  sum of the parts, field by field, and a field is known exactly when every call reported it.
\<close>

theorem usage_accounted_once:
  assumes "im_usage m = aggregate_usage (im_model_calls m)"
  shows "im_usage (with_prior_model_calls before (with_model_calls groups m))
       = add_usage (aggregate_usage before)
           (add_usage (im_usage m) (aggregate_usage (concat groups)))
     \<and> im_model_calls (with_prior_model_calls before (with_model_calls groups m))
       = before @ im_model_calls m @ concat groups
     \<and> (us_cost (im_usage (with_prior_model_calls before (with_model_calls groups m))) = None
        \<longleftrightarrow> (\<exists>c \<in> set (before @ im_model_calls m @ concat groups). us_cost (mc_usage c) = None))"
proof -
  let ?calls = "before @ im_model_calls m @ concat groups"
  have cost: "us_cost (aggregate_usage cs) = None \<longleftrightarrow> (\<exists>c \<in> set cs. us_cost (mc_usage c) = None)" for cs
    by (force simp: aggregate_usage_def total_def)
  have merged: "im_usage (with_prior_model_calls before (with_model_calls groups m)) = aggregate_usage ?calls"
    "im_model_calls (with_prior_model_calls before (with_model_calls groups m)) = ?calls"
    by (simp_all add: with_prior_model_calls_def with_model_calls_def Let_def)
  show ?thesis unfolding merged cost using assms by (simp add: aggregate_append)
qed

text \<open>The dictionary forms; \<open>model_dump\<close> of a usage is the dictionary of its fields.\<close>

definition opt_dict :: "('a \<Rightarrow> pyval) \<Rightarrow> 'a option \<Rightarrow> pyval" where
  "opt_dict f v = (case v of None \<Rightarrow> VNone | Some x \<Rightarrow> f x)"

definition usage_dict :: "usage \<Rightarrow> pyval" where
  "usage_dict u = VDict [(''input_tokens'', opt_dict VInt (us_input_tokens u)),
     (''output_tokens'', opt_dict VInt (us_output_tokens u)), (''total_tokens'', opt_dict VInt (us_total_tokens u)),
     (''cost'', opt_dict (VFloat \<circ> Finite) (us_cost u))]"

definition model_call_dict :: "model_call \<Rightarrow> pyval" where
  "model_call_dict c = VDict [(''purpose'', VStr (mc_purpose c)), (''model_reference'', VStr (mc_model_reference c)),
     (''provider'', VStr (mc_provider c)), (''resolution_source'', VStr (source_value (mc_resolution_source c))),
     (''usage'', usage_dict (mc_usage c)), (''instruction_chain'', VList (map VStr (mc_instruction_chain c)))]"

definition retrieval_dict :: "retrieval \<Rightarrow> pyval" where
  "retrieval_dict r = VDict [(''retriever_id'', VStr (rv_retriever_id r)), (''document_count'', VInt (rv_document_count r)),
     (''sources'', VList (map VStr (rv_sources r))), (''citations'', VList (map VStr (rv_citations r)))]"

definition path_dict :: "(string \<times> string) list \<Rightarrow> pyval" where
  "path_dict p = VList (map (\<lambda>(a, c). VDict [(''agent_id'', VStr a), (''capability_id'', VStr c)]) p)"

definition metadata_dict :: "invocation_metadata \<Rightarrow> pyval" where
  "metadata_dict m = VDict [(''run_id'', VStr (im_run_id m)), (''correlation_id'', VStr (im_correlation_id m)),
     (''parent_run_id'', opt_dict VStr (im_parent_run_id m)), (''delegation_path'', path_dict (im_delegation_path m)),
     (''model_reference'', opt_dict VStr (im_model_reference m)), (''provider'', opt_dict VStr (im_provider m)),
     (''resolution_source'', opt_dict (VStr \<circ> source_value) (im_resolution_source m)),
     (''usage'', usage_dict (im_usage m)), (''model_calls'', VList (map model_call_dict (im_model_calls m))),
     (''retrievals'', VList (map retrieval_dict (im_retrievals m))), (''attributes'', thaw_metadata (im_attributes m)),
     (''instruction_chain'', VList (map VStr (im_instruction_chain m))),
     (''failure_classification'', opt_dict VStr (im_failure_classification m))]"

definition sample_call :: "int option \<Rightarrow> rat option \<Rightarrow> model_call" where
  "sample_call t c = \<lparr>mc_purpose = ''turn'', mc_model_reference = ''m'', mc_provider = ''p'',
     mc_resolution_source = AGENT_DEFAULT,
     mc_usage = \<lparr>us_input_tokens = t, us_output_tokens = t, us_total_tokens = t, us_cost = c\<rparr>,
     mc_instruction_chain = []\<rparr>"

definition sample_metadata :: "model_call list \<Rightarrow> invocation_metadata" where
  "sample_metadata calls = \<lparr>im_run_id = ''r'', im_correlation_id = ''c'', im_parent_run_id = None,
     im_delegation_path = [], im_model_reference = None, im_provider = None, im_resolution_source = None,
     im_usage = aggregate_usage calls, im_model_calls = calls, im_retrievals = [], im_attributes = VProxy [],
     im_instruction_chain = [], im_failure_classification = None\<rparr>"

theorem usage_accounted_once_witness:
  "us_total_tokens (im_usage (with_prior_model_calls [sample_call (Some 1) None]
      (with_model_calls [[sample_call (Some 2) (Some 1)], [sample_call (Some 3) (Some 1)]]
        (sample_metadata [sample_call (Some 4) (Some 1)])))) = Some 10
   \<and> us_cost (im_usage (with_prior_model_calls [sample_call (Some 1) None]
      (with_model_calls [[sample_call (Some 2) (Some 1)], [sample_call (Some 3) (Some 1)]]
        (sample_metadata [sample_call (Some 4) (Some 1)])))) = None"
  using usage_accounted_once[of "sample_metadata [sample_call (Some 4) (Some 1)]" "[sample_call (Some 1) None]"
      "[[sample_call (Some 2) (Some 1)], [sample_call (Some 3) (Some 1)]]"]
  by (simp add: sample_metadata_def sample_call_def aggregate_usage_def add_usage_def total_def add_known_def)

section \<open>Deadlines\<close>

definition remaining_timeout :: "time option \<Rightarrow> time \<Rightarrow> py_error + time option" where
  "remaining_timeout deadline now =
     (case deadline of None \<Rightarrow> Inr None
      | Some d \<Rightarrow> if d - now \<le> 0 then Inl TimeoutError else Inr (Some (d - now)))"

definition remaining_delegation_budget ::
  "delegation_budget \<Rightarrow> (string \<times> string) list \<Rightarrow> time option \<Rightarrow> time \<Rightarrow> remaining_budget" where
  "remaining_delegation_budget b path deadline now =
     snapshot b (int (length path)) (case remaining_timeout deadline now of Inl _ \<Rightarrow> Some 0 | Inr r \<Rightarrow> r)"

lemma remaining_never_negative:
  "budget_wf b \<Longrightarrow> 0 \<le> rb_depth (remaining_delegation_budget b path deadline now)
     \<and> (case rb_time (remaining_delegation_budget b path deadline now) of None \<Rightarrow> True | Some t \<Rightarrow> 0 \<le> t)"
  by (auto simp: remaining_delegation_budget_def snapshot_def remaining_timeout_def split: option.splits)

section \<open>The activation of an invocation\<close>

text \<open>
  \<open>_InvocationState\<close>.  Its context variable holds, in each execution context (a task or a nested
  scope, named by a number), the generation that this context was started in; \<open>contextvars\<close> copies
  the values to a task when the task is created.  Tasks are named by the context they run in.
  \<open>iv_cancelled\<close> records the tasks whose \<open>cancel\<close> has been called.
\<close>

record invocation_state =
  iv_active :: bool
  iv_generation :: nat
  iv_model_tasks :: "nat set"
  iv_context_generation :: "nat \<Rightarrow> nat"
  iv_cancelled :: "nat set"

definition init_invocation_state :: invocation_state where
  "init_invocation_state = \<lparr>iv_active = False, iv_generation = 0, iv_model_tasks = {},
     iv_context_generation = (\<lambda>_. 0), iv_cancelled = {}\<rparr>"

datatype run_error = NoActiveRunContext

text \<open>\<open>activate\<close> returns the token with which \<open>deactivate\<close> restores the variable: its old value.\<close>

definition activate :: "nat \<Rightarrow> (invocation_state, run_error, nat) prog" where
  "activate c v =
     (let g = Suc (iv_generation v) in
      (Inr (iv_context_generation v c),
       v\<lparr>iv_generation := g, iv_active := True,
         iv_context_generation := (iv_context_generation v)(c := g)\<rparr>))"

definition reset_context :: "nat \<Rightarrow> nat option \<Rightarrow> invocation_state \<Rightarrow> invocation_state" where
  "reset_context c token v =
     (case token of None \<Rightarrow> v
      | Some old \<Rightarrow> v\<lparr>iv_context_generation := (iv_context_generation v)(c := old)\<rparr>)"

definition deactivate :: "nat \<Rightarrow> nat option \<Rightarrow> (invocation_state, run_error, unit) prog" where
  "deactivate c token v =
     (if \<not> iv_active v then (Inr (), reset_context c token v)
      else
        let tasks = iv_model_tasks v;
            v1 = v\<lparr>iv_active := False, iv_generation := Suc (iv_generation v), iv_model_tasks := {}\<rparr>;
            v2 = reset_context c token v1 in
        (Inr (), v2\<lparr>iv_cancelled := iv_cancelled v2 \<union> tasks\<rparr>))"

definition require_active :: "nat \<Rightarrow> (invocation_state, run_error, unit) prog" where
  "require_active c v =
     (if \<not> iv_active v then (Inl NoActiveRunContext, v)
      else if iv_context_generation v c \<noteq> iv_generation v then (Inl NoActiveRunContext, v)
      else (Inr (), v))"

text \<open>\<open>current = None\<close>: the call is made outside a task.\<close>

definition begin_model_call :: "nat \<Rightarrow> nat option \<Rightarrow> (invocation_state, run_error, nat) prog" where
  "begin_model_call c current v =
     (case current of
        None \<Rightarrow> (Inl NoActiveRunContext, v)
      | Some task \<Rightarrow>
          if \<not> iv_active v then (Inl NoActiveRunContext, v)
          else if iv_context_generation v c \<noteq> iv_generation v then (Inl NoActiveRunContext, v)
          else (Inr task, v\<lparr>iv_model_tasks := insert task (iv_model_tasks v)\<rparr>))"

definition end_model_call :: "nat \<Rightarrow> (invocation_state, run_error, unit) prog" where
  "end_model_call task v = (Inr (), v\<lparr>iv_model_tasks := iv_model_tasks v - {task}\<rparr>)"

text \<open>
  Everything that can happen to the state.  A task that is created copies the context of its
  creator; a token can only restore a value that the variable had, so at most the generation at
  the time of the activation.
\<close>

inductive invocation_step :: "nat set \<Rightarrow> invocation_state \<Rightarrow> invocation_state \<Rightarrow> bool" for old where
  inv_activate: "c \<notin> old \<Longrightarrow> invocation_step old v (snd (activate c v))"
| inv_deactivate: "(case token of None \<Rightarrow> True | Some g \<Rightarrow> g < iv_generation v) \<Longrightarrow>
     invocation_step old v (snd (deactivate c token v))"
| inv_begin: "invocation_step old v (snd (begin_model_call c current v))"
| inv_end: "invocation_step old v (snd (end_model_call task v))"
| inv_spawn: "child \<notin> old \<or> parent \<in> old \<Longrightarrow>
     invocation_step old v (v\<lparr>iv_context_generation :=
       (iv_context_generation v)(child := iv_context_generation v parent)\<rparr>)"

text \<open>Contexts left over from an ended invocation: no generation of theirs is current.\<close>

definition stale :: "nat set \<Rightarrow> invocation_state \<Rightarrow> bool" where
  "stale old v \<longleftrightarrow> (\<forall>c \<in> old. iv_context_generation v c < iv_generation v)"

lemma stale_step: "invocation_step old v v' \<Longrightarrow> stale old v \<Longrightarrow> stale old v'"
proof (induction rule: invocation_step.induct)
  case (inv_begin v c current)
  then show ?case by (auto simp: stale_def begin_model_call_def split: option.splits)
qed (auto simp: stale_def activate_def deactivate_def reset_context_def
      end_model_call_def Let_def less_Suc_eq split: option.splits)

lemma stale_steps: "(invocation_step old)\<^sup>*\<^sup>* v v' \<Longrightarrow> stale old v \<Longrightarrow> stale old v'"
  by (induction rule: rtranclp_induct) (auto intro: stale_step)

text \<open>
  An ended invocation cannot reach the model gateway again.  When an active invocation is
  deactivated, every model task it tracked is cancelled and forgotten, and from then on every
  context that existed at that moment, and every task spawned by one of them, is refused by the
  gateway, whatever happens later: other activations of the same state, spawned tasks, ended calls.
\<close>

theorem ended_invocation_locked_out:
  assumes "iv_active v" and "\<forall>c \<in> old. iv_context_generation v c \<le> iv_generation v"
    and "deactivate c0 None v = (r, v0)" and "(invocation_step old)\<^sup>*\<^sup>* v0 v'" and "c \<in> old"
  shows "fst (require_active c v') = Inl NoActiveRunContext
     \<and> fst (begin_model_call c (Some c) v') = Inl NoActiveRunContext
     \<and> iv_model_tasks v0 = {} \<and> iv_model_tasks v \<subseteq> iv_cancelled v0"
proof -
  have v0: "v0 = v\<lparr>iv_active := False, iv_generation := Suc (iv_generation v), iv_model_tasks := {},
      iv_cancelled := iv_cancelled v \<union> iv_model_tasks v\<rparr>"
    using assms(1,3) by (simp add: deactivate_def reset_context_def Let_def)
  then have "stale old v0" using assms(2) by (auto simp: stale_def le_imp_less_Suc)
  with stale_steps[OF assms(4)] assms(5) have "iv_context_generation v' c < iv_generation v'"
    by (auto simp: stale_def)
  with v0 show ?thesis by (simp add: require_active_def begin_model_call_def)
qed

theorem ended_invocation_locked_out_witness:
  "let v1 = snd (begin_model_call 7 (Some 7) (snd (activate 7 init_invocation_state)));
       v2 = snd (activate 8 (snd (deactivate 7 None v1))) in
   iv_active v2 \<and> fst (require_active 8 v2) = Inr () \<and> fst (require_active 7 v2) = Inl NoActiveRunContext
   \<and> 7 \<in> iv_cancelled v2"
proof -
  define v1 where "v1 = snd (begin_model_call 7 (Some 7) (snd (activate 7 init_invocation_state)))"
  have v1: "iv_active v1" "\<forall>c \<in> {7}. iv_context_generation v1 c \<le> iv_generation v1" "7 \<in> iv_model_tasks v1"
    by (simp_all add: v1_def begin_model_call_def activate_def init_invocation_state_def Let_def)
  have steps: "(invocation_step {7})\<^sup>*\<^sup>* (snd (deactivate 7 None v1)) (snd (activate 8 (snd (deactivate 7 None v1))))"
    by (rule r_into_rtranclp) (rule inv_activate, simp)
  from ended_invocation_locked_out[OF v1(1,2) prod.collapse[symmetric] steps, of 7] v1(3) show ?thesis
    unfolding v1_def[symmetric] by (auto simp: activate_def require_active_def Let_def)
qed

end
