(* ===== verification/Decisions.thy ===== *)
theory Decisions
  imports Toolbox RunContext
begin

text \<open>
  The decision of one model turn: \<open>core/provider/tools.py\<close> (tool definitions, tool calls and their
  resolution against the advertised snapshot), \<open>core/provider/results.py\<close> and the parts of
  \<open>core/provider/decisions.py\<close> that parse a decision and a routing selection.  Field constraints that
  Pydantic enforces at construction are written out as checks.  \<open>uuid\<close> is the hexadecimal text of
  \<open>uuid.uuid5\<close> in the URL name space.
\<close>

section \<open>Tool definitions and calls\<close>

text \<open>\<open>provider._json._freeze_json\<close> and \<open>_thaw_json\<close>: no value is rejected here.\<close>

definition provider_freeze :: "pyval \<Rightarrow> pyval" where
  "provider_freeze v = freeze_metadata v"

definition provider_thaw :: "pyval \<Rightarrow> pyval" where
  "provider_thaw v = thaw_metadata v"

record provider_tool =
  pt_id :: string
  pt_name :: string
  pt_description :: string
  pt_schema :: pyval

definition mk_provider_tool :: "provider_tool \<Rightarrow> py_error + provider_tool" where
  "mk_provider_tool t =
     (if strip (pt_id t) = [] then Inl ValueError
      else if strip (pt_name t) = [] then Inl ValueError
      else if strip (pt_description t) = [] then Inl ValueError
      else Inr \<lparr>pt_id = strip (pt_id t), pt_name = strip (pt_name t), pt_description = strip (pt_description t),
             pt_schema = provider_freeze (pt_schema t)\<rparr>)"

definition provider_tool_dict :: "provider_tool \<Rightarrow> pyval" where
  "provider_tool_dict t = VDict [(''id'', VStr (pt_id t)), (''name'', VStr (pt_name t)),
     (''description'', VStr (pt_description t)), (''input_schema'', provider_thaw (pt_schema t))]"

fun collect :: "('e + 'a) list \<Rightarrow> 'e + 'a list" where
  "collect [] = Inr []"
| "collect (Inl e # rs) = Inl e"
| "collect (Inr x # rs) = (case collect rs of Inl e \<Rightarrow> Inl e | Inr xs \<Rightarrow> Inr (x # xs))"

definition as_provider_tools :: "toolbox_snapshot \<Rightarrow> py_error + provider_tool list" where
  "as_provider_tools s = collect (map (\<lambda>t. mk_provider_tool \<lparr>pt_id = td_tool_id t, pt_name = td_name t,
     pt_description = td_description t, pt_schema = td_input_schema t\<rparr>) (ts_tools s))"

record call_request =
  rq_call_id :: "string option"
  rq_tool_id :: "string option"
  rq_tool_name :: "string option"
  rq_arguments :: pyval

definition mk_call_request :: "call_request \<Rightarrow> py_error + call_request" where
  "mk_call_request r =
     (if rq_call_id r = Some [] \<or> rq_tool_id r = Some [] \<or> rq_tool_name r = Some [] \<or> \<not> is_mapping (rq_arguments r)
      then Inl ValueError
      else if (rq_tool_id r = None) = (rq_tool_name r = None) then Inl ValueError
      else Inr (r\<lparr>rq_arguments := provider_freeze (rq_arguments r)\<rparr>))"

record tool_call =
  tc_call_id :: string
  tc_tool_id :: string
  tc_arguments :: pyval

definition normalize_provider_tools :: "provider_tool list \<Rightarrow> py_error + provider_tool list" where
  "normalize_provider_tools tools =
     (if length (remdups (map pt_id tools)) \<noteq> length tools then Inl ValueError else Inr tools)"

datatype decision_error = MalformedStructuredOutput | Raised py_error

definition synthesize_call_id ::
  "(string \<Rightarrow> string) \<Rightarrow> (pyfloat \<Rightarrow> string) \<Rightarrow> call_request \<Rightarrow> string \<Rightarrow> string option \<Rightarrow> decision_error + string" where
  "synthesize_call_id uuid fr r resolved request_id =
     (let raw = (case rq_tool_id r of Some i \<Rightarrow> i | None \<Rightarrow> (case rq_tool_name r of Some n \<Rightarrow> n | None \<Rightarrow> resolved)) in
      case canonical_json fr (provider_thaw (rq_arguments r)) of
        None \<Rightarrow> Inl (Raised TypeError)
      | Some args \<Rightarrow>
          Inr (''tool_'' @ uuid ((case request_id of None \<Rightarrow> [] | Some i \<Rightarrow> i) @ [CHR 0x00] @ resolved @ [CHR 0x00]
                 @ raw @ [CHR 0x00] @ args)))"

definition call_for ::
  "(string \<Rightarrow> string) \<Rightarrow> (pyfloat \<Rightarrow> string) \<Rightarrow> call_request \<Rightarrow> string \<Rightarrow> string option \<Rightarrow> decision_error + tool_call" where
  "call_for uuid fr r tool request_id =
     (case (case rq_call_id r of Some c \<Rightarrow> Inr c | None \<Rightarrow> synthesize_call_id uuid fr r tool request_id) of
        Inl e \<Rightarrow> Inl e
      | Inr c \<Rightarrow> Inr \<lparr>tc_call_id = c, tc_tool_id = tool, tc_arguments = provider_freeze (rq_arguments r)\<rparr>)"

definition resolve_tool_call ::
  "(string \<Rightarrow> string) \<Rightarrow> (pyfloat \<Rightarrow> string) \<Rightarrow> call_request \<Rightarrow> provider_tool list \<Rightarrow> string option \<Rightarrow> decision_error + tool_call" where
  "resolve_tool_call uuid fr r tools request_id =
     (if tools = [] then Inl MalformedStructuredOutput
      else (case rq_tool_id r of
        Some i \<Rightarrow> if \<not> list_ex (\<lambda>t. pt_id t = i) tools then Inl MalformedStructuredOutput
                  else call_for uuid fr r i request_id
      | None \<Rightarrow>
          (case filter (\<lambda>t. rq_tool_name r = Some (pt_name t)) tools of
             [t] \<Rightarrow> call_for uuid fr r (pt_id t) request_id
           | _ \<Rightarrow> Inl MalformedStructuredOutput)))"

section \<open>Decisions\<close>

record provider_result =
  rr_content :: "string option"
  rr_structured :: "pyval option"
  rr_tool_calls :: "call_request list"
  rr_usage :: usage
  rr_accepted :: bool
  rr_request_id :: "string option"
  rr_finish_reason :: "string option"
  rr_content_filtered :: bool

datatype model_decision =
    TerminalDecision pyval
  | ToolCallDecision tool_call

definition parse_model_decision ::
  "(string \<Rightarrow> string) \<Rightarrow> (pyfloat \<Rightarrow> string) \<Rightarrow> provider_result \<Rightarrow> provider_tool list \<Rightarrow> decision_error + model_decision" where
  "parse_model_decision uuid fr result tools =
     (if rr_structured result \<noteq> None \<and> rr_tool_calls result \<noteq> [] then Inl MalformedStructuredOutput
      else if rr_structured result = None \<and> rr_tool_calls result = [] then Inl MalformedStructuredOutput
      else (case rr_structured result of
        Some v \<Rightarrow> (case items_of v of None \<Rightarrow> Inl MalformedStructuredOutput
          | Some kvs \<Rightarrow> Inr (TerminalDecision (VDict kvs)))
      | None \<Rightarrow>
          (case rr_tool_calls result of
             [r] \<Rightarrow>
               (case normalize_provider_tools tools of Inl e \<Rightarrow> Inl (Raised e)
                | Inr snap \<Rightarrow>
                    (case resolve_tool_call uuid fr r snap (rr_request_id result) of Inl e \<Rightarrow> Inl e
                     | Inr c \<Rightarrow> if tc_call_id c = [] \<or> tc_tool_id c = [] then Inl MalformedStructuredOutput
                               else Inr (ToolCallDecision (c\<lparr>tc_arguments := provider_freeze (tc_arguments c)\<rparr>))))
           | _ \<Rightarrow> Inl MalformedStructuredOutput)))"

lemma freeze_metadata_idem [simp]: "freeze_metadata (freeze_metadata v) = freeze_metadata v"
  by (induction v) (auto simp: map_prod_def split: prod.splits)

lemma resolve_tool_call_Inr:
  assumes "resolve_tool_call uuid fr r tools rid = Inr c"
  shows "\<exists>t \<in> set tools. tc_tool_id c = pt_id t \<and> tc_arguments c = provider_freeze (rq_arguments r)
     \<and> (case rq_tool_id r of Some i \<Rightarrow> pt_id t = i
        | None \<Rightarrow> filter (\<lambda>t. rq_tool_name r = Some (pt_name t)) tools = [t])
     \<and> (case rq_call_id r of Some i \<Rightarrow> tc_call_id c = i | None \<Rightarrow> take 5 (tc_call_id c) = ''tool_'')"
proof (cases "rq_tool_id r")
  case (Some i)
  with assms have "list_ex (\<lambda>t. pt_id t = i) tools" and c: "call_for uuid fr r i rid = Inr c"
    by (auto simp: resolve_tool_call_def split: if_splits)
  then obtain t where "t \<in> set tools" "pt_id t = i" by (auto simp: list_ex_iff)
  with c Some show ?thesis
    by (auto simp: call_for_def synthesize_call_id_def Let_def split: sum.splits option.splits intro!: bexI[of _ t])
next
  case None
  then obtain t where t: "filter (\<lambda>t. rq_tool_name r = Some (pt_name t)) tools = [t]"
    and c: "call_for uuid fr r (pt_id t) rid = Inr c"
    using assms by (auto simp: resolve_tool_call_def split: if_splits list.splits)
  have "t \<in> set (filter (\<lambda>t. rq_tool_name r = Some (pt_name t)) tools)" using t by simp
  then have "t \<in> set tools" by simp
  with c t None show ?thesis
    by (auto simp: call_for_def synthesize_call_id_def Let_def split: sum.splits option.splits intro!: bexI[of _ t])
qed

text \<open>
  A turn makes exactly one decision, and a tool call can only name an advertised tool.  A
  decision is parsed as a terminal response exactly from a structured mapping without tool calls;
  when it is a tool call, the provider returned no structured output and exactly one call, the call
  names a tool of the advertised snapshot, by its identifier or by a name that only this tool has,
  and carries the provider's arguments, frozen.
\<close>

theorem decision_names_advertised_tool:
  "(case parse_model_decision uuid fr result tools of
      Inl e \<Rightarrow> (case rr_tool_calls result of [] \<Rightarrow> Option.bind (rr_structured result) items_of = None | _ \<Rightarrow> True)
    | Inr (TerminalDecision v) \<Rightarrow> rr_tool_calls result = []
        \<and> (case rr_structured result of None \<Rightarrow> False | Some s \<Rightarrow> map_option VDict (items_of s) = Some v)
    | Inr (ToolCallDecision c) \<Rightarrow> rr_structured result = None \<and> tc_call_id c \<noteq> []
        \<and> (\<exists>r t. rr_tool_calls result = [r] \<and> t \<in> set tools \<and> distinct (map pt_id tools)
             \<and> tc_tool_id c = pt_id t \<and> tc_arguments c = provider_freeze (rq_arguments r)
             \<and> (case rq_tool_id r of Some i \<Rightarrow> pt_id t = i
                | None \<Rightarrow> filter (\<lambda>t. rq_tool_name r = Some (pt_name t)) tools = [t])))"
proof (cases "parse_model_decision uuid fr result tools")
  case (Inr d)
  show ?thesis
  proof (cases d)
    case (TerminalDecision v)
    with Inr show ?thesis
      by (auto simp: parse_model_decision_def split: if_splits option.splits list.splits sum.splits)
  next
    case (ToolCallDecision c)
    obtain r where r: "rr_structured result = None" "rr_tool_calls result = [r]"
      using Inr ToolCallDecision
      by (auto simp: parse_model_decision_def split: if_splits option.splits list.splits sum.splits)
    obtain c' where c': "resolve_tool_call uuid fr r tools (rr_request_id result) = Inr c'"
      "length (remdups (map pt_id tools)) = length tools" "tc_call_id c' \<noteq> []"
      "c = c'\<lparr>tc_arguments := provider_freeze (tc_arguments c')\<rparr>"
      using Inr ToolCallDecision r
      by (auto simp: parse_model_decision_def normalize_provider_tools_def split: if_splits sum.splits)
    have d: "distinct (map pt_id tools)"
      using c'(2) by (metis length_map remdups_id_iff_distinct length_remdups_eq)
    from resolve_tool_call_Inr[OF c'(1)] obtain t where "t \<in> set tools" "tc_tool_id c' = pt_id t"
      "tc_arguments c' = provider_freeze (rq_arguments r)"
      "case rq_tool_id r of Some i \<Rightarrow> pt_id t = i | None \<Rightarrow> filter (\<lambda>t. rq_tool_name r = Some (pt_name t)) tools = [t]"
      by blast
    with Inr ToolCallDecision r c' d show ?thesis by (auto simp: provider_freeze_def intro!: exI[of _ t])
  qed
qed (auto simp: parse_model_decision_def split: if_splits option.splits list.splits)

section \<open>Routing selections\<close>

record routing_selection =
  sel_agent_id :: string
  sel_capability_id :: string
  sel_arguments :: pyval

definition parse_routing_selection :: "provider_result \<Rightarrow> decision_error + routing_selection" where
  "parse_routing_selection result =
     (case rr_structured result of None \<Rightarrow> Inl MalformedStructuredOutput
      | Some v \<Rightarrow> (case items_of v of None \<Rightarrow> Inl MalformedStructuredOutput
      | Some kvs \<Rightarrow>
          if \<not> list_all (\<lambda>(k, _). k \<in> {''agent_id'', ''capability_id'', ''arguments''}) kvs then Inl MalformedStructuredOutput
          else (case (dget kvs ''agent_id'', dget kvs ''capability_id'') of
            (Some (VStr a), Some (VStr c)) \<Rightarrow>
              if a = [] \<or> c = [] then Inl MalformedStructuredOutput
              else (case dget kvs ''arguments'' of None \<Rightarrow> Inr \<lparr>sel_agent_id = a, sel_capability_id = c, sel_arguments = VDict []\<rparr>
                | Some w \<Rightarrow> (case items_of w of None \<Rightarrow> Inl MalformedStructuredOutput
                    | Some args \<Rightarrow> Inr \<lparr>sel_agent_id = a, sel_capability_id = c, sel_arguments = VDict args\<rparr>))
          | _ \<Rightarrow> Inl MalformedStructuredOutput)))"

text \<open>
  \<open>build_routing_schema\<close> for an advertised registry: one closed branch per agent with capabilities.
  An entry is the name of an agent and the identifiers and names of its capabilities; an empty or
  missing one is skipped.
\<close>

type_synonym routing_entry = "string option \<times> (string option \<times> string option) list"

definition present :: "string option \<Rightarrow> string list" where
  "present v = (case v of None \<Rightarrow> [] | Some s \<Rightarrow> if s = [] then [] else [s])"

definition routing_branch :: "routing_entry \<Rightarrow> pyval list" where
  "routing_branch entry' = (case entry' of (name, caps) \<Rightarrow>
     (case present name of [] \<Rightarrow> []
      | a # _ \<Rightarrow>
        (let ids = sorted_unique (concat (map (\<lambda>(i, n). present i @ present n) caps)) in
         if ids = [] then []
         else [VDict [(''type'', VStr ''object''), (''additionalProperties'', VBool False),
            (''properties'', VDict [(''agent_id'', VDict [(''const'', VStr a)]),
               (''capability_id'', VDict [(''enum'', str_list ids)]),
               (''arguments'', VDict [(''type'', VStr ''object'')])]),
            (''required'', str_list [''agent_id'', ''capability_id''])]])))"

definition build_routing_schema :: "routing_entry list \<Rightarrow> pyval" where
  "build_routing_schema entries = VDict [(''oneOf'', VList (concat (map routing_branch entries)))]"

end
