(* ===== verification/InvocationResults.thy ===== *)
theory InvocationResults
  imports RunContext Approval
begin

text \<open>
  The result envelopes of capability invocations, \<open>core/invocation_results.py\<close>.  An exception that an
  envelope retains for local diagnostics is its class name.
\<close>

datatype invocation_result =
    InvocationSuccess string pyval usage "invocation_metadata option"
  | InvocationValidationFailure string "pyval list" "invocation_metadata option"
  | InvocationTargetNotFound string string string "invocation_metadata option"
  | InvocationTimeout string time "invocation_metadata option"
  | InvocationCancelled string "invocation_metadata option"
  | InvocationFailure string string string "invocation_metadata option" "string option"
  | InvocationInternalFailure string string string "invocation_metadata option"
  | InvocationApprovalRequired string approval_challenge "invocation_metadata option"
  | InvocationAuthorizationFailure string string "invocation_metadata option"
  | InvocationAuditFailure string string "invocation_metadata option"
  | InvocationBindingFailure string string "invocation_metadata option"
  | InvocationStaleBinding string string string "invocation_metadata option"
  | InvocationTargetUnavailable string string string string "invocation_metadata option"
  | InvocationSchemaMismatch string string string "invocation_metadata option"
  | InvocationBudgetExhausted string string "invocation_metadata option"
  | InvocationDelegationFailure string string "(string \<times> string) list" "invocation_metadata option"

fun result_metadata :: "invocation_result \<Rightarrow> invocation_metadata option" where
  "result_metadata (InvocationSuccess _ _ _ m) = m"
| "result_metadata (InvocationValidationFailure _ _ m) = m"
| "result_metadata (InvocationTargetNotFound _ _ _ m) = m"
| "result_metadata (InvocationTimeout _ _ m) = m"
| "result_metadata (InvocationCancelled _ m) = m"
| "result_metadata (InvocationFailure _ _ _ m _) = m"
| "result_metadata (InvocationInternalFailure _ _ _ m) = m"
| "result_metadata (InvocationApprovalRequired _ _ m) = m"
| "result_metadata (InvocationAuthorizationFailure _ _ m) = m"
| "result_metadata (InvocationAuditFailure _ _ m) = m"
| "result_metadata (InvocationBindingFailure _ _ m) = m"
| "result_metadata (InvocationStaleBinding _ _ _ m) = m"
| "result_metadata (InvocationTargetUnavailable _ _ _ _ m) = m"
| "result_metadata (InvocationSchemaMismatch _ _ _ m) = m"
| "result_metadata (InvocationBudgetExhausted _ _ m) = m"
| "result_metadata (InvocationDelegationFailure _ _ _ m) = m"

text \<open>\<open>dataclasses.replace(result, metadata=...)\<close>.\<close>

fun replace_metadata :: "invocation_metadata option \<Rightarrow> invocation_result \<Rightarrow> invocation_result" where
  "replace_metadata m (InvocationSuccess c v u _) = InvocationSuccess c v u m"
| "replace_metadata m (InvocationValidationFailure c es _) = InvocationValidationFailure c es m"
| "replace_metadata m (InvocationTargetNotFound c a k _) = InvocationTargetNotFound c a k m"
| "replace_metadata m (InvocationTimeout c t _) = InvocationTimeout c t m"
| "replace_metadata m (InvocationCancelled c _) = InvocationCancelled c m"
| "replace_metadata m (InvocationFailure c msg ex _ k) = InvocationFailure c msg ex m k"
| "replace_metadata m (InvocationInternalFailure c r ex _) = InvocationInternalFailure c r ex m"
| "replace_metadata m (InvocationApprovalRequired c ch _) = InvocationApprovalRequired c ch m"
| "replace_metadata m (InvocationAuthorizationFailure c r _) = InvocationAuthorizationFailure c r m"
| "replace_metadata m (InvocationAuditFailure c r _) = InvocationAuditFailure c r m"
| "replace_metadata m (InvocationBindingFailure c r _) = InvocationBindingFailure c r m"
| "replace_metadata m (InvocationStaleBinding c a k _) = InvocationStaleBinding c a k m"
| "replace_metadata m (InvocationTargetUnavailable c a k r _) = InvocationTargetUnavailable c a k r m"
| "replace_metadata m (InvocationSchemaMismatch c a k _) = InvocationSchemaMismatch c a k m"
| "replace_metadata m (InvocationBudgetExhausted c b _) = InvocationBudgetExhausted c b m"
| "replace_metadata m (InvocationDelegationFailure c r p _) = InvocationDelegationFailure c r p m"

lemma result_metadata_replace [simp]: "result_metadata (replace_metadata m r) = m"
  by (cases r) simp_all

end
