(* ===== verification/ModelSelection.thy ===== *)
theory ModelSelection
  imports RunContext
begin

text \<open>
  \<open>core/model_config.py\<close> (references, provider types and the configuration records),
  \<open>core/model_resolution.py\<close> (the precedence that selects the model of an invocation) and
  \<open>core/instructions.py\<close> (the governed instruction chain and the system message composed of it).
\<close>

section \<open>References and provider types\<close>

definition mk_model_reference :: "string \<Rightarrow> py_error + string" where
  "mk_model_reference v = (if strip v = [] then Inl ValueError else Inr (strip v))"

text \<open>
  The regular expression of a provider type: one or two segments \<open>[a-z0-9]+([._-][a-z0-9]+)*\<close>
  separated by a slash.  \<open>after\<close> tells whether the previous character was alphanumeric.
\<close>

definition lower_alnum :: "char \<Rightarrow> bool" where
  "lower_alnum c = (let n = of_char c :: nat in (97 \<le> n \<and> n \<le> 122) \<or> (48 \<le> n \<and> n \<le> 57))"

fun segments_ok :: "bool \<Rightarrow> nat \<Rightarrow> string \<Rightarrow> bool" where
  "segments_ok after slashes [] = after"
| "segments_ok after slashes (c # cs) =
     (if lower_alnum c then segments_ok True slashes cs
      else if \<not> after then False
      else if c \<in> {CHR ''.'', CHR ''_'', CHR ''-''} then segments_ok False slashes cs
      else if c = CHR ''/'' \<and> 0 < slashes then segments_ok False (slashes - 1) cs
      else False)"

definition mk_provider_type :: "string \<Rightarrow> py_error + string" where
  "mk_provider_type v =
     (let normalized = lower (strip v) in
      if normalized = [] \<or> \<not> segments_ok False 1 normalized then Inl ValueError else Inr normalized)"

lemma lower_char_idem [simp]: "lower_char (lower_char c) = lower_char c"
proof (cases "65 \<le> (of_char c :: nat) \<and> (of_char c :: nat) \<le> 90")
  case True
  then have "(of_char (char_of (of_char c + 32 :: nat)) :: nat) = of_char c + 32"
    by (simp add: of_char_of take_bit_eq_mod)
  then show ?thesis using True by (simp add: lower_char_def Let_def)
qed (auto simp: lower_char_def Let_def)

lemma is_space_lower_char [simp]: "is_space (lower_char c) = is_space c"
proof (cases "65 \<le> (of_char c :: nat) \<and> (of_char c :: nat) \<le> 90")
  case True
  then have "(of_char (char_of (of_char c + 32 :: nat)) :: nat) = of_char c + 32"
    by (simp add: of_char_of take_bit_eq_mod)
  then show ?thesis using True by (simp add: lower_char_def is_space_def Let_def)
qed (auto simp: lower_char_def Let_def)

lemma lower_idem [simp]: "lower (lower s) = lower s"
  by (simp add: lower_def)

lemma strip_lower: "strip (lower s) = lower (strip s)"
proof -
  have "dropWhile is_space (map lower_char s) = map lower_char (dropWhile is_space s)" for s
    by (simp add: dropWhile_map comp_def)
  then show ?thesis by (simp add: strip_def lower_def rev_map)
qed

text \<open>
  Normalization is canonical: a provider type or a model reference that is accepted is its own
  normal form, so normalizing it again, as every layer does, neither fails nor changes it, and two
  spellings that differ in letter case and surrounding white space name the same provider type.
\<close>

theorem normalization_idempotent:
  assumes "mk_provider_type v = Inr t" and "mk_model_reference u = Inr r"
  shows "mk_provider_type t = Inr t \<and> mk_provider_type (lower v) = Inr t \<and> mk_provider_type (strip v) = Inr t
     \<and> mk_model_reference r = Inr r \<and> mk_model_reference (strip u) = Inr r"
  using assms
  by (auto simp: mk_provider_type_def mk_model_reference_def Let_def strip_lower split: if_splits)

theorem normalization_idempotent_witness:
  "mk_provider_type ''azure-foundry/v2'' = Inr ''azure-foundry/v2''
   \<and> mk_provider_type (lower '' Azure-Foundry/V2 '') = Inr ''azure-foundry/v2''"
proof -
  have "mk_provider_type '' Azure-Foundry/V2 '' = Inr ''azure-foundry/v2''"
    by code_simp
  moreover have "mk_model_reference ''m'' = Inr ''m''"
    by (simp add: mk_model_reference_def strip_def is_space_def Let_def)
  ultimately show ?thesis using normalization_idempotent by blast
qed

section \<open>Configuration records\<close>

datatype model_requirement = REQUIRED_MODEL | NO_MODEL

record agent_model_config =
  am_default_model :: "string option"
  am_requirement :: model_requirement
  am_required_capabilities :: "string set"

record run_config =
  rn_model :: "string option"
  rn_timeout :: "pyval option"
  rn_metadata :: pyval
  rn_caller :: "string option"
  rn_environment :: "string option"
  rn_cost_tier :: "string option"
  rn_data_classification :: "string option"

record runtime_config =
  rt_default_model :: "string option"
  rt_policy_instructions :: "string list"

fun normalize_reference :: "string option \<Rightarrow> py_error + string option" where
  "normalize_reference None = Inr None"
| "normalize_reference (Some v) = map_sum id Some (mk_model_reference v)"

definition mk_agent_model_config :: "string option \<Rightarrow> model_requirement \<Rightarrow> string list \<Rightarrow> py_error + agent_model_config" where
  "mk_agent_model_config m req caps =
     (case normalize_reference m of Inl e \<Rightarrow> Inl e
      | Inr m' \<Rightarrow> Inr \<lparr>am_default_model = m', am_requirement = req, am_required_capabilities = set caps\<rparr>)"

text \<open>A timeout is a finite positive number; a Boolean is not a number here.\<close>

fun timeout_ok :: "pyval \<Rightarrow> bool" where
  "timeout_ok (VInt i) = (0 < i)"
| "timeout_ok (VFloat x) = (isfinite x \<and> 0 < fin_val x)"
| "timeout_ok _ = False"

definition mk_run_config :: "run_config \<Rightarrow> py_error + run_config" where
  "mk_run_config rc =
     (case normalize_reference (rn_model rc) of Inl e \<Rightarrow> Inl e
      | Inr m \<Rightarrow>
          if (case rn_timeout rc of None \<Rightarrow> False | Some t \<Rightarrow> \<not> timeout_ok t) then Inl ValueError
          else if \<not> validate_metadata (rn_metadata rc) then Inl ValueError
          else Inr (rc\<lparr>rn_model := m, rn_metadata := freeze_metadata (rn_metadata rc)\<rparr>))"

definition mk_runtime_config :: "string option \<Rightarrow> string list \<Rightarrow> py_error + runtime_config" where
  "mk_runtime_config m policy =
     (case normalize_reference m of Inl e \<Rightarrow> Inl e
      | Inr m' \<Rightarrow> if \<exists>p \<in> set policy. strip p = [] then Inl ValueError
                  else Inr \<lparr>rt_default_model = m', rt_policy_instructions = policy\<rparr>)"

section \<open>Model resolution\<close>

datatype resolution_error = MissingModelDefault | ModelOverrideDenied | IncompatibleCapabilities
  | RegistryError | BadReference

text \<open>
  A registered provider: \<open>pr_capabilities\<close> are the names of the capabilities that are present and
  enabled.  The registry is the parameter \<open>resolve\<close>, the policy hook the parameter \<open>policy\<close>.
\<close>

record provider_registration =
  pr_provider :: string
  pr_capabilities :: "string set"

record policy_context =
  px_agent_id :: string
  px_reference :: string
  px_provider :: string
  px_source :: resolution_source
  px_run_config :: run_config

record resolved_model =
  rm_reference :: string
  rm_provider :: string
  rm_source :: resolution_source

definition select_reference ::
  "string option \<Rightarrow> run_config \<Rightarrow> agent_model_config \<Rightarrow> runtime_config \<Rightarrow> (string \<times> resolution_source) option" where
  "select_reference call rc ac cfg =
     (case call of Some r \<Rightarrow> Some (r, CALL_OVERRIDE)
      | None \<Rightarrow> (case rn_model rc of Some r \<Rightarrow> Some (r, RUN_OVERRIDE)
      | None \<Rightarrow> (case am_default_model ac of Some r \<Rightarrow> Some (r, AGENT_DEFAULT)
      | None \<Rightarrow> map_option (\<lambda>r. (r, RUNTIME_DEFAULT)) (rt_default_model cfg))))"

definition resolve_binding ::
  "(string \<Rightarrow> provider_registration option) \<Rightarrow> (policy_context \<Rightarrow> bool) option \<Rightarrow> string \<Rightarrow> agent_model_config
   \<Rightarrow> run_config \<Rightarrow> runtime_config \<Rightarrow> string option \<Rightarrow> string set \<Rightarrow> resolution_error + resolved_model option" where
  "resolve_binding lookup policy agent ac rc cfg override required =
     (case normalize_reference override of Inl _ \<Rightarrow> Inl BadReference
      | Inr call \<Rightarrow>
          (case select_reference call rc ac cfg of
             None \<Rightarrow> if am_requirement ac = REQUIRED_MODEL \<or> required \<noteq> {} then Inl MissingModelDefault else Inr None
           | Some (r, source) \<Rightarrow>
               (case lookup r of
                  None \<Rightarrow> Inl RegistryError
                | Some reg \<Rightarrow>
                    if \<not> required \<subseteq> pr_capabilities reg then Inl IncompatibleCapabilities
                    else if (case policy of None \<Rightarrow> False
                        | Some p \<Rightarrow> \<not> p \<lparr>px_agent_id = agent, px_reference = r, px_provider = pr_provider reg,
                                      px_source = source, px_run_config = rc\<rparr>)
                    then Inl ModelOverrideDenied
                    else Inr (Some \<lparr>rm_reference = r, rm_provider = pr_provider reg, rm_source = source\<rparr>))))"

text \<open>
  Every selected model has passed the policy and the capability check.  When resolution
  succeeds with a model, the registry knows it, it has all required capabilities, the policy
  approved exactly this reference from exactly this source, and the source is the first, in the
  order call, run, agent, runtime, that names a model.
\<close>

theorem resolved_model_governed:
  assumes "resolve_binding lookup (Some p) agent ac rc cfg override required = Inr (Some m)"
  shows "\<exists>call reg. normalize_reference override = Inr call \<and> lookup (rm_reference m) = Some reg
     \<and> required \<subseteq> pr_capabilities reg \<and> rm_provider m = pr_provider reg
     \<and> p \<lparr>px_agent_id = agent, px_reference = rm_reference m, px_provider = pr_provider reg,
          px_source = rm_source m, px_run_config = rc\<rparr>
     \<and> [call, rn_model rc, am_default_model ac, rt_default_model cfg]
         = (case rm_source m of
              CALL_OVERRIDE \<Rightarrow> [Some (rm_reference m), rn_model rc, am_default_model ac, rt_default_model cfg]
            | RUN_OVERRIDE \<Rightarrow> [None, Some (rm_reference m), am_default_model ac, rt_default_model cfg]
            | AGENT_DEFAULT \<Rightarrow> [None, None, Some (rm_reference m), rt_default_model cfg]
            | RUNTIME_DEFAULT \<Rightarrow> [None, None, None, Some (rm_reference m)])"
  using assms
  by (auto simp: resolve_binding_def select_reference_def split: sum.splits option.splits if_splits)

definition sample_run_config :: run_config where
  "sample_run_config = \<lparr>rn_model = Some ''gpt'', rn_timeout = None, rn_metadata = VProxy [], rn_caller = None,
     rn_environment = None, rn_cost_tier = None, rn_data_classification = None\<rparr>"

definition sample_agent_config :: agent_model_config where
  "sample_agent_config = \<lparr>am_default_model = Some ''llama'', am_requirement = REQUIRED_MODEL, am_required_capabilities = {}\<rparr>"

theorem resolved_model_governed_witness:
  "\<exists>m. resolve_binding (\<lambda>_. Some \<lparr>pr_provider = ''p'', pr_capabilities = {''tools''}\<rparr>) (Some (\<lambda>c. px_source c = RUN_OVERRIDE))
      ''a'' sample_agent_config sample_run_config \<lparr>rt_default_model = None, rt_policy_instructions = []\<rparr> None {''tools''}
      = Inr (Some m) \<and> {''tools''} \<subseteq> {''tools''} \<and> rm_provider m = ''p''"
proof -
  let ?m = "\<lparr>rm_reference = ''gpt'', rm_provider = ''p'', rm_source = RUN_OVERRIDE\<rparr>"
  have r: "resolve_binding (\<lambda>_. Some \<lparr>pr_provider = ''p'', pr_capabilities = {''tools''}\<rparr>) (Some (\<lambda>c. px_source c = RUN_OVERRIDE))
      ''a'' sample_agent_config sample_run_config \<lparr>rt_default_model = None, rt_policy_instructions = []\<rparr> None {''tools''}
      = Inr (Some ?m)"
    by (simp add: resolve_binding_def select_reference_def sample_agent_config_def sample_run_config_def)
  from resolved_model_governed[OF r] r show ?thesis by auto
qed

section \<open>Governed instructions\<close>

definition normalize_instruction :: "string option \<Rightarrow> string option" where
  "normalize_instruction v = (case v of None \<Rightarrow> None | Some s \<Rightarrow> if strip s = [] then None else Some (strip s))"

definition resolve_instruction_chain :: "string list \<Rightarrow> string option \<Rightarrow> string option \<Rightarrow> string list" where
  "resolve_instruction_chain policy agent capability =
     List.map_filter (normalize_instruction \<circ> Some) policy
     @ List.map_filter normalize_instruction [agent, capability]"

record chat_message =
  msg_role :: string
  msg_content :: string

definition newline2 :: string where
  "newline2 = [CHR 0x0A, CHR 0x0A]"

fun join_blank :: "string list \<Rightarrow> string" where
  "join_blank [] = []"
| "join_blank [s] = s"
| "join_blank (s # t # ts) = s @ newline2 @ join_blank (t # ts)"

text \<open>\<open>None\<close> is \<open>UntrustedSystemMessageError\<close>.\<close>

definition compose_system_message :: "chat_message list \<Rightarrow> string list \<Rightarrow> chat_message list option" where
  "compose_system_message messages chain =
     (if \<exists>m \<in> set messages. msg_role m = ''system'' then None
      else if chain = [] then Some messages
      else Some (\<lparr>msg_role = ''system'', msg_content = join_blank chain\<rparr> # messages))"

text \<open>
  The framework owns the system role.  Whatever messages and instructions a caller supplies,
  the messages of a model call either are refused, because the caller wrote a system message, or
  consist of at most one system message, first, whose text is the resolved chain with the policy
  entries before the agent's and the capability's, followed by the caller's messages unchanged.
\<close>

theorem system_role_governed:
  assumes "compose_system_message messages (resolve_instruction_chain policy agent capability) = Some sent"
  shows "filter (\<lambda>m. msg_role m = ''system'') sent =
       (if resolve_instruction_chain policy agent capability = [] then []
        else [\<lparr>msg_role = ''system'', msg_content = join_blank (resolve_instruction_chain policy agent capability)\<rparr>])
     \<and> filter (\<lambda>m. msg_role m \<noteq> ''system'') sent = messages
     \<and> (\<exists>rest. resolve_instruction_chain policy agent capability = map strip (filter (\<lambda>s. strip s \<noteq> []) policy) @ rest)"
proof -
  have none: "filter (\<lambda>m. msg_role m = ''system'') messages = []" "filter (\<lambda>m. msg_role m \<noteq> ''system'') messages = messages"
    using assms by (auto simp: compose_system_message_def filter_empty_conv intro: filter_True split: if_splits)
  have chain: "List.map_filter (normalize_instruction \<circ> Some) policy = map strip (filter (\<lambda>s. strip s \<noteq> []) policy)"
    by (induction policy) (auto simp: List.map_filter_simps normalize_instruction_def)
  show ?thesis using assms none
    by (auto simp: compose_system_message_def resolve_instruction_chain_def chain split: if_splits)
qed

theorem system_role_governed_witness:
  "\<exists>sent. compose_system_message [\<lparr>msg_role = ''user'', msg_content = ''hi''\<rparr>]
      (resolve_instruction_chain [''obey''] (Some '' '') (Some ''be brief'')) = Some sent
     \<and> filter (\<lambda>m. msg_role m \<noteq> ''system'') sent = [\<lparr>msg_role = ''user'', msg_content = ''hi''\<rparr>]"
proof -
  obtain sent where sent: "compose_system_message [\<lparr>msg_role = ''user'', msg_content = ''hi''\<rparr>]
      (resolve_instruction_chain [''obey''] (Some '' '') (Some ''be brief'')) = Some sent"
    by (cases "resolve_instruction_chain [''obey''] (Some '' '') (Some ''be brief'') = []")
       (auto simp: compose_system_message_def)
  from system_role_governed[OF sent] sent show ?thesis by blast
qed

end
