(* ===== verification/ProgLogic.thy ===== *)
theory ProgLogic
  imports Prelude
begin

text \<open>
  Partial-correctness triples for the state-and-exception programs of the prelude: \<open>triple P m Q E\<close>
  says that from a state in \<open>P\<close> the program \<open>m\<close> either returns a value and a state related by \<open>Q\<close>
  or raises an exception in a state related by \<open>E\<close>.  Programs are total functions, so there is no
  third case.  The rules follow the combinators; \<open>triple_rules\<close> collects them.
\<close>

named_theorems triple_rules \<open>composition rules for triples\<close>

definition triple ::
  "('s \<Rightarrow> bool) \<Rightarrow> ('s, 'e, 'a) prog \<Rightarrow> ('a \<Rightarrow> 's \<Rightarrow> bool) \<Rightarrow> ('e \<Rightarrow> 's \<Rightarrow> bool) \<Rightarrow> bool" where
  "triple P m Q E \<longleftrightarrow> (\<forall>s. P s \<longrightarrow> (case m s of (Inr x, s') \<Rightarrow> Q x s' | (Inl e, s') \<Rightarrow> E e s'))"

lemma tripleI:
  "(\<And>s. P s \<Longrightarrow> case m s of (Inr x, s') \<Rightarrow> Q x s' | (Inl e, s') \<Rightarrow> E e s') \<Longrightarrow> triple P m Q E"
  by (simp add: triple_def)

lemma tripleD: "triple P m Q E \<Longrightarrow> P s \<Longrightarrow> m s = (Inr x, s') \<Longrightarrow> Q x s'"
  by (force simp: triple_def)

lemma tripleD_raise: "triple P m Q E \<Longrightarrow> P s \<Longrightarrow> m s = (Inl e, s') \<Longrightarrow> E e s'"
  by (force simp: triple_def)

lemma triple_weaken:
  assumes "triple P m Q E" and "\<And>s. P' s \<Longrightarrow> P s" and "\<And>x s. Q x s \<Longrightarrow> Q' x s" and "\<And>e s. E e s \<Longrightarrow> E' e s"
  shows "triple P' m Q' E'"
proof (rule tripleI)
  fix s assume "P' s"
  with assms(1,2) have m: "case m s of (Inr x, s') \<Rightarrow> Q x s' | (Inl e, s') \<Rightarrow> E e s'" by (simp add: triple_def)
  show "case m s of (Inr x, s') \<Rightarrow> Q' x s' | (Inl e, s') \<Rightarrow> E' e s'"
  proof (cases "m s")
    case (Pair r s')
    with m assms(3,4) show ?thesis by (cases r) simp_all
  qed
qed

lemma triple_pre: "triple P m Q E \<Longrightarrow> (\<And>s. P' s \<Longrightarrow> P s) \<Longrightarrow> triple P' m Q E"
  by (rule triple_weaken)

lemma triple_ret [triple_rules]: "(\<And>s. P s \<Longrightarrow> Q x s) \<Longrightarrow> triple P (retS x) Q E"
  by (simp add: triple_def prog_defs)

lemma triple_raise [triple_rules]: "(\<And>s. P s \<Longrightarrow> E e s) \<Longrightarrow> triple P (raiseS e) Q E"
  by (simp add: triple_def prog_defs)

lemma triple_get [triple_rules]: "(\<And>s. P s \<Longrightarrow> Q (f s) s) \<Longrightarrow> triple P (getS f) Q E"
  by (simp add: triple_def prog_defs)

lemma triple_modify [triple_rules]: "(\<And>s. P s \<Longrightarrow> Q () (f s)) \<Longrightarrow> triple P (modifyS f) Q E"
  by (simp add: triple_def prog_defs)

lemma triple_guard [triple_rules]:
  "(\<And>s. P s \<Longrightarrow> b \<Longrightarrow> Q () s) \<Longrightarrow> (\<And>s. P s \<Longrightarrow> \<not> b \<Longrightarrow> E e s) \<Longrightarrow> triple P (guardS b e) Q E"
  by (simp add: triple_def prog_defs)

lemma triple_bind [triple_rules]:
  assumes "triple P m R E" and "\<And>x. triple (R x) (f x) Q E"
  shows "triple P (bindS m f) Q E"
proof (rule tripleI)
  fix s assume "P s"
  with assms(1) have m: "case m s of (Inr x, s') \<Rightarrow> R x s' | (Inl e, s') \<Rightarrow> E e s'" by (simp add: triple_def)
  show "case bindS m f s of (Inr x, s') \<Rightarrow> Q x s' | (Inl e, s') \<Rightarrow> E e s'"
  proof (cases "m s")
    case (Pair r s')
    with m assms(2) show ?thesis by (cases r) (auto simp: bindS_def triple_def)
  qed
qed

lemma triple_then [triple_rules]: "triple P m (\<lambda>_. R) E \<Longrightarrow> triple R n Q E \<Longrightarrow> triple P (thenS m n) Q E"
  unfolding thenS_def by (rule triple_bind)

lemma triple_if [triple_rules]:
  "(b \<Longrightarrow> triple P m Q E) \<Longrightarrow> (\<not> b \<Longrightarrow> triple P n Q E) \<Longrightarrow> triple P (if b then m else n) Q E"
  by simp

lemma triple_option [triple_rules]:
  "(v = None \<Longrightarrow> triple P m Q E) \<Longrightarrow> (\<And>y. v = Some y \<Longrightarrow> triple P (f y) Q E) \<Longrightarrow>
   triple P (case v of None \<Rightarrow> m | Some y \<Rightarrow> f y) Q E"
  by (cases v) simp_all

lemma triple_sum [triple_rules]:
  "(\<And>e. v = Inl e \<Longrightarrow> triple P (g e) Q E) \<Longrightarrow> (\<And>y. v = Inr y \<Longrightarrow> triple P (f y) Q E) \<Longrightarrow>
   triple P (case v of Inl e \<Rightarrow> g e | Inr y \<Rightarrow> f y) Q E"
  by (cases v) simp_all

lemma triple_assume: "(p \<Longrightarrow> triple P m Q E) \<Longrightarrow> triple (\<lambda>s. P s \<and> p) m Q E"
  by (simp add: triple_def)

text \<open>A program that only reads: it can be composed with the same assertion before and after.\<close>

lemma triple_preserves: "preserves P m \<Longrightarrow> triple P m (\<lambda>_. P) (\<lambda>_. P)"
  by (auto simp: triple_def preserves_def split: sum.splits prod.splits)

end
