(* ===== verification/Delegation.thy ===== *)
theory Delegation
  imports Decisions InvocationResults ModelSelection ProgLogic
begin

text \<open>
  The delegation loop of \<open>core/delegation\<close>: a model is asked for a decision, a tool call is executed,
  its bounded result goes to the next turn, until the model answers, a limit is reached or something
  fails (\<open>_loop.py\<close>, with \<open>_models.py\<close>, \<open>_results.py\<close>, \<open>_fallback.py\<close>).

  Everything the loop calls (discovery, the model, the invocation of a capability, the clock, the
  cancellation flag) is an operation of a record \<open>delegation_env\<close> over a state \<open>'g\<close> of its own, so
  that what these operations do between two steps of the loop is unrestricted.
\<close>

section \<open>Results of tools and the fallback policy\<close>

datatype tool_result_status = TR_SUCCESS | TR_APPROVAL_REQUIRED | TR_DENIED | TR_UNAVAILABLE | TR_STALE_TARGET
  | TR_INVALID_ARGUMENTS | TR_TIMEOUT | TR_CANCELLATION | TR_BUDGET_REJECTED | TR_DEPTH_REJECTED
  | TR_CYCLE_REJECTED | TR_EXECUTION_FAILURE | TR_RESULT_TOO_LARGE

fun status_value :: "tool_result_status \<Rightarrow> string" where
  "status_value TR_SUCCESS = ''success''"
| "status_value TR_APPROVAL_REQUIRED = ''approval_required''"
| "status_value TR_DENIED = ''denied''"
| "status_value TR_UNAVAILABLE = ''unavailable''"
| "status_value TR_STALE_TARGET = ''stale_target''"
| "status_value TR_INVALID_ARGUMENTS = ''invalid_arguments''"
| "status_value TR_TIMEOUT = ''timeout''"
| "status_value TR_CANCELLATION = ''cancellation''"
| "status_value TR_BUDGET_REJECTED = ''budget_rejected''"
| "status_value TR_DEPTH_REJECTED = ''depth_rejected''"
| "status_value TR_CYCLE_REJECTED = ''cycle_rejected''"
| "status_value TR_EXECUTION_FAILURE = ''execution_failure''"
| "status_value TR_RESULT_TOO_LARGE = ''result_too_large''"

definition never_fallback :: "tool_result_status set" where
  "never_fallback = {TR_DENIED, TR_CANCELLATION, TR_BUDGET_REJECTED, TR_DEPTH_REJECTED, TR_CYCLE_REJECTED}"

text \<open>A policy is the set of its eligible statuses.\<close>

definition mk_fallback_policy :: "tool_result_status set \<Rightarrow> py_error + tool_result_status set" where
  "mk_fallback_policy statuses = (if statuses \<inter> never_fallback \<noteq> {} then Inl ValueError else Inr statuses)"

definition permits_fallback :: "tool_result_status set \<Rightarrow> tool_result_status \<Rightarrow> bool" where
  "permits_fallback policy st \<longleftrightarrow> st \<in> policy"

record envelope =
  ev_call_id :: string
  ev_status :: tool_result_status
  ev_data :: pyval
  ev_reason :: "string option"

definition mk_envelope :: "string \<Rightarrow> tool_result_status \<Rightarrow> pyval \<Rightarrow> string option \<Rightarrow> py_error + envelope" where
  "mk_envelope call_id st data reason =
     map_sum id (\<lambda>d. \<lparr>ev_call_id = call_id, ev_status = st, ev_data = d, ev_reason = reason\<rparr>) (freeze_json data)"

definition envelope_dict :: "envelope \<Rightarrow> pyval" where
  "envelope_dict e = VDict (
     [(''call_id'', VStr (ev_call_id e)), (''status'', VStr (status_value (ev_status e)))]
     @ (if ev_data e = VNone then [] else [(''data'', thaw_json (ev_data e))])
     @ entry ''reason_code'' VStr (ev_reason e))"

fun to_tool_result :: "string \<Rightarrow> invocation_result \<Rightarrow> py_error + envelope" where
  "to_tool_result i (InvocationSuccess _ v _ _) = mk_envelope i TR_SUCCESS v None"
| "to_tool_result i (InvocationValidationFailure _ errors _) =
     mk_envelope i TR_INVALID_ARGUMENTS (VDict [(''error_count'', VInt (int (length errors)))]) None"
| "to_tool_result i (InvocationApprovalRequired _ _ _) = mk_envelope i TR_APPROVAL_REQUIRED VNone (Some ''approval_required'')"
| "to_tool_result i (InvocationAuthorizationFailure _ r _) = mk_envelope i TR_DENIED VNone (Some r)"
| "to_tool_result i (InvocationAuditFailure _ r _) = mk_envelope i TR_DENIED VNone (Some r)"
| "to_tool_result i (InvocationStaleBinding _ _ _ _) = mk_envelope i TR_STALE_TARGET VNone (Some ''stale_binding'')"
| "to_tool_result i (InvocationTargetNotFound _ _ _ _) = mk_envelope i TR_UNAVAILABLE VNone (Some ''InvocationTargetNotFound'')"
| "to_tool_result i (InvocationTargetUnavailable _ _ _ _ _) =
     mk_envelope i TR_UNAVAILABLE VNone (Some ''InvocationTargetUnavailable'')"
| "to_tool_result i (InvocationSchemaMismatch _ _ _ _) = mk_envelope i TR_UNAVAILABLE VNone (Some ''InvocationSchemaMismatch'')"
| "to_tool_result i (InvocationBindingFailure _ _ _) = mk_envelope i TR_UNAVAILABLE VNone (Some ''InvocationBindingFailure'')"
| "to_tool_result i (InvocationTimeout _ _ _) = mk_envelope i TR_TIMEOUT VNone (Some ''timeout'')"
| "to_tool_result i (InvocationCancelled _ _) = mk_envelope i TR_CANCELLATION VNone (Some ''cancelled'')"
| "to_tool_result i (InvocationBudgetExhausted _ b _) = mk_envelope i TR_BUDGET_REJECTED VNone (Some b)"
| "to_tool_result i (InvocationDelegationFailure _ r _ _) =
     mk_envelope i (if r = ''cycle_detected'' then TR_CYCLE_REJECTED else TR_DEPTH_REJECTED) VNone (Some r)"
| "to_tool_result i (InvocationFailure _ _ _ _ _) = mk_envelope i TR_EXECUTION_FAILURE VNone (Some ''execution_failure'')"
| "to_tool_result i (InvocationInternalFailure _ _ _ _) = mk_envelope i TR_EXECUTION_FAILURE VNone (Some ''execution_failure'')"

section \<open>Configuration, records and outcomes\<close>

datatype delegation_requirement = DELEGATION_OPTIONAL | DELEGATION_REQUIRED

record delegation_config =
  dc_toolbox :: toolbox_policy
  dc_requirement :: delegation_requirement
  dc_model :: "string option"
  dc_max_turns :: int
  dc_max_tool_calls :: int
  dc_max_depth :: int
  dc_timeout :: "pyfloat option"
  dc_deadline :: "pyfloat option"
  dc_token_budget :: "int option"
  dc_cost_budget :: "pyfloat option"
  dc_max_result_bytes :: int
  dc_tool_token_cost :: int
  dc_tool_cost :: pyfloat
  dc_fallback :: "tool_result_status set"

definition mk_delegation_config :: "delegation_config \<Rightarrow> py_error + delegation_config" where
  "mk_delegation_config c =
     (if dc_max_turns c < 1 then Inl ValueError
      else if dc_max_tool_calls c < 0 \<or> dc_max_depth c < 0 then Inl ValueError
      else if (case dc_timeout c of None \<Rightarrow> False | Some t \<Rightarrow> \<not> isfinite t \<or> fin_val t \<le> 0) then Inl ValueError
      else if (case dc_deadline c of None \<Rightarrow> False | Some t \<Rightarrow> \<not> isfinite t) then Inl ValueError
      else if (case dc_token_budget c of None \<Rightarrow> False | Some b \<Rightarrow> b < 0) then Inl ValueError
      else if (case dc_cost_budget c of None \<Rightarrow> False | Some b \<Rightarrow> \<not> isfinite b \<or> fin_val b < 0) then Inl ValueError
      else if dc_max_result_bytes c < 1 then Inl ValueError
      else if dc_tool_token_cost c < 0 then Inl ValueError
      else if \<not> isfinite (dc_tool_cost c) \<or> fin_val (dc_tool_cost c) < 0 then Inl ValueError
      else Inr c)"

definition cost_budget :: "delegation_config \<Rightarrow> rat option" where
  "cost_budget c = map_option fin_val (dc_cost_budget c)"

definition tool_cost :: "delegation_config \<Rightarrow> rat" where
  "tool_cost c = fin_val (dc_tool_cost c)"

record tool_call_record =
  tk_turn :: int
  tk_call_id :: string
  tk_tool_id :: string
  tk_revision :: int
  tk_parent :: string
  tk_child :: "string option"
  tk_status :: tool_result_status
  tk_fallback_allowed :: bool
  tk_usage :: usage
  tk_model_calls :: "model_call list"

record delegation_provenance =
  dp_loop_id :: string
  dp_correlation_id :: string
  dp_parent :: string
  dp_turns :: int
  dp_calls :: "tool_call_record list"
  dp_results :: "envelope list"

datatype outcome_code = D_SUCCESS | D_FALLBACK_SUCCESS | D_MALFORMED_DECISION | D_UNKNOWN_TOOL_CALL
  | D_REPLAYED_TOOL_CALL | D_INVALID_ARGUMENTS | D_REQUIRED_CAPABILITY_UNAVAILABLE
  | D_REQUIRED_DELEGATION_NOT_PERFORMED | D_FINAL_OUTPUT_VALIDATION_FAILURE | D_TURN_LIMIT_EXHAUSTED
  | D_TOOL_CALL_LIMIT_EXHAUSTED | D_DEPTH_LIMIT_EXHAUSTED | D_DEADLINE_EXHAUSTED | D_TOKEN_BUDGET_EXHAUSTED
  | D_COST_BUDGET_EXHAUSTED | D_USAGE_UNKNOWN | D_SHARED_BUDGET_EXHAUSTED | D_RESULT_SIZE_EXHAUSTED
  | D_PROVIDER_FAILURE | D_CANCELLATION | D_CHILD_FAILURE

record 'v delegation_outcome =
  oc_code :: outcome_code
  oc_value :: "'v option"
  oc_provenance :: delegation_provenance
  oc_metadata :: invocation_metadata
  oc_failure_code :: "string option"

definition outcome_ok :: "'v delegation_outcome \<Rightarrow> bool" where
  "outcome_ok r \<longleftrightarrow> oc_code r \<in> {D_SUCCESS, D_FALLBACK_SUCCESS}"

fun toolbox_status_value :: "toolbox_status \<Rightarrow> string" where
  "toolbox_status_value TB_SUCCESS = ''success''"
| "toolbox_status_value TB_REQUIRED_UNAVAILABLE = ''required_capability_unavailable''"
| "toolbox_status_value TB_DISCOVERY_DENIED = ''discovery_denied''"
| "toolbox_status_value TB_AMBIGUOUS = ''ambiguous''"
| "toolbox_status_value TB_UNSUPPORTED_SCHEMA = ''unsupported_schema''"
| "toolbox_status_value TB_DUPLICATE_TOOL_ID = ''duplicate_tool_id''"
| "toolbox_status_value TB_LIMIT_EXCEEDED = ''limit_exceeded''"

section \<open>The environment and the state of a loop\<close>

datatype complete_error = CompleteCancelled | CompleteTimeout | CompleteProviderTimeout | CompleteResolution string
  | CompleteMalformed "usage option" | CompleteProvider string | CompleteRaised py_error

datatype invoke_error = InvokeCancelled | InvokeRaised py_error

record tool_result_message =
  tm_call_id :: string
  tm_status :: string
  tm_result :: pyval

record ('g, 'v) delegation_env =
  en_cancelled :: "'g \<Rightarrow> bool"
  en_clock :: "'g \<Rightarrow> time \<times> 'g"
  en_discover :: "discovery_query \<Rightarrow> ('g, py_error, tool_discovery_result) prog"
  en_require :: "string option \<Rightarrow> ('g, complete_error, unit) prog"
  en_complete :: "chat_message list \<Rightarrow> provider_tool list \<Rightarrow> tool_result_message list \<Rightarrow> time option
     \<Rightarrow> ('g, complete_error, provider_result \<times> model_call list) prog"
  en_invoke :: "capability_binding \<Rightarrow> pyval \<Rightarrow> time option \<Rightarrow> int \<Rightarrow> pyfloat \<Rightarrow> ('g, invoke_error, invocation_result) prog"
  en_prior_calls :: "'g \<Rightarrow> nat"
  en_metadata :: "'g \<Rightarrow> invocation_metadata"
  en_record_retrieval :: "retrieval \<Rightarrow> 'g \<Rightarrow> 'g"
  en_validate :: "pyval \<Rightarrow> 'v option"
  en_search :: "string \<Rightarrow> string \<Rightarrow> bool"
  en_float :: "pyfloat \<Rightarrow> string"
  en_uuid :: "string \<Rightarrow> string"
  en_recursion_limit :: nat

text \<open>The facts of the run context that do not change during a loop.\<close>

record delegation_context =
  dx_run_id :: string
  dx_correlation_id :: string
  dx_depth :: int
  dx_deadline :: "time option"

record 'g loop =
  lp_turns :: int
  lp_tool_calls :: int
  lp_tokens :: int
  lp_cost :: rat
  lp_seen :: "(string, envelope) dict"
  lp_records :: "tool_call_record list"
  lp_results :: "envelope list"
  lp_calls :: "model_call list"
  lp_fallback :: bool
  lp_env :: 'g

definition init_loop :: "'g \<Rightarrow> 'g loop" where
  "init_loop g = \<lparr>lp_turns = 0, lp_tool_calls = 0, lp_tokens = 0, lp_cost = 0, lp_seen = [], lp_records = [],
     lp_results = [], lp_calls = [], lp_fallback = False, lp_env = g\<rparr>"

text \<open>
  A turn that ends the loop: an exception that escapes it, or a call of \<open>finish\<close> with its code, value,
  failure code and usage.
\<close>

datatype loop_exn = EscapeCancelled | EscapeRaised py_error

datatype 'v halt =
    Escape loop_exn
  | Stop outcome_code "'v option" "string option" "usage option"

type_synonym ('g, 'v, 'a) step = "('g loop, 'v halt, 'a) prog"

definition stop :: "outcome_code \<Rightarrow> ('g, 'v, 'a) step" where
  "stop code = raiseS (Stop code None None None)"

definition stop_with :: "outcome_code \<Rightarrow> string \<Rightarrow> ('g, 'v, 'a) step" where
  "stop_with code reason = raiseS (Stop code None (Some reason) None)"

definition escape :: "py_error \<Rightarrow> ('g, 'v, 'a) step" where
  "escape e = raiseS (Escape (EscapeRaised e))"

definition whenS :: "bool \<Rightarrow> ('s, 'e, unit) prog \<Rightarrow> ('s, 'e, unit) prog" where
  "whenS b m = (if b then m else retS ())"

text \<open>An operation of the environment; its exception is returned to be handled.\<close>

definition on_env :: "('g, 'e, 'a) prog \<Rightarrow> ('g, 'v, 'e + 'a) step" where
  "on_env m w = (case m (lp_env w) of (r, g) \<Rightarrow> (Inr r, w\<lparr>lp_env := g\<rparr>))"

definition read_clock :: "('g, 'v) delegation_env \<Rightarrow> ('g, 'v, time) step" where
  "read_clock env w = (case en_clock env (lp_env w) of (t, g) \<Rightarrow> (Inr t, w\<lparr>lp_env := g\<rparr>))"

definition is_cancelled :: "('g, 'v) delegation_env \<Rightarrow> ('g, 'v, bool) step" where
  "is_cancelled env = getS (\<lambda>w. en_cancelled env (lp_env w))"

section \<open>The steps of a turn\<close>

definition effective_deadline :: "delegation_context \<Rightarrow> delegation_config \<Rightarrow> ('g, 'v) delegation_env \<Rightarrow> 'g \<Rightarrow> time option \<times> 'g" where
  "effective_deadline dx cfg env g =
     (let (configured, g') = (case dc_timeout cfg of None \<Rightarrow> (None, g)
            | Some t \<Rightarrow> (case en_clock env g of (now, g') \<Rightarrow> (Some (now + fin_val t), g')));
          candidates = List.map_filter (\<lambda>x. x) [dx_deadline dx, map_option fin_val (dc_deadline cfg), configured] in
      (if candidates = [] then None else Some (Min (set candidates)), g'))"

definition remaining :: "('g, 'v) delegation_env \<Rightarrow> time option \<Rightarrow> ('g, 'v, time option) step" where
  "remaining env deadline = (case deadline of None \<Rightarrow> retS None
     | Some d \<Rightarrow> bindS (read_clock env) (\<lambda>now. retS (Some (max 0 (d - now)))))"

definition preflight :: "('g, 'v) delegation_env \<Rightarrow> time option \<Rightarrow> ('g, 'v, unit) step" where
  "preflight env deadline = bindS (is_cancelled env) (\<lambda>c.
     if c then stop D_CANCELLATION
     else (case deadline of None \<Rightarrow> retS ()
       | Some d \<Rightarrow> bindS (read_clock env) (\<lambda>now. whenS (d \<le> now) (stop D_DEADLINE_EXHAUSTED))))"

definition open_turn :: "('g, 'v) delegation_env \<Rightarrow> delegation_config \<Rightarrow> ('g, 'v, toolbox_snapshot) step" where
  "open_turn env cfg =
     bindS (on_env (build_toolbox (en_float env) (en_discover env) (dc_toolbox cfg) True)) (\<lambda>r.
       case r of Inl e \<Rightarrow> escape e
       | Inr tb \<Rightarrow>
         (case tb_snapshot tb of
            None \<Rightarrow> stop_with D_REQUIRED_CAPABILITY_UNAVAILABLE (toolbox_status_value (tb_status tb))
          | Some s \<Rightarrow>
              if \<not> toolbox_ok tb then stop_with D_REQUIRED_CAPABILITY_UNAVAILABLE (toolbox_status_value (tb_status tb))
              else thenS (modifyS (\<lambda>w. w\<lparr>lp_turns := lp_turns w + 1\<rparr>)) (retS s)))"

definition provider_tools :: "toolbox_snapshot \<Rightarrow> ('g, 'v, provider_tool list) step" where
  "provider_tools s = (case as_provider_tools s of Inl e \<Rightarrow> escape e | Inr tools \<Rightarrow> retS tools)"

definition result_messages :: "(pyfloat \<Rightarrow> string) \<Rightarrow> 'g loop \<Rightarrow> tool_result_message list" where
  "result_messages fr w = map (\<lambda>e. \<lparr>tm_call_id = ev_call_id e, tm_status = status_value (ev_status e),
     tm_result = envelope_dict e\<rparr>) (lp_results w)"

definition complete_failed :: "('g, 'v) delegation_env \<Rightarrow> time option \<Rightarrow> complete_error \<Rightarrow> ('g, 'v, 'a) step" where
  "complete_failed env deadline e = (case e of
     CompleteCancelled \<Rightarrow> bindS (is_cancelled env) (\<lambda>c. if c then stop D_CANCELLATION else raiseS (Escape EscapeCancelled))
   | CompleteTimeout \<Rightarrow> stop D_DEADLINE_EXHAUSTED
   | CompleteProviderTimeout \<Rightarrow>
       (case deadline of None \<Rightarrow> stop_with D_PROVIDER_FAILURE ''ProviderTimeoutError''
        | Some d \<Rightarrow> bindS (read_clock env) (\<lambda>now.
            stop_with (if d \<le> now then D_DEADLINE_EXHAUSTED else D_PROVIDER_FAILURE) ''ProviderTimeoutError''))
   | CompleteResolution name \<Rightarrow> stop_with D_PROVIDER_FAILURE name
   | CompleteMalformed u \<Rightarrow> raiseS (Stop D_MALFORMED_DECISION None None u)
   | CompleteProvider name \<Rightarrow> stop_with D_PROVIDER_FAILURE name
   | CompleteRaised err \<Rightarrow> escape err)"

definition ask_model ::
  "('g, 'v) delegation_env \<Rightarrow> delegation_config \<Rightarrow> chat_message list \<Rightarrow> time option \<Rightarrow> toolbox_snapshot
   \<Rightarrow> ('g, 'v, provider_result) step" where
  "ask_model env cfg history deadline s =
     bindS (on_env (en_require env (dc_model cfg))) (\<lambda>r. case r of Inl e \<Rightarrow> complete_failed env deadline e
       | Inr _ \<Rightarrow>
     bindS (provider_tools s) (\<lambda>tools.
     bindS (getS (result_messages (en_float env))) (\<lambda>msgs.
     bindS (on_env (en_complete env history tools msgs deadline)) (\<lambda>r. case r of Inl e \<Rightarrow> complete_failed env deadline e
       | Inr (result, calls) \<Rightarrow>
     bindS (is_cancelled env) (\<lambda>c. if c then stop D_CANCELLATION
       else thenS (modifyS (\<lambda>w. w\<lparr>lp_calls := lp_calls w @ calls\<rparr>)) (retS result))))))"

definition over_tokens :: "delegation_config \<Rightarrow> int \<Rightarrow> bool" where
  "over_tokens cfg n = (case dc_token_budget cfg of None \<Rightarrow> False | Some b \<Rightarrow> b < n)"

definition over_cost :: "delegation_config \<Rightarrow> rat \<Rightarrow> bool" where
  "over_cost cfg x = (case cost_budget cfg of None \<Rightarrow> False | Some b \<Rightarrow> b < x)"

definition account_usage :: "delegation_config \<Rightarrow> usage \<Rightarrow> ('g, 'v, unit) step" where
  "account_usage cfg u =
     (if dc_token_budget cfg \<noteq> None \<and> us_total_tokens u = None then stop D_USAGE_UNKNOWN
      else if dc_cost_budget cfg \<noteq> None \<and> us_cost u = None then stop D_USAGE_UNKNOWN
      else thenS (modifyS (\<lambda>w. w\<lparr>
             lp_tokens := lp_tokens w + (case us_total_tokens u of None \<Rightarrow> 0 | Some n \<Rightarrow> n),
             lp_cost := lp_cost w + (case us_cost u of None \<Rightarrow> 0 | Some x \<Rightarrow> x)\<rparr>))
        (bindS (getS lp_tokens) (\<lambda>n. if over_tokens cfg n then stop D_TOKEN_BUDGET_EXHAUSTED
         else bindS (getS lp_cost) (\<lambda>x. if over_cost cfg x then stop D_COST_BUDGET_EXHAUSTED else retS ()))))"

text \<open>\<open>_CALL_ID_PATTERN\<close>.\<close>

definition id_alnum :: "char \<Rightarrow> bool" where
  "id_alnum c \<longleftrightarrow> (let n = of_char c :: nat in (48 \<le> n \<and> n \<le> 57) \<or> (65 \<le> n \<and> n \<le> 90) \<or> (97 \<le> n \<and> n \<le> 122))"

definition call_id_ok :: "string \<Rightarrow> bool" where
  "call_id_ok s = (case s of [] \<Rightarrow> False
     | c # cs \<Rightarrow> id_alnum c \<and> length cs \<le> 127
         \<and> list_all (\<lambda>x. id_alnum x \<or> x \<in> {CHR ''_'', CHR ''.'', CHR '':'', CHR ''-''}) cs)"

definition finish_terminal :: "('g, 'v) delegation_env \<Rightarrow> delegation_config \<Rightarrow> pyval \<Rightarrow> ('g, 'v, 'a) step" where
  "finish_terminal env cfg response = bindS (getS lp_tool_calls) (\<lambda>n.
     if dc_requirement cfg = DELEGATION_REQUIRED \<and> n = 0 then stop D_REQUIRED_DELEGATION_NOT_PERFORMED
     else (case en_validate env response of None \<Rightarrow> stop D_FINAL_OUTPUT_VALIDATION_FAILURE
       | Some v \<Rightarrow> bindS (getS lp_fallback) (\<lambda>f.
           raiseS (Stop (if f then D_FALLBACK_SUCCESS else D_SUCCESS) (Some v) None None))))"

definition find_tool :: "toolbox_snapshot \<Rightarrow> string \<Rightarrow> tool_descriptor option" where
  "find_tool s i = List.find (\<lambda>t. td_tool_id t = i) (ts_tools s)"

text \<open>The checks before a tool call is executed; the binding is that of the snapshot.\<close>

definition admit_call ::
  "('g, 'v) delegation_env \<Rightarrow> delegation_context \<Rightarrow> delegation_config \<Rightarrow> toolbox_snapshot \<Rightarrow> tool_call
   \<Rightarrow> ('g, 'v, capability_binding) step" where
  "admit_call env dx cfg s c = bindS (getS id) (\<lambda>w.
     if \<not> call_id_ok (tc_call_id c) then stop D_MALFORMED_DECISION
     else (case dget (lp_seen w) (tc_call_id c) of
       Some e \<Rightarrow> stop_with D_REPLAYED_TOOL_CALL (status_value (ev_status e))
     | None \<Rightarrow>
       if lp_fallback w then stop_with D_CHILD_FAILURE ''fallback_must_be_terminal''
       else if dc_max_tool_calls cfg \<le> lp_tool_calls w then stop D_TOOL_CALL_LIMIT_EXHAUSTED
       else if dc_max_depth cfg \<le> dx_depth dx then stop D_DEPTH_LIMIT_EXHAUSTED
       else if over_tokens cfg (lp_tokens w + dc_tool_token_cost cfg) then stop D_TOKEN_BUDGET_EXHAUSTED
       else if over_cost cfg (lp_cost w + tool_cost cfg) then stop D_COST_BUDGET_EXHAUSTED
       else (case (find_tool s (tc_tool_id c), snapshot_resolve s (tc_tool_id c)) of
         (Some d, Some b) \<Rightarrow>
           (case arguments_match_schema (en_search env) (en_recursion_limit env) (tc_arguments c) (td_input_schema d) of
              Inl e \<Rightarrow> escape e
            | Inr ok \<Rightarrow> if \<not> ok then stop D_INVALID_ARGUMENTS else retS b)
       | _ \<Rightarrow> stop D_UNKNOWN_TOOL_CALL)))"

text \<open>The child's result as a bounded envelope.\<close>

definition bounded_envelope ::
  "(pyfloat \<Rightarrow> string) \<Rightarrow> delegation_config \<Rightarrow> string \<Rightarrow> invocation_result \<Rightarrow> py_error + envelope" where
  "bounded_envelope fr cfg call_id result =
     (case to_tool_result call_id result of Inl e \<Rightarrow> Inl e
      | Inr ev \<Rightarrow> (case canonical_json fr (envelope_dict ev) of None \<Rightarrow> Inl TypeError
         | Some enc \<Rightarrow> if int (length enc) > dc_max_result_bytes cfg
                       then mk_envelope call_id TR_RESULT_TOO_LARGE VNone (Some ''serialized_result_limit'')
                       else Inr ev))"

definition child_calls :: "nat \<Rightarrow> invocation_result \<Rightarrow> model_call list" where
  "child_calls prior result = (case result_metadata result of None \<Rightarrow> [] | Some m \<Rightarrow> drop prior (im_model_calls m))"

definition child_retrievals :: "invocation_result \<Rightarrow> retrieval list" where
  "child_retrievals result = (case result_metadata result of None \<Rightarrow> [] | Some m \<Rightarrow> im_retrievals m)"

definition record_child ::
  "('g, 'v) delegation_env \<Rightarrow> delegation_context \<Rightarrow> delegation_config \<Rightarrow> toolbox_snapshot \<Rightarrow> tool_call
   \<Rightarrow> invocation_result \<Rightarrow> envelope \<Rightarrow> 'g loop \<Rightarrow> 'g loop" where
  "record_child env dx cfg s c result ev w =
     (let calls = child_calls (en_prior_calls env (lp_env w)) result in
      w\<lparr>lp_seen := dset (tc_call_id c) ev (lp_seen w),
        lp_results := lp_results w @ [ev],
        lp_calls := lp_calls w @ calls,
        lp_env := fold (en_record_retrieval env) (child_retrievals result) (lp_env w),
        lp_records := lp_records w @ [\<lparr>tk_turn = lp_turns w, tk_call_id = tc_call_id c, tk_tool_id = tc_tool_id c,
          tk_revision = ts_revision s, tk_parent = dx_run_id dx, tk_child = map_option im_run_id (result_metadata result),
          tk_status = ev_status ev, tk_fallback_allowed = permits_fallback (dc_fallback cfg) (ev_status ev),
          tk_usage = aggregate_usage calls, tk_model_calls = calls\<rparr>]\<rparr>)"

definition settle_status :: "delegation_config \<Rightarrow> envelope \<Rightarrow> ('g, 'v, unit) step" where
  "settle_status cfg ev =
     (if ev_status ev = TR_RESULT_TOO_LARGE then stop D_RESULT_SIZE_EXHAUSTED
      else if ev_status ev = TR_CANCELLATION then stop D_CANCELLATION
      else if ev_status ev = TR_BUDGET_REJECTED then raiseS (Stop D_SHARED_BUDGET_EXHAUSTED None (ev_reason ev) None)
      else if ev_status ev \<noteq> TR_SUCCESS \<and> \<not> permits_fallback (dc_fallback cfg) (ev_status ev)
      then stop_with D_CHILD_FAILURE (status_value (ev_status ev))
      else modifyS (\<lambda>w. w\<lparr>lp_fallback := lp_fallback w \<or> ev_status ev \<noteq> TR_SUCCESS,
             lp_tokens := lp_tokens w + dc_tool_token_cost cfg, lp_cost := lp_cost w + tool_cost cfg\<rparr>))"

definition execute_call ::
  "('g, 'v) delegation_env \<Rightarrow> delegation_context \<Rightarrow> delegation_config \<Rightarrow> time option \<Rightarrow> toolbox_snapshot \<Rightarrow> tool_call
   \<Rightarrow> capability_binding \<Rightarrow> ('g, 'v, unit) step" where
  "execute_call env dx cfg deadline s c b =
     thenS (modifyS (\<lambda>w. w\<lparr>lp_tool_calls := lp_tool_calls w + 1\<rparr>))
     (bindS (remaining env deadline) (\<lambda>left.
      if (case left of None \<Rightarrow> False | Some t \<Rightarrow> t \<le> 0) then stop D_DEADLINE_EXHAUSTED
      else bindS (on_env (en_invoke env b (tc_arguments c) left (dc_tool_token_cost cfg) (dc_tool_cost cfg))) (\<lambda>r.
        case r of
          Inl InvokeCancelled \<Rightarrow> bindS (is_cancelled env) (\<lambda>x. if x then stop D_CANCELLATION else raiseS (Escape EscapeCancelled))
        | Inl (InvokeRaised e) \<Rightarrow> escape e
        | Inr result \<Rightarrow> bindS (is_cancelled env) (\<lambda>x. if x then stop D_CANCELLATION
            else (case bounded_envelope (en_float env) cfg (tc_call_id c) result of
                Inl e \<Rightarrow> escape e
              | Inr ev \<Rightarrow> thenS (modifyS (record_child env dx cfg s c result ev)) (settle_status cfg ev))))))"

definition delegation_turn ::
  "('g, 'v) delegation_env \<Rightarrow> delegation_context \<Rightarrow> delegation_config \<Rightarrow> chat_message list \<Rightarrow> time option
   \<Rightarrow> ('g, 'v, unit) step" where
  "delegation_turn env dx cfg history deadline =
     thenS (preflight env deadline)
     (bindS (open_turn env cfg) (\<lambda>s.
      bindS (ask_model env cfg history deadline s) (\<lambda>result.
      thenS (account_usage cfg (rr_usage result))
     (bindS (provider_tools s) (\<lambda>tools.
      (case parse_model_decision (en_uuid env) (en_float env) result tools of
         Inl MalformedStructuredOutput \<Rightarrow> stop D_MALFORMED_DECISION
       | Inl (Raised e) \<Rightarrow> escape e
       | Inr (TerminalDecision v) \<Rightarrow> finish_terminal env cfg v
       | Inr (ToolCallDecision c) \<Rightarrow> bindS (admit_call env dx cfg s c) (execute_call env dx cfg deadline s c)))))))"

section \<open>Reasoning about the steps\<close>

text \<open>
  \<open>calm P E\<close>: the assertion \<open>P\<close> does not depend on the environment, and any halt without success
  from a state in \<open>P\<close> satisfies \<open>E\<close>.  Under it, every step that only reads or calls out keeps \<open>P\<close>.
\<close>

fun unsuccessful :: "'v halt \<Rightarrow> bool" where
  "unsuccessful (Escape e) = True"
| "unsuccessful (Stop code v f u) \<longleftrightarrow> code \<notin> {D_SUCCESS, D_FALLBACK_SUCCESS} \<and> v = None"

definition calm :: "('g loop \<Rightarrow> bool) \<Rightarrow> ('v halt \<Rightarrow> 'g loop \<Rightarrow> bool) \<Rightarrow> bool" where
  "calm P E \<longleftrightarrow> (\<forall>w g. P w \<longrightarrow> P (w\<lparr>lp_env := g\<rparr>)) \<and> (\<forall>h w. P w \<longrightarrow> unsuccessful h \<longrightarrow> E h w)"

named_theorems step_rules \<open>triples of the steps of a turn under a calm assertion\<close>

lemma calm_raise: "calm P E \<Longrightarrow> unsuccessful h \<Longrightarrow> triple P (raiseS h) Q E"
  by (rule triple_raise) (simp add: calm_def)

lemma calm_stop [step_rules]:
  "calm P E \<Longrightarrow> code \<noteq> D_SUCCESS \<Longrightarrow> code \<noteq> D_FALLBACK_SUCCESS \<Longrightarrow> triple P (stop code) Q E"
  unfolding stop_def by (rule calm_raise) simp_all

lemma calm_stop_with [step_rules]:
  "calm P E \<Longrightarrow> code \<noteq> D_SUCCESS \<Longrightarrow> code \<noteq> D_FALLBACK_SUCCESS \<Longrightarrow> triple P (stop_with code r) Q E"
  unfolding stop_with_def by (rule calm_raise) simp_all

lemma calm_escape [step_rules]: "calm P E \<Longrightarrow> triple P (escape e) Q E"
  unfolding escape_def by (rule calm_raise) simp_all

lemma calm_keep [step_rules]: "triple P (retS x) (\<lambda>_. P) E"
  by (rule triple_ret)

lemma calm_when [step_rules]: "triple P m (\<lambda>_. P) E \<Longrightarrow> triple P (whenS b m) (\<lambda>_. P) E"
  unfolding whenS_def by (auto intro: triple_ret)

lemma calm_get: "triple P (getS f) (\<lambda>_. P) E"
  by (rule triple_get)

lemma calm_is_cancelled: "triple P (is_cancelled env) (\<lambda>_. P) E"
  unfolding is_cancelled_def by (rule triple_get)

lemma calm_read_clock: "calm P E \<Longrightarrow> triple P (read_clock env) (\<lambda>_. P) E"
  by (rule tripleI) (auto simp: read_clock_def calm_def split: prod.splits)

lemma calm_on_env: "calm P E \<Longrightarrow> triple P (on_env m) (\<lambda>_. P) E"
  by (rule tripleI) (auto simp: on_env_def calm_def split: prod.splits)

lemma calm_cancelled [step_rules]:
  "(\<And>c. triple P (f c) Q E) \<Longrightarrow> triple P (bindS (is_cancelled env) f) Q E"
  by (rule triple_bind[OF calm_is_cancelled])

lemma calm_clock [step_rules]:
  "calm P E \<Longrightarrow> (\<And>t. triple P (f t) Q E) \<Longrightarrow> triple P (bindS (read_clock env) f) Q E"
  by (rule triple_bind[OF calm_read_clock])

lemma calm_env [step_rules]:
  "calm P E \<Longrightarrow> (\<And>r. triple P (f r) Q E) \<Longrightarrow> triple P (bindS (on_env m) f) Q E"
  by (rule triple_bind[OF calm_on_env])

lemma calm_read [step_rules]: "(\<And>x. triple P (f x) Q E) \<Longrightarrow> triple P (bindS (getS g) f) Q E"
  by (rule triple_bind[OF calm_get])

lemma preflight_triple: "calm P E \<Longrightarrow> triple P (preflight env deadline) (\<lambda>_. P) E"
  unfolding preflight_def
  by (intro step_rules triple_if triple_option) (simp_all)

lemma remaining_triple: "calm P E \<Longrightarrow> triple P (remaining env deadline) (\<lambda>_. P) E"
  unfolding remaining_def by (intro step_rules triple_option) simp_all

lemma provider_tools_triple: "calm P E \<Longrightarrow> triple P (provider_tools s) (\<lambda>_. P) E"
  unfolding provider_tools_def by (intro step_rules triple_sum) simp_all

lemma complete_failed_triple:
  assumes "calm P E"
  shows "triple P (complete_failed env deadline e) Q E"
proof (cases e)
  case (CompleteMalformed u)
  with assms show ?thesis by (simp add: complete_failed_def calm_raise)
next
  case CompleteCancelled
  with assms show ?thesis
    by (auto simp: complete_failed_def intro!: calm_cancelled calm_stop calm_raise triple_if)
next
  case CompleteProviderTimeout
  with assms show ?thesis
    by (auto simp: complete_failed_def intro!: calm_clock calm_stop_with triple_option split: if_splits)
qed (auto simp: complete_failed_def assms intro!: calm_stop calm_stop_with calm_escape)

lemma open_turn_triple:
  assumes "calm P E" and "\<And>w. P w \<Longrightarrow> P' (w\<lparr>lp_turns := lp_turns w + 1\<rparr>)"
  shows "triple P (open_turn env cfg) (\<lambda>_. P') E"
  unfolding open_turn_def
  by (intro calm_env triple_sum triple_option triple_if triple_then calm_stop_with calm_escape triple_modify triple_ret)
    (auto intro: assms)

lemma ask_model_triple:
  assumes "calm P E" and "\<And>w calls. P w \<Longrightarrow> P (w\<lparr>lp_calls := lp_calls w @ calls\<rparr>)"
  shows "triple P (ask_model env cfg history deadline s) (\<lambda>_. P) E"
proof -
  have done': "triple P (case r of Inl e \<Rightarrow> complete_failed env deadline e
      | Inr (result, calls) \<Rightarrow> bindS (is_cancelled env) (\<lambda>c. if c then stop D_CANCELLATION
          else thenS (modifyS (\<lambda>w. w\<lparr>lp_calls := lp_calls w @ calls\<rparr>)) (retS result))) (\<lambda>_. P) E" for r
    using assms
    by (cases r) (auto intro!: complete_failed_triple calm_cancelled triple_if calm_stop triple_then[where R=P]
        triple_modify triple_ret)
  have "triple P (bindS (provider_tools s) (\<lambda>tools. bindS (getS (result_messages (en_float env))) (\<lambda>msgs.
      bindS (on_env (en_complete env history tools msgs deadline)) (\<lambda>r. case r of Inl e \<Rightarrow> complete_failed env deadline e
       | Inr (result, calls) \<Rightarrow> bindS (is_cancelled env) (\<lambda>c. if c then stop D_CANCELLATION
       else thenS (modifyS (\<lambda>w. w\<lparr>lp_calls := lp_calls w @ calls\<rparr>)) (retS result)))))) (\<lambda>_. P) E"
    by (rule triple_bind[OF provider_tools_triple[OF assms(1)]], intro calm_read calm_env assms(1) done')
  with assms(1) show ?thesis unfolding ask_model_def
    by (intro calm_env triple_sum complete_failed_triple)
qed

lemma account_usage_triple:
  assumes "calm P E" and "calm P1 E"
    and "\<And>w n x. P w \<Longrightarrow> P1 (w\<lparr>lp_tokens := lp_tokens w + n, lp_cost := lp_cost w + x\<rparr>)"
    and "\<And>w. P1 w \<Longrightarrow> \<not> over_tokens cfg (lp_tokens w) \<Longrightarrow> \<not> over_cost cfg (lp_cost w) \<Longrightarrow> P2 w"
  shows "triple P (account_usage cfg u) (\<lambda>_. P2) E"
proof -
  have tail: "triple P1 (bindS (getS lp_tokens) (\<lambda>n. if over_tokens cfg n then stop D_TOKEN_BUDGET_EXHAUSTED
         else bindS (getS lp_cost) (\<lambda>x. if over_cost cfg x then stop D_COST_BUDGET_EXHAUSTED else retS ()))) (\<lambda>_. P2) E"
    using assms(2,4) by (intro tripleI) (auto simp: prog_defs stop_def calm_def)
  show ?thesis unfolding account_usage_def
    by (intro triple_if calm_stop assms(1) triple_then[OF _ tail] triple_modify assms(3)) simp_all
qed

lemma finish_terminal_triple:
  assumes "calm P E"
    and "\<And>w v code. P w \<Longrightarrow> \<not> (dc_requirement cfg = DELEGATION_REQUIRED \<and> lp_tool_calls w = 0) \<Longrightarrow>
      en_validate env response = Some v \<Longrightarrow> code = (if lp_fallback w then D_FALLBACK_SUCCESS else D_SUCCESS) \<Longrightarrow>
      E (Stop code (Some v) None None) w"
  shows "triple P (finish_terminal env cfg response) Q E"
  using assms unfolding finish_terminal_def
  by (intro tripleI) (auto simp: prog_defs stop_def calm_def split: option.splits)

text \<open>What is known once a call is admitted.\<close>

definition admitted ::
  "('g, 'v) delegation_env \<Rightarrow> delegation_context \<Rightarrow> delegation_config \<Rightarrow> toolbox_snapshot \<Rightarrow> tool_call
   \<Rightarrow> capability_binding \<Rightarrow> 'g loop \<Rightarrow> bool" where
  "admitted env dx cfg s c b w \<longleftrightarrow> call_id_ok (tc_call_id c) \<and> dget (lp_seen w) (tc_call_id c) = None
     \<and> \<not> lp_fallback w \<and> lp_tool_calls w < dc_max_tool_calls cfg \<and> dx_depth dx < dc_max_depth cfg
     \<and> \<not> over_tokens cfg (lp_tokens w + dc_tool_token_cost cfg) \<and> \<not> over_cost cfg (lp_cost w + tool_cost cfg)
     \<and> snapshot_resolve s (tc_tool_id c) = Some b
     \<and> (\<exists>d. find_tool s (tc_tool_id c) = Some d
          \<and> arguments_match_schema (en_search env) (en_recursion_limit env) (tc_arguments c) (td_input_schema d) = Inr True)"

lemma admit_call_triple:
  assumes "calm P E"
  shows "triple P (admit_call env dx cfg s c) (\<lambda>b w. P w \<and> admitted env dx cfg s c b w) E"
proof (rule tripleI)
  fix w assume P: "P w"
  have E: "E (Stop code None f u) w" if "code \<notin> {D_SUCCESS, D_FALLBACK_SUCCESS}" for code f u
    using assms P that by (simp add: calm_def)
  have X: "E (Escape x) w" for x using assms P by (simp add: calm_def)
  show "case admit_call env dx cfg s c w of (Inr b, w') \<Rightarrow> P w' \<and> admitted env dx cfg s c b w' | (Inl e, w') \<Rightarrow> E e w'"
    using P by (auto simp: admit_call_def prog_defs stop_def stop_with_def escape_def admitted_def E X
        split: option.splits sum.splits if_splits)
qed

lemma settle_status_cases:
  "settle_status cfg ev w =
     (if ev_status ev = TR_SUCCESS \<or> (permits_fallback (dc_fallback cfg) (ev_status ev)
          \<and> ev_status ev \<notin> {TR_RESULT_TOO_LARGE, TR_CANCELLATION, TR_BUDGET_REJECTED})
      then (Inr (), w\<lparr>lp_fallback := lp_fallback w \<or> ev_status ev \<noteq> TR_SUCCESS,
             lp_tokens := lp_tokens w + dc_tool_token_cost cfg, lp_cost := lp_cost w + tool_cost cfg\<rparr>)
      else (Inl (if ev_status ev = TR_RESULT_TOO_LARGE then Stop D_RESULT_SIZE_EXHAUSTED None None None
             else if ev_status ev = TR_CANCELLATION then Stop D_CANCELLATION None None None
             else if ev_status ev = TR_BUDGET_REJECTED then Stop D_SHARED_BUDGET_EXHAUSTED None (ev_reason ev) None
             else Stop D_CHILD_FAILURE None (Some (status_value (ev_status ev))) None), w))"
  by (auto simp: settle_status_def prog_defs stop_def stop_with_def)

lemma execute_call_triple:
  assumes "calm P1 E" and "calm P2 E"
    and "\<And>w. P w \<Longrightarrow> P1 (w\<lparr>lp_tool_calls := lp_tool_calls w + 1\<rparr>)"
    and "\<And>w result ev. P1 w \<Longrightarrow> bounded_envelope (en_float env) cfg (tc_call_id c) result = Inr ev \<Longrightarrow>
      P2 (record_child env dx cfg s c result ev w)
      \<and> (ev_status ev = TR_SUCCESS \<or> permits_fallback (dc_fallback cfg) (ev_status ev) \<longrightarrow>
           Q () ((record_child env dx cfg s c result ev w)\<lparr>lp_fallback := lp_fallback w \<or> ev_status ev \<noteq> TR_SUCCESS,
             lp_tokens := lp_tokens w + dc_tool_token_cost cfg, lp_cost := lp_cost w + tool_cost cfg\<rparr>))"
  shows "triple P (execute_call env dx cfg deadline s c b) Q E"
proof -
  have done': "triple P1 (thenS (modifyS (record_child env dx cfg s c result ev)) (settle_status cfg ev)) Q E"
    if "bounded_envelope (en_float env) cfg (tc_call_id c) result = Inr ev" for result ev
  proof (rule tripleI)
    fix w assume w: "P1 w"
    let ?w = "record_child env dx cfg s c result ev w"
    have same: "lp_fallback ?w = lp_fallback w" "lp_tokens ?w = lp_tokens w" "lp_cost ?w = lp_cost w"
      by (simp_all add: record_child_def Let_def)
    have "E h ?w" if "unsuccessful h" for h
      using assms(4)[OF w \<open>bounded_envelope _ _ _ _ = _\<close>] assms(2) that by (auto simp: calm_def)
    then show "case thenS (modifyS (record_child env dx cfg s c result ev)) (settle_status cfg ev) w of
        (Inr x, s') \<Rightarrow> Q x s' | (Inl e, s') \<Rightarrow> E e s'"
      using assms(4)[OF w \<open>bounded_envelope _ _ _ _ = _\<close>]
      by (auto simp: thenS_def bindS_def modifyS_def settle_status_cases same)
  qed
  show ?thesis unfolding execute_call_def
    by (rule triple_then[OF triple_modify], rule assms(3), assumption,
        rule triple_bind[OF remaining_triple[OF assms(1)]],
        intro triple_if calm_stop calm_env assms(1) triple_sum)
      (auto split: invoke_error.splits intro!: calm_cancelled calm_escape calm_stop calm_raise assms(1) triple_if
        triple_sum done')
qed

section \<open>The loop\<close>

text \<open>Every turn that continues counts one turn: the loop terminates.\<close>

lemma turn_counts: "triple (\<lambda>w. lp_turns w = n) (delegation_turn env dx cfg history deadline) (\<lambda>_ w. lp_turns w = n + 1) (\<lambda>_ _. True)"
proof -
  have c: "calm (\<lambda>w. lp_turns w = k) (\<lambda>_ _. True)" for k by (simp add: calm_def)
  have exec: "triple (\<lambda>w. lp_turns w = n + 1 \<and> admitted env dx cfg s cl b w) (execute_call env dx cfg deadline s cl b)
      (\<lambda>_ w. lp_turns w = n + 1) (\<lambda>_ _. True)" for s cl b
    by (rule execute_call_triple[where ?P1.0="\<lambda>w. lp_turns w = n + 1" and ?P2.0="\<lambda>w. lp_turns w = n + 1"])
      (simp_all add: c record_child_def Let_def)
  show ?thesis unfolding delegation_turn_def
    by (rule triple_then[OF preflight_triple[OF c]],
        rule triple_bind[OF open_turn_triple[OF c, where P'="\<lambda>w. lp_turns w = n + 1"]], simp,
        rule triple_bind[OF ask_model_triple[OF c]], simp,
        rule triple_then[OF account_usage_triple[OF c c, where ?P2.0="\<lambda>w. lp_turns w = n + 1"]], simp, simp,
        rule triple_bind[OF provider_tools_triple[OF c]])
      (auto split: decision_error.splits model_decision.splits
        intro!: triple_sum calm_stop calm_escape c finish_terminal_triple triple_bind[OF admit_call_triple[OF c]] exec)
qed

lemma turn_continues: "delegation_turn env dx cfg history deadline w = (Inr u, w') \<Longrightarrow> lp_turns w' = lp_turns w + 1"
  using tripleD[OF turn_counts refl] by fast

function delegation_loop ::
  "('g, 'v) delegation_env \<Rightarrow> delegation_context \<Rightarrow> delegation_config \<Rightarrow> chat_message list \<Rightarrow> time option \<Rightarrow> 'g loop
   \<Rightarrow> 'v halt \<times> 'g loop" where
  "delegation_loop env dx cfg history deadline w =
     (if lp_turns w < dc_max_turns cfg then
        (case delegation_turn env dx cfg history deadline w of
           (Inl h, w') \<Rightarrow> (h, w')
         | (Inr _, w') \<Rightarrow> delegation_loop env dx cfg history deadline w')
      else (Stop D_TURN_LIMIT_EXHAUSTED None None None, w))"
  by pat_completeness auto
termination
  by (relation "measure (\<lambda>(env, dx, cfg, history, deadline, w). nat (dc_max_turns cfg - lp_turns w))")
    (auto dest: turn_continues[OF sym])

declare delegation_loop.simps [simp del]

text \<open>The outcome that \<open>finish\<close> builds, and \<open>run_delegation\<close>; the loop identifier is a parameter.\<close>

definition finish ::
  "('g, 'v) delegation_env \<Rightarrow> delegation_context \<Rightarrow> string \<Rightarrow> 'g loop \<Rightarrow> outcome_code \<Rightarrow> 'v option \<Rightarrow> string option
   \<Rightarrow> usage option \<Rightarrow> 'v delegation_outcome" where
  "finish env dx loop_id w code v reason u =
     (let base = en_metadata env (lp_env w) in
      \<lparr>oc_code = code, oc_value = v,
       oc_provenance = \<lparr>dp_loop_id = loop_id, dp_correlation_id = dx_correlation_id dx, dp_parent = dx_run_id dx,
         dp_turns = lp_turns w, dp_calls = lp_records w, dp_results = lp_results w\<rparr>,
       oc_metadata = base\<lparr>im_usage := (case u of Some x \<Rightarrow> x | None \<Rightarrow> aggregate_usage (lp_calls w)),
         im_model_calls := lp_calls w, im_failure_classification := None\<rparr>,
       oc_failure_code = reason\<rparr>)"

definition run_delegation ::
  "('g, 'v) delegation_env \<Rightarrow> delegation_context \<Rightarrow> string \<Rightarrow> delegation_config \<Rightarrow> chat_message list
   \<Rightarrow> ('g, loop_exn, 'v delegation_outcome) prog" where
  "run_delegation env dx loop_id cfg messages g =
     (case effective_deadline dx cfg env g of (deadline, g1) \<Rightarrow>
      (case delegation_loop env dx cfg messages deadline (init_loop g1) of
         (Escape e, w) \<Rightarrow> (Inl e, lp_env w)
       | (Stop code v reason u, w) \<Rightarrow> (Inr (finish env dx loop_id w code v reason u), lp_env w)))"

section \<open>The invariant of the loop\<close>

definition recorded :: "delegation_config \<Rightarrow> 'g loop \<Rightarrow> bool" where
  "recorded cfg w \<longleftrightarrow> 0 \<le> lp_turns w \<and> lp_turns w \<le> dc_max_turns cfg
     \<and> int (length (lp_records w)) \<le> lp_tool_calls w \<and> lp_tool_calls w \<le> dc_max_tool_calls cfg
     \<and> map fst (lp_seen w) = map tk_call_id (lp_records w)
     \<and> map ev_call_id (lp_results w) = map tk_call_id (lp_records w)
     \<and> map ev_status (lp_results w) = map tk_status (lp_records w)
     \<and> distinct (map tk_call_id (lp_records w)) \<and> list_all call_id_ok (map tk_call_id (lp_records w))
     \<and> sorted_wrt (<) (map tk_turn (lp_records w)) \<and> list_all (\<lambda>r. 1 \<le> tk_turn r \<and> tk_turn r \<le> lp_turns w) (lp_records w)"

definition settled :: "delegation_config \<Rightarrow> 'g loop \<Rightarrow> bool" where
  "settled cfg w \<longleftrightarrow> recorded cfg w \<and> int (length (lp_records w)) = lp_tool_calls w
     \<and> (if lp_fallback w
        then lp_records w \<noteq> [] \<and> list_all (\<lambda>r. tk_status r = TR_SUCCESS) (butlast (lp_records w))
          \<and> tk_status (last (lp_records w)) \<noteq> TR_SUCCESS
          \<and> permits_fallback (dc_fallback cfg) (tk_status (last (lp_records w)))
        else list_all (\<lambda>r. tk_status r = TR_SUCCESS) (lp_records w))"

definition budgets_kept :: "delegation_config \<Rightarrow> 'g loop \<Rightarrow> bool" where
  "budgets_kept cfg w \<longleftrightarrow> \<not> over_tokens cfg (lp_tokens w) \<and> \<not> over_cost cfg (lp_cost w)"

definition halted :: "delegation_config \<Rightarrow> 'v halt \<Rightarrow> 'g loop \<Rightarrow> bool" where
  "halted cfg h w \<longleftrightarrow> recorded cfg w
     \<and> (\<not> unsuccessful h \<longrightarrow> settled cfg w \<and> budgets_kept cfg w
          \<and> (\<exists>v. h = Stop (if lp_fallback w then D_FALLBACK_SUCCESS else D_SUCCESS) (Some v) None None)
          \<and> (dc_requirement cfg = DELEGATION_REQUIRED \<longrightarrow> lp_records w \<noteq> []))"

text \<open>Between the turns, and inside a turn.\<close>

definition between :: "delegation_config \<Rightarrow> 'g loop \<Rightarrow> bool" where
  "between cfg w \<longleftrightarrow> settled cfg w \<and> budgets_kept cfg w"

definition in_turn :: "delegation_config \<Rightarrow> 'g loop \<Rightarrow> bool" where
  "in_turn cfg w \<longleftrightarrow> settled cfg w \<and> list_all (\<lambda>r. tk_turn r < lp_turns w) (lp_records w) \<and> 1 \<le> lp_turns w"

definition invoking :: "delegation_config \<Rightarrow> tool_call \<Rightarrow> 'g loop \<Rightarrow> bool" where
  "invoking cfg c w \<longleftrightarrow> recorded cfg w \<and> int (length (lp_records w)) < lp_tool_calls w
     \<and> int (length (lp_records w)) + 1 = lp_tool_calls w
     \<and> list_all (\<lambda>r. tk_turn r < lp_turns w) (lp_records w) \<and> 1 \<le> lp_turns w
     \<and> \<not> lp_fallback w \<and> list_all (\<lambda>r. tk_status r = TR_SUCCESS) (lp_records w)
     \<and> call_id_ok (tc_call_id c) \<and> dget (lp_seen w) (tc_call_id c) = None
     \<and> \<not> over_tokens cfg (lp_tokens w + dc_tool_token_cost cfg) \<and> \<not> over_cost cfg (lp_cost w + tool_cost cfg)"

lemmas loop_defs = recorded_def settled_def between_def in_turn_def invoking_def budgets_kept_def

lemma calm_recorded: "(\<And>w. P w \<Longrightarrow> recorded cfg w) \<Longrightarrow> (\<And>w g. P w \<Longrightarrow> P (w\<lparr>lp_env := g\<rparr>)) \<Longrightarrow> calm P (halted cfg)"
  by (simp add: calm_def halted_def)

lemma calm_loop:
  "calm (\<lambda>w. between cfg w \<and> lp_turns w < dc_max_turns cfg) (halted cfg)"
  "calm (in_turn cfg) (halted cfg)" "calm (\<lambda>w. in_turn cfg w \<and> budgets_kept cfg w) (halted cfg)"
  "calm (invoking cfg c) (halted cfg)" "calm (recorded cfg) (halted cfg)"
  by (rule calm_recorded; simp add: loop_defs)+

lemma dset_fresh: "dget d k = None \<Longrightarrow> dset k v d = d @ [(k, v)]"
  unfolding dset_def by (induction d) (auto split: if_splits)

lemma bounded_envelope_id: "bounded_envelope fr cfg i result = Inr ev \<Longrightarrow> ev_call_id ev = i"
proof -
  have m: "mk_envelope i st d r = Inr e \<Longrightarrow> ev_call_id e = i" for st d r e
    by (cases "freeze_json d") (auto simp: mk_envelope_def)
  have t: "to_tool_result i result = Inr e \<Longrightarrow> ev_call_id e = i" for e
    by (cases result) (auto dest: m)
  show "bounded_envelope fr cfg i result = Inr ev \<Longrightarrow> ev_call_id ev = i"
    by (auto simp: bounded_envelope_def split: sum.splits option.splits if_splits dest: m t)
qed

lemma record_child_recorded:
  assumes "invoking cfg c w" and "ev_call_id ev = tc_call_id c"
  shows "recorded cfg (record_child env dx cfg s c result ev w)"
proof -
  have same: "map fst (lp_seen w) = map tk_call_id (lp_records w)"
    using assms(1) by (simp add: invoking_def recorded_def)
  have "tc_call_id c \<notin> set (map fst (lp_seen w))"
    using assms(1) by (simp add: invoking_def dget_None_keys)
  then have "tc_call_id c \<notin> set (map tk_call_id (lp_records w))" unfolding same .
  then show ?thesis using assms
    by (auto simp: record_child_def Let_def invoking_def recorded_def dset_fresh sorted_wrt_append list_all_iff)
qed

lemma recorded_frame [simp]:
  "recorded cfg (w\<lparr>lp_fallback := f, lp_tokens := t, lp_cost := x\<rparr>) = recorded cfg w"
  by (simp add: recorded_def)

lemma record_child_fields [simp]:
  "map tk_status (lp_records (record_child env dx cfg s c result ev w)) = map tk_status (lp_records w) @ [ev_status ev]"
  "lp_tool_calls (record_child env dx cfg s c result ev w) = lp_tool_calls w"
  "length (lp_records (record_child env dx cfg s c result ev w)) = Suc (length (lp_records w))"
  by (simp_all add: record_child_def Let_def)

text \<open>The condition on the statuses, as a condition on their list.\<close>

definition statuses_ok :: "delegation_config \<Rightarrow> bool \<Rightarrow> tool_result_status list \<Rightarrow> bool" where
  "statuses_ok cfg fallback sts \<longleftrightarrow>
     (if fallback then sts \<noteq> [] \<and> list_all ((=) TR_SUCCESS) (butlast sts) \<and> last sts \<noteq> TR_SUCCESS
          \<and> permits_fallback (dc_fallback cfg) (last sts)
      else list_all ((=) TR_SUCCESS) sts)"

lemma settled_statuses:
  "settled cfg w \<longleftrightarrow> recorded cfg w \<and> int (length (lp_records w)) = lp_tool_calls w
     \<and> statuses_ok cfg (lp_fallback w) (map tk_status (lp_records w))"
  by (auto simp: settled_def statuses_ok_def list_all_iff last_map map_butlast[symmetric])

lemma record_child_settled:
  assumes "invoking cfg c w" and "ev_call_id ev = tc_call_id c"
    and "ev_status ev = TR_SUCCESS \<or> permits_fallback (dc_fallback cfg) (ev_status ev)"
  shows "between cfg ((record_child env dx cfg s c result ev w)\<lparr>lp_fallback := lp_fallback w \<or> ev_status ev \<noteq> TR_SUCCESS,
             lp_tokens := lp_tokens w + dc_tool_token_cost cfg, lp_cost := lp_cost w + tool_cost cfg\<rparr>)"
proof -
  have "statuses_ok cfg (ev_status ev \<noteq> TR_SUCCESS) (map tk_status (lp_records w) @ [ev_status ev])"
    using assms by (auto simp: statuses_ok_def invoking_def list_all_iff)
  with record_child_recorded[OF assms(1,2), of env dx s result] assms(1) show ?thesis
    by (simp add: between_def settled_statuses budgets_kept_def) (simp add: invoking_def)
qed

section \<open>What a run guarantees\<close>

lemma between_opens:
  "between cfg w \<and> lp_turns w < dc_max_turns cfg \<Longrightarrow> in_turn cfg (w\<lparr>lp_turns := lp_turns w + 1\<rparr>)"
  by (auto simp: loop_defs list_all_iff)

lemma admitted_invokes:
  assumes "in_turn cfg w \<and> budgets_kept cfg w \<and> admitted env dx cfg s c b w"
  shows "invoking cfg c (w\<lparr>lp_tool_calls := lp_tool_calls w + 1\<rparr>)"
  using assms by (auto simp: loop_defs admitted_def)

lemma execute_triple:
  fixes env :: "('a, 'v) delegation_env"
  shows "triple (\<lambda>w. (in_turn cfg w \<and> budgets_kept cfg w) \<and> admitted env dx cfg s c b w)
     (execute_call env dx cfg deadline s c b) (\<lambda>_. between cfg) (halted cfg)"
proof (rule execute_call_triple[OF calm_loop(4,5)])
  fix w assume "(in_turn cfg w \<and> budgets_kept cfg w) \<and> admitted env dx cfg s c b w"
  then show "invoking cfg c (w\<lparr>lp_tool_calls := lp_tool_calls w + 1\<rparr>)" using admitted_invokes by blast
next
  fix w :: "'a loop" and result ev assume w: "invoking cfg c w" and "bounded_envelope (en_float env) cfg (tc_call_id c) result = Inr ev"
  then have "ev_call_id ev = tc_call_id c" by (simp add: bounded_envelope_id)
  with record_child_recorded[OF w] record_child_settled[OF w]
  show "recorded cfg (record_child env dx cfg s c result ev w)
    \<and> (ev_status ev = TR_SUCCESS \<or> permits_fallback (dc_fallback cfg) (ev_status ev) \<longrightarrow>
        between cfg ((record_child env dx cfg s c result ev w)\<lparr>lp_fallback := lp_fallback w \<or> ev_status ev \<noteq> TR_SUCCESS,
          lp_tokens := lp_tokens w + dc_tool_token_cost cfg, lp_cost := lp_cost w + tool_cost cfg\<rparr>))"
    by blast
qed

lemma finish_terminal_halted:
  "triple (\<lambda>w. in_turn cfg w \<and> budgets_kept cfg w) (finish_terminal env cfg v) Q (halted cfg)"
  by (rule finish_terminal_triple[OF calm_loop(3)]) (auto simp: halted_def in_turn_def settled_def)

lemma turn_triple:
  "triple (\<lambda>w. between cfg w \<and> lp_turns w < dc_max_turns cfg) (delegation_turn env dx cfg history deadline)
     (\<lambda>_. between cfg) (halted cfg)"
proof -
  let ?B = "\<lambda>w. in_turn cfg w \<and> budgets_kept cfg w"
  have decide: "triple ?B
     (case parse_model_decision (en_uuid env) (en_float env) result tools of
         Inl MalformedStructuredOutput \<Rightarrow> stop D_MALFORMED_DECISION
       | Inl (Raised e) \<Rightarrow> escape e
       | Inr (TerminalDecision v) \<Rightarrow> finish_terminal env cfg v
       | Inr (ToolCallDecision c) \<Rightarrow> bindS (admit_call env dx cfg s c) (execute_call env dx cfg deadline s c))
     (\<lambda>_. between cfg) (halted cfg)" for result tools s
    by (auto split: decision_error.splits model_decision.splits
        intro!: triple_sum calm_stop calm_escape calm_loop(3) finish_terminal_halted
          triple_bind[OF admit_call_triple[OF calm_loop(3)] execute_triple])
  have usage: "triple (in_turn cfg) (account_usage cfg u) (\<lambda>_. ?B) (halted cfg)" for u
    by (rule account_usage_triple[OF calm_loop(2) calm_loop(2)]) (simp_all add: loop_defs)
  have open_it: "triple (\<lambda>w. between cfg w \<and> lp_turns w < dc_max_turns cfg) (open_turn env cfg) (\<lambda>_. in_turn cfg) (halted cfg)"
    by (rule open_turn_triple[OF calm_loop(1)]) (rule between_opens)
  have ask: "triple (in_turn cfg) (ask_model env cfg history deadline s) (\<lambda>_. in_turn cfg) (halted cfg)" for s
    by (rule ask_model_triple[OF calm_loop(2)]) (simp add: loop_defs)
  show ?thesis unfolding delegation_turn_def
    by (rule triple_then[OF preflight_triple[OF calm_loop(1)]], rule triple_bind[OF open_it],
        rule triple_bind[OF ask], rule triple_then[OF usage],
        rule triple_bind[OF provider_tools_triple[OF calm_loop(3)]], rule decide)
qed

lemma loop_halted:
  "between cfg w \<Longrightarrow> delegation_loop env dx cfg history deadline w = (h, w') \<Longrightarrow> halted cfg h w'"
proof (induction env dx cfg history deadline w rule: delegation_loop.induct)
  case (1 env dx cfg history deadline w)
  show ?case
  proof (cases "lp_turns w < dc_max_turns cfg")
    case False
    with "1.prems" show ?thesis
      by (auto simp: delegation_loop.simps[of env dx cfg history deadline w] halted_def between_def settled_def)
  next
    case True
    obtain r w1 where turn: "delegation_turn env dx cfg history deadline w = (r, w1)" by fastforce
    show ?thesis
    proof (cases r)
      case (Inl h1)
      with "1.prems" True turn have "h = h1 \<and> w' = w1" by (simp add: delegation_loop.simps[of env dx cfg history deadline w])
      with tripleD_raise[OF turn_triple _ turn[unfolded Inl]] "1.prems"(1) True show ?thesis by blast
    next
      case (Inr u)
      have "between cfg w1" using tripleD[OF turn_triple _ turn[unfolded Inr]] "1.prems"(1) True by blast
      moreover have "delegation_loop env dx cfg history deadline w1 = (h, w')"
        using "1.prems"(2) True turn Inr by (simp add: delegation_loop.simps[of env dx cfg history deadline w])
      ultimately show ?thesis using "1.IH"[OF True turn[symmetric] Inr] by blast
    qed
  qed
qed

lemma start_between: "mk_delegation_config cfg = Inr c \<Longrightarrow> between cfg (init_loop g)"
  by (auto simp: mk_delegation_config_def loop_defs init_loop_def over_tokens_def over_cost_def cost_budget_def
      split: option.splits if_splits)

lemma run_halted:
  assumes "mk_delegation_config cfg = Inr cfg" and "run_delegation env dx loop_id cfg messages g = (Inr out, g')"
  shows "\<exists>w code v reason u. halted cfg (Stop code v reason u) w
     \<and> out = finish env dx loop_id w code v reason u \<and> g' = lp_env w"
proof -
  obtain deadline g1 where d: "effective_deadline dx cfg env g = (deadline, g1)" by fastforce
  obtain h w where l: "delegation_loop env dx cfg messages deadline (init_loop g1) = (h, w)" by fastforce
  have w: "halted cfg h w" using loop_halted[OF start_between[OF assms(1)] l] .
  show ?thesis
  proof (cases h)
    case (Escape e)
    with assms(2) d l show ?thesis by (simp add: run_delegation_def)
  next
    case (Stop code v reason u)
    with assms(2) d l have "out = finish env dx loop_id w code v reason u \<and> g' = lp_env w"
      by (simp add: run_delegation_def)
    with w Stop show ?thesis by blast
  qed
qed

lemma finish_fields [simp]:
  "oc_code (finish env dx loop_id w code v reason u) = code"
  "oc_value (finish env dx loop_id w code v reason u) = v"
  "dp_turns (oc_provenance (finish env dx loop_id w code v reason u)) = lp_turns w"
  "dp_calls (oc_provenance (finish env dx loop_id w code v reason u)) = lp_records w"
  "dp_results (oc_provenance (finish env dx loop_id w code v reason u)) = lp_results w"
  by (simp_all add: finish_def Let_def)


text \<open>
  C22. Success means that everything succeeded.  A run reports success only with a validated value,
  when every executed call succeeded; it reports fallback success only when all calls but the last
  succeeded and the last failed with a status that the fallback policy names, which is never a
  denial, a cancellation, or a budget, depth or cycle rejection.  When delegation is required, at
  least one call was executed.  Any other outcome carries no value.
\<close>

theorem delegation_success_faithful:
  assumes "mk_delegation_config cfg = Inr cfg" and "mk_fallback_policy (dc_fallback cfg) = Inr (dc_fallback cfg)"
    and "run_delegation env dx loop_id cfg messages g = (Inr out, g')"
  shows "let sts = map tk_status (dp_calls (oc_provenance out)) in
     (outcome_ok out \<longleftrightarrow> oc_value out \<noteq> None)
     \<and> (oc_code out = D_SUCCESS \<longrightarrow> list_all ((=) TR_SUCCESS) sts)
     \<and> (oc_code out = D_FALLBACK_SUCCESS \<longrightarrow> sts \<noteq> [] \<and> list_all ((=) TR_SUCCESS) (butlast sts)
          \<and> last sts \<in> dc_fallback cfg \<and> last sts \<notin> insert TR_SUCCESS never_fallback)
     \<and> (outcome_ok out \<and> dc_requirement cfg = DELEGATION_REQUIRED \<longrightarrow> sts \<noteq> [])"
proof -
  from run_halted[OF assms(1,3)] obtain w code v reason u where
    w: "halted cfg (Stop code v reason u) w" and out: "out = finish env dx loop_id w code v reason u" by blast
  have never: "st \<in> dc_fallback cfg \<Longrightarrow> st \<notin> never_fallback" for st
    using assms(2) by (auto simp: mk_fallback_policy_def split: if_splits)
  show ?thesis
  proof (cases "unsuccessful (Stop code v reason u)")
    case True
    then show ?thesis unfolding out Let_def outcome_ok_def finish_fields by simp
  next
    case False
    then have "settled cfg w" and code: "code = (if lp_fallback w then D_FALLBACK_SUCCESS else D_SUCCESS)" "v \<noteq> None"
      and req: "dc_requirement cfg = DELEGATION_REQUIRED \<longrightarrow> lp_records w \<noteq> []"
      using w unfolding halted_def by blast+
    then have sts: "statuses_ok cfg (lp_fallback w) (map tk_status (lp_records w))" by (simp add: settled_statuses)
    define S where "S = map tk_status (lp_records w)"
    have req': "dc_requirement cfg = DELEGATION_REQUIRED \<longrightarrow> S \<noteq> []" using req by (simp add: S_def)
    show ?thesis unfolding out Let_def outcome_ok_def finish_fields S_def[symmetric]
      using sts[folded S_def] code req' never[of "last S"]
      by (cases "lp_fallback w") (auto simp: statuses_ok_def permits_fallback_def)
  qed
qed

section \<open>A run\<close>

text \<open>
  An environment for the witnesses: one tool; the model first calls it, then answers.  The state
  counts the model calls.
\<close>

definition sample_reply :: "pyval option \<Rightarrow> call_request list \<Rightarrow> provider_result" where
  "sample_reply v calls = \<lparr>rr_content = None, rr_structured = v, rr_tool_calls = calls,
     rr_usage = \<lparr>us_input_tokens = None, us_output_tokens = None, us_total_tokens = Some 10, us_cost = Some 1\<rparr>,
     rr_accepted = True, rr_request_id = None, rr_finish_reason = None, rr_content_filtered = False\<rparr>"

definition sample_env :: "invocation_result \<Rightarrow> (nat, pyval) delegation_env" where
  "sample_env child = \<lparr>en_cancelled = (\<lambda>_. False), en_clock = (\<lambda>g. (0, g)),
     en_discover = (\<lambda>q g. (Inr \<lparr>tr_revision = 3, tr_tools = [sample_tool ''t1'' ''find''], tr_failure = None, tr_truncated = False\<rparr>, g)),
     en_require = (\<lambda>m g. (Inr (), g)),
     en_complete = (\<lambda>msgs tools results deadline g. (Inr (if g = 0
         then sample_reply None [\<lparr>rq_call_id = Some ''c1'', rq_tool_id = Some ''t1'', rq_tool_name = None, rq_arguments = VDict []\<rparr>]
         else sample_reply (Some (VDict [(''answer'', VInt 42)])) [], []), Suc g)),
     en_invoke = (\<lambda>b args t n x g. (Inr child, g)),
     en_prior_calls = (\<lambda>_. 0), en_metadata = (\<lambda>_. sample_metadata []), en_record_retrieval = (\<lambda>_ g. g),
     en_validate = Some, en_search = (\<lambda>_ _. True), en_float = (\<lambda>_. []), en_uuid = (\<lambda>s. s), en_recursion_limit = 9\<rparr>"

definition sample_config :: "tool_result_status set \<Rightarrow> delegation_config" where
  "sample_config fallback = \<lparr>dc_toolbox = sample_toolbox\<lparr>tp_uses := [sample_use ''find'' USE_REQUIRED]\<rparr>, dc_requirement = DELEGATION_REQUIRED,
     dc_model = None, dc_max_turns = 2, dc_max_tool_calls = 1, dc_max_depth = 3, dc_timeout = None, dc_deadline = None,
     dc_token_budget = Some 25, dc_cost_budget = None, dc_max_result_bytes = 512, dc_tool_token_cost = 5,
     dc_tool_cost = Finite 0, dc_fallback = fallback\<rparr>"

definition sample_context :: delegation_context where
  "sample_context = \<lparr>dx_run_id = ''r'', dx_correlation_id = ''c'', dx_depth = 0, dx_deadline = None\<rparr>"

definition sample_run :: "invocation_result \<Rightarrow> tool_result_status set \<Rightarrow> (loop_exn + pyval delegation_outcome) \<times> nat" where
  "sample_run child fallback = run_delegation (sample_env child) sample_context ''l'' (sample_config fallback) [] 0"

lemma sample_run_success:
  "case fst (sample_run (InvocationSuccess ''c'' (VInt 7) unknown_usage None) {}) of
     Inr out \<Rightarrow> oc_code out = D_SUCCESS \<and> oc_value out = Some (VDict [(''answer'', VInt 42)])
       \<and> map tk_call_id (dp_calls (oc_provenance out)) = [''c1''] \<and> dp_turns (oc_provenance out) = 2
   | Inl _ \<Rightarrow> False"
  by code_simp

lemma sample_run_fallback:
  "case fst (sample_run (InvocationTimeout ''c'' 1 None) {TR_TIMEOUT}) of
     Inr out \<Rightarrow> oc_code out = D_FALLBACK_SUCCESS \<and> map tk_status (dp_calls (oc_provenance out)) = [TR_TIMEOUT]
   | Inl _ \<Rightarrow> False"
  by code_simp

lemma sample_config_valid:
  "mk_delegation_config (sample_config fallback) = Inr (sample_config fallback)"
  by (simp add: mk_delegation_config_def sample_config_def)


theorem delegation_success_faithful_witness:
  "\<exists>out g'. sample_run (InvocationTimeout ''c'' 1 None) {TR_TIMEOUT} = (Inr out, g')
     \<and> oc_code out = D_FALLBACK_SUCCESS \<and> last (map tk_status (dp_calls (oc_provenance out))) \<in> {TR_TIMEOUT}"
proof -
  obtain out g' where r: "sample_run (InvocationTimeout ''c'' 1 None) {TR_TIMEOUT} = (Inr out, g')"
    and code: "oc_code out = D_FALLBACK_SUCCESS"
    using sample_run_fallback by (cases "sample_run (InvocationTimeout ''c'' 1 None) {TR_TIMEOUT}";
      cases "fst (sample_run (InvocationTimeout ''c'' 1 None) {TR_TIMEOUT})") auto
  have "mk_fallback_policy (dc_fallback (sample_config {TR_TIMEOUT})) = Inr (dc_fallback (sample_config {TR_TIMEOUT}))"
    by (simp add: mk_fallback_policy_def sample_config_def never_fallback_def)
  from delegation_success_faithful[OF sample_config_valid this r[unfolded sample_run_def]] r code
  show ?thesis by (simp add: Let_def sample_config_def)
qed

end
