(* ===== verification/RunState.thy ===== *)
theory RunState
  imports InvocationResults
begin

text \<open>
  The run context of one invocation and what it owns, \<open>core/run_context.py\<close>: the shared budget, the
  recorders, the cancellation flag, the activation state and the context variable that names the
  current context of each task.  A context object is named by \<open>rx_id\<close>; a task by a number.
\<close>

record run_context =
  rx_id :: nat
  rx_run_id :: string
  rx_correlation_id :: string
  rx_model :: "(string \<times> string \<times> resolution_source) option"
  rx_timeout :: "time option"
  rx_deadline :: "time option"
  rx_metadata :: pyval
  rx_agent_id :: string
  rx_parent_run_id :: "string option"
  rx_path :: "(string \<times> string) list"
  rx_allowed :: "string set option"
  rx_authorization :: "authorization_context option"
  rx_chain :: "string list"

definition mk_run_context :: "run_context \<Rightarrow> run_context" where
  "mk_run_context x = x\<lparr>rx_metadata := freeze_metadata (rx_metadata x)\<rparr>"

record run_state =
  ru_budget :: delegation_budget
  ru_calls :: "model_call list"
  ru_retrievals :: "retrieval list"
  ru_cancelled :: bool
  ru_invocation :: invocation_state
  ru_current :: "nat \<Rightarrow> nat option"
  ru_clock :: clock

definition record_model_call :: "model_call \<Rightarrow> (run_state, run_error, unit) prog" where
  "record_model_call c u = (Inr (), u\<lparr>ru_calls := ru_calls u @ [c]\<rparr>)"

definition record_retrieval :: "retrieval \<Rightarrow> (run_state, run_error, unit) prog" where
  "record_retrieval r u = (Inr (), u\<lparr>ru_retrievals := ru_retrievals u @ [r]\<rparr>)"

definition cancel_run :: "(run_state, run_error, unit) prog" where
  "cancel_run u = (Inr (), u\<lparr>ru_cancelled := True\<rparr>)"

text \<open>\<open>remaining_timeout\<close>: the clock is read only when there is a deadline.\<close>

definition context_remaining_timeout :: "run_context \<Rightarrow> (run_state, py_error, time option) prog" where
  "context_remaining_timeout x u =
     (case rx_deadline x of None \<Rightarrow> (Inr None, u)
      | Some d \<Rightarrow> (case tick (ru_clock u) of (now, c) \<Rightarrow> (remaining_timeout (Some d) now, u\<lparr>ru_clock := c\<rparr>)))"

definition context_budget :: "run_context \<Rightarrow> run_state \<Rightarrow> remaining_budget \<times> run_state" where
  "context_budget x u =
     (case context_remaining_timeout x u of (r, u') \<Rightarrow>
       (snapshot (ru_budget u') (int (length (rx_path x))) (case r of Inl _ \<Rightarrow> Some 0 | Inr t \<Rightarrow> t), u'))"

text \<open>\<open>RunContext.require_active\<close>, called in task \<open>c\<close>.\<close>

definition context_active :: "nat \<Rightarrow> run_context \<Rightarrow> (run_state, run_error, unit) prog" where
  "context_active c x u =
     (case require_active c (ru_invocation u) of
        (Inl e, _) \<Rightarrow> (Inl e, u)
      | (Inr _, _) \<Rightarrow> if ru_current u c \<noteq> Some (rx_id x) then (Inl NoActiveRunContext, u) else (Inr (), u))"

text \<open>Entering and leaving \<open>use_run_context\<close>: the two tokens are the old values of the variables.\<close>

definition enter_context :: "nat \<Rightarrow> run_context \<Rightarrow> run_state \<Rightarrow> (nat \<times> nat option) \<times> run_state" where
  "enter_context c x u =
     (case activate c (ru_invocation u) of
        (Inr old, v) \<Rightarrow> ((old, ru_current u c), u\<lparr>ru_invocation := v, ru_current := (ru_current u)(c := Some (rx_id x))\<rparr>)
      | (Inl _, v) \<Rightarrow> ((0, ru_current u c), u))"

definition leave_context :: "nat \<Rightarrow> nat \<times> nat option \<Rightarrow> run_state \<Rightarrow> run_state" where
  "leave_context c tokens u =
     (let u1 = u\<lparr>ru_current := (ru_current u)(c := snd tokens)\<rparr> in
      u1\<lparr>ru_invocation := snd (deactivate c (Some (fst tokens)) (ru_invocation u1))\<rparr>)"

definition require_run_context :: "nat \<Rightarrow> run_state \<Rightarrow> run_error + nat" where
  "require_run_context c u = (case ru_current u c of None \<Rightarrow> Inl NoActiveRunContext | Some x \<Rightarrow> Inr x)"

definition build_invocation_metadata :: "usage option \<Rightarrow> string option \<Rightarrow> run_context \<Rightarrow> run_state \<Rightarrow> invocation_metadata" where
  "build_invocation_metadata usage failure x u =
     \<lparr>im_run_id = rx_run_id x, im_correlation_id = rx_correlation_id x, im_parent_run_id = rx_parent_run_id x,
      im_delegation_path = rx_path x, im_model_reference = map_option fst (rx_model x),
      im_provider = map_option (fst \<circ> snd) (rx_model x), im_resolution_source = map_option (snd \<circ> snd) (rx_model x),
      im_usage = (if ru_calls u \<noteq> [] then aggregate_usage (ru_calls u)
                  else (case usage of None \<Rightarrow> unknown_usage | Some x \<Rightarrow> x)),
      im_model_calls = ru_calls u, im_retrievals = ru_retrievals u, im_attributes = freeze_metadata (rx_metadata x),
      im_instruction_chain = rx_chain x, im_failure_classification = failure\<rparr>"

abbreviation plain_metadata :: "run_context \<Rightarrow> run_state \<Rightarrow> invocation_metadata option" where
  "plain_metadata x u \<equiv> Some (build_invocation_metadata None None x u)"

definition remaining_dict :: "remaining_budget \<Rightarrow> pyval" where
  "remaining_dict b = VDict [(''depth'', VInt (rb_depth b)), (''calls'', VInt (rb_calls b)),
     (''tokens'', opt_dict VInt (rb_tokens b)), (''cost'', opt_dict (VFloat \<circ> Finite) (rb_cost b)),
     (''time'', opt_dict (VFloat \<circ> Finite) (rb_time b))]"

definition context_dict :: "run_context \<Rightarrow> run_state \<Rightarrow> pyval \<times> run_state" where
  "context_dict x u =
     (case context_budget x u of (b, u') \<Rightarrow>
       (VDict [(''run_id'', VStr (rx_run_id x)), (''correlation_id'', VStr (rx_correlation_id x)),
         (''model_reference'', opt_dict (VStr \<circ> fst) (rx_model x)), (''provider'', opt_dict (VStr \<circ> fst \<circ> snd) (rx_model x)),
         (''resolution_source'', opt_dict (VStr \<circ> source_value \<circ> snd \<circ> snd) (rx_model x)),
         (''timeout'', opt_dict (VFloat \<circ> Finite) (rx_timeout x)), (''deadline'', opt_dict (VFloat \<circ> Finite) (rx_deadline x)),
         (''cancelled'', VBool (ru_cancelled u)), (''metadata'', thaw_metadata (rx_metadata x)),
         (''agent_id'', VStr (rx_agent_id x)), (''parent_run_id'', opt_dict VStr (rx_parent_run_id x)),
         (''delegation_path'', path_dict (rx_path x)), (''remaining_delegation_budget'', remaining_dict b),
         (''instruction_chain'', VList (map VStr (rx_chain x)))], u'))"

section \<open>Scoping\<close>

lemma context_remaining_fields:
  assumes "context_remaining_timeout x u = (r, u')"
  shows "ru_budget u' = ru_budget u" "ru_calls u' = ru_calls u" "ru_retrievals u' = ru_retrievals u"
    "ru_invocation u' = ru_invocation u" "ru_current u' = ru_current u"
  using assms by (auto simp: context_remaining_timeout_def split: option.splits prod.splits)

lemma context_budget_fields:
  assumes "context_budget x u = (b, u')"
  shows "ru_budget u' = ru_budget u" "ru_calls u' = ru_calls u" "ru_retrievals u' = ru_retrievals u"
    "ru_invocation u' = ru_invocation u" "ru_current u' = ru_current u"
    "rb_calls b = bu_calls (ru_budget u)" "rb_depth b = max 0 (bu_max_depth (ru_budget u) - int (length (rx_path x)))"
  using assms
  by (auto simp: context_budget_def snapshot_def split: prod.splits dest: context_remaining_fields)

text \<open>
  Access is confined to the scope of the invocation.  Entering a context makes it usable in its
  task; after leaving it the variable
  names the context that was current before, and the context is refused in the task.
\<close>

lemma context_confined:
  assumes "enter_context c x u = (tokens, u1)"
  shows "fst (context_active c x u1) = Inr ()
     \<and> (iv_active (ru_invocation u2) \<and> iv_generation (ru_invocation u1) \<le> iv_generation (ru_invocation u2) \<longrightarrow>
          ru_current (leave_context c tokens u2) c = ru_current u c
        \<and> fst (context_active c x (leave_context c tokens u2)) = Inl NoActiveRunContext)"
  using assms
  by (auto simp: enter_context_def activate_def Let_def context_active_def require_active_def leave_context_def
      deactivate_def reset_context_def)

end
