(* ===== verification/JsonText.thy ===== *)
theory JsonText
  imports Json
begin

text \<open>
  The canonical text of \<open>core/gateway_models.py\<close> determines the value it was made of: quoted strings,
  integers, arrays and objects can be told apart and read back, whatever text follows them.  Digests and signatures
  over canonical texts therefore commit to the values.
\<close>

section \<open>Strings and numbers\<close>

definition plain :: "char \<Rightarrow> bool" where
  "plain c \<longleftrightarrow> c \<noteq> CHR 0x22 \<and> c \<noteq> CHR 0x5C"

lemma hex_digit_inj: "i < 16 \<Longrightarrow> j < 16 \<Longrightarrow> hex_digit i = hex_digit j \<Longrightarrow> i = j"
proof -
  have "distinct ''0123456789abcdef''" by simp
  then show "i < 16 \<Longrightarrow> j < 16 \<Longrightarrow> hex_digit i = hex_digit j \<Longrightarrow> i = j"
    unfolding hex_digit_def by (subst (asm) nth_eq_iff_index_eq) simp_all
qed

lemma json_char_cases:
  obtains (escape) x where "json_char c = [CHR 0x5C, x]" "x \<noteq> CHR ''u''"
      "c = (if x = CHR ''n'' then CHR 0x0A else if x = CHR ''r'' then CHR 0x0D else if x = CHR ''t'' then CHR 0x09
        else if x = CHR ''f'' then CHR 0x0C else if x = CHR ''b'' then CHR 0x08 else x)"
  | (unicode) "json_char c = [CHR 0x5C, CHR ''u'', CHR ''0'', CHR ''0'', hex_digit (of_char c div 16), hex_digit (of_char c mod 16)]"
  | (plain) "json_char c = [c]" "plain c"
proof -
  have n: "c = char_of k" if "(of_char c :: nat) = k" for k using that by (metis char_of_char)
  have codes: "char_of (8 :: nat) = CHR 0x08" "char_of (9 :: nat) = CHR 0x09" "char_of (10 :: nat) = CHR 0x0A"
    "char_of (12 :: nat) = CHR 0x0C" "char_of (13 :: nat) = CHR 0x0D" by (simp_all add: char_of_def bit_Suc_0_iff)
  show thesis
  proof (cases "c = CHR 0x22 \<or> c = CHR 0x5C \<or> (of_char c :: nat) \<in> {8, 9, 10, 12, 13}")
    case True
    then consider "c = CHR 0x22" | "c = CHR 0x5C" | "c = CHR 0x08" | "c = CHR 0x09" | "c = CHR 0x0A" | "c = CHR 0x0C" | "c = CHR 0x0D"
      using codes by (auto dest!: n)
    then show thesis
    proof cases
      case 1 then show thesis by (intro escape[of "CHR 0x22"]) (simp_all add: json_char_def)
    next
      case 2 then show thesis by (intro escape[of "CHR 0x5C"]) (simp_all add: json_char_def)
    next
      case 3 then show thesis by (intro escape[of "CHR ''b''"]) (simp_all add: json_char_def)
    next
      case 4 then show thesis by (intro escape[of "CHR ''t''"]) (simp_all add: json_char_def)
    next
      case 5 then show thesis by (intro escape[of "CHR ''n''"]) (simp_all add: json_char_def)
    next
      case 6 then show thesis by (intro escape[of "CHR ''f''"]) (simp_all add: json_char_def)
    next
      case 7 then show thesis by (intro escape[of "CHR ''r''"]) (simp_all add: json_char_def)
    qed
  next
    case False
    then show thesis
      by (cases "(of_char c :: nat) < 32 \<or> 126 < (of_char c :: nat)")
        (auto simp: json_char_def Let_def plain_def intro: unicode plain)
  qed
qed

lemma json_char_nonempty: "\<exists>x xs. json_char c = x # xs \<and> x \<noteq> CHR 0x22"
  by (rule json_char_cases[of c]) (auto simp: plain_def)

lemma json_char_prefix:
  assumes "json_char c @ r = json_char d @ t"
  shows "c = d \<and> r = t"
proof (cases rule: json_char_cases[of c])
  case c: (escape x)
  show ?thesis by (cases rule: json_char_cases[of d]) (use assms c in \<open>auto simp: plain_def\<close>)
next
  case c: unicode
  show ?thesis
  proof (cases rule: json_char_cases[of d])
    case unicode
    have small: "(of_char z :: nat) div 16 < 16" for z :: char using nat_of_char_less_256[of z] by linarith
    have "hex_digit (of_char c div 16) = hex_digit (of_char d div 16)" "hex_digit (of_char c mod 16) = hex_digit (of_char d mod 16)"
      and r: "r = t" using assms c unicode by simp_all
    then have "(of_char c :: nat) div 16 = of_char d div 16" "(of_char c :: nat) mod 16 = of_char d mod 16"
      using hex_digit_inj small by simp_all
    then have "(of_char c :: nat) = of_char d" by (metis div_mult_mod_eq)
    with r show ?thesis by simp
  qed (use assms c in \<open>auto simp: plain_def\<close>)
next
  case c: plain
  show ?thesis by (cases rule: json_char_cases[of d]) (use assms c in \<open>auto simp: plain_def\<close>)
qed

lemma json_chars_prefix:
  "concat (map json_char s) @ CHR 0x22 # r = concat (map json_char s') @ CHR 0x22 # r' \<Longrightarrow> s = s' \<and> r = r'"
proof (induction s arbitrary: s')
  case Nil
  then show ?case using json_char_nonempty by (cases s') (auto, metis append_Cons list.inject)
next
  case (Cons c s)
  show ?case
  proof (cases s')
    case Nil
    with Cons.prems json_char_nonempty[of c] show ?thesis by auto
  next
    case c': (Cons d t)
    from Cons.prems have "json_char c @ (concat (map json_char s) @ CHR 0x22 # r) = json_char d @ (concat (map json_char t) @ CHR 0x22 # r')"
      by (simp add: c')
    from json_char_prefix[OF this] Cons.IH[of t] show ?thesis by (simp add: c')
  qed
qed

lemma json_string_prefix: "json_string s @ r = json_string s' @ r' \<Longrightarrow> s = s' \<and> r = r'"
  using json_chars_prefix[of s r s' r'] by (simp add: json_string_def)

lemma until_delimiter:
  "d \<notin> set xs \<Longrightarrow> d \<notin> set ys \<Longrightarrow> xs @ d # r = ys @ d # r' \<Longrightarrow> xs = ys \<and> r = r'"
proof (induction xs arbitrary: ys)
  case Nil
  then show ?case by (cases ys) auto
next
  case (Cons x xs)
  then show ?case by (cases ys) auto
qed

definition digits_value :: "string \<Rightarrow> nat" where
  "digits_value s = foldl (\<lambda>a c. 10 * a + (of_char c - 48)) 0 s"

lemma digits_value_nat: "digits_value (nat_digits n) = n"
proof (induction n rule: nat_digits.induct)
  case (1 n)
  show ?case
  proof (cases "n < 10")
    case True
    then show ?thesis by (simp add: nat_digits.simps[of n] digits_value_def)
  next
    case False
    with 1 show ?thesis by (simp add: nat_digits.simps[of n] digits_value_def)
  qed
qed

lemma nat_digits_chars: "\<forall>c \<in> set (nat_digits n). (48 :: nat) \<le> of_char c \<and> (of_char c :: nat) \<le> 57"
proof (induction n rule: nat_digits.induct)
  case (1 n)
  show ?case
  proof (cases "n < 10")
    case True
    then show ?thesis by (simp add: nat_digits.simps[of n])
  next
    case False
    with 1 show ?thesis by (auto simp: nat_digits.simps[of n])
  qed
qed

lemma nat_digits_nonempty: "nat_digits n \<noteq> []"
  by (simp add: nat_digits.simps[of n])

lemma int_text_no_comma: "CHR '','' \<notin> set (int_text i)"
  using nat_digits_chars[of "nat i"] nat_digits_chars[of "nat (- i)"] by (auto simp: int_text_def)

lemma int_text_inj: "int_text i = int_text j \<Longrightarrow> i = j"
proof -
  assume eq: "int_text i = int_text j"
  have minus: "nat_digits n \<noteq> CHR ''-'' # s" for n s
    using nat_digits_chars[of n] by (cases "nat_digits n") auto
  have inj: "nat_digits m = nat_digits n \<Longrightarrow> m = n" for m n by (metis digits_value_nat)
  show "i = j" using eq minus inj[of "nat i" "nat j"] inj[of "nat (- i)" "nat (- j)"]
    by (auto simp: int_text_def split: if_splits dest: sym)
qed

lemma int_text_chars: "c \<in> set (int_text i) \<Longrightarrow> c = CHR ''-'' \<or> (48 \<le> (of_char c :: nat) \<and> (of_char c :: nat) \<le> 57)"
  using nat_digits_chars[of "nat i"] nat_digits_chars[of "nat (- i)"] by (auto simp: int_text_def split: if_splits)


section \<open>Whole values\<close>

text \<open>The value that a text stands for: arrays as lists, objects as dictionaries with sorted keys.\<close>

primrec canon :: "pyval \<Rightarrow> pyval" where
  "canon VNone = VNone"
| "canon (VBool b) = VBool b"
| "canon (VInt i) = VInt i"
| "canon (VFloat x) = VFloat x"
| "canon (VStr s) = VStr s"
| "canon (VList xs) = VList (map canon xs)"
| "canon (VTuple xs) = VList (map canon xs)"
| "canon (VSet xs) = VSet xs"
| "canon (VFrozenSet xs) = VFrozenSet xs"
| "canon (VDict kvs) = VDict (dsorted (map (map_prod (\<lambda>k. k) canon) kvs))"
| "canon (VProxy kvs) = VDict (dsorted (map (map_prod (\<lambda>k. k) canon) kvs))"
| "canon (VObject c) = VObject c"

definition delimiters :: "string" where
  "delimiters = '',]}''"

definition ends :: "string \<Rightarrow> bool" where
  "ends r \<longleftrightarrow> r = [] \<or> hd r \<in> set delimiters"

text \<open>What the texts of floats in JSON are like: not those of integers, and of characters of their own.\<close>

definition json_floats :: "(pyfloat \<Rightarrow> string) \<Rightarrow> bool" where
  "json_floats fr \<longleftrightarrow> inj fr \<and> (\<forall>x. fr x \<noteq> [] \<and> set (fr x) \<inter> set delimiters = {}
     \<and> hd (fr x) \<notin> set (CHR 0x22 # ''[{ntf'') \<and> (\<forall>i. fr x \<noteq> int_text i))"

lemma atom_ends:
  assumes "set a \<inter> set delimiters = {}" and "set b \<inter> set delimiters = {}" and "ends r" and "ends r'" and "a @ r = b @ r'"
  shows "a = b \<and> r = r'"
proof -
  have stop: "takeWhile (\<lambda>c. c \<notin> set delimiters) (s @ t) = s" if "set s \<inter> set delimiters = {}" "ends t" for s t
  proof -
    have "takeWhile (\<lambda>c. c \<notin> set delimiters) t = []" using that(2) by (cases t) (auto simp: ends_def)
    with that(1) show ?thesis by (subst takeWhile_append2) auto
  qed
  from assms show ?thesis by (metis stop same_append_eq)
qed

lemma int_text_atom: "set (int_text i) \<inter> set delimiters = {}"
  and int_text_head: "int_text i \<noteq> []" "hd (int_text i) \<notin> set (CHR 0x22 # ''[{ntf'')"
proof -
  show "set (int_text i) \<inter> set delimiters = {}" using int_text_chars[of _ i] by (force simp: delimiters_def)
  show ne: "int_text i \<noteq> []" using nat_digits_nonempty by (simp add: int_text_def)
  show "hd (int_text i) \<notin> set (CHR 0x22 # ''[{ntf'')" using int_text_chars[OF hd_in_set[OF ne]] by auto
qed

text \<open>
  Sequences: \<open>decodes f g A\<close> means that the text \<open>f a\<close> of an item can be read back, as \<open>g a\<close>, whatever delimiter follows.
\<close>

definition decodes :: "('a \<Rightarrow> string) \<Rightarrow> ('a \<Rightarrow> 'b) \<Rightarrow> 'a set \<Rightarrow> 'a set \<Rightarrow> bool" where
  "decodes f g A B \<longleftrightarrow> (\<forall>a \<in> A. \<forall>b \<in> B. \<forall>r r'. ends r \<longrightarrow> ends r' \<longrightarrow> f a @ r = f b @ r' \<longrightarrow> g a = g b \<and> r = r')"

definition starts :: "('a \<Rightarrow> string) \<Rightarrow> 'a set \<Rightarrow> bool" where
  "starts f A \<longleftrightarrow> (\<forall>a \<in> A. f a \<noteq> [] \<and> hd (f a) \<notin> set delimiters)"

lemma decodesD:
  "decodes f g A B \<Longrightarrow> a \<in> A \<Longrightarrow> b \<in> B \<Longrightarrow> ends r \<Longrightarrow> ends r' \<Longrightarrow> f a @ r = f b @ r' \<Longrightarrow> g a = g b \<and> r = r'"
  by (simp add: decodes_def)

lemma join_with_Cons: "join_with sep (x # xs) = x @ concat (map ((@) sep) xs)"
  by (induction xs arbitrary: x) simp_all

lemma tail_decodes:
  assumes "decodes f g (set xs) (set ys)" and "c \<in> {CHR '']'', CHR ''}''}"
    and "concat (map (\<lambda>x. '','' @ f x) xs) @ c # r = concat (map (\<lambda>y. '','' @ f y) ys) @ c # r'"
  shows "map g xs = map g ys \<and> r = r'"
  using assms
proof (induction xs arbitrary: ys)
  case Nil
  then show ?case by (cases ys) auto
next
  case (Cons x xs)
  obtain y zs where ys: "ys = y # zs" using Cons.prems(2,3) by (cases ys) auto
  have e: "ends (concat (map (\<lambda>x. '','' @ f x) ws) @ c # t)" for ws t
    using Cons.prems(2) by (cases ws) (auto simp: ends_def delimiters_def)
  have eq: "f x @ (concat (map (\<lambda>x. '','' @ f x) xs) @ c # r) = f y @ (concat (map (\<lambda>y. '','' @ f y) zs) @ c # r')"
    using Cons.prems(3) by (simp add: ys)
  have "g x = g y \<and> concat (map (\<lambda>x. '','' @ f x) xs) @ c # r = concat (map (\<lambda>y. '','' @ f y) zs) @ c # r'"
    by (rule decodesD[OF Cons.prems(1) _ _ e e eq]) (simp_all add: ys)
  moreover have "decodes f g (set xs) (set zs)" using Cons.prems(1) by (auto simp: decodes_def ys)
  ultimately show ?case using Cons.IH[of zs] Cons.prems(2) by (auto simp: ys)
qed

lemma join_decodes:
  assumes "decodes f g (set xs) (set ys)" and "starts f (set xs)" and "starts f (set ys)" and "c \<in> {CHR '']'', CHR ''}''}"
    and "join_with '','' (map f xs) @ c # r = join_with '','' (map f ys) @ c # r'"
  shows "map g xs = map g ys \<and> r = r'"
proof -
  have c: "c \<in> set delimiters" using assms(4) by (auto simp: delimiters_def)
  have head: "\<exists>h t. f a = h # t \<and> h \<noteq> c" if "starts f A" "a \<in> A" for a A
    using that c by (cases "f a") (auto simp: starts_def)
  have tail: "concat (map ((@) '','') (map f zs)) = concat (map (\<lambda>z. '','' @ f z) zs)" for zs by (simp add: comp_def)
  show ?thesis
  proof (cases xs)
    case Nil
    show ?thesis
    proof (cases ys)
      case Nil with \<open>xs = []\<close> assms(5) show ?thesis by simp
    next
      case (Cons y zs) with head[OF assms(3), of y] assms(5) \<open>xs = []\<close> show ?thesis by (auto simp: join_with_Cons)
    qed
  next
    case (Cons x us)
    show ?thesis
    proof (cases ys)
      case Nil with head[OF assms(2), of x] assms(5) Cons show ?thesis by (auto simp: join_with_Cons)
    next
      case y: (Cons y zs)
      have "concat (map (\<lambda>z. '','' @ f z) (x # us)) @ c # r = concat (map (\<lambda>z. '','' @ f z) (y # zs)) @ c # r'"
        using assms(5) by (simp add: Cons y join_with_Cons tail del: map_map)
      from tail_decodes[OF assms(1) assms(4), unfolded Cons y, OF this] show ?thesis by (simp add: Cons y)
    qed
  qed
qed

abbreviation jtext :: "(pyfloat \<Rightarrow> string) \<Rightarrow> pyval \<Rightarrow> string" where
  "jtext fr v \<equiv> the (canonical_json fr v)"

lemma those_Some: "those (map f xs) = Some ts \<longleftrightarrow> (\<forall>x \<in> set xs. f x \<noteq> None) \<and> ts = map (\<lambda>x. the (f x)) xs"
  by (induction xs arbitrary: ts) (auto split: option.splits)

definition item_text :: "(pyfloat \<Rightarrow> string) \<Rightarrow> string \<times> pyval \<Rightarrow> string" where
  "item_text fr p = json_string (fst p) @ '':'' @ jtext fr (snd p)"

lemma insort_map_fst: "insort_key fst (map_prod (\<lambda>k. k) f p) (map (map_prod (\<lambda>k. k) f) ps) = map (map_prod (\<lambda>k. k) f) (insort_key fst p ps)"
  by (induction ps) auto

lemma dsorted_map: "dsorted (map (map_prod (\<lambda>k. k) f) ps) = map (map_prod (\<lambda>k. k) f) (dsorted ps)"
  unfolding dsorted_def by (induction ps) (simp_all add: insort_map_fst)

lemma object_text:
  "json_object (map (map_prod (\<lambda>k. k) (jtext fr)) kvs) = CHR ''{'' # join_with '','' (map (item_text fr) (dsorted kvs)) @ ''}''"
proof -
  have "(\<lambda>p. json_string (fst p) @ '':'' @ jtext fr (snd p)) = item_text fr" by (simp add: item_text_def fun_eq_iff)
  then show ?thesis by (simp add: json_object_def dsorted_map comp_def case_prod_beta)
qed

lemma zip_texts: "zip (map fst kvs) (map (\<lambda>x. f (snd x)) kvs) = map (map_prod (\<lambda>k. k) f) kvs"
  by (induction kvs) auto

lemma dict_text:
  "map_option (\<lambda>ts. json_object (zip (map fst kvs) ts)) (those (map snd (map (map_prod (\<lambda>k. k) (canonical_json fr)) kvs))) = Some s \<longleftrightarrow>
   (\<forall>p \<in> set kvs. canonical_json fr (snd p) \<noteq> None)
   \<and> s = CHR ''{'' # join_with '','' (map (item_text fr) (dsorted kvs)) @ ''}''"
proof -
  have eq: "map snd (map (map_prod (\<lambda>k. k) (canonical_json fr)) kvs) = map (\<lambda>p. canonical_json fr (snd p)) kvs" by simp
  show ?thesis
    unfolding eq map_option_eq_Some those_Some using zip_texts[of kvs "jtext fr"] object_text[of fr kvs] by auto
qed

lemma text_cases [consumes 2]:
  assumes "canonical_json fr v = Some s" and "json_floats fr"
  obtains (atom) "set s \<inter> set delimiters = {}" "s \<noteq> []" "hd s \<notin> set (CHR 0x22 # ''[{'')" "v \<in> {VNone, VBool True, VBool False} \<union> range VInt \<union> range VFloat"
  | (quoted) k where "v = VStr k" "s = json_string k"
  | (listed) xs where "v \<in> {VList xs, VTuple xs}" "\<forall>x \<in> set xs. canonical_json fr x \<noteq> None"
      "s = CHR ''['' # join_with '','' (map (jtext fr) xs) @ '']''"
  | (keyed) kvs where "v \<in> {VDict kvs, VProxy kvs}" "\<forall>p \<in> set kvs. canonical_json fr (snd p) \<noteq> None"
      "s = CHR ''{'' # join_with '','' (map (item_text fr) (dsorted kvs)) @ ''}''"
proof -
  have floats: "fr x \<noteq> []" "set (fr x) \<inter> set delimiters = {}" "hd (fr x) \<notin> set (CHR 0x22 # ''[{ntf'')" for x
    using assms(2) by (simp_all add: json_floats_def)
  show thesis
  proof (cases v)
    case (VBool b)
    with assms(1) show ?thesis by (cases b) (auto intro!: atom simp: delimiters_def)
  next
    case (VInt i)
    with assms(1) int_text_atom[of i] int_text_head[of i] show ?thesis by (intro atom) auto
  next
    case (VFloat x)
    with assms(1) floats[of x] show ?thesis by (intro atom) auto
  next
    case (VDict kvs)
    with assms(1) dict_text[of kvs fr s] show ?thesis by (intro keyed[of kvs]) auto
  next
    case (VProxy kvs)
    with assms(1) dict_text[of kvs fr s] show ?thesis by (intro keyed[of kvs]) auto
  next
    case VNone
    with assms(1) show ?thesis by (intro atom) (auto simp: delimiters_def)
  next
    case (VStr k)
    with assms(1) show ?thesis by (intro quoted) auto
  next
    case (VList xs)
    with assms(1) show ?thesis by (intro listed[of xs]) (auto simp: those_Some json_array_def)
  next
    case (VTuple xs)
    with assms(1) show ?thesis by (intro listed[of xs]) (auto simp: those_Some json_array_def)
  qed (use assms(1) in simp_all)
qed

lemma text_starts: "canonical_json fr v = Some s \<Longrightarrow> json_floats fr \<Longrightarrow> s \<noteq> [] \<and> hd s \<notin> set delimiters"
proof (rule text_cases, assumption+)
  show "set s \<inter> set delimiters = {} \<Longrightarrow> s \<noteq> [] \<Longrightarrow> s \<noteq> [] \<and> hd s \<notin> set delimiters"
    by (cases s) auto
qed (auto simp: json_string_def delimiters_def)

definition readable :: "(pyfloat \<Rightarrow> string) \<Rightarrow> pyval \<Rightarrow> bool" where
  "readable fr v \<longleftrightarrow> (\<forall>s w t r r'. canonical_json fr v = Some s \<longrightarrow> canonical_json fr w = Some t \<longrightarrow> ends r \<longrightarrow> ends r' \<longrightarrow>
     s @ r = t @ r' \<longrightarrow> canon v = canon w \<and> r = r')"

lemma readableD:
  "readable fr v \<Longrightarrow> canonical_json fr v = Some s \<Longrightarrow> canonical_json fr w = Some t \<Longrightarrow> ends r \<Longrightarrow> ends r' \<Longrightarrow>
   s @ r = t @ r' \<Longrightarrow> canon v = canon w \<and> r = r'"
  unfolding readable_def by blast

lemma readable_decodes:
  assumes "\<forall>x \<in> A. readable fr x \<and> canonical_json fr x \<noteq> None" and "\<forall>y \<in> B. canonical_json fr y \<noteq> None"
  shows "decodes (jtext fr) canon A B"
  unfolding decodes_def
proof (intro ballI allI impI)
  fix a b r r'
  assume "a \<in> A" "b \<in> B" and e: "ends r" "ends r'" and eq: "jtext fr a @ r = jtext fr b @ r'"
  then obtain s t where st: "canonical_json fr a = Some s" "canonical_json fr b = Some t" and ra: "readable fr a"
    using assms by blast
  show "canon a = canon b \<and> r = r'" by (rule readableD[OF ra st e]) (use eq st in simp)
qed

lemma readable_items:
  assumes "\<forall>p \<in> A. readable fr (snd p) \<and> canonical_json fr (snd p) \<noteq> None" and "\<forall>p \<in> B. canonical_json fr (snd p) \<noteq> None"
  shows "decodes (item_text fr) (map_prod (\<lambda>k. k) canon) A B"
  unfolding decodes_def
proof (intro ballI allI impI)
  fix a b r r'
  assume ab: "a \<in> A" "b \<in> B" and e: "ends r" "ends r'" and eq: "item_text fr a @ r = item_text fr b @ r'"
  have "json_string (fst a) @ (CHR '':'' # jtext fr (snd a) @ r) = json_string (fst b) @ (CHR '':'' # jtext fr (snd b) @ r')"
    using eq by (simp add: item_text_def)
  then have k: "fst a = fst b" and v: "jtext fr (snd a) @ r = jtext fr (snd b) @ r'"
    using json_string_prefix by blast+
  have "decodes (jtext fr) canon (snd ` A) (snd ` B)" using assms by (intro readable_decodes) auto
  from decodesD[OF this imageI[OF ab(1)] imageI[OF ab(2)] e v] k
  show "map_prod (\<lambda>k. k) canon a = map_prod (\<lambda>k. k) canon b \<and> r = r'" by (cases a; cases b) simp
qed

lemma items_start: "starts (item_text fr) A"
  by (auto simp: starts_def item_text_def json_string_def delimiters_def)

lemma atom_inj:
  assumes "json_floats fr" and "canonical_json fr v = Some s" and "canonical_json fr w = Some s"
    and "v \<in> {VNone, VBool True, VBool False} \<union> range VInt \<union> range VFloat"
    and "w \<in> {VNone, VBool True, VBool False} \<union> range VInt \<union> range VFloat"
  shows "v = w"
proof -
  have f: "fr x = fr y \<Longrightarrow> x = y" "fr x \<noteq> int_text i" "int_text i \<noteq> fr x" "hd (fr x) \<notin> set (CHR 0x22 # ''[{ntf'')" for x y i
    using assms(1) by (auto simp: json_floats_def inj_def) metis+
  have lit: "fr x \<noteq> c # cs" "int_text i \<noteq> c # cs" "c # cs \<noteq> fr x" "c # cs \<noteq> int_text i" if "c \<in> set ''ntf''" for x i c cs
    using f(4)[of x] int_text_head(2)[of i] that by (cases "fr x"; cases "int_text i"; fastforce)+
  show ?thesis using assms(2-5) f(1-3) by (auto dest: int_text_inj simp: lit)
qed

lemma readableI:
  assumes fl: "json_floats fr" and xs: "\<And>xs. v \<in> {VList xs, VTuple xs} \<Longrightarrow> \<forall>x \<in> set xs. readable fr x"
    and kvs: "\<And>kvs. v \<in> {VDict kvs, VProxy kvs} \<Longrightarrow> \<forall>p \<in> set kvs. readable fr (snd p)"
  shows "readable fr v"
  unfolding readable_def
proof (intro allI impI)
  fix s w t r r'
  assume v: "canonical_json fr v = Some s" and w: "canonical_json fr w = Some t" and e: "ends r" "ends r'" and eq: "s @ r = t @ r'"
  have ne: "s \<noteq> []" "t \<noteq> []" using text_starts[OF v fl] text_starts[OF w fl] by simp_all
  then have hd: "hd s = hd t" using eq by (metis hd_append2)
  have starts: "starts (jtext fr) A" if "\<forall>x \<in> A. canonical_json fr x \<noteq> None" for A
    using that text_starts[OF _ fl] by (auto simp: starts_def)
  show "canon v = canon w \<and> r = r'"
  using v fl
  proof (cases rule: text_cases)
    case a: atom
    show ?thesis
      using w fl
    proof (cases rule: text_cases)
      case b: atom
      have "s = t \<and> r = r'" by (rule atom_ends[OF a(1) b(1) e eq])
      with atom_inj[OF fl v, of w] w a(4) b(4) show ?thesis by auto
    qed (use hd a(3) in \<open>simp_all add: json_string_def\<close>)
  next
    case a: (quoted k)
    show ?thesis
      using w fl
    proof (cases rule: text_cases)
      case (quoted l)
      with a eq show ?thesis using json_string_prefix[of k r l r'] by simp
    qed (use hd a in \<open>simp_all add: json_string_def\<close>)
  next
    case a: (listed xs)
    show ?thesis
      using w fl
    proof (cases rule: text_cases)
      case b: (listed ys)
      have "decodes (jtext fr) canon (set xs) (set ys)" using a b xs by (intro readable_decodes) auto
      from join_decodes[OF this starts starts, of "CHR '']''" r r'] a b eq show ?thesis by auto
    qed (use hd a in \<open>simp_all add: json_string_def\<close>)
  next
    case a: (keyed ps)
    show ?thesis
      using w fl
    proof (cases rule: text_cases)
      case b: (keyed qs)
      have "decodes (item_text fr) (map_prod (\<lambda>k. k) canon) (set (dsorted ps)) (set (dsorted qs))"
        using a b kvs by (intro readable_items) auto
      from join_decodes[OF this items_start items_start, of "CHR ''}''" r r'] a b eq show ?thesis by (auto simp: dsorted_map)
    qed (use hd a in \<open>simp_all add: json_string_def\<close>)
  qed
qed

lemma value_readable: "json_floats fr \<Longrightarrow> readable fr v"
proof (induction v)
  case (VDict kvs)
  then show ?case by (intro readableI) (auto simp: snds.simps)
next
  case (VProxy kvs)
  then show ?case by (intro readableI) (auto simp: snds.simps)
qed (auto intro: readableI)

lemma canon_object:
  assumes IH: "\<And>p s. p \<in> set kvs \<Longrightarrow> canonical_json fr (snd p) = Some s \<Longrightarrow> canonical_json fr (canon (snd p)) = Some s"
    and ok: "\<forall>p \<in> set kvs. canonical_json fr (snd p) \<noteq> None"
  shows "canonical_json fr (VDict (dsorted (map (map_prod (\<lambda>k. k) canon) kvs)))
    = Some (CHR ''{'' # join_with '','' (map (item_text fr) (dsorted kvs)) @ ''}'')"
proof -
  have same: "item_text fr (map_prod (\<lambda>k. k) canon p) = item_text fr p" if "p \<in> set (dsorted kvs)" for p
    using that ok IH by (fastforce simp: item_text_def)
  have twice: "dsorted (dsorted kvs) = dsorted kvs" by (simp add: dsorted_def sort_key_id_if_sorted sorted_sort_key)
  have "map (item_text fr) (dsorted (dsorted (map (map_prod (\<lambda>k. k) canon) kvs))) = map (item_text fr) (dsorted kvs)"
    using same by (simp add: dsorted_map twice)
  moreover have "\<forall>p \<in> set (dsorted (map (map_prod (\<lambda>k. k) canon) kvs)). canonical_json fr (snd p) \<noteq> None"
    using ok IH by fastforce
  ultimately show ?thesis unfolding canonical_json.simps dict_text by simp
qed

lemma canon_array:
  assumes IH: "\<And>x s. x \<in> set xs \<Longrightarrow> canonical_json fr x = Some s \<Longrightarrow> canonical_json fr (canon x) = Some s"
    and ok: "those (map (canonical_json fr) xs) = Some ts"
  shows "those (map (canonical_json fr) (map canon xs)) = Some ts"
proof -
  have eq: "map (canonical_json fr) (map canon xs) = map (canonical_json fr) xs" using IH ok[unfolded those_Some] by fastforce
  show ?thesis unfolding eq by (rule ok)
qed

lemma canon_text: "canonical_json fr v = Some s \<Longrightarrow> canonical_json fr (canon v) = Some s"
proof (induction v arbitrary: s)
  case (VDict kvs)
  have "\<forall>p \<in> set kvs. canonical_json fr (snd p) \<noteq> None" and s: "s = CHR ''{'' # join_with '','' (map (item_text fr) (dsorted kvs)) @ ''}''"
    using VDict.prems unfolding canonical_json.simps dict_text by blast+
  then show ?case using VDict.IH unfolding canon.simps s by (intro canon_object) (auto simp: snds.simps)
next
  case (VProxy kvs)
  have "\<forall>p \<in> set kvs. canonical_json fr (snd p) \<noteq> None" and s: "s = CHR ''{'' # join_with '','' (map (item_text fr) (dsorted kvs)) @ ''}''"
    using VProxy.prems unfolding canonical_json.simps dict_text by blast+
  then show ?case using VProxy.IH unfolding canon.simps s by (intro canon_object) (auto simp: snds.simps)
next
  case (VList xs)
  from VList.prems obtain ts where "those (map (canonical_json fr) xs) = Some ts" "s = json_array ts" by auto
  with canon_array[OF VList.IH] show ?case unfolding canon.simps canonical_json.simps by auto
next
  case (VTuple xs)
  from VTuple.prems obtain ts where "those (map (canonical_json fr) xs) = Some ts" "s = json_array ts" by auto
  with canon_array[OF VTuple.IH] show ?case unfolding canon.simps canonical_json.simps by auto
qed simp_all

text \<open>
  C39. The canonical text commits to the value.  Two values that have canonical texts have the same text exactly when
  they are the same value up to the order of keys and the kind of container (list or tuple,
  dictionary or frozen view): schema digests and binding signatures distinguish any two contents.
\<close>

theorem canonical_text_faithful:
  assumes "json_floats fr" and "canonical_json fr v = Some s" and "canonical_json fr w = Some t"
  shows "s = t \<longleftrightarrow> canon v = canon w"
proof
  assume "s = t"
  then have "s @ [] = t @ []" by simp
  from readableD[OF value_readable[OF assms(1)] assms(2,3) _ _ this] show "canon v = canon w" by (simp add: ends_def)
next
  assume "canon v = canon w"
  with canon_text[OF assms(2)] canon_text[OF assms(3)] show "s = t" by simp
qed

section \<open>Concrete texts\<close>

definition sample_float_text :: "pyfloat \<Rightarrow> string" where
  "sample_float_text x = CHR ''e'' # (case x of PosInf \<Rightarrow> ''p'' | NegInf \<Rightarrow> ''n'' | NaN \<Rightarrow> ''u''
     | Finite q \<Rightarrow> int_text (fst (quotient_of q)) @ ''/'' @ int_text (snd (quotient_of q)))"

lemma sample_json_floats: "json_floats sample_float_text"
proof -
  have slash: "CHR ''/'' \<notin> set (int_text i)" for i using int_text_chars[of "CHR ''/''" i] by auto
  have inj: "sample_float_text (Finite p) = sample_float_text (Finite q) \<Longrightarrow> p = q" for p q
    unfolding sample_float_text_def
    by (auto dest!: until_delimiter[OF slash slash] int_text_inj intro: quotient_of_inject prod_eqI)
  have other: "sample_float_text (Finite p) \<notin> {''ep'', ''en'', ''eu''}" for p
  proof
    have "CHR ''/'' \<in> set (sample_float_text (Finite p))" by (simp add: sample_float_text_def)
    moreover assume "sample_float_text (Finite p) \<in> {''ep'', ''en'', ''eu''}"
    ultimately show False by (elim insertE) (simp_all only: list.set, simp_all)
  qed
  have const: "sample_float_text PosInf = ''ep''" "sample_float_text NegInf = ''en''" "sample_float_text NaN = ''eu''"
    by (simp_all add: sample_float_text_def)
  have "sample_float_text x = sample_float_text y \<Longrightarrow> x = y" for x y
    using inj other[of "fin_val x"] other[of "fin_val y"] const by (cases x; cases y) auto
  moreover have "set (sample_float_text x) \<inter> set delimiters = {}" for x
    using int_text_atom by (cases x) (auto simp: sample_float_text_def delimiters_def disjoint_iff)
  moreover have "hd (sample_float_text x) = CHR ''e''" "sample_float_text x \<noteq> []" for x by (simp_all add: sample_float_text_def)
  moreover have "sample_float_text x \<noteq> int_text i" for x i
  proof
    assume "sample_float_text x = int_text i"
    then have "CHR ''e'' \<in> set (int_text i)" unfolding sample_float_text_def by (metis list.set_intros(1))
    then show False using int_text_chars[of "CHR ''e''" i] by simp
  qed
  ultimately show ?thesis by (simp add: json_floats_def inj_def)
qed

theorem canonical_text_faithful_witness:
  "canonical_json sample_float_text (VDict [(''b'', VFloat (Finite 2)), (''a'', VTuple [VInt 1, VStr ''x''])])
     = canonical_json sample_float_text (VProxy [(''a'', VList [VInt 1, VStr ''x'']), (''b'', VFloat (Finite 2))])
   \<and> canonical_json sample_float_text (VList [VStr ''1'']) \<noteq> canonical_json sample_float_text (VList [VInt 1])"
proof -
  let ?v = "VDict [(''b'', VFloat (Finite 2)), (''a'', VTuple [VInt 1, VStr ''x''])]"
  let ?w = "VProxy [(''a'', VList [VInt 1, VStr ''x'']), (''b'', VFloat (Finite 2))]"
  obtain s t where st: "canonical_json sample_float_text ?v = Some s" "canonical_json sample_float_text ?w = Some t" by simp
  obtain u v where uv: "canonical_json sample_float_text (VList [VStr ''1'']) = Some u"
    "canonical_json sample_float_text (VList [VInt 1]) = Some v" by simp
  have "s = t" unfolding canonical_text_faithful[OF sample_json_floats st] by (simp add: dsorted_def)
  moreover have "u \<noteq> v" unfolding canonical_text_faithful[OF sample_json_floats uv] by simp
  ultimately show ?thesis unfolding st uv by simp
qed

end
