(* ===== verification/Serialization.thy ===== *)
theory Serialization
  imports JsonText "HOL-Library.Multiset"
begin

text \<open>
  \<open>core/serialization.py\<close>: the conversion of what a capability returns into JSON, and the freezing of error details.
  \<open>None\<close> as a result is \<open>UnsupportedReturnValueError\<close>.
\<close>

section \<open>Results\<close>

text \<open>
  The Python values that a capability may return.  A key of a mapping that is not a string is
  \<open>None\<close>.  \<open>RModel\<close> is a Pydantic model with what \<open>model_dump(mode="json")\<close> returns, \<open>None\<close> when it raises;
  \<open>RFields\<close> a dataclass instance; \<open>RArray\<close> a list, a tuple or another sequence; \<open>RSet\<close> a set in the order of its iteration.
\<close>

datatype result_value =
    RNone
  | RBool bool
  | RInt int
  | RFloat pyfloat
  | RStr string
  | REnum result_value
  | RModel "result_value option"
  | RFields "(string \<times> result_value) list"
  | RMapping "(string option \<times> result_value) list"
  | RArray "result_value list"
  | RSet "result_value list"
  | ROther string

definition sorted_dict :: "string list \<Rightarrow> pyval option list \<Rightarrow> pyval option" where
  "sorted_dict ks vs = map_option (\<lambda>xs. VDict (dsorted (zip ks xs))) (those vs)"

primrec serialize_result :: "(pyfloat \<Rightarrow> string) \<Rightarrow> result_value \<Rightarrow> pyval option" where
  "serialize_result fr RNone = Some VNone"
| "serialize_result fr (RBool b) = Some (VBool b)"
| "serialize_result fr (RInt i) = Some (VInt i)"
| "serialize_result fr (RFloat x) = (if isfinite x then Some (VFloat x) else None)"
| "serialize_result fr (RStr s) = Some (VStr s)"
| "serialize_result fr (REnum v) = serialize_result fr v"
| "serialize_result fr (RModel m) = (case map_option (serialize_result fr) m of None \<Rightarrow> None | Some r \<Rightarrow> r)"
| "serialize_result fr (RFields kvs) =
     sorted_dict (map fst kvs) (map snd (map (map_prod (\<lambda>k. k) (serialize_result fr)) kvs))"
| "serialize_result fr (RMapping kvs) =
     (if None \<in> set (map fst kvs) then None
      else sorted_dict (map (the \<circ> fst) kvs) (map snd (map (map_prod (\<lambda>k. k) (serialize_result fr)) kvs)))"
| "serialize_result fr (RArray xs) = map_option VList (those (map (serialize_result fr) xs))"
| "serialize_result fr (RSet xs) =
     map_option (\<lambda>ys. VList (sort_key (\<lambda>y. the (canonical_json fr y)) ys)) (those (map (serialize_result fr) xs))"
| "serialize_result fr (ROther c) = None"

text \<open>\<open>freeze_mapping\<close>, on the details of validation errors.\<close>

primrec freeze_mapping :: "pyval \<Rightarrow> pyval" where
  "freeze_mapping VNone = VNone"
| "freeze_mapping (VBool b) = VBool b"
| "freeze_mapping (VInt i) = VInt i"
| "freeze_mapping (VFloat x) = VFloat x"
| "freeze_mapping (VStr s) = VStr s"
| "freeze_mapping (VList xs) = VTuple (map freeze_mapping xs)"
| "freeze_mapping (VTuple xs) = VTuple (map freeze_mapping xs)"
| "freeze_mapping (VSet xs) = VSet xs"
| "freeze_mapping (VFrozenSet xs) = VFrozenSet xs"
| "freeze_mapping (VDict kvs) = VProxy (map (map_prod (\<lambda>k. k) freeze_mapping) kvs)"
| "freeze_mapping (VProxy kvs) = VProxy kvs"
| "freeze_mapping (VObject c) = VObject c"

section \<open>Results are JSON\<close>

lemma is_json_list_iff: "is_json_list xs \<longleftrightarrow> (\<forall>x \<in> set xs. is_json x)"
  by (induction xs) auto

lemma is_json_items_iff: "is_json_items kvs \<longleftrightarrow> (\<forall>p \<in> set kvs. is_json (snd p))"
  by (induction kvs) auto

lemma those_in: "those vs = Some xs \<Longrightarrow> x \<in> set xs \<Longrightarrow> Some x \<in> set vs"
  by (induction vs arbitrary: xs) (auto split: option.splits)

lemma those_map_in: "those (map f xs) = Some ys \<Longrightarrow> y \<in> set ys \<Longrightarrow> \<exists>x \<in> set xs. f x = Some y"
  using those_in by fastforce

lemma those_length: "those vs = Some xs \<Longrightarrow> length xs = length vs"
  by (induction vs arbitrary: xs) (auto split: option.splits)

text \<open>A normal value is JSON whose objects have sorted keys.\<close>

definition normal :: "pyval \<Rightarrow> bool" where
  "normal v \<longleftrightarrow> is_json v \<and> canon v = v"

lemma normal_list: "(\<forall>x \<in> set xs. normal x) \<Longrightarrow> normal (VList xs)"
  by (auto simp: normal_def is_json_list_iff intro: map_idI)

lemma normal_dict:
  assumes "\<forall>x \<in> set xs. normal x"
  shows "normal (VDict (dsorted (zip ks xs)))"
proof -
  have n: "normal (snd p)" if "p \<in> set (dsorted (zip ks xs))" for p 
    using that assms set_zip_rightD[of "fst p" "snd p" ks xs] by simp
  have "map (map_prod (\<lambda>k. k) canon) (dsorted (zip ks xs)) = dsorted (zip ks xs)"
    by (rule map_idI) (use n in \<open>auto simp: normal_def\<close>)
  moreover have "dsorted (dsorted (zip ks xs)) = dsorted (zip ks xs)" by (simp add: dsorted_def sort_key_id_if_sorted sorted_sort_key)
  ultimately show ?thesis using n by (simp add: normal_def is_json_items_iff)
qed

lemma normal_sorted_dict: "sorted_dict ks vs = Some w \<Longrightarrow> (\<And>x. Some x \<in> set vs \<Longrightarrow> normal x) \<Longrightarrow> normal w"
  using normal_dict those_in by (fastforce simp: sorted_dict_def)

lemma serialize_normal: "serialize_result fr v = Some w \<Longrightarrow> normal w"
proof (induction v arbitrary: w)
  case (RFloat x)
  then show ?case by (auto simp: normal_def split: if_splits)
next
  case (RModel m)
  then show ?case by (cases m) auto
next
  case (RFields kvs)
  then show ?case by (auto elim!: normal_sorted_dict simp: snds.simps)
next
  case (RMapping kvs)
  then show ?case by (auto elim!: normal_sorted_dict simp: snds.simps split: if_splits)
next
  case (RArray xs)
  then show ?case by (auto intro!: normal_list dest!: those_map_in)
next
  case (RSet xs)
  then show ?case by (auto intro!: normal_list dest!: those_map_in)
qed (auto simp: normal_def)

section \<open>The order of keys and of set elements does not matter\<close>

text \<open>
  Two values that differ only in the order in which mappings and sets are iterated, at any depth.  Python does not
  specify the order of sets, and it differs from process to process for sets of strings.
\<close>

inductive same_content :: "result_value \<Rightarrow> result_value \<Rightarrow> bool" where
  same_refl: "same_content v v"
| same_enum: "same_content v w \<Longrightarrow> same_content (REnum v) (REnum w)"
| same_model: "same_content v w \<Longrightarrow> same_content (RModel (Some v)) (RModel (Some w))"
| same_fields: "list_all2 (rel_prod (=) same_content) kvs us \<Longrightarrow> mset us = mset ws \<Longrightarrow> distinct (map fst ws) \<Longrightarrow>
    same_content (RFields kvs) (RFields ws)"
| same_mapping: "list_all2 (rel_prod (=) same_content) kvs us \<Longrightarrow> mset us = mset ws \<Longrightarrow> distinct (map fst ws) \<Longrightarrow>
    same_content (RMapping kvs) (RMapping ws)"
| same_array: "list_all2 same_content xs ys \<Longrightarrow> same_content (RArray xs) (RArray ys)"
| same_set: "list_all2 same_content xs us \<Longrightarrow> mset us = mset ys \<Longrightarrow> same_content (RSet xs) (RSet ys)"
monos list.rel_mono prod.rel_mono

lemma map_list_all2: "list_all2 (\<lambda>x y. R x y \<and> f x = f y) xs ys \<Longrightarrow> map f xs = map f ys"
  by (induction rule: list_all2_induct) auto

lemma those_perm:
  assumes "mset (vs :: 'a option list) = mset us"
  shows "rel_option (\<lambda>xs ys. mset xs = mset ys) (those vs) (those us)"
proof (cases "None \<in> set us")
  case True
  then have "None \<in> set vs" using assms by (metis set_mset_mset)
  moreover have "None \<in> set zs \<Longrightarrow> those zs = None" for zs :: "'a option list"
    by (induction zs) (auto split: option.splits)
  ultimately show ?thesis using True by simp
next
  case False
  then have "None \<notin> set vs" using assms by (metis set_mset_mset)
  moreover have "None \<notin> set zs \<Longrightarrow> those zs = Some (map the zs)" for zs :: "'a option list"
  proof (induction zs)
    case (Cons z zs)
    then show ?case by (cases z) auto
  qed simp
  ultimately show ?thesis using False assms by (simp add: mset_map)
qed

lemma dsorted_perm:
  assumes "mset kvs = mset us" and "distinct (map fst us)"
  shows "dsorted kvs = dsorted us"
proof -
  have "inj_on fst (set kvs)" using assms by (metis distinct_map set_mset_mset)
  then show ?thesis unfolding dsorted_def
    by (intro sort_key_inj_key_eq) (use assms in \<open>auto simp: sorted_sort_key\<close>)
qed

lemma zip_those: "those (map snd ps) = Some xs \<Longrightarrow> zip (map fst ps) xs = map (map_prod (\<lambda>k. k) the) ps"
  by (induction ps arbitrary: xs) (auto split: option.splits)

lemma sorted_dict_perm:
  assumes "mset ps = mset qs" and "distinct (map fst qs)"
  shows "sorted_dict (map fst ps) (map snd ps) = sorted_dict (map fst qs) (map snd qs)"
proof -
  have "mset (map snd ps) = mset (map snd qs)" using assms(1) by (simp add: mset_map)
  from those_perm[OF this] show ?thesis
  proof (cases rule: option.rel_cases)
    case (Some xs ys)
    note zp = zip_those[OF Some(1)] and zq = zip_those[OF Some(2)]
    have "mset (zip (map fst ps) xs) = mset (zip (map fst qs) ys)" unfolding zp zq mset_map assms(1) ..
    moreover have "map fst (zip (map fst qs) ys) = map fst qs" unfolding zq by simp
    ultimately have "dsorted (zip (map fst ps) xs) = dsorted (zip (map fst qs) ys)" using assms(2) by (intro dsorted_perm) simp_all
    then show ?thesis unfolding sorted_dict_def Some(1,2) by simp
  qed (simp add: sorted_dict_def)
qed

lemma normal_text: "normal v \<Longrightarrow> canonical_json fr v \<noteq> None"
proof -
  have "is_json v \<Longrightarrow> canonical_json fr v \<noteq> None"
  proof (induction v)
    case (VDict kvs)
    then have "\<forall>p \<in> set kvs. canonical_json fr (snd p) \<noteq> None" by (force simp: is_json_items_iff snds.simps)
    then show ?case using dict_text[of kvs fr] unfolding canonical_json.simps by blast
  next
    case (VList xs)
    then have "\<forall>x \<in> set xs. canonical_json fr x \<noteq> None" by (auto simp: is_json_list_iff)
    then show ?case unfolding canonical_json.simps using those_Some[of "canonical_json fr" xs] by auto
  qed auto
  then show "normal v \<Longrightarrow> canonical_json fr v \<noteq> None" by (simp add: normal_def)
qed

lemma set_text_perm:
  assumes "json_floats fr" and "mset xs = mset ys" and "\<forall>x \<in> set xs. normal x"
  shows "sort_key (\<lambda>y. the (canonical_json fr y)) xs = sort_key (\<lambda>y. the (canonical_json fr y)) ys"
proof -
  have "inj_on (\<lambda>y. the (canonical_json fr y)) (set xs)"
  proof (rule inj_onI)
    fix v w assume vw: "v \<in> set xs" "w \<in> set xs" and eq: "the (canonical_json fr v) = the (canonical_json fr w)"
    then obtain s t where st: "canonical_json fr v = Some s" "canonical_json fr w = Some t" using normal_text assms(3) by blast
    from canonical_text_faithful[OF assms(1) st] eq st assms(3) vw show "v = w" by (simp add: normal_def)
  qed
  then show ?thesis by (intro sort_key_inj_key_eq) (use assms(2) in \<open>auto simp: sorted_sort_key\<close>)
qed

text \<open>The items of a mapping, serialized.\<close>

definition items :: "(pyfloat \<Rightarrow> string) \<Rightarrow> ('k \<times> result_value) list \<Rightarrow> ('k \<times> pyval option) list" where
  "items fr kvs = map (map_prod (\<lambda>k. k) (serialize_result fr)) kvs"

lemma serialize_fields: "serialize_result fr (RFields kvs) = sorted_dict (map fst (items fr kvs)) (map snd (items fr kvs))"
  by (simp add: items_def comp_def)

lemma serialize_mapping:
  "serialize_result fr (RMapping kvs) = (if None \<in> set (map fst kvs) then None
     else sorted_dict (map fst (map (map_prod the (\<lambda>v. v)) (items fr kvs))) (map snd (map (map_prod the (\<lambda>v. v)) (items fr kvs))))"
  by (simp add: items_def comp_def)

lemma items_cong:
  "list_all2 (rel_prod (=) (\<lambda>v w. same_content v w \<and> serialize_result fr v = serialize_result fr w)) kvs us \<Longrightarrow>
   items fr kvs = items fr us \<and> map fst kvs = map fst us"
  by (induction rule: list_all2_induct) (auto simp: items_def elim!: rel_prod.cases)

lemma serialize_set_perm:
  assumes "json_floats fr" and "mset vs = mset us" and "\<And>x. Some x \<in> set vs \<Longrightarrow> normal x"
  shows "map_option (\<lambda>ys. VList (sort_key (\<lambda>y. the (canonical_json fr y)) ys)) (those vs)
    = map_option (\<lambda>ys. VList (sort_key (\<lambda>y. the (canonical_json fr y)) ys)) (those us)"
  using those_perm[OF assms(2)]
proof (cases rule: option.rel_cases)
  case (Some xs ys)
  have "\<forall>x \<in> set xs. normal x" using assms(3) those_in[OF Some(1)] by blast
  from set_text_perm[OF assms(1) Some(3) this] show ?thesis unfolding Some(1,2) option.map by (rule arg_cong)
qed simp

text \<open>
  C40. Serialization is deterministic.  Values with the same content have the same serialization, or
  both are refused, in whatever order their mappings and sets are iterated.
\<close>

theorem serialization_deterministic:
  assumes "json_floats fr" and "same_content v w"
  shows "serialize_result fr v = serialize_result fr w"
  using assms(2)
proof (induction rule: same_content.induct)
  case (same_fields kvs us ws)
  have "mset (items fr us) = mset (items fr ws)" using same_fields(2) by (simp add: items_def mset_map)
  moreover have "distinct (map fst (items fr ws))" using same_fields(3) by (simp add: items_def comp_def)
  ultimately show ?case
    unfolding serialize_fields items_cong[OF same_fields(1), THEN conjunct1] by (rule sorted_dict_perm)
next
  case (same_mapping kvs us ws)
  let ?i = "\<lambda>kvs. map (map_prod the (\<lambda>v. v)) (items fr kvs)"
  have keys: "set (map fst us) = set (map fst ws)" using same_mapping(2) by (metis mset_map set_mset_mset)
  have "mset (?i us) = mset (?i ws)" using same_mapping(2) by (simp add: items_def mset_map)
  moreover have "distinct (map fst (?i ws))" if "None \<notin> set (map fst ws)"
  proof -
    have "inj_on the (set (map fst ws))" using that by (intro inj_onI) (metis option.collapse)
    then have "distinct (map the (map fst ws))" using same_mapping(3) by (simp add: distinct_map del: map_map)
    then show ?thesis by (simp add: items_def comp_def)
  qed
  ultimately have "None \<notin> set (map fst ws) \<Longrightarrow>
      sorted_dict (map fst (?i us)) (map snd (?i us)) = sorted_dict (map fst (?i ws)) (map snd (?i ws))"
    by (intro sorted_dict_perm)
  then show ?case
    unfolding serialize_mapping items_cong[OF same_mapping(1), THEN conjunct1] items_cong[OF same_mapping(1), THEN conjunct2] keys
    by simp
next
  case (same_array xs ys)
  have "map (serialize_result fr) xs = map (serialize_result fr) ys"
    using same_array by (induction rule: list_all2_induct) auto
  then show ?case unfolding serialize_result.simps by simp
next
  case (same_set xs us ys)
  have eq: "map (serialize_result fr) xs = map (serialize_result fr) us"
    using same_set(1) by (induction rule: list_all2_induct) auto
  have "mset (map (serialize_result fr) us) = mset (map (serialize_result fr) ys)" using same_set(2) by (simp add: mset_map)
  then show ?case unfolding serialize_result.simps eq
    by (rule serialize_set_perm[OF assms(1)]) (auto dest!: serialize_normal[OF sym])
qed simp_all

definition sample_mapping :: "result_value list \<Rightarrow> result_value" where
  "sample_mapping xs = RMapping [(Some ''n'', RInt 2), (Some ''ids'', RSet xs)]"

theorem serialization_deterministic_witness:
  "serialize_result sample_float_text (sample_mapping [RInt 2, RInt 10])
   = serialize_result sample_float_text (sample_mapping [RInt 10, RInt 2])"
proof -
  have "same_content (RSet [RInt 2, RInt 10]) (RSet [RInt 10, RInt 2])"
    by (rule same_set[of _ "[RInt 2, RInt 10]"]) (simp_all add: same_refl add_mset_commute)
  then have "same_content (sample_mapping [RInt 2, RInt 10]) (sample_mapping [RInt 10, RInt 2])"
    unfolding sample_mapping_def
    by (intro same_mapping[of _ "[(Some ''n'', RInt 2), (Some ''ids'', RSet [RInt 10, RInt 2])]"]) (simp_all add: same_refl)
  then show ?thesis by (rule serialization_deterministic[OF sample_json_floats])
qed

text \<open>
  What is returned as JSON is JSON: a serialized result has only finite numbers, strings, truth values, null, lists,
  and dictionaries with sorted keys, at every depth.
\<close>

theorem serialized_is_json:
  assumes "serialize_result fr v = Some w"
  shows "is_json w \<and> canon w = w"
  using serialize_normal[OF assms] by (simp add: normal_def)

theorem serialized_is_json_witness:
  "serialize_result sample_float_text (RModel (Some (RArray [REnum (RStr ''x''), RFields [(''b'', RNone), (''a'', RFloat (Finite 1))]])))
     = Some (VList [VStr ''x'', VDict [(''a'', VFloat (Finite 1)), (''b'', VNone)]])
   \<and> is_json (VList [VStr ''x'', VDict [(''a'', VFloat (Finite 1)), (''b'', VNone)]])"
proof -
  have "serialize_result sample_float_text (RModel (Some (RArray [REnum (RStr ''x''), RFields [(''b'', RNone), (''a'', RFloat (Finite 1))]])))
     = Some (VList [VStr ''x'', VDict [(''a'', VFloat (Finite 1)), (''b'', VNone)]])"
    by (simp add: sorted_dict_def dsorted_def)
  with serialized_is_json[OF this] show ?thesis by blast
qed

end
