(* ===== verification/Retrieval.thy ===== *)
theory Retrieval
  imports RunContext Serialization
begin

text \<open>
  \<open>core/retrieval.py\<close>: the contracts of governed retrievers.  The field validators of the Pydantic models are
  functions of the fields, already of their declared types; \<open>None\<close> is the validation error.
\<close>

section \<open>Documents, queries and pages\<close>

text \<open>\<open>_freeze_metadata\<close>; \<open>None\<close> is \<open>RetrievalValidationError\<close>.\<close>

primrec freeze_retrieval :: "pyval \<Rightarrow> pyval option" where
  "freeze_retrieval VNone = Some VNone"
| "freeze_retrieval (VBool b) = Some (VBool b)"
| "freeze_retrieval (VInt i) = Some (VInt i)"
| "freeze_retrieval (VFloat x) = (if isfinite x then Some (VFloat x) else None)"
| "freeze_retrieval (VStr s) = Some (VStr s)"
| "freeze_retrieval (VList xs) = map_option VTuple (those (map freeze_retrieval xs))"
| "freeze_retrieval (VTuple xs) = map_option VTuple (those (map freeze_retrieval xs))"
| "freeze_retrieval (VSet xs) = None"
| "freeze_retrieval (VFrozenSet xs) = None"
| "freeze_retrieval (VDict kvs) =
     map_option (\<lambda>vs. VProxy (dsorted (zip (map fst kvs) vs))) (those (map snd (map (map_prod (\<lambda>k. k) freeze_retrieval) kvs)))"
| "freeze_retrieval (VProxy kvs) =
     map_option (\<lambda>vs. VProxy (dsorted (zip (map fst kvs) vs))) (those (map snd (map (map_prod (\<lambda>k. k) freeze_retrieval) kvs)))"
| "freeze_retrieval (VObject c) = None"

text \<open>\<open>_thaw_metadata\<close>, which the serializers of the models apply.\<close>

primrec thaw_retrieval :: "pyval \<Rightarrow> pyval" where
  "thaw_retrieval VNone = VNone"
| "thaw_retrieval (VBool b) = VBool b"
| "thaw_retrieval (VInt i) = VInt i"
| "thaw_retrieval (VFloat x) = VFloat x"
| "thaw_retrieval (VStr s) = VStr s"
| "thaw_retrieval (VList xs) = VList xs"
| "thaw_retrieval (VTuple xs) = VList (map thaw_retrieval xs)"
| "thaw_retrieval (VSet xs) = VSet xs"
| "thaw_retrieval (VFrozenSet xs) = VFrozenSet xs"
| "thaw_retrieval (VDict kvs) = VDict (map (map_prod (\<lambda>k. k) thaw_retrieval) kvs)"
| "thaw_retrieval (VProxy kvs) = VDict (map (map_prod (\<lambda>k. k) thaw_retrieval) kvs)"
| "thaw_retrieval (VObject c) = VObject c"

record document =
  dc_text :: string
  dc_source :: string
  dc_citation :: "string option"
  dc_score :: "pyfloat option"
  dc_metadata :: pyval

text \<open>A blank optional text is refused.\<close>

definition blank :: "string option \<Rightarrow> bool" where
  "blank v \<longleftrightarrow> (case v of None \<Rightarrow> False | Some s \<Rightarrow> strip s = [])"

definition mk_document :: "document \<Rightarrow> document option" where
  "mk_document d =
     (if strip (dc_text d) = [] \<or> strip (dc_source d) = [] then None
      else if blank (dc_citation d) then None
      else if (case dc_score d of None \<Rightarrow> False | Some x \<Rightarrow> \<not> isfinite x) then None
      else map_option (\<lambda>m. d\<lparr>dc_metadata := m\<rparr>) (freeze_retrieval (dc_metadata d)))"

record retrieval_query =
  rq_query :: string
  rq_filters :: pyval
  rq_limit :: int
  rq_cursor :: "string option"

definition mk_retrieval_query :: "retrieval_query \<Rightarrow> retrieval_query option" where
  "mk_retrieval_query q =
     (if strip (rq_query q) = [] \<or> rq_limit q < 1 \<or> blank (rq_cursor q) then None
      else map_option (\<lambda>m. q\<lparr>rq_filters := m\<rparr>) (freeze_retrieval (rq_filters q)))"

record retrieval_page =
  pg_documents :: "document list"
  pg_next_cursor :: "string option"
  pg_metadata :: pyval

definition mk_retrieval_page :: "retrieval_page \<Rightarrow> retrieval_page option" where
  "mk_retrieval_page p =
     (if blank (pg_next_cursor p) then None
      else map_option (\<lambda>m. p\<lparr>pg_metadata := m\<rparr>) (freeze_retrieval (pg_metadata p)))"

section \<open>Validation of the output of a retriever\<close>

text \<open>
  What a retriever returns: a page, a sequence whose items are documents or anything else, or neither.  \<open>coerce\<close>
  is the part of \<open>RetrievedDocument.model_validate\<close> that the library does before the validators: the fields of an item, if it has them.
\<close>

datatype 'x retriever_item = Document document | Other 'x

datatype 'x retriever_output = Page retrieval_page | Documents "'x retriever_item list" | NoDocuments

datatype retrieval_output = PageOutput retrieval_page | DocumentsOutput "document list"

datatype retrieval_error = BadShape | InvalidDocument | MissingCitation

fun normalize_item :: "('x \<Rightarrow> document option) \<Rightarrow> 'x retriever_item \<Rightarrow> document option" where
  "normalize_item coerce (Document d) = Some d"
| "normalize_item coerce (Other x) = (case coerce x of None \<Rightarrow> None | Some d \<Rightarrow> mk_document d)"

definition normalize_output ::
  "('x \<Rightarrow> document option) \<Rightarrow> 'x retriever_output \<Rightarrow> retrieval_error + retrieval_output \<times> document list" where
  "normalize_output coerce v =
     (case v of
        Page p \<Rightarrow> Inr (PageOutput p, pg_documents p)
      | Documents xs \<Rightarrow>
          (case those (map (normalize_item coerce) xs) of None \<Rightarrow> Inl InvalidDocument | Some ds \<Rightarrow> Inr (DocumentsOutput ds, ds))
      | NoDocuments \<Rightarrow> Inl BadShape)"

definition retrieval_of :: "string \<Rightarrow> document list \<Rightarrow> retrieval" where
  "retrieval_of i ds = \<lparr>rv_retriever_id = i, rv_document_count = int (length ds), rv_sources = map dc_source ds,
     rv_citations = List.map_filter dc_citation ds\<rparr>"

definition validate_retrieval_output ::
  "('x \<Rightarrow> document option) \<Rightarrow> string \<Rightarrow> bool \<Rightarrow> 'x retriever_output \<Rightarrow> retrieval_error + retrieval_output \<times> retrieval" where
  "validate_retrieval_output coerce i citations_required v =
     (case normalize_output coerce v of
        Inl e \<Rightarrow> Inl e
      | Inr (out, ds) \<Rightarrow>
          if citations_required \<and> (\<exists>d \<in> set ds. dc_citation d = None) then Inl MissingCitation
          else Inr (out, retrieval_of i ds))"

section \<open>What validated output guarantees\<close>

lemma frozen_list_iff: "frozen_list xs \<longleftrightarrow> (\<forall>x \<in> set xs. frozen x)"
  by (induction xs) auto

lemma frozen_items_iff: "frozen_items ps \<longleftrightarrow> (\<forall>p \<in> set ps. frozen (snd p))"
  by (induction ps) auto

lemma frozen_dict:
  assumes "\<And>x w. x \<in> snd ` set ps \<Longrightarrow> freeze_retrieval x = Some w \<Longrightarrow> frozen w"
    and "those (map snd (map (map_prod (\<lambda>k. k) freeze_retrieval) ps)) = Some vs"
  shows "frozen (VProxy (dsorted (zip (map fst ps) vs)))"
proof -
  have "frozen (snd p)" if "p \<in> set (zip (map fst ps) vs)" for p
  proof -
    have "snd p \<in> set vs" using that set_zip_rightD[of "fst p" "snd p" "map fst ps" vs] by simp
    from those_in[OF assms(2) this] assms(1) show ?thesis by force
  qed
  then show ?thesis by (simp add: frozen_items_iff)
qed

lemma frozen_array:
  assumes "\<And>x w. x \<in> set xs \<Longrightarrow> freeze_retrieval x = Some w \<Longrightarrow> frozen w" and "those (map freeze_retrieval xs) = Some ys"
  shows "frozen (VTuple ys)"
  unfolding frozen.simps frozen_list_iff using assms(1) those_map_in[OF assms(2)] by blast

lemma freeze_retrieval_frozen: "freeze_retrieval v = Some w \<Longrightarrow> frozen w"
proof (induction v arbitrary: w)
  case (VDict ps)
  then show ?case using frozen_dict[of ps] by (fastforce simp: snds.simps simp del: frozen.simps)
next
  case (VProxy ps)
  then show ?case using frozen_dict[of ps] by (fastforce simp: snds.simps simp del: frozen.simps)
next
  case (VList xs)
  then show ?case using frozen_array[of xs] by (fastforce simp del: frozen.simps)
next
  case (VTuple xs)
  then show ?case using frozen_array[of xs] by (fastforce simp del: frozen.simps)
qed (auto split: if_splits)

text \<open>A document that the validators accepted.\<close>

definition valid_document :: "document \<Rightarrow> bool" where
  "valid_document d \<longleftrightarrow> strip (dc_text d) \<noteq> [] \<and> strip (dc_source d) \<noteq> [] \<and> \<not> blank (dc_citation d)
     \<and> (case dc_score d of None \<Rightarrow> True | Some x \<Rightarrow> isfinite x) \<and> frozen (dc_metadata d)"

lemma mk_document_valid: "mk_document d = Some e \<Longrightarrow> valid_document e"
  using freeze_retrieval_frozen by (auto simp: mk_document_def valid_document_def split: if_splits option.splits)

fun output_documents :: "retrieval_output \<Rightarrow> document list" where
  "output_documents (PageOutput p) = pg_documents p"
| "output_documents (DocumentsOutput ds) = ds"

fun typed_documents :: "'x retriever_output \<Rightarrow> document set" where
  "typed_documents (Page p) = set (pg_documents p)"
| "typed_documents (Documents xs) = {d. Document d \<in> set xs}"
| "typed_documents NoDocuments = {}"

text \<open>
  Retrieval is governed.  When the documents that a retriever constructed itself passed their
  validators, then every document of a validated output has, and the provenance records exactly, the documents'
  non-blank sources in rank order, their number, and, if citations are required, one non-blank citation for each.
\<close>

theorem retrieval_governed:
  assumes "validate_retrieval_output coerce i required v = Inr (out, rv)" and "\<forall>d \<in> typed_documents v. valid_document d"
  shows "(\<forall>d \<in> set (output_documents out). valid_document d)
     \<and> rv_retriever_id rv = i \<and> rv_document_count rv = int (length (output_documents out))
     \<and> rv_sources rv = map dc_source (output_documents out)
     \<and> (required \<longrightarrow> map Some (rv_citations rv) = map dc_citation (output_documents out))
     \<and> [] \<notin> strip ` set (rv_sources rv @ rv_citations rv)"
proof -
  obtain ds where n: "normalize_output coerce v = Inr (out, ds)" and rv: "rv = retrieval_of i ds"
    and cited: "required \<longrightarrow> (\<forall>d \<in> set ds. dc_citation d \<noteq> None)"
    using assms(1) by (auto simp: validate_retrieval_output_def split: sum.splits if_splits)
  have ds: "output_documents out = ds" using n by (auto simp: normalize_output_def split: retriever_output.splits option.splits)
  have item: "valid_document d" if "normalize_item coerce x = Some d" "x \<in> set xs" "v = Documents xs" for x d xs
    using that assms(2) mk_document_valid by (cases x) (auto split: option.splits)
  have valid: "\<forall>d \<in> set ds. valid_document d"
  proof (cases v)
    case (Page p)
    with n assms(2) show ?thesis by (simp add: normalize_output_def)
  next
    case (Documents xs)
    with n have "those (map (normalize_item coerce) xs) = Some ds" by (auto simp: normalize_output_def split: option.splits)
    with item[OF _ _ Documents] show ?thesis by (metis those_map_in)
  qed (use n in \<open>simp add: normalize_output_def\<close>)
  have cites: "set (List.map_filter dc_citation ds) = {c. \<exists>d \<in> set ds. dc_citation d = Some c}"
    by (induction ds) (auto simp: List.map_filter_simps split: option.splits)
  have all: "\<forall>d \<in> set es. dc_citation d \<noteq> None \<Longrightarrow> map Some (List.map_filter dc_citation es) = map dc_citation es" for es
    by (induction es) (auto simp: List.map_filter_simps)
  have "strip (dc_source d) \<noteq> []" "dc_citation d = Some c \<Longrightarrow> strip c \<noteq> []" if "d \<in> set ds" for d c
    using valid that by (auto simp: valid_document_def blank_def)
  then have "\<forall>s \<in> set (map dc_source ds @ List.map_filter dc_citation ds). strip s \<noteq> []"
    unfolding set_append set_map cites by blast
  then have "[] \<notin> strip ` set (map dc_source ds @ List.map_filter dc_citation ds)" unfolding image_iff by metis
  with valid show ?thesis using cited all unfolding ds rv retrieval_of_def retrieval.select_convs by blast
qed

definition sample_document :: document where
  "sample_document = \<lparr>dc_text = ''refunds take five days'', dc_source = ''kb/7'', dc_citation = Some ''p. 2'', dc_score = None,
     dc_metadata = VProxy []\<rparr>"

theorem retrieval_governed_witness:
  "\<exists>out rv. validate_retrieval_output (\<lambda>_ :: unit. Some sample_document) ''search'' True (Documents [Other (), Document sample_document]) = Inr (out, rv)
     \<and> map Some (rv_citations rv) = [Some ''p. 2'', Some ''p. 2''] \<and> rv_document_count rv = 2"
proof -
  have "strip ''refunds take five days'' \<noteq> []" "strip ''kb/7'' \<noteq> []" "strip ''p. 2'' \<noteq> []" by code_simp+
  then have mk: "mk_document sample_document = Some sample_document" and valid: "valid_document sample_document"
    by (simp_all add: mk_document_def valid_document_def sample_document_def blank_def dsorted_def)
  obtain out rv where v: "validate_retrieval_output (\<lambda>_ :: unit. Some sample_document) ''search'' True
      (Documents [Other (), Document sample_document]) = Inr (out, rv)" and out: "output_documents out = [sample_document, sample_document]"
    using mk by (simp add: validate_retrieval_output_def normalize_output_def sample_document_def)
  from retrieval_governed[OF v] valid out v show ?thesis by (simp add: sample_document_def)
qed

end
