(* ===== verification/Invocation.thy ===== *)
theory Invocation
  imports Pipeline RunState ModelSelection Retrieval
begin

text \<open>
  The invocation of a capability: \<open>core/runtime_context.py\<close> (the context of an invocation and the authority it inherits),
  \<open>core/invocation.py\<close> (validation, authorization, execution and the classification of every outcome),
  \<open>core/capability_errors.py\<close>, and \<open>core/runtime_invocation.py\<close> (delegation of the caller's authorization, resumption of
  approved invocations, normalization of security failures).

  A capability is a function of the machine: what it does to the application, the run state of its context, and to
  the services is unrestricted, since it may itself invoke others.  The parts of \<open>asyncio\<close> that the pipeline observes
  are the ways in which waiting for the capability ends (\<open>body_end\<close>).  Spans and log events are omitted.
\<close>

section \<open>Errors of capabilities\<close>

text \<open>
  An exception raised by a capability: an error of the capability taxonomy (class, code and text), a malformed
  model output, another provider error, or anything else, of which the class name is kept.
\<close>

datatype capability_exn =
    CapabilityErr string string string
  | MalformedStructuredOutput
  | ProviderErr string
  | OtherExn string

fun exn_class :: "capability_exn \<Rightarrow> string" where
  "exn_class (CapabilityErr c _ _) = c"
| "exn_class MalformedStructuredOutput = ''MalformedStructuredOutputError''"
| "exn_class (ProviderErr c) = c"
| "exn_class (OtherExn c) = c"

definition invalid_input_code :: string where
  "invalid_input_code = ''invalid_capability_input''"

definition output_invariant_code :: string where
  "output_invariant_code = ''unsatisfied_output_invariant''"

definition named_capability :: "string \<Rightarrow> string" where
  "named_capability cap = ''Capability '' @ [CHR 0x27] @ cap @ [CHR 0x27]"

definition malformed_output_error :: "string \<Rightarrow> capability_exn" where
  "malformed_output_error cap = CapabilityErr ''MalformedModelOutputError'' ''malformed_model_output''
     (named_capability cap @ '' output is malformed: Model output is malformed'')"

definition transport_error :: "string \<Rightarrow> capability_exn" where
  "transport_error cap = CapabilityErr ''CapabilityTransportError'' ''capability_transport_failure''
     (named_capability cap @ '' model transport failed'')"

definition output_invariant_error :: "string \<Rightarrow> capability_exn" where
  "output_invariant_error cap = CapabilityErr ''OutputInvariantError'' output_invariant_code
     (named_capability cap @ '' output invariant failed: Output invariant is unsatisfied'')"

fun map_provider_error :: "capability_exn \<Rightarrow> string \<Rightarrow> capability_exn option" where
  "map_provider_error MalformedStructuredOutput cap = Some (malformed_output_error cap)"
| "map_provider_error (ProviderErr _) cap = Some (transport_error cap)"
| "map_provider_error _ _ = None"

text \<open>The error of the taxonomy that an exception counts as, with its code and text.\<close>

definition taxonomy :: "string \<Rightarrow> capability_exn \<Rightarrow> (string \<times> string \<times> string) option" where
  "taxonomy cap e =
     (case (case e of CapabilityErr c k m \<Rightarrow> Some e | _ \<Rightarrow> map_provider_error e cap) of
        Some (CapabilityErr c k m) \<Rightarrow> Some (c, k, m) | _ \<Rightarrow> None)"

section \<open>The machine\<close>

text \<open>
  \<open>mc_run\<close> is the run state of the context that is active in the calling task (when there is none, only its
  context variables and its clock matter).  \<open>mc_detached\<close> lists the executions that were left running.
\<close>

record ('s, 'm, 'a) machine =
  mc_run :: run_state
  mc_world :: "('s, 'm, 'a) world"
  mc_ids :: nat
  mc_closed :: bool
  mc_detached :: "(string \<times> string) list"

datatype interruption = CancelledByState | DeadlinePassed | CancelledInside | CancelledOutside

datatype body_value = PlainValue result_value | RetrieverValue "result_value retriever_output"

datatype body_end = Returned body_value | Raised capability_exn | Interrupted interruption

type_synonym ('s, 'm, 'a) body = "json_object \<Rightarrow> run_context \<Rightarrow> ('s, 'm, 'a) machine \<Rightarrow> body_end \<times> ('s, 'm, 'a) machine"

text \<open>
  A registered method: the guardrails attached to it, the validation of its arguments by its parameter model (\<open>Inl\<close> the
  details of the errors), whether it is a retriever that requires citations, and its metadata.
\<close>

record ('s, 'm, 'a) registered_method =
  cb_function :: nat
  cb_guardrails :: "guardrails option"
  cb_validate :: "pyval \<Rightarrow> pyval list + json_object"
  cb_retriever :: "bool option"
  cb_model_required :: "bool option"
  cb_instructions :: "string option"
  cb_target :: "('s, 'm, 'a) body"

record ('s, 'm, 'a) agent_object =
  ag_name :: string
  ag_instructions :: "string option"
  ag_config :: agent_model_config
  ag_capabilities :: "(string, ('s, 'm, 'a) registered_method) dict"

record ('s, 'm, 'priv, 'key) runtime_env =
  en_pipeline :: "('s, 'm, 'priv, 'key) pipeline"
  en_lookup :: "string \<Rightarrow> provider_registration option"
  en_policy :: "(policy_context \<Rightarrow> bool) option"
  en_config :: runtime_config
  en_digest :: "string \<Rightarrow> string"
  en_new_id :: "nat \<Rightarrow> string"
  en_float :: "pyfloat \<Rightarrow> string"
  en_coerce :: "result_value \<Rightarrow> document option"

datatype invoke_error =
  Sec sec_error | Resolution resolution_error | InvokeRaised py_error | CallerCancelled | AssertionFailed | RuntimeClosed

definition secM :: "(('s, 'm, 'a) world, sec_error, 'r) prog \<Rightarrow> (('s, 'm, 'a) machine, invoke_error, 'r) prog" where
  "secM p m = (case p (mc_world m) of (r, w) \<Rightarrow> (map_sum Sec (\<lambda>x. x) r, m\<lparr>mc_world := w\<rparr>))"

definition on_run :: "(run_state \<Rightarrow> 'r \<times> run_state) \<Rightarrow> (('s, 'm, 'a) machine, invoke_error, 'r) prog" where
  "on_run f m = (case f (mc_run m) of (r, u) \<Rightarrow> (Inr r, m\<lparr>mc_run := u\<rparr>))"

text \<open>\<open>uuid4\<close> and \<open>time.monotonic\<close>.\<close>

definition fresh_id :: "('s, 'm, 'priv, 'key) runtime_env \<Rightarrow> (('s, 'm, 'a) machine, invoke_error, string) prog" where
  "fresh_id env m = (Inr (en_new_id env (mc_ids m)), m\<lparr>mc_ids := Suc (mc_ids m)\<rparr>)"

definition monotonic :: "(('s, 'm, 'a) machine, invoke_error, time) prog" where
  "monotonic = on_run (\<lambda>u. case tick (ru_clock u) of (t, c) \<Rightarrow> (t, u\<lparr>ru_clock := c\<rparr>))"

text \<open>\<open>x or fresh\<close>.\<close>

definition or_fresh :: "('s, 'm, 'priv, 'key) runtime_env \<Rightarrow> string \<Rightarrow> (('s, 'm, 'a) machine, invoke_error, string) prog" where
  "or_fresh env s = (if s = [] then fresh_id env else retS s)"

section \<open>The context of an invocation\<close>

definition timeout_seconds :: "pyval option \<Rightarrow> time option" where
  "timeout_seconds t = (case t of Some (VInt i) \<Rightarrow> Some (of_int i) | Some (VFloat q) \<Rightarrow> Some (fin_val q) | _ \<Rightarrow> None)"

record context_request =
  cr_agent_id :: string
  cr_run :: run_config
  cr_model :: "resolved_model option"
  cr_correlation_id :: string
  cr_run_id :: string
  cr_authorization :: "authorization_context option"
  cr_allowed :: "string set option"
  cr_frame :: "(string \<times> string) option"
  cr_chain :: "string list"

text \<open>The deadline and the timeout: \<open>parent\<close> is the active context, if the runtime created it.\<close>

definition effective_deadline ::
  "run_context option \<Rightarrow> time option \<Rightarrow> (('s, 'm, 'a) machine, invoke_error, time option \<times> time option) prog" where
  "effective_deadline parent timeout =
     bindS (case timeout of None \<Rightarrow> retS None | Some t \<Rightarrow> bindS monotonic (\<lambda>now. retS (Some (now + t)))) (\<lambda>requested.
     case (case parent of None \<Rightarrow> None | Some p \<Rightarrow> rx_deadline p) of
       None \<Rightarrow> retS (requested, timeout)
     | Some d \<Rightarrow>
         let deadline = (case requested of None \<Rightarrow> d | Some r \<Rightarrow> min r d) in
         bindS monotonic (\<lambda>now. retS (Some deadline, Some (max 0 (deadline - now)))))"

definition effective_allowed :: "run_context option \<Rightarrow> string set option \<Rightarrow> sec_error + string set option" where
  "effective_allowed parent requested =
     (case (case parent of None \<Rightarrow> None | Some p \<Rightarrow> rx_allowed p) of
        None \<Rightarrow> Inr requested
      | Some bound \<Rightarrow> (case requested of
            None \<Rightarrow> Inr (Some bound)
          | Some caps \<Rightarrow> if \<not> caps \<subseteq> bound then Inl SecurityError else Inr (Some caps)))"

definition effective_run_id ::
  "('s, 'm, 'priv, 'key) runtime_env \<Rightarrow> run_context option \<Rightarrow> context_request \<Rightarrow> (('s, 'm, 'a) machine, invoke_error, string) prog" where
  "effective_run_id env parent q =
     (if cr_run_id q \<noteq> [] then retS (cr_run_id q)
      else case parent of Some _ \<Rightarrow> fresh_id env
        | None \<Rightarrow> (case cr_authorization q of Some a \<Rightarrow> retS (ac_task_id a) | None \<Rightarrow> fresh_id env))"

text \<open>\<open>build_run_context\<close>; the identity of the new context object is drawn from the same supply as the identifiers.\<close>

definition build_run_context ::
  "('s, 'm, 'priv, 'key) runtime_env \<Rightarrow> run_context option \<Rightarrow> context_request \<Rightarrow> (('s, 'm, 'a) machine, invoke_error, run_context) prog" where
  "build_run_context env parent q =
     bindS (effective_deadline parent (timeout_seconds (rn_timeout (cr_run q)))) (\<lambda>(deadline, timeout).
     bindS (effective_run_id env parent q) (\<lambda>run_id.
     if (case cr_authorization q of None \<Rightarrow> False
         | Some a \<Rightarrow> cr_correlation_id q \<noteq> [] \<and> ac_correlation_id a \<noteq> cr_correlation_id q)
     then raiseS (Sec SecurityError)
     else (case effective_allowed parent (cr_allowed q) of
       Inl e \<Rightarrow> raiseS (Sec e)
     | Inr allowed \<Rightarrow>
         bindS (or_fresh env (cr_correlation_id q)) (\<lambda>correlation.
         bindS (getS mc_ids) (\<lambda>i. thenS (modifyS (\<lambda>m. m\<lparr>mc_ids := Suc i\<rparr>))
           (retS (mk_run_context \<lparr>rx_id = i, rx_run_id = run_id, rx_correlation_id = correlation,
              rx_model = map_option (\<lambda>r. (rm_reference r, rm_provider r, rm_source r)) (cr_model q),
              rx_timeout = timeout, rx_deadline = deadline, rx_metadata = rn_metadata (cr_run q),
              rx_agent_id = cr_agent_id q, rx_parent_run_id = map_option rx_run_id parent,
              rx_path = (case parent of None \<Rightarrow> [] | Some p \<Rightarrow> rx_path p)
                @ (case cr_frame q of None \<Rightarrow> [] | Some f \<Rightarrow> [f]),
              rx_allowed = allowed, rx_authorization = cr_authorization q, rx_chain = cr_chain q\<rparr>)))))))"

text \<open>
  The run state of the new context: its own recorders and activation state; the budget and the cancellation flag are
  the parent's, or, for a root, those that the application passes or new ones.
\<close>

definition default_budget :: delegation_budget where
  "default_budget = \<lparr>bu_max_depth = 8, bu_calls = 32, bu_tokens = None, bu_cost = None\<rparr>"

definition child_run :: "bool \<Rightarrow> delegation_budget option \<Rightarrow> bool \<Rightarrow> run_state \<Rightarrow> run_state" where
  "child_run inherits budget cancelled u =
     \<lparr>ru_budget = (if inherits then ru_budget u else case budget of None \<Rightarrow> default_budget | Some b \<Rightarrow> b),
      ru_calls = [], ru_retrievals = [], ru_cancelled = (if inherits then ru_cancelled u else cancelled),
      ru_invocation = init_invocation_state, ru_current = ru_current u, ru_clock = ru_clock u\<rparr>"

text \<open>What the caller's run state is after the invocation: the shared parts as the invocation left them.\<close>

definition rejoin :: "bool \<Rightarrow> run_state \<Rightarrow> run_state \<Rightarrow> run_state" where
  "rejoin inherits child u =
     (let v = u\<lparr>ru_current := ru_current child, ru_clock := ru_clock child\<rparr> in
      if inherits then v\<lparr>ru_budget := ru_budget child, ru_cancelled := ru_cancelled child\<rparr> else v)"

text \<open>\<open>with use_run_context(context)\<close> in task \<open>c\<close>: the context is left on every exit, exceptions included.\<close>

definition in_context ::
  "nat \<Rightarrow> run_context \<Rightarrow> bool \<Rightarrow> delegation_budget option \<Rightarrow> bool \<Rightarrow> (('s, 'm, 'a) machine, invoke_error, 'r) prog
   \<Rightarrow> (('s, 'm, 'a) machine, invoke_error, 'r) prog" where
  "in_context c x inherits budget cancelled p m =
     (let (tokens, u) = enter_context c x (child_run inherits budget cancelled (mc_run m));
          (r, m1) = p (m\<lparr>mc_run := u\<rparr>) in
      (r, m1\<lparr>mc_run := rejoin inherits (leave_context c tokens (mc_run m1)) (mc_run m)\<rparr>))"

section \<open>What is invoked\<close>

datatype capability_ref = CapName string | CapCallable nat bool string

definition stable_skill_id :: "(string \<Rightarrow> string) \<Rightarrow> string \<Rightarrow> string \<Rightarrow> string" where
  "stable_skill_id digest agent cap = ''conducto-'' @ take 16 (digest (agent @ '':'' @ cap))"

text \<open>
  \<open>_resolve_capability\<close>: by name, then by public identifier; or by the identity of a function, unless it is bound to
  another object.
\<close>

definition resolve_capability ::
  "(string \<Rightarrow> string) \<Rightarrow> ('s, 'm, 'a) agent_object \<Rightarrow> capability_ref \<Rightarrow> (string \<times> ('s, 'm, 'a) registered_method) option" where
  "resolve_capability digest ag ref =
     (case ref of
        CapName s \<Rightarrow> (case dget (ag_capabilities ag) s of Some r \<Rightarrow> Some (s, r)
          | None \<Rightarrow> List.find (\<lambda>(n, _). stable_skill_id digest (ag_name ag) n = s) (ag_capabilities ag))
      | CapCallable f foreign _ \<Rightarrow>
          if foreign then None else List.find (\<lambda>(_, r). cb_function r = f) (ag_capabilities ag))"

fun capability_id :: "capability_ref \<Rightarrow> string" where
  "capability_id (CapName s) = s"
| "capability_id (CapCallable _ _ s) = s"

text \<open>\<open>_validated_timeout\<close>: integers that a float cannot hold are refused.\<close>

definition validated_timeout :: "pyval option \<Rightarrow> py_error + time option" where
  "validated_timeout t =
     (case t of None \<Rightarrow> Inr None
      | Some (VInt i) \<Rightarrow> if i \<le> 0 \<or> 2 ^ 1024 - 2 ^ 970 \<le> i then Inl ValueError else Inr (Some (of_int i))
      | Some (VFloat x) \<Rightarrow> if \<not> isfinite x \<or> fin_val x \<le> 0 then Inl ValueError else Inr (Some (fin_val x))
      | Some _ \<Rightarrow> Inl ValueError)"

text \<open>The agent's model configuration, narrowed by what the capability declares.\<close>

definition capability_config :: "agent_model_config \<Rightarrow> bool option \<Rightarrow> agent_model_config" where
  "capability_config ac needed =
     (case needed of None \<Rightarrow> ac
      | Some b \<Rightarrow> ac\<lparr>am_requirement := (if b then REQUIRED_MODEL else NO_MODEL),
                    am_required_capabilities := (if b then am_required_capabilities ac else {})\<rparr>)"

definition default_run_config :: run_config where
  "default_run_config = \<lparr>rn_model = None, rn_timeout = None, rn_metadata = VProxy [], rn_caller = None, rn_environment = None,
     rn_cost_tier = None, rn_data_classification = None\<rparr>"

text \<open>\<open>Runtime.create_run_context\<close>.\<close>

definition create_run_context ::
  "('s, 'm, 'priv, 'key) runtime_env \<Rightarrow> run_context option \<Rightarrow> agent_model_config \<Rightarrow> string option \<Rightarrow> context_request
   \<Rightarrow> (('s, 'm, 'a) machine, invoke_error, run_context) prog" where
  "create_run_context env parent ac override q =
     bindS (getS mc_closed) (\<lambda>closed.
     if closed then raiseS RuntimeClosed
     else (case resolve_binding (en_lookup env) (en_policy env) (cr_agent_id q) ac (cr_run q) (en_config env) override
               (am_required_capabilities ac) of
         Inl e \<Rightarrow> raiseS (Resolution e)
       | Inr model \<Rightarrow> build_run_context env parent (q\<lparr>cr_model := model\<rparr>)))"

section \<open>Execution and the classification of its outcome\<close>

record invocation =
  in_ctx :: run_context
  in_correlation :: string
  in_capability :: string

definition site_of :: "invocation \<Rightarrow> invocation_site" where
  "site_of iv = \<lparr>is_agent = rx_agent_id (in_ctx iv), is_capability = in_capability iv, is_chain = rx_chain (in_ctx iv)\<rparr>"

definition emit_exec ::
  "('s, 'm, 'priv, 'key) runtime_env \<Rightarrow> invocation \<Rightarrow> audit_event_name \<Rightarrow> audit_outcome \<Rightarrow> string \<Rightarrow> string option
   \<Rightarrow> (string \<times> pyval) list \<Rightarrow> (('s, 'm, 'a) machine, invoke_error, unit) prog" where
  "emit_exec env iv name outcome reason classification extensions =
     secM (emit_execution (en_pipeline env) name (rx_authorization (in_ctx iv)) (site_of iv) outcome reason classification extensions)"

text \<open>The result with the metadata of the run as it is now.\<close>

definition with_metadata ::
  "invocation \<Rightarrow> string option \<Rightarrow> (invocation_metadata option \<Rightarrow> invocation_result)
   \<Rightarrow> (('s, 'm, 'a) machine, invoke_error, invocation_result) prog" where
  "with_metadata iv classification mk =
     getS (\<lambda>m. mk (Some (build_invocation_metadata None classification (in_ctx iv) (mc_run m))))"

definition failed ::
  "('s, 'm, 'priv, 'key) runtime_env \<Rightarrow> invocation \<Rightarrow> audit_outcome \<Rightarrow> string \<Rightarrow> string option
   \<Rightarrow> (invocation_metadata option \<Rightarrow> invocation_result) \<Rightarrow> (('s, 'm, 'a) machine, invoke_error, invocation_result) prog" where
  "failed env iv outcome reason classification mk =
     thenS (emit_exec env iv EXECUTION_FAILED outcome reason classification []) (with_metadata iv classification mk)"

text \<open>What a capability returned, as a value and as the output of a retriever; the library writes models as dictionaries.\<close>

fun of_pyval :: "pyval \<Rightarrow> result_value"
  and of_pyvals :: "pyval list \<Rightarrow> result_value list"
  and of_items :: "(string \<times> pyval) list \<Rightarrow> (string option \<times> result_value) list" where
  "of_pyval VNone = RNone"
| "of_pyval (VBool b) = RBool b"
| "of_pyval (VInt i) = RInt i"
| "of_pyval (VFloat x) = RFloat x"
| "of_pyval (VStr s) = RStr s"
| "of_pyval (VList xs) = RArray (of_pyvals xs)"
| "of_pyval (VTuple xs) = RArray (of_pyvals xs)"
| "of_pyval (VSet xs) = RSet (of_pyvals xs)"
| "of_pyval (VFrozenSet xs) = RSet (of_pyvals xs)"
| "of_pyval (VDict kvs) = RMapping (of_items kvs)"
| "of_pyval (VProxy kvs) = RMapping (of_items kvs)"
| "of_pyval (VObject c) = ROther c"
| "of_pyvals [] = []"
| "of_pyvals (x # xs) = of_pyval x # of_pyvals xs"
| "of_items [] = []"
| "of_items ((k, x) # kvs) = (Some k, of_pyval x) # of_items kvs"

definition document_value :: "document \<Rightarrow> result_value" where
  "document_value d = RModel (Some (of_pyval (VDict [(''text'', VStr (dc_text d)), (''source'', VStr (dc_source d)),
     (''citation'', opt_dict VStr (dc_citation d)), (''score'', opt_dict VFloat (dc_score d)),
     (''metadata'', thaw_retrieval (dc_metadata d))])))"

definition page_value :: "retrieval_page \<Rightarrow> result_value" where
  "page_value p = RModel (Some (RMapping [(Some ''documents'', RArray (map document_value (pg_documents p))),
     (Some ''next_cursor'', of_pyval (opt_dict VStr (pg_next_cursor p))),
     (Some ''metadata'', of_pyval (thaw_retrieval (pg_metadata p)))]))"

fun item_value :: "result_value retriever_item \<Rightarrow> result_value" where
  "item_value (Document d) = document_value d"
| "item_value (Other v) = v"

fun plain_value :: "body_value \<Rightarrow> result_value" where
  "plain_value (PlainValue v) = v"
| "plain_value (RetrieverValue (Page p)) = page_value p"
| "plain_value (RetrieverValue (Documents xs)) = RArray (map item_value xs)"
| "plain_value (RetrieverValue NoDocuments) = ROther ''object''"

fun as_output :: "body_value \<Rightarrow> result_value retriever_output" where
  "as_output (PlainValue (RArray xs)) = Documents (map Other xs)"
| "as_output (PlainValue _) = NoDocuments"
| "as_output (RetrieverValue out) = out"

fun output_value :: "retrieval_output \<Rightarrow> result_value" where
  "output_value (PageOutput p) = page_value p"
| "output_value (DocumentsOutput ds) = RArray (map document_value ds)"

text \<open>The value of a successful invocation, or the text and the class of the violated invariant.\<close>

fun retrieval_message :: "string \<Rightarrow> retrieval_error \<Rightarrow> string" where
  "retrieval_message i BadShape = ''Retriever results must be a RetrievalResult or document sequence''"
| "retrieval_message i InvalidDocument = ''Invalid retrieved document: ''"
| "retrieval_message i MissingCitation = ''Retriever '' @ [CHR 0x27] @ i @ [CHR 0x27] @ '' requires a citation for every document''"

definition accept_output ::
  "('s, 'm, 'priv, 'key) runtime_env \<Rightarrow> string \<Rightarrow> bool option \<Rightarrow> body_value
   \<Rightarrow> (string \<times> string) + result_value \<times> retrieval option" where
  "accept_output env cap retriever v =
     (case retriever of None \<Rightarrow> Inr (plain_value v, None)
      | Some cited \<Rightarrow> (case validate_retrieval_output (en_coerce env) cap cited (as_output v) of
          Inl e \<Rightarrow> Inl (retrieval_message cap e, ''RetrievalValidationError'')
        | Inr (out, rv) \<Rightarrow> Inr (output_value out, Some rv)))"

definition completion_extensions :: "retrieval option \<Rightarrow> (string \<times> pyval) list" where
  "completion_extensions rv = (case rv of None \<Rightarrow> []
     | Some r \<Rightarrow> [(''retrieval_document_count'', VInt (rv_document_count r)),
         (''retrieval_source_count'', VInt (int (card (set (rv_sources r)))))])"

text \<open>The class names of the exceptions that the pipeline can meet while it reports completion.\<close>

fun py_class :: "py_error \<Rightarrow> string" where
  "py_class ValueError = ''ValueError''"
| "py_class TypeError = ''TypeError''"
| "py_class KeyError = ''KeyError''"
| "py_class RuntimeError = ''RuntimeError''"
| "py_class TimeoutError = ''TimeoutError''"
| "py_class RecursionError = ''RecursionError''"
| "py_class AttributeError = ''AttributeError''"

fun sec_class :: "sec_error \<Rightarrow> string" where
  "sec_class SecurityError = ''SecurityError''"
| "sec_class MissingAuthorizationContext = ''MissingAuthorizationContextError''"
| "sec_class InsufficientScope = ''InsufficientScopeError''"
| "sec_class ApprovalRequired = ''ApprovalRequiredError''"
| "sec_class AuthorizationDenied = ''AuthorizationDeniedError''"
| "sec_class ApprovalExpired = ''ApprovalExpiredError''"
| "sec_class TaskCanceled = ''TaskCanceledError''"
| "sec_class InvalidApprovalState = ''InvalidApprovalStateError''"
| "sec_class PolicyEvaluation = ''PolicyEvaluationError''"
| "sec_class ApprovalTokenGeneric = ''ApprovalTokenError''"
| "sec_class MalformedApprovalToken = ''MalformedApprovalTokenError''"
| "sec_class UnsupportedApprovalToken = ''UnsupportedApprovalTokenError''"
| "sec_class UnknownApprovalKey = ''UnknownApprovalKeyError''"
| "sec_class InvalidApprovalSignature = ''InvalidApprovalSignatureError''"
| "sec_class PrematureApprovalToken = ''PrematureApprovalTokenError''"
| "sec_class ApprovalTokenExpired = ''ApprovalTokenExpiredError''"
| "sec_class ApprovalTokenBinding = ''ApprovalTokenBindingError''"
| "sec_class ApprovalTokenRole = ''ApprovalTokenRoleError''"
| "sec_class ApprovalTokenReplay = ''ApprovalTokenReplayError''"
| "sec_class (AuditDelivery _) = ''AuditDeliveryError''"
| "sec_class (Foreign e) = py_class e"

text \<open>After the capability returned: an exception while the completion is reported does not reach the caller.\<close>

definition completion_failed ::
  "('s, 'm, 'priv, 'key) runtime_env \<Rightarrow> invocation \<Rightarrow> invoke_error \<Rightarrow> (('s, 'm, 'a) machine, invoke_error, invocation_result) prog" where
  "completion_failed env iv e =
     (case e of
        Sec (AuditDelivery r) \<Rightarrow> with_metadata iv None (InvocationAuditFailure (in_correlation iv) (reason_code (AuditDelivery r)))
      | Sec s \<Rightarrow> failed env iv FAILURE ''internal_error'' None
            (InvocationInternalFailure (in_correlation iv) ''internal_error'' (sec_class s))
      | other \<Rightarrow> raiseS other)"

definition output_violated ::
  "('s, 'm, 'priv, 'key) runtime_env \<Rightarrow> invocation \<Rightarrow> string \<times> string \<Rightarrow> (('s, 'm, 'a) machine, invoke_error, invocation_result) prog" where
  "output_violated env iv e = failed env iv FAILURE output_invariant_code (Some output_invariant_code)
     (\<lambda>md. InvocationFailure (in_correlation iv) (fst e) (snd e) md (Some output_invariant_code))"

definition returned ::
  "('s, 'm, 'priv, 'key) runtime_env \<Rightarrow> invocation \<Rightarrow> bool option \<Rightarrow> body_value
   \<Rightarrow> (('s, 'm, 'a) machine, invoke_error, invocation_result) prog" where
  "returned env iv retriever v =
     (case accept_output env (in_capability iv) retriever v of
        Inl e \<Rightarrow> output_violated env iv e
      | Inr (value, rv) \<Rightarrow>
          thenS (case rv of None \<Rightarrow> retS () | Some r \<Rightarrow> on_run (\<lambda>u. ((), snd (record_retrieval r u))))
          (case serialize_result (en_float env) value of
             None \<Rightarrow> output_violated env iv (case output_invariant_error (in_capability iv) of CapabilityErr c _ m \<Rightarrow> (m, c) | e \<Rightarrow> ([], exn_class e))
           | Some w \<Rightarrow>
               catchS (thenS (emit_exec env iv EXECUTION_COMPLETED SUCCESS ''completed'' None (completion_extensions rv))
                   (with_metadata iv None (InvocationSuccess (in_correlation iv) w unknown_usage)))
                 (completion_failed env iv)))"

definition conclude ::
  "('s, 'm, 'priv, 'key) runtime_env \<Rightarrow> invocation \<Rightarrow> bool option \<Rightarrow> body_end
   \<Rightarrow> (('s, 'm, 'a) machine, invoke_error, invocation_result) prog" where
  "conclude env iv retriever e =
     (let corr = in_correlation iv in
      case e of
        Returned v \<Rightarrow> returned env iv retriever v
      | Raised ex \<Rightarrow>
          (case taxonomy (in_capability iv) ex of
             Some (cls, code, msg) \<Rightarrow> failed env iv FAILURE (reason_or code ''capability_exception'') (Some code)
                 (\<lambda>md. InvocationFailure corr msg cls md (Some code))
           | None \<Rightarrow> failed env iv FAILURE ''capability_exception'' None
                 (\<lambda>md. InvocationFailure corr ''Capability execution failed'' (exn_class ex) md None))
      | Interrupted CancelledByState \<Rightarrow> with_metadata iv None (InvocationCancelled corr)
      | Interrupted CancelledInside \<Rightarrow> with_metadata iv None (InvocationCancelled corr)
      | Interrupted CancelledOutside \<Rightarrow> raiseS CallerCancelled
      | Interrupted DeadlinePassed \<Rightarrow>
          (case rx_timeout (in_ctx iv) of None \<Rightarrow> raiseS AssertionFailed
           | Some t \<Rightarrow> failed env iv FAILURE ''timeout'' None (InvocationTimeout corr t)))"

text \<open>
  \<open>execute\<close> ends the invocation's access to models when the capability has returned or raised.  When the deadline has
  passed already by the time the remaining time is read, the task that was created for the capability is neither awaited nor cancelled.
\<close>

definition end_access :: "run_state \<Rightarrow> run_state" where
  "end_access u = u\<lparr>ru_invocation := snd (deactivate 0 None (ru_invocation u))\<rparr>"

definition run_target ::
  "('s, 'm, 'a) body \<Rightarrow> json_object \<Rightarrow> run_context \<Rightarrow> ('s, 'm, 'a) machine \<Rightarrow> body_end \<times> ('s, 'm, 'a) machine" where
  "run_target target args x m =
     (case target args x m of (e, m1) \<Rightarrow>
        (e, case e of Interrupted _ \<Rightarrow> m1 | _ \<Rightarrow> m1\<lparr>mc_run := end_access (mc_run m1)\<rparr>))"

definition await_target ::
  "('s, 'm, 'a) body \<Rightarrow> json_object \<Rightarrow> invocation \<Rightarrow> (('s, 'm, 'a) machine, invoke_error, body_end) prog" where
  "await_target target args iv m =
     (case context_remaining_timeout (in_ctx iv) (mc_run m) of
        (Inl _, u) \<Rightarrow> (Inr (Interrupted DeadlinePassed),
            m\<lparr>mc_run := u, mc_detached := mc_detached m @ [(rx_agent_id (in_ctx iv), in_capability iv)]\<rparr>)
      | (Inr _, u) \<Rightarrow> (case run_target target args (in_ctx iv) (m\<lparr>mc_run := u\<rparr>) of (e, m1) \<Rightarrow> (Inr e, m1)))"

definition execute ::
  "('s, 'm, 'priv, 'key) runtime_env \<Rightarrow> invocation \<Rightarrow> ('s, 'm, 'a) registered_method \<Rightarrow> json_object
   \<Rightarrow> (('s, 'm, 'a) machine, invoke_error, invocation_result) prog" where
  "execute env iv reg args =
     thenS (emit_exec env iv EXECUTION_STARTED SUCCESS ''started'' None [])
       (bindS (await_target (cb_target reg) args iv) (conclude env iv (cb_retriever reg)))"

section \<open>The pipeline of an invocation\<close>

text \<open>The text of the argument \<open>query\<close> of a retriever, when it is a string.\<close>

fun query_text :: "json_object \<Rightarrow> string option" where
  "query_text args = (case dget args ''query'' of
       Some (VStr s) \<Rightarrow> Some s
     | Some (VProxy q) \<Rightarrow> (case dget q ''query'' of Some (VStr s) \<Rightarrow> Some s | _ \<Rightarrow> None)
     | _ \<Rightarrow> None)"

definition empty_query_error :: "string \<Rightarrow> pyval" where
  "empty_query_error text = freeze_mapping (VDict [(''type'', VStr ''value_error''), (''loc'', VTuple [VStr ''query'']),
     (''msg'', VStr ''Value error, query must not be empty''), (''input'', VStr text)])"

definition invalid_arguments ::
  "('s, 'm, 'priv, 'key) runtime_env \<Rightarrow> invocation \<Rightarrow> pyval list \<Rightarrow> (('s, 'm, 'a) machine, invoke_error, invocation_result) prog" where
  "invalid_arguments env iv errors =
     failed env iv REJECTED invalid_input_code (Some invalid_input_code) (InvocationValidationFailure (in_correlation iv) errors)"

definition authorize_and_execute ::
  "('s, 'm, 'priv, 'key) runtime_env \<Rightarrow> invocation \<Rightarrow> ('s, 'm, 'a) registered_method \<Rightarrow> json_object \<Rightarrow> string option
   \<Rightarrow> (('s, 'm, 'a) machine, invoke_error, invocation_result) prog" where
  "authorize_and_execute env iv reg args approved =
     bindS (secM (check_async (en_pipeline env) (cb_guardrails reg) (rx_authorization (in_ctx iv)) args (site_of iv) approved)) (\<lambda>r.
     if rs_allowed r then execute env iv reg args
     else (case rs_challenge r of
         Some ch \<Rightarrow> with_metadata iv None (InvocationApprovalRequired (in_correlation iv) ch)
       | None \<Rightarrow> (case rs_error r of
           None \<Rightarrow> raiseS AssertionFailed
         | Some e \<Rightarrow> with_metadata iv None (InvocationAuthorizationFailure (in_correlation iv) (reason_code e)))))"

definition run_invocation ::
  "('s, 'm, 'priv, 'key) runtime_env \<Rightarrow> invocation \<Rightarrow> ('s, 'm, 'a) registered_method \<Rightarrow> pyval \<Rightarrow> string option
   \<Rightarrow> (('s, 'm, 'a) machine, invoke_error, invocation_result) prog" where
  "run_invocation env iv reg arguments approved =
     bindS (getS (\<lambda>m. ru_cancelled (mc_run m))) (\<lambda>cancelled.
     if cancelled then with_metadata iv None (InvocationCancelled (in_correlation iv))
     else (case cb_validate reg arguments of
         Inl errors \<Rightarrow> invalid_arguments env iv (map freeze_mapping errors)
       | Inr args \<Rightarrow>
           (case (if cb_retriever reg = None then None else query_text args) of
              Some text \<Rightarrow> if strip text = [] then invalid_arguments env iv [empty_query_error text]
                  else authorize_and_execute env iv reg args approved
            | None \<Rightarrow> authorize_and_execute env iv reg args approved)))"

record invoke_request =
  iq_capability :: capability_ref
  iq_arguments :: pyval
  iq_timeout :: "pyval option"
  iq_correlation :: string
  iq_model :: "string option"
  iq_run :: "run_config option"
  iq_authorization :: "authorization_context option"
  iq_approved :: "string option"
  iq_allowed :: "string set option"
  iq_budget :: "delegation_budget option"
  iq_cancelled :: bool

definition is_mapping :: "pyval \<Rightarrow> bool" where
  "is_mapping v = (case v of VDict _ \<Rightarrow> True | VProxy _ \<Rightarrow> True | _ \<Rightarrow> False)"

definition effective_run :: "run_config option \<Rightarrow> time option \<Rightarrow> run_config" where
  "effective_run run timeout =
     (let r = (case run of None \<Rightarrow> default_run_config | Some r \<Rightarrow> r) in
      case timeout of None \<Rightarrow> r | Some t \<Rightarrow> r\<lparr>rn_timeout := Some (VFloat (Finite t))\<rparr>)"

text \<open>\<open>invoke_agent\<close>, in task \<open>c\<close>; \<open>parent\<close> is the active context of the task, if this runtime created it.\<close>

definition invoke_agent ::
  "('s, 'm, 'priv, 'key) runtime_env \<Rightarrow> nat \<Rightarrow> run_context option \<Rightarrow> ('s, 'm, 'a) agent_object \<Rightarrow> invoke_request
   \<Rightarrow> (('s, 'm, 'a) machine, invoke_error, invocation_result) prog" where
  "invoke_agent env c parent ag q =
     (if \<not> is_mapping (iq_arguments q) then raiseS (InvokeRaised TypeError)
      else (case validated_timeout (iq_timeout q) of
        Inl e \<Rightarrow> raiseS (InvokeRaised e)
      | Inr timeout \<Rightarrow>
          bindS (or_fresh env (iq_correlation q)) (\<lambda>corr.
          (case resolve_capability (en_digest env) ag (iq_capability q) of
             None \<Rightarrow> retS (InvocationTargetNotFound corr (ag_name ag) (capability_id (iq_capability q)) None)
           | Some (cap, reg) \<Rightarrow>
               bindS (create_run_context env parent (capability_config (ag_config ag) (cb_model_required reg)) (iq_model q)
                 \<lparr>cr_agent_id = ag_name ag, cr_run = effective_run (iq_run q) timeout, cr_model = None, cr_correlation_id = corr,
                  cr_run_id = [], cr_authorization = iq_authorization q, cr_allowed = iq_allowed q,
                  cr_frame = Some (ag_name ag, cap),
                  cr_chain = resolve_instruction_chain (rt_policy_instructions (en_config env)) (ag_instructions ag) (cb_instructions reg)\<rparr>)
               (\<lambda>x. in_context c x (parent \<noteq> None) (iq_budget q) (iq_cancelled q)
                 (run_invocation env \<lparr>in_ctx = x, in_correlation = corr, in_capability = cap\<rparr> reg (iq_arguments q) (iq_approved q)))))))"

section \<open>The runtime's entry points\<close>

text \<open>\<open>active\<close>: the context that is current in the task, and whether this runtime created it.\<close>

definition own_parent :: "(run_context \<times> bool) option \<Rightarrow> run_context option" where
  "own_parent active = (case active of Some (x, True) \<Rightarrow> Some x | _ \<Rightarrow> None)"

text \<open>A failure before there is a context: the envelope has no metadata.\<close>

definition bare_failure ::
  "('s, 'm, 'priv, 'key) runtime_env \<Rightarrow> string \<Rightarrow> (string \<Rightarrow> invocation_result) \<Rightarrow> (('s, 'm, 'a) machine, invoke_error, invocation_result) prog" where
  "bare_failure env corr mk = bindS (or_fresh env corr) (\<lambda>i. retS (mk i))"

definition normalize_failure ::
  "('s, 'm, 'priv, 'key) runtime_env \<Rightarrow> string \<Rightarrow> invoke_error \<Rightarrow> (('s, 'm, 'a) machine, invoke_error, invocation_result) prog" where
  "normalize_failure env corr e =
     (case e of
        Sec (AuditDelivery r) \<Rightarrow> bare_failure env corr (\<lambda>i. InvocationAuditFailure i (reason_code (AuditDelivery r)) None)
      | Sec (Foreign p) \<Rightarrow> raiseS e
      | Sec s \<Rightarrow> bare_failure env corr (\<lambda>i. InvocationAuthorizationFailure i (reason_code s) None)
      | _ \<Rightarrow> raiseS e)"

definition invoke_capability ::
  "('s, 'm, 'priv, 'key) runtime_env \<Rightarrow> nat \<Rightarrow> (run_context \<times> bool) option \<Rightarrow> ('s, 'm, 'a) agent_object \<Rightarrow> invoke_request
   \<Rightarrow> (('s, 'm, 'a) machine, invoke_error, invocation_result) prog" where
  "invoke_capability env c active ag q =
     (case delegate_context (case active of None \<Rightarrow> None | Some (x, _) \<Rightarrow> rx_authorization x) (iq_authorization q) of
        Inl e \<Rightarrow> bare_failure env (iq_correlation q) (\<lambda>i. InvocationAuthorizationFailure i (reason_code e) None)
      | Inr authorization \<Rightarrow>
          catchS (invoke_agent env c (own_parent active) ag (q\<lparr>iq_authorization := authorization, iq_approved := None\<rparr>))
            (normalize_failure env (iq_correlation q)))"

text \<open>\<open>Runtime.invoke\<close>.\<close>

definition runtime_invoke_op ::
  "('s, 'm, 'priv, 'key) runtime_env \<Rightarrow> nat \<Rightarrow> (run_context \<times> bool) option \<Rightarrow> ('s, 'm, 'a) agent_object \<Rightarrow> invoke_request
   \<Rightarrow> (('s, 'm, 'a) machine, invoke_error, invocation_result) prog" where
  "runtime_invoke_op env c active ag q =
     bindS (getS mc_closed) (\<lambda>closed. if closed then raiseS RuntimeClosed else invoke_capability env c active ag q)"

text \<open>
  \<open>resume_approved_capability\<close>: the pipeline's decision and its evidence, the completion of the approval, then the
  invocation with the approval's identifier.  The completion is logged in \<open>w_runs\<close> as in \<open>run_protected\<close>.
\<close>

definition capability_name :: "('s, 'm, 'a) agent_object \<Rightarrow> capability_ref \<Rightarrow> string" where
  "capability_name ag ref =
     (case ref of CapName s \<Rightarrow> s
      | CapCallable f _ _ \<Rightarrow> (case List.find (\<lambda>(_, r). cb_function r = f) (ag_capabilities ag) of None \<Rightarrow> [] | Some (n, _) \<Rightarrow> n))"

definition log_run :: "string \<Rightarrow> (('s, 'm, 'a) world, sec_error, unit) prog" where
  "log_run i = modifyS (\<lambda>w. w\<lparr>w_runs := w_runs w @ [(None, i)]\<rparr>)"

definition resume_invocation ::
  "('s, 'm, 'priv, 'key) runtime_env \<Rightarrow> nat \<Rightarrow> run_context option \<Rightarrow> ('s, 'm, 'a) agent_object \<Rightarrow> invoke_request
   \<Rightarrow> approval_decision \<Rightarrow> authorization_context \<Rightarrow> invocation_site \<Rightarrow> (('s, 'm, 'a) machine, invoke_error, invocation_result) prog" where
  "resume_invocation env c parent ag q d ctx site =
     (let pl = en_pipeline env in
      case pl_store pl of
        None \<Rightarrow> raiseS (Sec InvalidApprovalState)
      | Some ops \<Rightarrow>
          bindS (secM (resume_decide pl ops d site ctx)) (\<lambda>ch.
          thenS (secM (thenS (evidence pl (Some ctx) site True APPROVAL_APPROVED ALLOW SUCCESS
                   (reason_or (dec_reason_code d) ''approved'') (ch_approval_id ch) (ch_policy_version ch))
              (thenS (on_approvals (op_complete ops (ch_approval_id ch))) (log_run (ch_approval_id ch)))))
            (invoke_agent env c parent ag (q\<lparr>iq_correlation := ac_correlation_id ctx, iq_authorization := Some ctx,
               iq_approved := Some (dec_approval_id d)\<rparr>))))"

definition resume_approved_capability ::
  "('s, 'm, 'priv, 'key) runtime_env \<Rightarrow> nat \<Rightarrow> run_context option \<Rightarrow> ('s, 'm, 'a) agent_object \<Rightarrow> invoke_request
   \<Rightarrow> approval_decision \<Rightarrow> authorization_context \<Rightarrow> (('s, 'm, 'a) machine, invoke_error, invocation_result) prog" where
  "resume_approved_capability env c parent ag q d ctx =
     (let chain = resolve_instruction_chain (rt_policy_instructions (en_config env)) (ag_instructions ag)
            (case resolve_capability (en_digest env) ag (iq_capability q) of None \<Rightarrow> None | Some (_, reg) \<Rightarrow> cb_instructions reg);
          site = \<lparr>is_agent = ag_name ag, is_capability = capability_name ag (iq_capability q), is_chain = chain\<rparr> in
      catchS (resume_invocation env c parent ag q d ctx site)
        (\<lambda>e. case e of
           Sec (Foreign p) \<Rightarrow> raiseS e
         | Sec s \<Rightarrow>
             if reason_code s = ''approval_required'' then
               (case pl_store (en_pipeline env) of None \<Rightarrow> raiseS AssertionFailed
                | Some ops \<Rightarrow> bindS (secM (on_approvals (op_get ops (dec_approval_id d))))
                    (\<lambda>ch. retS (InvocationApprovalRequired (ac_correlation_id ctx) ch None)))
             else retS (InvocationAuthorizationFailure (ac_correlation_id ctx) (reason_code s) None)
         | _ \<Rightarrow> raiseS e))"

section \<open>What a child inherits\<close>

text \<open>The authority of a child context is within its parent's.\<close>

definition attenuated :: "run_context \<Rightarrow> run_context \<Rightarrow> bool" where
  "attenuated p x \<longleftrightarrow> rx_parent_run_id x = Some (rx_run_id p)
     \<and> (\<forall>d. rx_deadline p = Some d \<longrightarrow> (\<exists>e. rx_deadline x = Some e \<and> e \<le> d))
     \<and> (\<forall>bound. rx_allowed p = Some bound \<longrightarrow> (\<exists>caps. rx_allowed x = Some caps \<and> caps \<subseteq> bound))"

lemma monotonic_run: "monotonic m = (Inr (fst (tick (ru_clock (mc_run m)))), m\<lparr>mc_run := (mc_run m)\<lparr>ru_clock := snd (tick (ru_clock (mc_run m)))\<rparr>\<rparr>)"
  by (simp add: monotonic_def on_run_def split: prod.splits)

text \<open>Only clocks and identifiers moved.\<close>

definition quiet :: "('s, 'm, 'a) machine \<Rightarrow> ('s, 'm, 'a) machine \<Rightarrow> bool" where
  "quiet m m' \<longleftrightarrow> mc_world m' = mc_world m \<and> mc_closed m' = mc_closed m \<and> mc_detached m' = mc_detached m
     \<and> ru_budget (mc_run m') = ru_budget (mc_run m) \<and> ru_calls (mc_run m') = ru_calls (mc_run m)
     \<and> ru_retrievals (mc_run m') = ru_retrievals (mc_run m) \<and> ru_cancelled (mc_run m') = ru_cancelled (mc_run m)
     \<and> ru_invocation (mc_run m') = ru_invocation (mc_run m) \<and> ru_current (mc_run m') = ru_current (mc_run m)"

lemma quiet_refl [simp]: "quiet m m"
  by (simp add: quiet_def)

lemma quiet_trans: "quiet l m \<Longrightarrow> quiet m n \<Longrightarrow> quiet l n"
  by (simp add: quiet_def)

lemma quiet_monotonic: "monotonic m = (r, m') \<Longrightarrow> quiet m m' \<and> (\<exists>t. r = Inr t)"
  by (auto simp: monotonic_run quiet_def)

lemma quiet_fresh: "fresh_id env m = (r, m') \<Longrightarrow> quiet m m' \<and> (\<exists>i. r = Inr i)"
  by (auto simp: fresh_id_def quiet_def)

lemma quiet_or_fresh: "or_fresh env s m = (r, m') \<Longrightarrow> quiet m m' \<and> (\<exists>i. r = Inr i \<and> (s \<noteq> [] \<longrightarrow> i = s))"
  using quiet_fresh by (fastforce simp: or_fresh_def prog_defs split: if_splits)

lemma quiet_run_id: "effective_run_id env parent q m = (r, m') \<Longrightarrow> quiet m m' \<and> (\<exists>i. r = Inr i)"
  using quiet_fresh by (fastforce simp: effective_run_id_def prog_defs split: if_splits option.splits)

definition deadline_ok :: "run_context option \<Rightarrow> time option \<Rightarrow> time option \<Rightarrow> bool" where
  "deadline_ok parent d t \<longleftrightarrow> (d = None \<longleftrightarrow> t = None)
     \<and> (\<forall>p e. parent = Some p \<longrightarrow> rx_deadline p = Some e \<longrightarrow> (\<exists>d'. d = Some d' \<and> d' \<le> e))"

lemma effective_deadline_run:
  assumes "effective_deadline parent timeout m = (r, m')"
  shows "quiet m m' \<and> (\<exists>d t. r = Inr (d, t) \<and> deadline_ok parent d t)"
proof (cases "case parent of None \<Rightarrow> None | Some p \<Rightarrow> rx_deadline p")
  case None
  then have "\<forall>p. parent = Some p \<longrightarrow> rx_deadline p = None" by (auto split: option.splits)
  with None assms show ?thesis
    by (cases timeout) (auto simp: effective_deadline_def prog_defs Let_def monotonic_run quiet_def deadline_ok_def)
next
  case (Some d)
  then obtain p where "parent = Some p" "rx_deadline p = Some d" by (auto split: option.splits)
  with assms show ?thesis
    by (cases timeout) (auto simp: effective_deadline_def prog_defs Let_def monotonic_run quiet_def deadline_ok_def)
qed

lemma effective_allowed_within:
  "effective_allowed parent requested = Inr allowed \<Longrightarrow> parent = Some p \<Longrightarrow> rx_allowed p = Some bound \<Longrightarrow>
   \<exists>caps. allowed = Some caps \<and> caps \<subseteq> bound"
  by (cases requested) (auto simp: effective_allowed_def split: if_splits)

lemma build_run_context_run:
  assumes "build_run_context env parent q m = (r, m')"
  shows "quiet m m'"
    and "r = Inr x \<Longrightarrow> (\<forall>p. parent = Some p \<longrightarrow> attenuated p x)
       \<and> rx_path x = (case parent of None \<Rightarrow> [] | Some p \<Rightarrow> rx_path p) @ (case cr_frame q of None \<Rightarrow> [] | Some f \<Rightarrow> [f])
       \<and> rx_authorization x = cr_authorization q \<and> rx_agent_id x = cr_agent_id q \<and> rx_chain x = cr_chain q
       \<and> (rx_deadline x = None \<longleftrightarrow> rx_timeout x = None)
       \<and> (cr_correlation_id q \<noteq> [] \<longrightarrow> rx_correlation_id x = cr_correlation_id q)"
proof -
  obtain d t m1 where d: "effective_deadline parent (timeout_seconds (rn_timeout (cr_run q))) m = (Inr (d, t), m1)"
    and ok: "deadline_ok parent d t" and q1: "quiet m m1"
    using effective_deadline_run[of parent "timeout_seconds (rn_timeout (cr_run q))" m] by (metis prod.collapse)
  obtain i m2 where i: "effective_run_id env parent q m1 = (Inr i, m2)" and q2: "quiet m1 m2"
    using quiet_run_id[of env parent q m1] by (metis prod.collapse)
  obtain k m3 where k: "or_fresh env (cr_correlation_id q) m2 = (Inr k, m3)" and q3: "quiet m2 m3"
    and same: "cr_correlation_id q \<noteq> [] \<longrightarrow> k = cr_correlation_id q"
    using quiet_or_fresh[of env "cr_correlation_id q" m2] by (metis prod.collapse)
  have q4: "quiet m3 (m3\<lparr>mc_ids := j\<rparr>)" for j by (simp add: quiet_def)
  note quiet = quiet_trans[OF q1 q2] quiet_trans[OF quiet_trans[OF q1 q2] quiet_trans[OF q3 q4]]
  show "quiet m m'"
    using assms quiet by (auto simp: build_run_context_def prog_defs d i k split: if_splits option.splits sum.splits)
  show "r = Inr x \<Longrightarrow> (\<forall>p. parent = Some p \<longrightarrow> attenuated p x)
       \<and> rx_path x = (case parent of None \<Rightarrow> [] | Some p \<Rightarrow> rx_path p) @ (case cr_frame q of None \<Rightarrow> [] | Some f \<Rightarrow> [f])
       \<and> rx_authorization x = cr_authorization q \<and> rx_agent_id x = cr_agent_id q \<and> rx_chain x = cr_chain q
       \<and> (rx_deadline x = None \<longleftrightarrow> rx_timeout x = None)
       \<and> (cr_correlation_id q \<noteq> [] \<longrightarrow> rx_correlation_id x = cr_correlation_id q)"
  proof -
    assume x: "r = Inr x"
    then obtain allowed where a: "effective_allowed parent (cr_allowed q) = Inr allowed"
      using assms by (auto simp: build_run_context_def prog_defs d i k split: if_splits option.splits sum.splits)
    have fields: "rx_deadline x = d" "rx_timeout x = t" "rx_allowed x = allowed" "rx_parent_run_id x = map_option rx_run_id parent"
      "rx_path x = (case parent of None \<Rightarrow> [] | Some p \<Rightarrow> rx_path p) @ (case cr_frame q of None \<Rightarrow> [] | Some f \<Rightarrow> [f])"
      "rx_authorization x = cr_authorization q" "rx_agent_id x = cr_agent_id q" "rx_chain x = cr_chain q" "rx_correlation_id x = k"
      using assms x by (auto simp: build_run_context_def prog_defs d i k a mk_run_context_def split: if_splits)
    show ?thesis unfolding fields attenuated_def using ok same effective_allowed_within[OF a] fields
      by (auto simp: deadline_ok_def)
  qed
qed

section \<open>When a capability runs\<close>

text \<open>The agent with another program in the place of its capabilities.\<close>

definition retarget :: "('s, 'm, 'a) body \<Rightarrow> ('s, 'm, 'a) agent_object \<Rightarrow> ('s, 'm, 'a) agent_object" where
  "retarget t ag = ag\<lparr>ag_capabilities := map (map_prod (\<lambda>n. n) (\<lambda>r. r\<lparr>cb_target := t\<rparr>)) (ag_capabilities ag)\<rparr>"

lemma find_map_prod:
  "(\<And>n r. P (n, f r) = P (n, r)) \<Longrightarrow> List.find P (map (map_prod (\<lambda>n. n) f) xs) = map_option (map_prod (\<lambda>n. n) f) (List.find P xs)"
  by (induction xs) auto

lemma dget_map_prod: "dget (map (map_prod (\<lambda>n. n) f) xs) k = map_option f (dget xs k)"
  by (induction xs) auto

lemma resolve_retarget:
  "resolve_capability digest (retarget t ag) ref
   = map_option (map_prod (\<lambda>n. n) (\<lambda>r. r\<lparr>cb_target := t\<rparr>)) (resolve_capability digest ag ref)"
  by (simp add: resolve_capability_def retarget_def find_map_prod dget_map_prod split: capability_ref.split option.split)

lemma execute_differs:
  assumes "execute env iv (reg\<lparr>cb_target := t\<rparr>) args m \<noteq> execute env iv (reg\<lparr>cb_target := t'\<rparr>) args m"
  shows "\<exists>m1. t args (in_ctx iv) m1 \<noteq> t' args (in_ctx iv) m1"
proof (rule ccontr)
  assume "\<nexists>m1. t args (in_ctx iv) m1 \<noteq> t' args (in_ctx iv) m1"
  then have eq: "run_target t args (in_ctx iv) = run_target t' args (in_ctx iv)" by (simp add: run_target_def fun_eq_iff)
  have "await_target t args iv = await_target t' args iv" by (intro ext) (simp only: await_target_def eq)
  with assms show False by (simp add: execute_def)
qed

lemma check_async_allowed:
  assumes "check_async pl target caller args site approved w = (Inr r, w')"
  shows "\<exists>w1. check pl target caller args (is_agent site) (is_capability site) approved w = (Inr r, w1)"
  using assms by (auto simp: check_async_def bindS_def thenS_def retS_def Let_def split: prod.splits sum.splits if_splits option.splits)

lemma check_denial:
  assumes "check pl target caller args agent cap approved w = (Inr r, w1)" and "\<not> rs_allowed r"
  shows "rs_challenge r \<noteq> None \<or> (\<exists>e. rs_error r = Some e \<and> (\<forall>p. e \<noteq> Foreign p))"
  using assms
  by (auto simp: check_def prog_defs Let_def allowed_result_def denied_result_def challenge_result_def next_id_def
      split: option.splits if_splits prod.splits sum.splits)

text \<open>The guardrails of a capability are met by a caller and its arguments, without an approval.\<close>

definition guardrails_met :: "guardrails option \<Rightarrow> authorization_context option \<Rightarrow> json_object \<Rightarrow> bool" where
  "guardrails_met target caller args \<longleftrightarrow>
     (let g = get_guardrails target in gr_scopes g = [] \<and> gr_approvals g = []
      \<or> (\<exists>ctx. caller = Some ctx \<and> set (gr_scopes g) \<subseteq> scopes (ac_principal ctx)
           \<and> list_all (\<lambda>r. \<exists>c. ar_condition r = Some c \<and> c ctx args = Some False) (gr_approvals g)))"

lemma check_met:
  assumes "check pl target caller args agent cap None w = (Inr r, w1)" and "rs_allowed r"
  shows "guardrails_met target caller args"
  using assms unfolding guardrails_met_def no_applicable_role[symmetric]
  by (auto simp: check_def prog_defs Let_def allowed_result_def denied_result_def challenge_result_def next_id_def
       split: option.splits prod.splits sum.splits if_splits)

lemma authorize_differs:
  assumes "authorize_and_execute env iv (reg\<lparr>cb_target := t\<rparr>) args None m \<noteq> authorize_and_execute env iv (reg\<lparr>cb_target := t'\<rparr>) args None m"
  shows "guardrails_met (cb_guardrails reg) (rx_authorization (in_ctx iv)) args \<and> (\<exists>m1. t args (in_ctx iv) m1 \<noteq> t' args (in_ctx iv) m1)"
proof -
  obtain r m1 where r: "secM (check_async (en_pipeline env) (cb_guardrails reg) (rx_authorization (in_ctx iv)) args (site_of iv) None) m = (Inr r, m1)"
    and e: "execute env iv (reg\<lparr>cb_target := t\<rparr>) args m1 \<noteq> execute env iv (reg\<lparr>cb_target := t'\<rparr>) args m1" and a: "rs_allowed r"
    using assms by (auto simp: authorize_and_execute_def bindS_def split: prod.splits sum.splits if_splits)
  from r obtain w where "check_async (en_pipeline env) (cb_guardrails reg) (rx_authorization (in_ctx iv)) args (site_of iv) None (mc_world m) = (Inr r, w)"
    by (auto simp: secM_def split: prod.splits sum.splits dest: sym) (metis Inl_Inr_False Inr_inject map_sum.simps old.sum.exhaust)
  from check_met check_async_allowed[OF this] a execute_differs[OF e] show ?thesis by blast
qed

lemma run_differs:
  assumes "run_invocation env iv (reg\<lparr>cb_target := t\<rparr>) arguments None m \<noteq> run_invocation env iv (reg\<lparr>cb_target := t'\<rparr>) arguments None m"
  shows "\<not> ru_cancelled (mc_run m) \<and> (\<exists>args m1. cb_validate reg arguments = Inr args
     \<and> guardrails_met (cb_guardrails reg) (rx_authorization (in_ctx iv)) args \<and> t args (in_ctx iv) m1 \<noteq> t' args (in_ctx iv) m1)"
  using assms
  by (auto simp: run_invocation_def bindS_def getS_def split: sum.splits option.splits if_splits dest!: authorize_differs)

lemma enter_context_run:
  "enter_context c x u = (tokens, v) \<Longrightarrow> ru_cancelled v = ru_cancelled u \<and> snd tokens = ru_current u c"
  by (auto simp: enter_context_def split: prod.splits sum.splits)

lemma in_context_differs:
  assumes "in_context c x inherits budget cancelled p m \<noteq> in_context c x inherits budget cancelled p' m"
  shows "\<exists>m1. p m1 \<noteq> p' m1 \<and> ru_cancelled (mc_run m1) = (if inherits then ru_cancelled (mc_run m) else cancelled)"
proof -
  obtain tokens u where u: "enter_context c x (child_run inherits budget cancelled (mc_run m)) = (tokens, u)" by fastforce
  then have "p (m\<lparr>mc_run := u\<rparr>) \<noteq> p' (m\<lparr>mc_run := u\<rparr>)" using assms by (auto simp: in_context_def)
  moreover have "ru_cancelled u = (if inherits then ru_cancelled (mc_run m) else cancelled)"
    using enter_context_run[OF u] by (simp add: child_run_def)
  ultimately show ?thesis by (intro exI[of _ "m\<lparr>mc_run := u\<rparr>"]) simp
qed

text \<open>The context in which an agent's capability is invoked.\<close>

definition invocation_context :: "run_context option \<Rightarrow> string \<Rightarrow> string \<Rightarrow> authorization_context option \<Rightarrow> run_context \<Rightarrow> bool" where
  "invocation_context parent agent cap authorization x \<longleftrightarrow> (\<forall>p. parent = Some p \<longrightarrow> attenuated p x)
     \<and> rx_path x = (case parent of None \<Rightarrow> [] | Some p \<Rightarrow> rx_path p) @ [(agent, cap)]
     \<and> rx_authorization x = authorization \<and> rx_agent_id x = agent \<and> (rx_deadline x = None \<longleftrightarrow> rx_timeout x = None)"

lemma create_run_context_run:
  assumes "create_run_context env parent ac override q m = (r, m')"
  shows "quiet m m'"
    and "r = Inr x \<Longrightarrow> cr_frame q = Some (cr_agent_id q, cap) \<Longrightarrow> \<not> mc_closed m
      \<and> invocation_context parent (cr_agent_id q) cap (cr_authorization q) x
      \<and> rx_chain x = cr_chain q \<and> (cr_correlation_id q \<noteq> [] \<longrightarrow> rx_correlation_id x = cr_correlation_id q)"
proof -
  show "quiet m m'" using assms build_run_context_run(1)
    by (fastforce simp: create_run_context_def prog_defs split: if_splits sum.splits)
  assume r: "r = Inr x" and frame: "cr_frame q = Some (cr_agent_id q, cap)"
  then obtain model where b: "build_run_context env parent (q\<lparr>cr_model := model\<rparr>) m = (Inr x, m')" and o: "\<not> mc_closed m"
    using assms by (auto simp: create_run_context_def prog_defs split: if_splits sum.splits)
  from build_run_context_run(2)[OF b refl] frame o
  show "\<not> mc_closed m \<and> invocation_context parent (cr_agent_id q) cap (cr_authorization q) x
      \<and> rx_chain x = cr_chain q \<and> (cr_correlation_id q \<noteq> [] \<longrightarrow> rx_correlation_id x = cr_correlation_id q)"
    by (simp add: invocation_context_def)
qed

lemma invoke_agent_differs:
  assumes "invoke_agent env c parent (retarget t ag) (q\<lparr>iq_approved := None\<rparr>) m \<noteq> invoke_agent env c parent (retarget t' ag) (q\<lparr>iq_approved := None\<rparr>) m"
  shows "\<exists>cap reg args x m1. resolve_capability (en_digest env) ag (iq_capability q) = Some (cap, reg)
     \<and> cb_validate reg (iq_arguments q) = Inr args \<and> t args x m1 \<noteq> t' args x m1 \<and> \<not> mc_closed m
     \<and> guardrails_met (cb_guardrails reg) (rx_authorization x) args
     \<and> invocation_context parent (ag_name ag) cap (iq_authorization q) x
     \<and> (if parent \<noteq> None then \<not> ru_cancelled (mc_run m) else \<not> iq_cancelled q)"
proof -
  have names: "ag_name (retarget s ag) = ag_name ag" "ag_config (retarget s ag) = ag_config ag"
    "ag_instructions (retarget s ag) = ag_instructions ag" for s by (simp_all add: retarget_def)
  obtain corr m0 where corr: "or_fresh env (iq_correlation q) m = (Inr corr, m0)" and q0: "quiet m m0"
    using quiet_or_fresh[of env "iq_correlation q" m] by (metis prod.collapse)
  have "resolve_capability (en_digest env) ag (iq_capability q) \<noteq> None"
  proof
    assume "resolve_capability (en_digest env) ag (iq_capability q) = None"
    with assms show False
      by (auto simp: invoke_agent_def resolve_retarget names bindS_def corr split: sum.splits if_splits)
  qed
  then obtain cap reg where res: "resolve_capability (en_digest env) ag (iq_capability q) = Some (cap, reg)" by fast
  obtain timeout where time: "validated_timeout (iq_timeout q) = Inr timeout"
    using assms by (auto simp: invoke_agent_def split: sum.splits if_splits)
  define cr where "cr = \<lparr>cr_agent_id = ag_name ag, cr_run = effective_run (iq_run q) timeout, cr_model = None, cr_correlation_id = corr,
      cr_run_id = [], cr_authorization = iq_authorization q, cr_allowed = iq_allowed q, cr_frame = Some (ag_name ag, cap),
      cr_chain = resolve_instruction_chain (rt_policy_instructions (en_config env)) (ag_instructions ag) (cb_instructions reg)\<rparr>"
  let ?p = "\<lambda>s x. run_invocation env \<lparr>in_ctx = x, in_correlation = corr, in_capability = cap\<rparr> (reg\<lparr>cb_target := s\<rparr>) (iq_arguments q) None"
  obtain x m1 where x: "create_run_context env parent (capability_config (ag_config ag) (cb_model_required reg)) (iq_model q) cr m0 = (Inr x, m1)"
    and d: "in_context c x (parent \<noteq> None) (iq_budget q) (iq_cancelled q) (?p t x) m1
      \<noteq> in_context c x (parent \<noteq> None) (iq_budget q) (iq_cancelled q) (?p t' x) m1"
    using assms unfolding cr_def
    by (auto simp: invoke_agent_def resolve_retarget names res time bindS_def corr split: sum.splits prod.splits if_splits)
  from in_context_differs[OF d] obtain m2 where p: "?p t x m2 \<noteq> ?p t' x m2"
    and k: "ru_cancelled (mc_run m2) = (if parent \<noteq> None then ru_cancelled (mc_run m1) else iq_cancelled q)" by blast
  from run_differs[OF p] obtain args m3 where run: "\<not> ru_cancelled (mc_run m2)" "cb_validate reg (iq_arguments q) = Inr args"
    "guardrails_met (cb_guardrails reg) (rx_authorization x) args" "t args x m3 \<noteq> t' args x m3" by auto
  have "\<not> mc_closed m0 \<and> invocation_context parent (ag_name ag) cap (iq_authorization q) x"
    using create_run_context_run(2)[OF x refl, of cap] by (simp add: cr_def)
  moreover have "quiet m m1" using quiet_trans[OF q0 create_run_context_run(1)[OF x]] .
  ultimately show ?thesis using res run k q0 by (intro exI conjI) (auto simp: quiet_def)
qed

lemma runtime_differs:
  assumes "runtime_invoke_op env c active (retarget t ag) q m \<noteq> runtime_invoke_op env c active (retarget t' ag) q m"
  shows "\<exists>cap reg args x m1 authorization. resolve_capability (en_digest env) ag (iq_capability q) = Some (cap, reg)
     \<and> cb_validate reg (iq_arguments q) = Inr args \<and> t args x m1 \<noteq> t' args x m1 \<and> \<not> mc_closed m
     \<and> (if own_parent active \<noteq> None then \<not> ru_cancelled (mc_run m) else \<not> iq_cancelled q)
     \<and> delegate_context (case active of None \<Rightarrow> None | Some (y, _) \<Rightarrow> rx_authorization y) (iq_authorization q) = Inr authorization
     \<and> guardrails_met (cb_guardrails reg) authorization args
     \<and> invocation_context (own_parent active) (ag_name ag) cap authorization x"
proof -
  obtain authorization where d: "delegate_context (case active of None \<Rightarrow> None | Some (y, _) \<Rightarrow> rx_authorization y) (iq_authorization q) = Inr authorization"
    using assms by (auto simp: runtime_invoke_op_def invoke_capability_def bindS_def getS_def split: sum.splits if_splits)
  let ?q = "q\<lparr>iq_authorization := authorization, iq_approved := None\<rparr>"
  have "invoke_agent env c (own_parent active) (retarget t ag) (?q\<lparr>iq_approved := None\<rparr>) m
      \<noteq> invoke_agent env c (own_parent active) (retarget t' ag) (?q\<lparr>iq_approved := None\<rparr>) m"
    using assms by (auto simp: runtime_invoke_op_def invoke_capability_def d bindS_def getS_def catchS_def split: if_splits)
  from invoke_agent_differs[OF this] obtain cap reg args x m1 where
    "resolve_capability (en_digest env) ag (iq_capability ?q) = Some (cap, reg)" "cb_validate reg (iq_arguments ?q) = Inr args"
    "t args x m1 \<noteq> t' args x m1" "\<not> mc_closed m" "guardrails_met (cb_guardrails reg) (rx_authorization x) args"
    "invocation_context (own_parent active) (ag_name ag) cap (iq_authorization ?q) x"
    "if own_parent active \<noteq> None then \<not> ru_cancelled (mc_run m) else \<not> iq_cancelled ?q" by blast
  with d show ?thesis by (intro exI conjI) (auto simp: invocation_context_def)
qed

text \<open>
  C33. A capability runs only when every check has passed.  If what a capability does makes any
  difference to an invocation, then the runtime is open, the run is not cancelled, the arguments
  were validated, the caller's authorization, within that of the active context, meets all the
  guardrails of the capability, and the capability runs in a context whose deadline and
  allowed capabilities are within the parent's and whose path extends the parent's by this call.
\<close>

theorem capability_runs_only_when_authorized:
  assumes "runtime_invoke_op env c active (retarget t ag) q m \<noteq> runtime_invoke_op env c active (retarget t' ag) q m"
  shows "\<exists>cap reg args x m1 authorization. resolve_capability (en_digest env) ag (iq_capability q) = Some (cap, reg)
     \<and> cb_validate reg (iq_arguments q) = Inr args \<and> t args x m1 \<noteq> t' args x m1 \<and> \<not> mc_closed m
     \<and> (if own_parent active \<noteq> None then \<not> ru_cancelled (mc_run m) else \<not> iq_cancelled q)
     \<and> delegate_context (case active of None \<Rightarrow> None | Some (y, _) \<Rightarrow> rx_authorization y) (iq_authorization q) = Inr authorization
     \<and> guardrails_met (cb_guardrails reg) authorization args
     \<and> invocation_context (own_parent active) (ag_name ag) cap authorization x"
  by (rule runtime_differs[OF assms])

section \<open>What an invocation leaves behind\<close>

text \<open>The caller's context is as it was, except for what parent and child share.\<close>

definition scoped :: "nat \<Rightarrow> bool \<Rightarrow> ('s, 'm, 'a) machine \<Rightarrow> ('s, 'm, 'a) machine \<Rightarrow> bool" where
  "scoped c inherits m m' \<longleftrightarrow> ru_current (mc_run m') c = ru_current (mc_run m) c
     \<and> ru_calls (mc_run m') = ru_calls (mc_run m) \<and> ru_retrievals (mc_run m') = ru_retrievals (mc_run m)
     \<and> ru_invocation (mc_run m') = ru_invocation (mc_run m)
     \<and> (inherits \<or> ru_budget (mc_run m') = ru_budget (mc_run m) \<and> ru_cancelled (mc_run m') = ru_cancelled (mc_run m))"

lemma scoped_quiet: "quiet m m' \<Longrightarrow> scoped c inherits m m'"
  by (simp add: quiet_def scoped_def)

lemma scoped_trans: "scoped c inherits l m \<Longrightarrow> scoped c inherits m n \<Longrightarrow> scoped c inherits l n"
  by (auto simp: scoped_def)

lemma in_context_scoped:
  assumes "in_context c x inherits budget cancelled p m = (r, m')"
  shows "scoped c inherits m m'"
proof -
  obtain tokens u where u: "enter_context c x (child_run inherits budget cancelled (mc_run m)) = (tokens, u)" by fastforce
  then have "snd tokens = ru_current (mc_run m) c" using enter_context_run[OF u] by (simp add: child_run_def)
  with assms u show ?thesis
    by (auto simp: in_context_def scoped_def rejoin_def leave_context_def Let_def split: prod.splits)
qed

lemma invoke_agent_scoped:
  assumes "invoke_agent env c parent ag q m = (r, m')"
  shows "scoped c (parent \<noteq> None) m m'"
proof -
  obtain corr m0 where corr: "or_fresh env (iq_correlation q) m = (Inr corr, m0)" and q0: "quiet m m0"
    using quiet_or_fresh[of env "iq_correlation q" m] by (metis prod.collapse)
  show ?thesis
    using assms quiet_trans[OF q0] q0
    by (auto simp: invoke_agent_def bindS_def retS_def raiseS_def corr split: if_splits sum.splits option.splits prod.splits
        intro: scoped_quiet scoped_trans[OF scoped_quiet] dest!: create_run_context_run(1) in_context_scoped)
qed

lemma bare_failure_run: "bare_failure env corr mk m = (r, m') \<Longrightarrow> quiet m m' \<and> (\<exists>i. r = Inr (mk i))"
  using quiet_or_fresh[of env corr m] by (auto simp: bare_failure_def bindS_def retS_def split: prod.splits)

lemma normalize_failure_run:
  "normalize_failure env corr e m = (r, m') \<Longrightarrow> quiet m m'"
  by (auto simp: normalize_failure_def raiseS_def split: invoke_error.splits sec_error.splits dest: bare_failure_run)

text \<open>
  C34. An invocation is scoped.  However it ends, by a result or by an exception, and whatever the capability does, the
  context variable of the calling task and the recorded calls, retrievals and activation of the active
  context are as before; a root invocation leaves also the active budget and cancellation flag alone.
\<close>

theorem invocation_scoped:
  assumes "runtime_invoke_op env c active ag q m = (r, m')"
  shows "ru_current (mc_run m') c = ru_current (mc_run m) c \<and> ru_calls (mc_run m') = ru_calls (mc_run m)
     \<and> ru_retrievals (mc_run m') = ru_retrievals (mc_run m) \<and> ru_invocation (mc_run m') = ru_invocation (mc_run m)
     \<and> (own_parent active = None \<longrightarrow> ru_budget (mc_run m') = ru_budget (mc_run m) \<and> ru_cancelled (mc_run m') = ru_cancelled (mc_run m))"
proof -
  have "scoped c (own_parent active \<noteq> None) m m'"
    using assms
    by (auto simp: runtime_invoke_op_def invoke_capability_def bindS_def getS_def raiseS_def catchS_def
        split: if_splits sum.splits prod.splits
        intro: scoped_quiet scoped_trans[OF _ scoped_quiet] dest!: bare_failure_run invoke_agent_scoped normalize_failure_run)
  then show ?thesis by (auto simp: scoped_def)
qed

section \<open>The exceptions that escape\<close>

definition raises :: "invoke_error set \<Rightarrow> (('s, 'm, 'a) machine, invoke_error, 'r) prog \<Rightarrow> bool" where
  "raises E p \<longleftrightarrow> (\<forall>m e. fst (p m) = Inl e \<longrightarrow> e \<in> E)"

lemma raises_ret [simp]: "raises E (retS x)" "raises E (getS f)" "raises E (modifyS g)" "raises E (on_run h)"
  by (auto simp: raises_def prog_defs on_run_def split: prod.splits)

lemma raises_raise [simp]: "raises E (raiseS e) \<longleftrightarrow> e \<in> E"
  by (simp add: raises_def prog_defs)

lemma raises_bind:
  assumes "raises E p" and "\<And>x m m'. p m = (Inr x, m') \<Longrightarrow> raises E (f x)"
  shows "raises E (bindS p f)"
  unfolding raises_def
proof (intro allI impI)
  fix m e assume e: "fst (bindS p f m) = Inl e"
  obtain r m' where p: "p m = (r, m')" by fastforce
  show "e \<in> E"
  proof (cases r)
    case (Inl d)
    with p e have "e = d" "fst (p m) = Inl d" by (simp_all add: bindS_def)
    with assms(1) show ?thesis by (simp add: raises_def)
  next
    case (Inr x)
    with assms(2)[of m x m'] p e show ?thesis by (simp add: raises_def bindS_def)
  qed
qed

lemma raises_then: "raises E p \<Longrightarrow> raises E p' \<Longrightarrow> raises E (thenS p p')"
  unfolding thenS_def by (rule raises_bind)

lemma raises_catch:
  assumes "raises E' p" and "\<And>e. e \<in> E' \<Longrightarrow> raises E (h e)"
  shows "raises E (catchS p h)"
  unfolding raises_def
proof (intro allI impI)
  fix m e assume e: "fst (catchS p h m) = Inl e"
  obtain r m' where p: "p m = (r, m')" by fastforce
  show "e \<in> E"
  proof (cases r)
    case (Inl d)
    then have "d \<in> E'" using assms(1) p unfolding raises_def by (metis fst_conv)
    from assms(2)[OF this] Inl p e show ?thesis by (simp add: raises_def catchS_def)
  next
    case (Inr x)
    with p e show ?thesis by (simp add: catchS_def)
  qed
qed

lemma raises_mono: "raises E p \<Longrightarrow> E \<subseteq> E' \<Longrightarrow> raises E' p"
  by (auto simp: raises_def)

lemma raises_secM: "raises (range Sec) (secM p)"
  by (auto simp: raises_def secM_def split: prod.splits sum.splits) (metis Inl_Inr_False Inl_inject map_sum.simps old.sum.exhaust rangeI)

text \<open>The documented behaviour of \<open>asyncio.wait_for\<close>: without a timeout it never ends the wait by one.\<close>

definition patient :: "('s, 'm, 'a) body \<Rightarrow> bool" where
  "patient t \<longleftrightarrow> (\<forall>args x m. fst (t args x m) = Interrupted DeadlinePassed \<longrightarrow> rx_deadline x \<noteq> None)"

lemma await_target_patient:
  assumes "await_target t args iv m = (Inr (Interrupted DeadlinePassed), m')" and "patient t"
  shows "rx_deadline (in_ctx iv) \<noteq> None"
proof (cases "rx_deadline (in_ctx iv)")
  case None
  obtain e m1 where t: "t args (in_ctx iv) m = (e, m1)" by fastforce
  have "e = Interrupted DeadlinePassed"
    using assms(1) None t by (simp add: await_target_def context_remaining_timeout_def run_target_def split: body_end.splits)
  with assms(2) t show ?thesis by (metis fst_conv patient_def)
qed simp

lemma raises_await [simp]: "raises E (await_target t args iv)"
  by (auto simp: raises_def await_target_def split: prod.splits sum.splits)

definition body_errors :: "invoke_error set" where
  "body_errors = insert CallerCancelled (range Sec)"

lemma raises_body_sec [simp]: "raises body_errors (secM p)" "raises body_errors (emit_exec env iv name outcome reason classification ext)"
  unfolding body_errors_def emit_exec_def by (rule raises_mono[OF raises_secM], blast)+

lemma raises_failed [simp]: "raises body_errors (failed env iv outcome reason classification mk)"
  by (simp add: failed_def with_metadata_def raises_then)

lemma raises_returned: "raises body_errors (returned env iv retriever v)"
proof -
  have "raises (range Sec) (thenS (emit_exec env iv name outcome reason classification ext) (with_metadata iv k mk))"
    for name outcome reason classification ext k mk
    by (auto simp: emit_exec_def with_metadata_def intro: raises_then raises_secM)
  moreover have "raises body_errors (completion_failed env iv e)" if "e \<in> range Sec" for e
    using that by (auto simp: completion_failed_def with_metadata_def split: sec_error.splits)
  ultimately have "raises body_errors (catchS (thenS (emit_exec env iv name outcome reason classification ext) (with_metadata iv k mk))
      (completion_failed env iv))" for name outcome reason classification ext k mk
    by (blast intro: raises_catch)
  then show ?thesis
    by (auto simp: returned_def output_violated_def split: sum.splits option.splits capability_exn.splits intro!: raises_then)
qed

lemma raises_conclude:
  assumes "e = Interrupted DeadlinePassed \<Longrightarrow> rx_timeout (in_ctx iv) \<noteq> None"
  shows "raises body_errors (conclude env iv retriever e)"
  using assms raises_returned
  by (auto simp: conclude_def Let_def with_metadata_def body_errors_def[symmetric] split: body_end.splits option.splits interruption.splits)
     (auto simp: body_errors_def)

lemma raises_execute:
  assumes "patient (cb_target reg)" and "rx_deadline (in_ctx iv) = None \<longleftrightarrow> rx_timeout (in_ctx iv) = None"
  shows "raises body_errors (execute env iv reg args)"
  unfolding execute_def
  by (intro raises_then raises_bind raises_conclude) (use assms await_target_patient in \<open>auto dest: await_target_patient\<close>)

lemma raises_authorize:
  assumes "patient (cb_target reg)" and "rx_deadline (in_ctx iv) = None \<longleftrightarrow> rx_timeout (in_ctx iv) = None"
  shows "raises body_errors (authorize_and_execute env iv reg args approved)"
  unfolding authorize_and_execute_def
proof (intro raises_bind)
  fix r m m'
  assume "secM (check_async (en_pipeline env) (cb_guardrails reg) (rx_authorization (in_ctx iv)) args (site_of iv) approved) m = (Inr r, m')"
  then obtain w where "check_async (en_pipeline env) (cb_guardrails reg) (rx_authorization (in_ctx iv)) args (site_of iv) approved (mc_world m) = (Inr r, w)"
    by (auto simp: secM_def split: prod.splits sum.splits dest: sym) (metis Inl_Inr_False Inr_inject map_sum.simps old.sum.exhaust)
  from check_async_allowed[OF this] check_denial
  show "raises body_errors (if rs_allowed r then execute env iv reg args
     else (case rs_challenge r of
         Some ch \<Rightarrow> with_metadata iv None (InvocationApprovalRequired (in_correlation iv) ch)
       | None \<Rightarrow> (case rs_error r of None \<Rightarrow> raiseS AssertionFailed
         | Some e \<Rightarrow> with_metadata iv None (InvocationAuthorizationFailure (in_correlation iv) (reason_code e)))))"
    using raises_execute[OF assms] by (fastforce simp: with_metadata_def split: option.splits)
qed simp

lemma raises_run:
  assumes "patient (cb_target reg)" and "rx_deadline (in_ctx iv) = None \<longleftrightarrow> rx_timeout (in_ctx iv) = None"
  shows "raises body_errors (run_invocation env iv reg arguments approved)"
  unfolding run_invocation_def invalid_arguments_def
  by (intro raises_bind) (use raises_authorize[OF assms] in \<open>auto simp: with_metadata_def split: sum.splits option.splits\<close>)

lemma raises_in_context:
  assumes "raises E p"
  shows "raises E (in_context c x inherits budget cancelled p)"
proof -
  have "fst (in_context c x inherits budget cancelled p m)
      = fst (p (m\<lparr>mc_run := snd (enter_context c x (child_run inherits budget cancelled (mc_run m)))\<rparr>))" for m
    by (simp add: in_context_def split: prod.splits)
  with assms show ?thesis by (simp add: raises_def)
qed

definition escaping :: "invoke_error set" where
  "escaping = {RuntimeClosed, CallerCancelled, InvokeRaised TypeError, InvokeRaised ValueError} \<union> range Resolution"

lemma raises_fresh [simp]: "raises E (fresh_id env)" "raises E (or_fresh env s)" "raises E monotonic"
  by (auto simp: raises_def fresh_id_def or_fresh_def retS_def monotonic_run)

lemma raises_bare [simp]: "raises E (bare_failure env corr mk)"
  by (simp add: bare_failure_def raises_bind)

lemma raises_build: "raises (range Sec) (build_run_context env parent q)"
proof -
  have "raises E (effective_run_id env parent q)" "raises E (effective_deadline parent t)" for E t
    by (auto simp: effective_run_id_def effective_deadline_def Let_def split: option.splits intro!: raises_bind)
  then show ?thesis
    by (auto simp: build_run_context_def split: sum.splits if_splits option.splits intro!: raises_bind raises_then)
qed

lemma raises_create: "raises (range Sec \<union> escaping) (create_run_context env parent ac override q)"
  unfolding create_run_context_def
  by (intro raises_bind) (auto simp: escaping_def split: sum.splits intro: raises_mono[OF raises_build])

lemma raises_agent:
  assumes "\<forall>(n, reg) \<in> set (ag_capabilities ag). patient (cb_target reg)"
  shows "raises (range Sec \<union> escaping) (invoke_agent env c parent ag q)"
proof -
  have "patient (cb_target reg)" if "resolve_capability (en_digest env) ag (iq_capability q) = Some (cap, reg)" for cap reg
  proof -
    have "(cap, reg) \<in> set (ag_capabilities ag)"
      using that by (auto simp: resolve_capability_def find_Some_iff split: capability_ref.splits option.splits if_splits dest: map_of_SomeD)
        (metis nth_mem)+
    with assms show ?thesis by auto
  qed
  note target = this
  have run: "raises (range Sec \<union> escaping) (in_context c x inherits budget cancelled (run_invocation env iv reg arguments approved))"
    if "patient (cb_target reg)" "rx_deadline (in_ctx iv) = None \<longleftrightarrow> rx_timeout (in_ctx iv) = None"
    for x inherits budget cancelled iv reg arguments approved
    by (rule raises_in_context, rule raises_mono[OF raises_run[OF that]]) (auto simp: body_errors_def escaping_def)
  have "validated_timeout t = Inl e \<Longrightarrow> e = ValueError" for t e
    by (auto simp: validated_timeout_def split: option.splits pyval.splits if_splits)
  then show ?thesis
    unfolding invoke_agent_def
    by (auto simp: escaping_def[symmetric] split: sum.splits option.splits intro!: raises_bind raises_create run target
        dest!: create_run_context_run(2)[OF _ refl])
      (auto simp: escaping_def invocation_context_def)
qed


section \<open>What success means\<close>

lemma failed_success:
  "failed env iv outcome reason k mk m = (Inr (InvocationSuccess i w u md), m') \<Longrightarrow> \<exists>md'. mk md' = InvocationSuccess i w u md"
  by (auto simp: failed_def with_metadata_def prog_defs split: prod.splits sum.splits)

lemma completion_failed_success: "completion_failed env iv e m \<noteq> (Inr (InvocationSuccess i w u md), m')"
  by (auto simp: completion_failed_def with_metadata_def prog_defs dest!: failed_success split: invoke_error.splits sec_error.splits)

lemma secM_run: "secM p m = (r, m') \<Longrightarrow> mc_run m' = mc_run m"
  by (auto simp: secM_def split: prod.splits)

text \<open>The metadata of a success: the run's, with the retrieval recorded.\<close>

definition success_metadata :: "run_context \<Rightarrow> retrieval option \<Rightarrow> invocation_metadata \<Rightarrow> bool" where
  "success_metadata x rv md \<longleftrightarrow> im_run_id md = rx_run_id x \<and> im_delegation_path md = rx_path x \<and> im_instruction_chain md = rx_chain x
     \<and> im_failure_classification md = None \<and> im_usage md = (if im_model_calls md = [] then unknown_usage else aggregate_usage (im_model_calls md))
     \<and> set_option rv \<subseteq> set (im_retrievals md)"

lemma returned_success:
  assumes "returned env iv retriever v m = (Inr (InvocationSuccess i w u md), m')"
  obtains val rv mt where "accept_output env (in_capability iv) retriever v = Inr (val, rv)"
    "serialize_result (en_float env) val = Some w" "i = in_correlation iv" "md = Some mt" "success_metadata (in_ctx iv) rv mt"
proof -
  obtain val rv where acc: "accept_output env (in_capability iv) retriever v = Inr (val, rv)"
    using assms by (cases "accept_output env (in_capability iv) retriever v")
      (auto simp: returned_def output_violated_def dest!: failed_success split: prod.splits)
  define m1 where "m1 = snd ((case rv of None \<Rightarrow> retS () | Some r \<Rightarrow> on_run (\<lambda>u. ((), snd (record_retrieval r u)))) m :: (invoke_error + unit) \<times> _)"
  have m1: "(case rv of None \<Rightarrow> retS () | Some r \<Rightarrow> on_run (\<lambda>u. ((), snd (record_retrieval r u)))) m = (Inr (), m1)"
    "set_option rv \<subseteq> set (ru_retrievals (mc_run m1))"
    by (auto simp: m1_def prog_defs on_run_def record_retrieval_def split: option.splits)
  obtain w' where ser: "serialize_result (en_float env) val = Some w'"
    using assms by (cases "serialize_result (en_float env) val")
      (auto simp: returned_def output_violated_def acc thenS_def bindS_def m1 dest!: failed_success split: prod.splits capability_exn.splits)
  obtain r m2 where emit: "emit_exec env iv EXECUTION_COMPLETED SUCCESS ''completed'' None (completion_extensions rv) m1 = (r, m2)" by fastforce
  have run: "mc_run m2 = mc_run m1" using emit unfolding emit_exec_def by (rule secM_run)
  have "r = Inr ()" "InvocationSuccess i w u md = InvocationSuccess (in_correlation iv) w' unknown_usage
      (Some (build_invocation_metadata None None (in_ctx iv) (mc_run m2)))"
    using assms
    by (auto simp: completion_failed_success returned_def output_violated_def acc ser thenS_def bindS_def m1 emit catchS_def with_metadata_def getS_def
        split: sum.splits prod.splits)
  then show thesis
    by (intro that[OF acc, of "build_invocation_metadata None None (in_ctx iv) (mc_run m2)"])
      (use ser m1(2) in \<open>auto simp: success_metadata_def build_invocation_metadata_def run\<close>)
qed

lemma execute_success:
  assumes "execute env iv reg args m = (Inr (InvocationSuccess i w u md), m')"
  obtains m1 v m2 val rv mt where "cb_target reg args (in_ctx iv) m1 = (Returned v, m2)"
    "accept_output env (in_capability iv) (cb_retriever reg) v = Inr (val, rv)"
    "serialize_result (en_float env) val = Some w" "i = in_correlation iv" "md = Some mt" "success_metadata (in_ctx iv) rv mt"
proof -
  obtain e m1 m2 where a: "await_target (cb_target reg) args iv m1 = (Inr e, m2)"
    and c: "conclude env iv (cb_retriever reg) e m2 = (Inr (InvocationSuccess i w u md), m')"
    using assms by (auto simp: execute_def thenS_def bindS_def split: prod.splits sum.splits)
  obtain v where v: "e = Returned v"
  proof (cases e)
    case (Raised ex)
    with c show thesis by (auto simp: conclude_def Let_def dest!: failed_success split: option.splits prod.splits)
  next
    case (Interrupted k)
    with c show thesis
      by (cases k) (auto simp: conclude_def Let_def with_metadata_def prog_defs dest!: failed_success split: option.splits)
  qed (use that in blast)
  then obtain m3 m4 where t: "cb_target reg args (in_ctx iv) m3 = (Returned v, m4)"
    using a by (auto simp: await_target_def run_target_def split: prod.splits sum.splits body_end.splits)
  have "returned env iv (cb_retriever reg) v m2 = (Inr (InvocationSuccess i w u md), m')" using c v by (simp add: conclude_def)
  then show thesis by (rule returned_success) (rule that[OF t])
qed

lemma run_success:
  assumes "run_invocation env iv reg arguments approved m = (Inr (InvocationSuccess i w u md), m')"
  obtains args m1 v m2 val rv mt where "cb_validate reg arguments = Inr args" "cb_target reg args (in_ctx iv) m1 = (Returned v, m2)"
    "accept_output env (in_capability iv) (cb_retriever reg) v = Inr (val, rv)"
    "serialize_result (en_float env) val = Some w" "i = in_correlation iv" "md = Some mt" "success_metadata (in_ctx iv) rv mt"
proof -
  have authorized: "\<exists>m0. execute env iv reg args m0 = (Inr (InvocationSuccess i w u md), m')"
    if "authorize_and_execute env iv reg args approved m = (Inr (InvocationSuccess i w u md), m')" for args m
    using that by (auto simp: authorize_and_execute_def bindS_def with_metadata_def prog_defs split: prod.splits sum.splits if_splits option.splits)
  have invalid: "invalid_arguments env iv errors m \<noteq> (Inr (InvocationSuccess i w u md), m')" for errors m
    by (auto simp: invalid_arguments_def dest!: failed_success)
  obtain args where args: "cb_validate reg arguments = Inr args"
    using assms by (auto simp: run_invocation_def prog_defs with_metadata_def invalid_arguments_def dest!: failed_success
        split: if_splits sum.splits)
  then obtain m0 where "authorize_and_execute env iv reg args approved m0 = (Inr (InvocationSuccess i w u md), m')"
    using assms by (auto simp: run_invocation_def prog_defs with_metadata_def invalid_arguments_def simp del: query_text.simps
        dest!: failed_success split: if_splits option.splits)
  with authorized obtain m1 where "execute env iv reg args m1 = (Inr (InvocationSuccess i w u md), m')" by blast
  then show thesis by (rule execute_success) (rule that[OF args])
qed

lemma in_context_result:
  "in_context c x inherits budget cancelled p m = (r, m') \<Longrightarrow> \<exists>m1 m2. p m1 = (r, m2)"
  by (auto simp: in_context_def split: prod.splits)

text \<open>
  C35. A success is what the capability returned.  The value of a successful invocation is the JSON serialization of
  what the capability returned for the validated arguments, for a retriever after its output was
  validated; and its metadata names the run, its path, its instructions and the retrieval.
\<close>

theorem success_is_what_returned:
  assumes "runtime_invoke_op env c active ag q m = (Inr (InvocationSuccess i w u md), m')"
  shows "\<exists>cap reg args x m1 v m2 val rv mt. resolve_capability (en_digest env) ag (iq_capability q) = Some (cap, reg)
     \<and> cb_validate reg (iq_arguments q) = Inr args \<and> cb_target reg args x m1 = (Returned v, m2)
     \<and> accept_output env cap (cb_retriever reg) v = Inr (val, rv) \<and> serialize_result (en_float env) val = Some w \<and> is_json w
     \<and> md = Some mt \<and> success_metadata x rv mt
     \<and> im_delegation_path mt = (case own_parent active of None \<Rightarrow> [] | Some p \<Rightarrow> rx_path p) @ [(ag_name ag, cap)]
     \<and> im_instruction_chain mt = resolve_instruction_chain (rt_policy_instructions (en_config env)) (ag_instructions ag) (cb_instructions reg)
     \<and> (iq_correlation q \<noteq> [] \<longrightarrow> i = iq_correlation q)"
proof -
  obtain authorization where inv: "invoke_agent env c (own_parent active) ag (q\<lparr>iq_authorization := authorization, iq_approved := None\<rparr>) m
      = (Inr (InvocationSuccess i w u md), m')"
    using assms
    by (auto simp: runtime_invoke_op_def invoke_capability_def bare_failure_def normalize_failure_def prog_defs
        split: if_splits sum.splits prod.splits invoke_error.splits sec_error.splits)
  let ?q = "q\<lparr>iq_authorization := authorization, iq_approved := None\<rparr>"
  obtain corr m0 where corr: "or_fresh env (iq_correlation q) m = (Inr corr, m0)" and same: "iq_correlation q \<noteq> [] \<longrightarrow> corr = iq_correlation q"
    using quiet_or_fresh[of env "iq_correlation q" m] by (metis prod.collapse)
  obtain cap reg where res: "resolve_capability (en_digest env) ag (iq_capability q) = Some (cap, reg)"
    using inv by (auto simp: invoke_agent_def prog_defs corr split: if_splits sum.splits option.splits)
  obtain timeout where time: "validated_timeout (iq_timeout q) = Inr timeout"
    using inv by (auto simp: invoke_agent_def prog_defs split: sum.splits if_splits)
  define cr where "cr = \<lparr>cr_agent_id = ag_name ag, cr_run = effective_run (iq_run q) timeout, cr_model = None, cr_correlation_id = corr,
      cr_run_id = [], cr_authorization = authorization, cr_allowed = iq_allowed q, cr_frame = Some (ag_name ag, cap),
      cr_chain = resolve_instruction_chain (rt_policy_instructions (en_config env)) (ag_instructions ag) (cb_instructions reg)\<rparr>"
  obtain x m1 where x: "create_run_context env (own_parent active) (capability_config (ag_config ag) (cb_model_required reg)) (iq_model q) cr m0 = (Inr x, m1)"
    and run: "in_context c x (own_parent active \<noteq> None) (iq_budget q) (iq_cancelled q)
      (run_invocation env \<lparr>in_ctx = x, in_correlation = corr, in_capability = cap\<rparr> reg (iq_arguments q) None) m1
      = (Inr (InvocationSuccess i w u md), m')"
    using inv unfolding cr_def
    by (auto simp: invoke_agent_def res time bindS_def raiseS_def corr split: sum.splits prod.splits if_splits)
  from in_context_result[OF run] obtain n1 n2 where
    "run_invocation env \<lparr>in_ctx = x, in_correlation = corr, in_capability = cap\<rparr> reg (iq_arguments q) None n1 = (Inr (InvocationSuccess i w u md), n2)" by blast
  then obtain args n3 v n4 val rv mt where a: "cb_validate reg (iq_arguments q) = Inr args" "cb_target reg args x n3 = (Returned v, n4)"
    "accept_output env cap (cb_retriever reg) v = Inr (val, rv)" "serialize_result (en_float env) val = Some w"
    "i = corr" "md = Some mt" "success_metadata x rv mt"
    by (rule run_success) simp
  have "invocation_context (own_parent active) (ag_name ag) cap authorization x \<and> rx_chain x = cr_chain cr"
    using create_run_context_run(2)[OF x refl, of cap] by (simp add: cr_def)
  with a same res serialize_normal[OF a(4)] show ?thesis
    by (intro exI conjI) (auto simp: success_metadata_def invocation_context_def cr_def normal_def)
qed

text \<open>
  Authorization needs the caller's correlation identifier.  When an authorized caller omits the correlation
  identifier, the invocation is denied before the capability runs, although the context would take an omitted identifier
  from the authorization: a fresh one is generated first, and does not match.
\<close>

theorem omitted_correlation_denied:
  assumes "iq_correlation q = []"
    and "delegate_context (case active of None \<Rightarrow> None | Some (x, _) \<Rightarrow> rx_authorization x) (iq_authorization q) = Inr (Some a)"
    and "en_new_id env (mc_ids m) \<notin> {[], ac_correlation_id a}" and "\<not> mc_closed m"
    and "is_mapping (iq_arguments q)" and "validated_timeout (iq_timeout q) = Inr timeout"
    and "resolve_capability (en_digest env) ag (iq_capability q) = Some (cap, reg)"
    and "resolve_binding (en_lookup env) (en_policy env) (ag_name ag) (capability_config (ag_config ag) (cb_model_required reg))
      (effective_run (iq_run q) timeout) (en_config env) (iq_model q)
      (am_required_capabilities (capability_config (ag_config ag) (cb_model_required reg))) = Inr model"
  shows "\<exists>i m'. runtime_invoke_op env c active ag q m = (Inr (InvocationAuthorizationFailure i ''security_error'' None), m') \<and> quiet m m'"
proof -
  let ?corr = "en_new_id env (mc_ids m)" and ?q = "q\<lparr>iq_authorization := Some a, iq_approved := None\<rparr>"
  define cr where "cr = \<lparr>cr_agent_id = ag_name ag, cr_run = effective_run (iq_run q) timeout, cr_model = None, cr_correlation_id = ?corr,
      cr_run_id = [], cr_authorization = Some a, cr_allowed = iq_allowed q, cr_frame = Some (ag_name ag, cap),
      cr_chain = resolve_instruction_chain (rt_policy_instructions (en_config env)) (ag_instructions ag) (cb_instructions reg)\<rparr>"
  define m0 where "m0 = m\<lparr>mc_ids := Suc (mc_ids m)\<rparr>"
  have q0: "quiet m m0" by (simp add: m0_def quiet_def)
  obtain d t m1 where d: "effective_deadline (own_parent active) (timeout_seconds (rn_timeout (cr_run cr))) m0 = (Inr (d, t), m1)" and q1: "quiet m0 m1"
    using effective_deadline_run[of "own_parent active" "timeout_seconds (rn_timeout (cr_run cr))" m0] by (metis prod.collapse)
  obtain i m2 where i: "effective_run_id env (own_parent active) (cr\<lparr>cr_model := model\<rparr>) m1 = (Inr i, m2)" and q2: "quiet m1 m2"
    using quiet_run_id[of env "own_parent active" "cr\<lparr>cr_model := model\<rparr>" m1] by (metis prod.collapse)
  have "build_run_context env (own_parent active) (cr\<lparr>cr_model := model\<rparr>) m0 = (Inl (Sec SecurityError), m2)"
    using assms(3) d i by (auto simp: build_run_context_def bindS_def raiseS_def cr_def)
  moreover have "create_run_context env (own_parent active) (capability_config (ag_config ag) (cb_model_required reg)) (iq_model q) cr m0
      = build_run_context env (own_parent active) (cr\<lparr>cr_model := model\<rparr>) m0"
    using assms(4,8) by (simp add: create_run_context_def bindS_def getS_def m0_def cr_def)
  ultimately have "invoke_agent env c (own_parent active) ag ?q m = (Inl (Sec SecurityError), m2)"
    using assms(1,5,6,7) by (simp add: invoke_agent_def or_fresh_def fresh_id_def bindS_def cr_def m0_def)
  moreover obtain k m3 where "or_fresh env [] m2 = (Inr k, m3)" and q3: "quiet m2 m3"
    using quiet_or_fresh[of env "[]" m2] by (metis prod.collapse)
  ultimately have "runtime_invoke_op env c active ag q m = (Inr (InvocationAuthorizationFailure k ''security_error'' None), m3)"
    using assms(1,2,4) by (simp add: runtime_invoke_op_def bindS_def getS_def invoke_capability_def catchS_def normalize_failure_def
        bare_failure_def retS_def)
  moreover have "quiet m m3" using quiet_trans[OF quiet_trans[OF q0 q1] quiet_trans[OF q2 q3]] .
  ultimately show ?thesis by blast
qed

section \<open>A concrete invocation\<close>

definition demo_env :: "(approval_store, unit emitter, unit, unit) runtime_env" where
  "demo_env = \<lparr>en_pipeline = sample_pipeline\<lparr>d_audit := None\<rparr>, en_lookup = (\<lambda>_. None), en_policy = None,
     en_config = \<lparr>rt_default_model = None, rt_policy_instructions = [''policy'']\<rparr>, en_digest = (\<lambda>s. s), en_new_id = (\<lambda>n. ''id''),
     en_float = sample_float_text, en_coerce = (\<lambda>_. None)\<rparr>"

type_synonym demo_machine = "(approval_store, unit emitter, nat) machine"

definition demo_machine :: demo_machine where
  "demo_machine = \<lparr>mc_run = \<lparr>ru_budget = default_budget, ru_calls = [], ru_retrievals = [], ru_cancelled = False,
       ru_invocation = init_invocation_state, ru_current = (\<lambda>_. None), ru_clock = \<lparr>readings = of_nat, reads = 0\<rparr>\<rparr>,
     mc_world = empty_world, mc_ids = 0, mc_closed = False, mc_detached = []\<rparr>"

definition demo_body :: "int \<Rightarrow> (approval_store, unit emitter, nat) body" where
  "demo_body n args x m = (Returned (PlainValue (RInt n)), m)"

definition demo_agent :: "int \<Rightarrow> (approval_store, unit emitter, nat) agent_object" where
  "demo_agent n = \<lparr>ag_name = ''billing'', ag_instructions = None,
     ag_config = \<lparr>am_default_model = None, am_requirement = NO_MODEL, am_required_capabilities = {}\<rparr>,
     ag_capabilities = [(''find'', \<lparr>cb_function = 0, cb_guardrails = sample_target False, cb_validate = (\<lambda>_. Inr []), cb_retriever = None,
       cb_model_required = None, cb_instructions = Some ''find'', cb_target = demo_body n\<rparr>)]\<rparr>"

definition demo_request :: "string \<Rightarrow> invoke_request" where
  "demo_request corr = \<lparr>iq_capability = CapName ''find'', iq_arguments = VDict [], iq_timeout = None, iq_correlation = corr, iq_model = None,
     iq_run = None, iq_authorization = Some sample_context, iq_approved = None, iq_allowed = None, iq_budget = None, iq_cancelled = False\<rparr>"

lemma demo_retarget: "retarget (demo_body k) (demo_agent n) = demo_agent k"
  by (simp add: retarget_def demo_agent_def)

lemma demo_success:
  "case fst (runtime_invoke_op demo_env 0 None (demo_agent 1) (demo_request ''c'') demo_machine) of
     Inr (InvocationSuccess i w u md) \<Rightarrow> w = VInt 1 | _ \<Rightarrow> False"
  "case fst (runtime_invoke_op demo_env 0 None (demo_agent 2) (demo_request ''c'') demo_machine) of
     Inr (InvocationSuccess i w u md) \<Rightarrow> w = VInt 2 | _ \<Rightarrow> False"
  by code_simp+

lemma demo_run:
  obtains i u md m' where "runtime_invoke_op demo_env 0 None (demo_agent 1) (demo_request ''c'') demo_machine
      = (Inr (InvocationSuccess i (VInt 1) u md), m')"
  using demo_success(1) by (cases "runtime_invoke_op demo_env 0 None (demo_agent 1) (demo_request ''c'') demo_machine")
    (auto split: sum.splits invocation_result.splits)

theorem capability_runs_only_when_authorized_witness:
  "\<exists>cap reg args x m1 authorization. resolve_capability (en_digest demo_env) (demo_agent 0) (CapName ''find'') = Some (cap, reg)
     \<and> cb_validate reg (VDict []) = Inr args \<and> demo_body 1 args x m1 \<noteq> demo_body 2 args x m1
     \<and> guardrails_met (cb_guardrails reg) authorization args"
proof -
  have "fst (runtime_invoke_op demo_env 0 None (demo_agent 1) (demo_request ''c'') demo_machine)
      \<noteq> fst (runtime_invoke_op demo_env 0 None (demo_agent 2) (demo_request ''c'') demo_machine)"
    using demo_success by (auto split: sum.splits invocation_result.splits)
  then have "runtime_invoke_op demo_env 0 None (retarget (demo_body 1) (demo_agent 0)) (demo_request ''c'') demo_machine
      \<noteq> runtime_invoke_op demo_env 0 None (retarget (demo_body 2) (demo_agent 0)) (demo_request ''c'') demo_machine"
    unfolding demo_retarget by metis
  from capability_runs_only_when_authorized[OF this] show ?thesis
    unfolding demo_request_def invoke_request.select_convs by blast
qed

theorem invocation_scoped_witness:
  "\<exists>r m'. runtime_invoke_op demo_env 0 None (demo_agent 1) (demo_request ''c'') demo_machine = (Inr r, m')
     \<and> ru_current (mc_run m') 0 = None \<and> ru_calls (mc_run m') = []"
proof -
  obtain i u md m' where r: "runtime_invoke_op demo_env 0 None (demo_agent 1) (demo_request ''c'') demo_machine
      = (Inr (InvocationSuccess i (VInt 1) u md), m')" by (rule demo_run)
  from invocation_scoped[OF r] r show ?thesis by (auto simp: demo_machine_def)
qed


theorem success_is_what_returned_witness:
  "\<exists>reg args x m1 v m2 val. resolve_capability (en_digest demo_env) (demo_agent 1) (CapName ''find'') = Some (''find'', reg)
     \<and> cb_target reg args x m1 = (Returned v, m2) \<and> accept_output demo_env ''find'' (cb_retriever reg) v = Inr (val, None)
     \<and> serialize_result sample_float_text val = Some (VInt 1) \<and> rx_path x = [(''billing'', ''find'')]"
proof -
  obtain i u md m' where r: "runtime_invoke_op demo_env 0 None (demo_agent 1) (demo_request ''c'') demo_machine
      = (Inr (InvocationSuccess i (VInt 1) u md), m')" by (rule demo_run)
  from success_is_what_returned[OF r] show ?thesis
    by (fastforce simp: demo_request_def demo_agent_def demo_env_def own_parent_def resolve_capability_def success_metadata_def
        accept_output_def)
qed

theorem omitted_correlation_denied_witness:
  "\<exists>i m'. runtime_invoke_op demo_env 0 None (demo_agent 1) (demo_request []) demo_machine
      = (Inr (InvocationAuthorizationFailure i ''security_error'' None), m')"
proof -
  have "\<exists>i m'. runtime_invoke_op demo_env 0 None (demo_agent 1) (demo_request []) demo_machine
      = (Inr (InvocationAuthorizationFailure i ''security_error'' None), m') \<and> quiet demo_machine m'"
    by (rule omitted_correlation_denied[where a = sample_context and timeout = None and cap = "''find''"
          and reg = "snd (hd (ag_capabilities (demo_agent 1)))" and model = None])
      (simp_all add: demo_request_def demo_env_def demo_machine_def demo_agent_def sample_context_def is_mapping_def validated_timeout_def
        resolve_capability_def resolve_binding_def select_reference_def effective_run_def default_run_config_def capability_config_def)
  then show ?thesis by blast
qed

end
