(* ===== verification/Bindings.thy ===== *)
theory Bindings
  imports GatewayModels JsonText
begin

text \<open>
  The authority that issues and authenticates opaque capability bindings,
  \<open>core/gateway/_bindings.py\<close>.  \<open>mac k m\<close> is the hexadecimal HMAC-SHA256 of the text \<open>m\<close> under the
  key \<open>k\<close>.  The store, the clock and the source of nonces belong to the runtime and are shared by all
  its gateways; they are the state.  The type checks of \<open>validate\<close> hold by the types of the record.
\<close>

section \<open>The authority\<close>

text \<open>An entry of the shared store that is not a \<open>_StoredBinding\<close> is \<open>OtherEntry\<close>.\<close>

datatype 'a stored = StoredBinding pyfloat 'a | OtherEntry

record authority =
  au_runtime_id :: string
  au_secret :: string
  au_ttl :: pyfloat

record 'a binding_state =
  bs_store :: "(string, 'a stored) dict"
  bs_clock :: clock
  bs_nonces :: "nat \<Rightarrow> string"
  bs_next :: nat

fun add_float :: "time \<Rightarrow> pyfloat \<Rightarrow> pyfloat" where
  "add_float t (Finite q) = Finite (t + q)"
| "add_float t x = x"

text \<open>\<open>x <= t\<close> for a float and a clock reading.\<close>

fun float_le :: "pyfloat \<Rightarrow> time \<Rightarrow> bool" where
  "float_le (Finite q) t = (q \<le> t)"
| "float_le NegInf t = True"
| "float_le x t = False"

definition read_clock :: "'a binding_state \<Rightarrow> time \<times> 'a binding_state" where
  "read_clock s = (case tick (bs_clock s) of (t, c) \<Rightarrow> (t, s\<lparr>bs_clock := c\<rparr>))"

text \<open>The signed fields: every field of a binding but the signature.\<close>

definition signed_values :: "capability_binding \<Rightarrow> pyval" where
  "signed_values b = VDict [(''agent_id'', VStr (bd_agent_id b)), (''capability_id'', VStr (bd_capability_id b)),
     (''schema_digest'', VStr (bd_schema_digest b)), (''registry_revision'', VInt (bd_registry_revision b)),
     (''registration_generation'', VInt (bd_generation b)), (''runtime_id'', VStr (bd_runtime_id b)),
     (''issued_at'', VFloat (bd_issued_at b)), (''expires_at'', VFloat (bd_expires_at b)),
     (''nonce'', VStr (bd_nonce b))]"

definition binding_text :: "(pyfloat \<Rightarrow> string) \<Rightarrow> capability_binding \<Rightarrow> string" where
  "binding_text fr b = the (canonical_json fr (signed_values b))"

definition binding_mac :: "(string \<Rightarrow> string \<Rightarrow> string) \<Rightarrow> (pyfloat \<Rightarrow> string) \<Rightarrow> authority \<Rightarrow> capability_binding \<Rightarrow> string" where
  "binding_mac mac fr au b = mac (au_secret au) (binding_text fr b)"

definition prune_bindings :: "time \<Rightarrow> (string, 'a stored) dict \<Rightarrow> (string, 'a stored) dict" where
  "prune_bindings now d = filter (\<lambda>(_, e). case e of StoredBinding x _ \<Rightarrow> \<not> float_le x now | OtherEntry \<Rightarrow> True) d"

definition issue ::
  "(string \<Rightarrow> string \<Rightarrow> string) \<Rightarrow> (pyfloat \<Rightarrow> string) \<Rightarrow> authority \<Rightarrow> capability_descriptor \<Rightarrow> int \<Rightarrow> int \<Rightarrow> 'a
   \<Rightarrow> 'a binding_state \<Rightarrow> capability_binding \<times> 'a binding_state" where
  "issue mac fr au d revision generation st s =
     (let (issued, s1) = read_clock s;
          nonce = bs_nonces s1 (bs_next s1);
          b = \<lparr>bd_agent_id = cd_agent_id d, bd_capability_id = cd_capability_id d, bd_schema_digest = cd_schema_digest d,
               bd_registry_revision = revision, bd_generation = generation, bd_runtime_id = au_runtime_id au,
               bd_issued_at = Finite issued, bd_expires_at = add_float issued (au_ttl au), bd_nonce = nonce,
               bd_signature = []\<rparr> in
      (b\<lparr>bd_signature := binding_mac mac fr au b\<rparr>,
       s1\<lparr>bs_next := Suc (bs_next s1),
          bs_store := dset nonce (StoredBinding (add_float issued (au_ttl au)) st) (prune_bindings issued (bs_store s1))\<rparr>))"

definition is_hex :: "char \<Rightarrow> bool" where
  "is_hex c \<longleftrightarrow> c \<in> set ''0123456789abcdef''"

definition well_formed :: "capability_binding \<Rightarrow> bool" where
  "well_formed b \<longleftrightarrow>
     list_all (\<lambda>v. v \<noteq> []) [bd_agent_id b, bd_capability_id b, bd_schema_digest b, bd_runtime_id b, bd_nonce b, bd_signature b]
     \<and> 0 \<le> bd_registry_revision b \<and> 1 \<le> bd_generation b
     \<and> isfinite (bd_issued_at b) \<and> isfinite (bd_expires_at b)
     \<and> fin_val (bd_issued_at b) < fin_val (bd_expires_at b)
     \<and> length (bd_signature b) = 64 \<and> list_all is_hex (bd_signature b)"

definition validate ::
  "(string \<Rightarrow> string \<Rightarrow> string) \<Rightarrow> (pyfloat \<Rightarrow> string) \<Rightarrow> authority \<Rightarrow> capability_binding
   \<Rightarrow> ('a binding_state, gateway_failure_code, unit) prog" where
  "validate mac fr au b s =
     (if \<not> well_formed b then (Inl INVALID_BINDING, s)
      else if bd_runtime_id b \<noteq> au_runtime_id au then (Inl FOREIGN_RUNTIME, s)
      else (let (now, s1) = read_clock s in
        if float_le (bd_expires_at b) now then (Inl EXPIRED_BINDING, s1)
        else if bd_signature b \<noteq> binding_mac mac fr au b then (Inl INVALID_BINDING, s1)
        else (Inr (), s1)))"

definition stored_state :: "capability_binding \<Rightarrow> ('a binding_state, gateway_failure_code, 'a) prog" where
  "stored_state b s =
     (case dget (bs_store s) (bd_nonce b) of
        Some (StoredBinding x st) \<Rightarrow>
          (let (now, s1) = read_clock s in
           if float_le x now then (Inl EXPIRED_BINDING, s1\<lparr>bs_store := ddel (bd_nonce b) (bs_store s1)\<rparr>)
           else (Inr st, s1))
      | _ \<Rightarrow> (Inl INVALID_BINDING, s))"

definition resolve ::
  "(string \<Rightarrow> string \<Rightarrow> string) \<Rightarrow> (pyfloat \<Rightarrow> string) \<Rightarrow> authority \<Rightarrow> capability_binding
   \<Rightarrow> ('a binding_state, gateway_failure_code, 'a) prog" where
  "resolve mac fr au b = bindS (validate mac fr au b) (\<lambda>_. stored_state b)"

section \<open>The signed text determines the binding\<close>

lemma binding_text_eq:
  "binding_text fr b = ''{'' @
     json_string ''agent_id'' @ '':'' @ json_string (bd_agent_id b) @ '','' @
     json_string ''capability_id'' @ '':'' @ json_string (bd_capability_id b) @ '','' @
     json_string ''expires_at'' @ '':'' @ fr (bd_expires_at b) @ '','' @
     json_string ''issued_at'' @ '':'' @ fr (bd_issued_at b) @ '','' @
     json_string ''nonce'' @ '':'' @ json_string (bd_nonce b) @ '','' @
     json_string ''registration_generation'' @ '':'' @ int_text (bd_generation b) @ '','' @
     json_string ''registry_revision'' @ '':'' @ int_text (bd_registry_revision b) @ '','' @
     json_string ''runtime_id'' @ '':'' @ json_string (bd_runtime_id b) @ '','' @
     json_string ''schema_digest'' @ '':'' @ json_string (bd_schema_digest b) @ ''}''"
  by (simp add: binding_text_def signed_values_def json_object_def dsorted_def)

definition float_texts :: "(pyfloat \<Rightarrow> string) \<Rightarrow> bool" where
  "float_texts fr \<longleftrightarrow> inj fr \<and> (\<forall>x. CHR '','' \<notin> set (fr x))"

lemma json_string_iff: "json_string s @ r = json_string s' @ r' \<longleftrightarrow> s = s' \<and> r = r'"
  using json_string_prefix by blast

lemma int_text_iff: "int_text i @ CHR '','' # r = int_text j @ CHR '','' # r' \<longleftrightarrow> i = j \<and> r = r'"
  using until_delimiter[OF int_text_no_comma int_text_no_comma] int_text_inj by blast

lemma float_text_iff:
  "float_texts fr \<Longrightarrow> fr x @ CHR '','' # r = fr y @ CHR '','' # r' \<longleftrightarrow> x = y \<and> r = r'"
  unfolding float_texts_def inj_def by (blast dest: until_delimiter[rotated 2])

lemma json_string_inj: "json_string s = json_string s' \<Longrightarrow> s = s'"
  using json_string_prefix[of s "[]" s' "[]"] by simp

lemma binding_text_fields:
  assumes "float_texts fr" and "binding_text fr b = binding_text fr b'" and "bd_signature b = bd_signature b'"
  shows "b = b'"
  using assms(2,3)
  by (auto simp: binding_text_eq json_string_iff int_text_iff float_text_iff[OF assms(1)]
      intro: capability_binding.equality dest: json_string_inj)

section \<open>What an accepted binding means\<close>

lemma validate_Inr:
  assumes "validate mac fr au b s = (Inr u, s')"
  shows "well_formed b \<and> bd_runtime_id b = au_runtime_id au \<and> bd_signature b = binding_mac mac fr au b
     \<and> readings (bs_clock s) (reads (bs_clock s)) < fin_val (bd_expires_at b) \<and> s' = snd (read_clock s)"
  using assms
  by (cases "bd_expires_at b") (auto simp: validate_def read_clock_def tick_def well_formed_def split: if_splits)

lemma issue_signature: "bd_signature (fst (issue mac fr au d v g st s)) = binding_mac mac fr au (fst (issue mac fr au d v g st s))"
  by (simp add: issue_def Let_def binding_mac_def binding_text_def signed_values_def split: prod.splits)

lemma issue_fields:
  assumes "issue mac fr au d v g st s = (b, s')"
  shows "bd_agent_id b = cd_agent_id d" "bd_capability_id b = cd_capability_id d" "bd_schema_digest b = cd_schema_digest d"
    "bd_registry_revision b = v" "bd_generation b = g" "bd_runtime_id b = au_runtime_id au"
    "bd_issued_at b = Finite (readings (bs_clock s) (reads (bs_clock s)))"
    "bd_expires_at b = add_float (readings (bs_clock s) (reads (bs_clock s))) (au_ttl au)" "bd_nonce b = bs_nonces s (bs_next s)"
  using assms by (auto simp: issue_def Let_def read_clock_def tick_def)

lemma issue_state:
  assumes "issue mac fr au d v g st s = (b, s')"
  shows "bs_clock s' = snd (tick (bs_clock s))" "bs_nonces s' = bs_nonces s" "bs_next s' = Suc (bs_next s)"
    "bs_store s' = dset (bd_nonce b) (StoredBinding (bd_expires_at b) st)
       (prune_bindings (readings (bs_clock s) (reads (bs_clock s))) (bs_store s))"
  using assms by (auto simp: issue_def Let_def read_clock_def tick_def)

text \<open>
  C28. A changed binding is not accepted.  Let an authority issue a binding, and let a binding that
  carries the same signature be resolved successfully at any later state by an authority with the same key.
  If the code of the two signed texts collides only when the texts are equal, the accepted binding is
  the issued one in every field: the agent, the capability, the schema digest, the revision, the generation, the
  runtime, both times and the nonce are all bound by the signature, because the signed text
  determines them.
\<close>

theorem tampering_rejected:
  assumes "issue mac fr au d v g st s = (b0, s0)" and "resolve mac fr au b s1 = (Inr st', s2)"
    and "bd_signature b = bd_signature b0" and "float_texts fr"
    and "mac (au_secret au) (binding_text fr b) = mac (au_secret au) (binding_text fr b0) \<Longrightarrow> binding_text fr b = binding_text fr b0"
  shows "b = b0 \<and> bd_agent_id b = cd_agent_id d \<and> bd_capability_id b = cd_capability_id d
     \<and> bd_schema_digest b = cd_schema_digest d \<and> bd_generation b = g"
proof -
  obtain s' where "validate mac fr au b s1 = (Inr (), s')"
    using assms(2) by (auto simp: resolve_def bindS_def split: prod.splits sum.splits)
  then have sig: "bd_signature b = binding_mac mac fr au b" by (simp add: validate_Inr)
  have "bd_signature b0 = binding_mac mac fr au b0" using issue_signature[of mac fr au d v g st s] assms(1) by simp
  with sig assms(3) have "binding_text fr b = binding_text fr b0" by (intro assms(5)) (simp add: binding_mac_def)
  with assms(3,4) have "b = b0" by (blast intro: binding_text_fields)
  with issue_fields[OF assms(1)] show ?thesis by simp
qed

section \<open>The lifetime of a binding\<close>

datatype 'a authority_op =
    OpIssue authority capability_descriptor int int 'a
  | OpResolve authority capability_binding

fun exec_op :: "(string \<Rightarrow> string \<Rightarrow> string) \<Rightarrow> (pyfloat \<Rightarrow> string) \<Rightarrow> 'a authority_op \<Rightarrow> 'a binding_state \<Rightarrow> 'a binding_state" where
  "exec_op mac fr (OpIssue au d v g st) s = snd (issue mac fr au d v g st s)"
| "exec_op mac fr (OpResolve au b) s = snd (resolve mac fr au b s)"

definition run_ops :: "(string \<Rightarrow> string \<Rightarrow> string) \<Rightarrow> (pyfloat \<Rightarrow> string) \<Rightarrow> 'a authority_op list \<Rightarrow> 'a binding_state \<Rightarrow> 'a binding_state" where
  "run_ops mac fr ops s = fold (exec_op mac fr) ops s"

text \<open>The entry of a live binding, and the clock and nonces ahead.\<close>

definition live :: "string \<Rightarrow> time \<Rightarrow> 'a \<Rightarrow> (nat \<Rightarrow> time) \<Rightarrow> (nat \<Rightarrow> string) \<Rightarrow> 'a binding_state \<Rightarrow> bool" where
  "live nonce e st rd ns s \<longleftrightarrow> readings (bs_clock s) = rd \<and> bs_nonces s = ns \<and> (\<exists>k < bs_next s. nonce = ns k)
     \<and> (rd (reads (bs_clock s)) < e \<longrightarrow> dget (bs_store s) nonce = Some (StoredBinding (Finite e) st))"

lemma prune_keeps:
  assumes "dget d n = Some (StoredBinding x st)" and "\<not> float_le x now" shows "dget (prune_bindings now d) n = Some (StoredBinding x st)"
  using assms by (induction d) (auto simp: prune_bindings_def split: if_splits)

lemma mono_before: "mono rd \<Longrightarrow> rd (Suc k) < (e :: time) \<Longrightarrow> rd k < e"
  by (metis le_add2 le_less_trans monoD plus_1_eq_Suc)

lemma live_issue:
  assumes "live nonce e st rd ns s" and "mono rd" and "inj ns" and "issue mac fr au d v g st' s = (b, s')"
  shows "live nonce e st rd ns s'"
proof -
  note st = issue_state[OF assms(4)] issue_fields(9)[OF assms(4)]
  obtain k where k: "k < bs_next s" "nonce = ns k" and rd: "readings (bs_clock s) = rd" "bs_nonces s = ns"
    using assms(1) by (auto simp: live_def)
  have fresh: "nonce \<noteq> ns (bs_next s)" using k assms(3) by (auto simp: inj_def)
  have "dget (bs_store s') nonce = Some (StoredBinding (Finite e) st)" if later: "rd (Suc (reads (bs_clock s))) < e"
  proof -
    have now: "rd (reads (bs_clock s)) < e" by (rule mono_before[OF assms(2) later])
    then have "dget (bs_store s) nonce = Some (StoredBinding (Finite e) st)" using assms(1) by (simp add: live_def)
    from prune_keeps[OF this, of "rd (reads (bs_clock s))"] now fresh show ?thesis by (simp add: st rd)
  qed
  moreover have "\<exists>k < bs_next s'. nonce = ns k" using k by (auto simp: st intro: less_SucI)
  ultimately show ?thesis using rd by (simp add: live_def st(1-3) tick_def)
qed

lemma live_tick: "live nonce e st rd ns s \<Longrightarrow> mono rd \<Longrightarrow> live nonce e st rd ns (snd (read_clock s))"
  using mono_before[of rd "reads (bs_clock s)" e] by (auto simp: live_def read_clock_def tick_def)

lemma live_validate: "live nonce e st rd ns s \<Longrightarrow> mono rd \<Longrightarrow> live nonce e st rd ns (snd (validate mac fr au b s))"
  using live_tick[of nonce e st rd ns s] by (cases "read_clock s") (simp add: validate_def)

lemma live_delete:
  assumes "live nonce e st rd ns s" and "x = nonce \<Longrightarrow> e \<le> rd (reads (bs_clock s))"
  shows "live nonce e st rd ns (s\<lparr>bs_store := ddel x (bs_store s)\<rparr>)"
  using assms by (auto simp: live_def)

lemma live_stored:
  assumes "live nonce e st rd ns s" and "mono rd"
  shows "live nonce e st rd ns (snd (stored_state b s))"
proof (cases "dget (bs_store s) (bd_nonce b)")
  case (Some en)
  show ?thesis
  proof (cases en)
    case (StoredBinding x st')
    obtain now s1 where rc: "read_clock s = (now, s1)" by fastforce
    have l: "live nonce e st rd ns s1" using live_tick[OF assms] rc by simp
    have now: "now = rd (reads (bs_clock s))" "reads (bs_clock s1) = Suc (reads (bs_clock s))" "bs_store s1 = bs_store s"
      using rc assms(1) by (auto simp: live_def read_clock_def tick_def)
    have "e \<le> rd (reads (bs_clock s1))" if "float_le x now" "bd_nonce b = nonce"
    proof (rule ccontr)
      assume "\<not> e \<le> rd (reads (bs_clock s1))"
      then have "rd (reads (bs_clock s)) < e" using mono_before[OF assms(2)] now(2) by simp
      with assms(1) Some StoredBinding that now show False by (auto simp: live_def)
    qed
    with live_delete[OF l] l Some StoredBinding rc show ?thesis by (simp add: stored_state_def)
  qed (use Some assms(1) in \<open>simp add: stored_state_def\<close>)
qed (use assms(1) in \<open>simp add: stored_state_def\<close>)

lemma live_resolve:
  assumes "live nonce e st rd ns s" and "mono rd"
  shows "live nonce e st rd ns (snd (resolve mac fr au b s))"
  using live_validate[OF assms, of mac fr au b] live_stored[OF _ assms(2)]
  by (cases "validate mac fr au b s"; cases "fst (validate mac fr au b s)") (simp_all add: resolve_def bindS_def)

lemma live_run: "live nonce e st rd ns s \<Longrightarrow> mono rd \<Longrightarrow> inj ns \<Longrightarrow> live nonce e st rd ns (run_ops mac fr ops s)"
  unfolding run_ops_def
proof (induction ops arbitrary: s)
  case (Cons op ops)
  have "live nonce e st rd ns (exec_op mac fr op s)"
    using Cons.prems by (cases op) (simp_all add: live_resolve live_issue[OF _ _ _ surjective_pairing])
  with Cons show ?case by simp
qed simp


lemma live_after_issue:
  assumes "issue mac fr au d v g st s = (b, s0)" and "mono (readings (bs_clock s))" and "inj (bs_nonces s)"
    and "au_ttl au = Finite ttl"
  shows "live (bd_nonce b) (fin_val (bd_expires_at b)) st (readings (bs_clock s)) (bs_nonces s) (run_ops mac fr ops s0)"
proof (rule live_run[OF _ assms(2,3)])
  show "live (bd_nonce b) (fin_val (bd_expires_at b)) st (readings (bs_clock s)) (bs_nonces s) s0"
    using assms(4) by (simp add: live_def issue_state[OF assms(1)] issue_fields(8,9)[OF assms(1)] tick_def) blast
qed

text \<open>
  C30. A binding is honoured exactly during its lifetime.  Let a runtime with a monotone clock and unique
  nonces issue a binding for a named capability with a positive finite time to live, and let its gateways then
  issue and resolve any other bindings, in any order and by any authority over the same store.  When
  the binding is then resolved, it yields the state it was issued with whenever both clock readings
  precede its expiry, and it is refused as expired from its expiry on.
\<close>

theorem binding_lifetime:
  assumes "issue mac fr au d v g st s = (b, s0)" and "s1 = run_ops mac fr ops s0"
    and "mono (readings (bs_clock s))" and "inj (bs_nonces s)" and "au_ttl au = Finite ttl" and "0 < ttl"
    and "\<And>m. length (mac (au_secret au) m) = 64 \<and> list_all is_hex (mac (au_secret au) m)"
    and "list_all (\<lambda>x. x \<noteq> []) [cd_agent_id d, cd_capability_id d, cd_schema_digest d, au_runtime_id au, bs_nonces s (bs_next s)]"
    and "0 \<le> v" and "1 \<le> g"
  shows "(readings (bs_clock s1) (Suc (reads (bs_clock s1))) < fin_val (bd_expires_at b) \<longrightarrow>
       fst (resolve mac fr au b s1) = Inr st)
     \<and> (fin_val (bd_expires_at b) \<le> readings (bs_clock s1) (reads (bs_clock s1)) \<longrightarrow>
       fst (resolve mac fr au b s1) = Inl EXPIRED_BINDING)"
proof -
  let ?t = "readings (bs_clock s) (reads (bs_clock s))"
  note f = issue_fields[OF assms(1)] and st = issue_state[OF assms(1)]
  have e: "bd_expires_at b = Finite (?t + ttl)" using f assms(5) by simp
  from live_after_issue[OF assms(1,3-5)] have l: "live (bd_nonce b) (?t + ttl) st (readings (bs_clock s)) (bs_nonces s) s1"
    unfolding assms(2) e by simp
  then have rd: "readings (bs_clock s1) = readings (bs_clock s)" by (simp add: live_def)
  have sig: "bd_signature b = binding_mac mac fr au b" using issue_signature[of mac fr au d v g st s] assms(1) by simp
  have "bd_signature b \<noteq> []" unfolding sig binding_mac_def using assms(7) by (metis list.size(3) zero_neq_numeral)
  then have w: "well_formed b" using assms(6-10) e by (simp add: well_formed_def f(1-7,9) e sig binding_mac_def)
  obtain now s2 where rc: "read_clock s1 = (now, s2)" by fastforce
  have now: "now = readings (bs_clock s) (reads (bs_clock s1))" "reads (bs_clock s2) = Suc (reads (bs_clock s1))"
    "bs_store s2 = bs_store s1" "readings (bs_clock s2) = readings (bs_clock s)"
    using rc rd by (auto simp: read_clock_def tick_def)
  have val: "validate mac fr au b s1 = (if float_le (bd_expires_at b) now then (Inl EXPIRED_BINDING, s2) else (Inr (), s2))"
    using w sig f(6) rc by (simp add: validate_def)
  show ?thesis
  proof (intro conjI impI)
    assume "fin_val (bd_expires_at b) \<le> readings (bs_clock s1) (reads (bs_clock s1))"
    then show "fst (resolve mac fr au b s1) = Inl EXPIRED_BINDING"
      using val now rd e by (simp add: resolve_def bindS_def)
  next
    assume "readings (bs_clock s1) (Suc (reads (bs_clock s1))) < fin_val (bd_expires_at b)"
    then have later: "readings (bs_clock s) (Suc (reads (bs_clock s1))) < ?t + ttl" using rd e by simp
    have first: "readings (bs_clock s) (reads (bs_clock s1)) < ?t + ttl" by (rule mono_before[OF assms(3) later])
    then have "dget (bs_store s1) (bd_nonce b) = Some (StoredBinding (Finite (?t + ttl)) st)" using l by (simp add: live_def)
    then have "fst (stored_state b s2) = Inr st"
      using later now by (simp add: stored_state_def read_clock_def tick_def)
    then show "fst (resolve mac fr au b s1) = Inr st"
      using val first now e by (simp add: resolve_def bindS_def)
  qed
qed


section \<open>A concrete authority\<close>

lemma json_float_texts: "json_floats fr \<Longrightarrow> float_texts fr"
  by (auto simp: json_floats_def float_texts_def delimiters_def)

lemma sample_float_texts: "float_texts sample_float_text"
  by (rule json_float_texts[OF sample_json_floats])

definition sample_mac :: "string \<Rightarrow> string \<Rightarrow> string" where
  "sample_mac k m = replicate 64 CHR ''a''"

definition sample_authority :: authority where
  "sample_authority = \<lparr>au_runtime_id = ''runtime'', au_secret = ''secret'', au_ttl = Finite 10\<rparr>"

definition sample_state :: "nat binding_state" where
  "sample_state = \<lparr>bs_store = [], bs_clock = \<lparr>readings = of_nat, reads = 0\<rparr>, bs_nonces = (\<lambda>n. replicate (Suc n) CHR ''x''), bs_next = 0\<rparr>"

definition sample_descriptor :: capability_descriptor where
  "sample_descriptor = \<lparr>cd_agent_id = ''billing'', cd_agent_version = ''1'', cd_capability_id = ''find'', cd_description = None,
     cd_tags = {}, cd_input_schema = VDict [], cd_output_schema = None, cd_schema_digest = ''d'', cd_required_scopes = [],
     cd_approval_required = False, cd_policy = empty_policy, cd_data_sources = []\<rparr>"

definition sample_issue :: "capability_binding \<times> nat binding_state" where
  "sample_issue = issue sample_mac sample_float_text sample_authority sample_descriptor 1 1 7 sample_state"

lemma sample_clock: "mono (readings (bs_clock sample_state))" "inj (bs_nonces sample_state)"
  by (auto simp: sample_state_def mono_def inj_def)


definition sample_ops :: "nat authority_op list" where
  "sample_ops = [OpIssue sample_authority sample_descriptor 2 2 8, OpResolve sample_authority (fst sample_issue)]"

theorem tampering_rejected_witness:
  "\<exists>b s2. fst sample_issue = b
     \<and> resolve sample_mac sample_float_text sample_authority b (snd sample_issue) = (Inr 7, s2)
     \<and> bd_agent_id b = ''billing'' \<and> bd_capability_id b = ''find''"
proof -
  obtain b s0 where i: "issue sample_mac sample_float_text sample_authority sample_descriptor 1 1 7 sample_state = (b, s0)"
    by fastforce
  have "fst (resolve sample_mac sample_float_text sample_authority (fst sample_issue) (snd sample_issue)) = Inr 7" by code_simp
  then obtain s2 where r: "resolve sample_mac sample_float_text sample_authority b s0 = (Inr 7, s2)"
    using i by (cases "resolve sample_mac sample_float_text sample_authority b s0") (simp add: sample_issue_def)
  have "bd_agent_id b = ''billing'' \<and> bd_capability_id b = ''find''"
    using tampering_rejected[OF i r refl sample_float_texts] by (simp add: sample_descriptor_def)
  with i r show ?thesis by (simp add: sample_issue_def)
qed

theorem binding_lifetime_witness:
  "fst (resolve sample_mac sample_float_text sample_authority (fst sample_issue)
      (run_ops sample_mac sample_float_text sample_ops (snd sample_issue))) = Inr 7"
proof -
  obtain b s0 where i: "issue sample_mac sample_float_text sample_authority sample_descriptor 1 1 7 sample_state = (b, s0)"
    by fastforce
  then have p: "sample_issue = (b, s0)" by (simp add: sample_issue_def)
  let ?s1 = "run_ops sample_mac sample_float_text sample_ops s0"
  have "reads (bs_clock (run_ops sample_mac sample_float_text sample_ops (snd sample_issue))) = 4
     \<and> fin_val (bd_expires_at (fst sample_issue)) = 10" by code_simp
  then have reads: "reads (bs_clock ?s1) = 4" and e: "fin_val (bd_expires_at b) = 10" by (simp_all add: p)
  have rd: "readings (bs_clock ?s1) = of_nat"
    using live_after_issue[OF i sample_clock, of 10 sample_ops]
    by (simp add: live_def sample_authority_def sample_state_def)
  have hex: "list_all is_hex (replicate 64 CHR ''a'')" by (simp add: list_all_iff is_hex_def)
  from binding_lifetime[OF i refl sample_clock, of 10 sample_ops] hex show ?thesis
    by (simp add: p reads e rd sample_authority_def sample_mac_def sample_descriptor_def sample_state_def)
qed

end
