(* ===== verification/Discovery.thy ===== *)
theory Discovery
  imports RunState Bindings Schema
begin

text \<open>
  \<open>core/gateway/_discovery.py\<close>: the authority of a caller over a capability, the version
  constraints, and the filter that finds the candidates of a query in one snapshot of the registry.
  An application policy is a function of the context and the descriptor; \<open>Inl\<close> is any exception.
\<close>

section \<open>Authorization\<close>

type_synonym gateway_policy = "run_context \<Rightarrow> capability_descriptor \<Rightarrow> unit + bool"

definition caller_scopes :: "run_context \<Rightarrow> string set" where
  "caller_scopes x = (case rx_authorization x of None \<Rightarrow> {} | Some a \<Rightarrow> SecurityContext.scopes (ac_principal a))"

definition allowlisted :: "run_context \<Rightarrow> capability_descriptor \<Rightarrow> bool" where
  "allowlisted x d \<longleftrightarrow> (case rx_allowed x of None \<Rightarrow> True
     | Some allowed \<Rightarrow> cd_capability_id d \<in> allowed \<or> cd_agent_id d @ '':'' @ cd_capability_id d \<in> allowed)"

definition policy_verdict :: "gateway_policy option \<Rightarrow> run_context \<Rightarrow> capability_descriptor \<Rightarrow> unit + bool" where
  "policy_verdict policy x d = (case policy of None \<Rightarrow> Inr True | Some p \<Rightarrow> p x d)"

text \<open>\<open>permits\<close>; \<open>Inl ()\<close> is \<open>_GatewayPolicyEvaluationError\<close>.\<close>

definition permits :: "gateway_policy option \<Rightarrow> run_context \<Rightarrow> bool \<Rightarrow> capability_descriptor \<Rightarrow> (run_state, unit, bool) prog" where
  "permits policy x check_budget d u =
     (let on_path = (cd_agent_id d, cd_capability_id d) \<in> set (rx_path x) in
      if \<not> allowlisted x d then (Inr False, u)
      else if \<not> set (cd_required_scopes d) \<subseteq> caller_scopes x then (Inr False, u)
      else (case policy_verdict policy x d of
          Inl _ \<Rightarrow> (Inl (), u)
        | Inr ok \<Rightarrow>
            if \<not> ok then (Inr False, u)
            else if check_budget then
              (case context_budget x u of (b, u') \<Rightarrow>
                 if rb_depth b < 1 \<or> rb_calls b < 1 \<or> rb_time b = Some 0 then (Inr False, u')
                 else (Inr (\<not> on_path), u'))
            else (Inr (\<not> on_path), u)))"

definition authorized :: "gateway_policy option \<Rightarrow> run_context \<Rightarrow> capability_descriptor \<Rightarrow> bool" where
  "authorized policy x d \<longleftrightarrow> allowlisted x d \<and> set (cd_required_scopes d) \<subseteq> caller_scopes x
     \<and> policy_verdict policy x d = Inr True \<and> (cd_agent_id d, cd_capability_id d) \<notin> set (rx_path x)"

lemma permits_fields:
  assumes "permits policy x check d u = (r, u')"
  shows "ru_budget u' = ru_budget u" "ru_calls u' = ru_calls u" "ru_retrievals u' = ru_retrievals u"
    "ru_invocation u' = ru_invocation u" "ru_current u' = ru_current u"
  using assms
  by (auto simp: permits_def Let_def split: if_splits sum.splits prod.splits dest: context_budget_fields)

lemma permits_authorized: "permits policy x check d u = (Inr True, u') \<Longrightarrow> authorized policy x d"
  by (auto simp: permits_def authorized_def Let_def split: if_splits sum.splits prod.splits)

lemma permits_budget:
  assumes "permits policy x True d u = (Inr True, u')"
  shows "1 \<le> bu_calls (ru_budget u) \<and> int (length (rx_path x)) < bu_max_depth (ru_budget u)"
proof -
  obtain b u2 where b: "context_budget x u = (b, u2)" by fastforce
  then have "\<not> (rb_depth b < 1 \<or> rb_calls b < 1)" using assms
    by (auto simp: permits_def Let_def split: if_splits sum.splits)
  with context_budget_fields(6,7)[OF b] show ?thesis by simp
qed

section \<open>Versions\<close>

text \<open>
  The regular expression of \<open>_version_tuple\<close>, matched with its backtracking: an optional minor or
  patch number is kept when the rest still matches, otherwise it belongs to the suffix.
\<close>

definition is_digit :: "char \<Rightarrow> bool" where
  "is_digit c \<longleftrightarrow> (let n = of_char c :: nat in 48 \<le> n \<and> n \<le> 57)"

definition take_number :: "string \<Rightarrow> (nat \<times> string) option" where
  "take_number s = (let ds = takeWhile is_digit s in
     if ds = [] then None else Some (digits_value ds, dropWhile is_digit s))"

definition take_part :: "string \<Rightarrow> (nat \<times> string) option" where
  "take_part s = (case s of CHR ''.'' # r \<Rightarrow> take_number r | _ \<Rightarrow> None)"

definition version_suffix :: "string \<Rightarrow> string option" where
  "version_suffix s =
     (case s of [] \<Rightarrow> Some []
      | c # _ \<Rightarrow>
          if c \<in> {CHR ''-'', CHR ''.'', CHR ''+''}
          then (let line = takeWhile (\<lambda>x. x \<noteq> CHR 0x0A) s in
                if list_all is_space (drop (length line) s) then Some line else None)
          else if list_all is_space s then Some [] else None)"

definition version_tuple :: "string \<Rightarrow> nat \<times> nat \<times> nat \<times> string" where
  "version_tuple v =
     (case take_number (dropWhile is_space v) of
        None \<Rightarrow> (0, 0, 0, v)
      | Some (major, r) \<Rightarrow>
          (let bare = (case version_suffix r of Some sfx \<Rightarrow> (major, 0, 0, sfx) | None \<Rightarrow> (0, 0, 0, v)) in
           case take_part r of
             None \<Rightarrow> bare
           | Some (minor, r1) \<Rightarrow>
               (let short = (case version_suffix r1 of Some sfx \<Rightarrow> (major, minor, 0, sfx) | None \<Rightarrow> bare) in
                case take_part r1 of
                  None \<Rightarrow> short
                | Some (patch, r2) \<Rightarrow> (case version_suffix r2 of Some sfx \<Rightarrow> (major, minor, patch, sfx) | None \<Rightarrow> short))))"

datatype version_op = OpEq | OpNe | OpGe | OpLe | OpGt | OpLt

fun version_op_holds :: "version_op \<Rightarrow> nat \<times> nat \<times> nat \<times> string \<Rightarrow> nat \<times> nat \<times> nat \<times> string \<Rightarrow> bool" where
  "version_op_holds OpEq a b = (a = b)"
| "version_op_holds OpNe a b = (a \<noteq> b)"
| "version_op_holds OpGe a b = (b \<le> a)"
| "version_op_holds OpLe a b = (a \<le> b)"
| "version_op_holds OpGt a b = (b < a)"
| "version_op_holds OpLt a b = (a < b)"

definition clause_operand :: "string \<Rightarrow> string option" where
  "clause_operand s = (let r = dropWhile is_space s; v = takeWhile (\<lambda>c. \<not> is_space c) r in
     if v \<noteq> [] \<and> list_all is_space (dropWhile (\<lambda>c. \<not> is_space c) r) then Some v else None)"

text \<open>The alternatives of the operator in the order of the pattern; the last is its absence.\<close>

definition operator_texts :: "(string \<times> version_op) list" where
  "operator_texts = [(''=='', OpEq), (''!='', OpNe), (''>='', OpGe), (''<='', OpLe), (''>'', OpGt), (''<'', OpLt), ([], OpEq)]"

fun first_operator :: "string \<Rightarrow> (string \<times> version_op) list \<Rightarrow> (version_op \<times> string) option" where
  "first_operator s [] = None"
| "first_operator s ((t, op) # rest) =
     (if take (length t) s = t then
        (case clause_operand (drop (length t) s) of Some v \<Rightarrow> Some (op, v) | None \<Rightarrow> first_operator s rest)
      else first_operator s rest)"

definition parse_clause :: "string \<Rightarrow> (version_op \<times> string) option" where
  "parse_clause s = first_operator (dropWhile is_space s) operator_texts"

text \<open>\<open>str.split(",")\<close>.\<close>

fun split_commas :: "string \<Rightarrow> string list" where
  "split_commas [] = [[]]"
| "split_commas (c # cs) = (if c = CHR '','' then [] # split_commas cs
     else (case split_commas cs of [] \<Rightarrow> [[c]] | w # ws \<Rightarrow> (c # w) # ws))"

definition version_matches :: "string \<Rightarrow> string \<Rightarrow> bool" where
  "version_matches version constraint =
     list_all (\<lambda>clause. case parse_clause clause of None \<Rightarrow> False
        | Some (op, v) \<Rightarrow> version_op_holds op (version_tuple version) (version_tuple v)) (split_commas constraint)"

text \<open>A release is rendered and read back.\<close>

definition release_text :: "nat \<Rightarrow> nat \<Rightarrow> nat \<Rightarrow> string" where
  "release_text a b c = nat_digits a @ ''.'' @ nat_digits b @ ''.'' @ nat_digits c"

lemma digit_iff: "is_digit c \<longleftrightarrow> 48 \<le> (of_char c :: nat) \<and> (of_char c :: nat) \<le> 57"
  by (simp add: is_digit_def Let_def)

lemma digits_all: "list_all is_digit (nat_digits n)"
  using nat_digits_chars[of n] by (simp add: list_all_iff digit_iff)

lemma digits_span:
  assumes "r = [] \<or> \<not> is_digit (hd r)"
  shows "takeWhile is_digit (nat_digits n @ r) = nat_digits n" "dropWhile is_digit (nat_digits n @ r) = r"
proof -
  have all: "\<forall>c \<in> set (nat_digits n). is_digit c" using digits_all by (simp add: list_all_iff)
  have r: "takeWhile is_digit r = []" "dropWhile is_digit r = r" using assms by (cases r; simp)+
  show "takeWhile is_digit (nat_digits n @ r) = nat_digits n" "dropWhile is_digit (nat_digits n @ r) = r"
    using all r by (simp_all add: takeWhile_append2 dropWhile_append2)
qed

lemma take_number_digits: "r = [] \<or> \<not> is_digit (hd r) \<Longrightarrow> take_number (nat_digits n @ r) = Some (n, r)"
  by (simp add: take_number_def Let_def digits_span nat_digits_nonempty digits_value_nat)

lemma take_part_digits: "r = [] \<or> \<not> is_digit (hd r) \<Longrightarrow> take_part (CHR ''.'' # nat_digits n @ r) = Some (n, r)"
  by (simp add: take_part_def take_number_digits)

lemma release_start: "dropWhile is_space (release_text a b c) = release_text a b c"
proof -
  obtain d ds where d: "nat_digits a = d # ds" using nat_digits_nonempty by (cases "nat_digits a") auto
  then have "is_digit d" using digits_all[of a] by simp
  then have "\<not> is_space d" by (auto simp: digit_iff is_space_def Let_def)
  with d show ?thesis by (simp add: release_text_def)
qed

lemma version_tuple_release: "version_tuple (release_text a b c) = (a, b, c, [])"
proof -
  have dot: "\<not> is_digit CHR ''.''" by (simp add: is_digit_def)
  have 1: "take_number (release_text a b c) = Some (a, ''.'' @ nat_digits b @ ''.'' @ nat_digits c)"
    unfolding release_text_def by (rule take_number_digits) (simp add: dot)
  have 2: "take_part (''.'' @ nat_digits b @ ''.'' @ nat_digits c) = Some (b, ''.'' @ nat_digits c)"
    using take_part_digits[of "''.'' @ nat_digits c" b] by (simp add: dot)
  have 3: "take_part (''.'' @ nat_digits c) = Some (c, [])"
    using take_part_digits[of "[]" c] by simp
  show ?thesis unfolding version_tuple_def release_start by (simp only: 1 2 3 option.case prod.case Let_def) (simp add: version_suffix_def)
qed

lemma release_chars: "\<forall>x \<in> set (release_text a b c). is_digit x \<or> x = CHR ''.''"
  using digits_all by (auto simp: release_text_def list_all_iff)

lemma release_plain: "\<forall>x \<in> set (release_text a b c). \<not> is_space x \<and> x \<noteq> CHR '',''"
proof
  fix x assume "x \<in> set (release_text a b c)"
  with release_chars have "is_digit x \<or> x = CHR ''.''" by blast
  then show "\<not> is_space x \<and> x \<noteq> CHR '',''" by (auto simp: digit_iff is_space_def Let_def)
qed

lemma release_operand: "clause_operand (release_text a b c) = Some (release_text a b c)"
proof -
  have "release_text a b c \<noteq> []" by (simp add: release_text_def)
  moreover have tw: "takeWhile (\<lambda>x. \<not> is_space x) (release_text a b c) = release_text a b c"
    and dw: "dropWhile (\<lambda>x. \<not> is_space x) (release_text a b c) = []"
    using release_plain by (simp_all add: takeWhile_eq_all_conv dropWhile_eq_Nil_conv)
  ultimately show ?thesis by (simp add: clause_operand_def Let_def release_start tw dw)
qed

lemma release_clause:
  assumes "(t, op) \<in> set operator_texts"
  shows "parse_clause (t @ release_text a b c) = Some (op, release_text a b c)"
proof -
  obtain d ds where d: "release_text a b c = d # ds" by (cases "release_text a b c") (auto simp: release_text_def)
  have "is_digit d \<or> d = CHR ''.''" using release_chars[of a b c] d by simp
  then have plain: "d \<noteq> CHR ''=''" "d \<noteq> CHR ''!''" "d \<noteq> CHR ''>''" "d \<noteq> CHR ''<''" by (auto simp: digit_iff)
  have space: "\<not> is_space d" using release_plain[of a b c] d by simp
  have operand: "clause_operand (d # ds) = Some (d # ds)" using release_operand[of a b c] d by simp
  have ops: "\<not> is_space CHR ''=''" "\<not> is_space CHR ''!''" "\<not> is_space CHR ''>''" "\<not> is_space CHR ''<''"
    by (simp_all add: is_space_def)
  from assms consider "t = ''==''" "op = OpEq" | "t = ''!=''" "op = OpNe" | "t = ''>=''" "op = OpGe" | "t = ''<=''" "op = OpLe"
    | "t = ''>''" "op = OpGt" | "t = ''<''" "op = OpLt" | "t = []" "op = OpEq"
    unfolding operator_texts_def by (elim set_ConsD[elim_format] disjE) (simp_all add: prod_eq_iff)
  then show ?thesis
    by cases (simp_all add: parse_clause_def operator_texts_def d operand ops space plain)
qed

lemma split_commas_plain: "CHR '','' \<notin> set s \<Longrightarrow> split_commas s = [s]"
  by (induction s) auto

lemma split_commas_append: "CHR '','' \<notin> set s \<Longrightarrow> split_commas (s @ CHR '','' # r) = s # split_commas r"
  by (induction s) auto

text \<open>
  Version constraints order releases numerically.  A constraint built from an operator of the
  source (or none, which means equality) and a release \<open>a'.b'.c'\<close> admits a release \<open>a.b.c\<close> exactly when
  the operator holds of the two triples of numbers in lexicographic order, so \<open>1.10.0\<close> follows
  \<open>1.9.0\<close>; and a constraint with a further clause after a comma admits a version exactly when both parts do.
\<close>

theorem version_constraints_numeric:
  assumes "(t, op) \<in> set operator_texts"
  shows "version_matches (release_text a b c) (t @ release_text a' b' c')
       = version_op_holds op (a, b, c, []) (a', b', c', [])
     \<and> version_matches v ((t @ release_text a' b' c') @ '','' @ rest)
       = (version_matches v (t @ release_text a' b' c') \<and> version_matches v rest)"
proof -
  have "CHR '','' \<notin> set t" using assms by (auto simp: operator_texts_def)
  moreover have "CHR '','' \<notin> set (release_text a' b' c')" using release_plain by blast
  ultimately have plain: "CHR '','' \<notin> set (t @ release_text a' b' c')" by simp
  show ?thesis
    using split_commas_plain[OF plain] split_commas_append[OF plain, of rest]
    by (simp add: version_matches_def release_clause[OF assms] version_tuple_release)
qed

theorem version_constraints_numeric_witness:
  "version_matches ''1.10.0'' ''>=1.9.0'' \<and> \<not> version_matches ''1.10.0'' ''>=1.9.0,<1.10.0''"
proof -
  have shown: "release_text 1 10 0 = ''1.10.0''" "release_text 1 9 0 = ''1.9.0''" by code_simp+
  have ge: "(''>='', OpGe) \<in> set operator_texts" and lt: "(''<'', OpLt) \<in> set operator_texts"
    by (simp_all add: operator_texts_def)
  from version_constraints_numeric[OF ge, of 1 10 0 1 9 0 "''1.10.0''" "''<1.10.0''"]
    version_constraints_numeric[OF lt, of 1 10 0 1 10 0] shown show ?thesis by simp
qed

text \<open>A pre-release satisfies the lower bound of its own release, since its suffix sorts after the empty one.\<close>

lemma prerelease_above_release: "version_matches ''1.0.0-alpha'' ''>=1.0.0'' \<and> \<not> version_matches ''1.0.0-alpha'' ''<1.0.0''"
  by code_simp

section \<open>Candidates\<close>

datatype match_error = PolicyEvaluationError | UnsupportedSchemaError

record match_acc =
  ma_matches :: "(capability_descriptor \<times> int) list"
  ma_denied :: bool
  ma_unsupported :: bool

definition query_schemas_valid :: "discovery_query \<Rightarrow> bool" where
  "query_schemas_valid q \<longleftrightarrow> (case dq_input_schema q of None \<Rightarrow> True | Some v \<Rightarrow> validate_schema v)
     \<and> (case dq_output_schema q of None \<Rightarrow> True | Some v \<Rightarrow> validate_schema v)"

definition agent_eligible :: "discovery_query \<Rightarrow> agent_descriptor \<Rightarrow> bool" where
  "agent_eligible q a \<longleftrightarrow> ad_lifecycle a = ACTIVE \<and> ad_healthy a
     \<and> (case dq_agent_id q of None \<Rightarrow> True | Some i \<Rightarrow> ad_agent_id a = i)
     \<and> (case dq_version q of None \<Rightarrow> True | Some c \<Rightarrow> c = [] \<or> version_matches (ad_version a) c)"

definition named_by :: "discovery_query \<Rightarrow> capability_descriptor \<Rightarrow> bool" where
  "named_by q d \<longleftrightarrow> (dq_capability_ids q = {} \<or> cd_capability_id d \<in> dq_capability_ids q) \<and> dq_tags q \<subseteq> cd_tags d"

text \<open>\<open>None\<close>: the schemas of the provider use unsupported features.\<close>

definition schemas_fit :: "(pyfloat \<Rightarrow> string) \<Rightarrow> discovery_query \<Rightarrow> capability_descriptor \<Rightarrow> bool option" where
  "schemas_fit fr q d =
     (case schema_compatible fr (dq_input_schema q) (Some (cd_input_schema d)) False of None \<Rightarrow> None
      | Some i \<Rightarrow> (case schema_compatible fr (dq_output_schema q) (cd_output_schema d) True of None \<Rightarrow> None
         | Some out \<Rightarrow> Some (i \<and> out)))"

definition match_capability ::
  "(pyfloat \<Rightarrow> string) \<Rightarrow> gateway_policy option \<Rightarrow> run_context \<Rightarrow> discovery_query \<Rightarrow> capability_descriptor \<times> int \<Rightarrow> match_acc
   \<Rightarrow> (run_state, match_error, match_acc) prog" where
  "match_capability fr policy x q dg acc u =
     (let d = fst dg in
      if \<not> named_by q d then (Inr acc, u)
      else (case schemas_fit fr q d of
          None \<Rightarrow> (Inr (acc\<lparr>ma_unsupported := True\<rparr>), u)
        | Some fit \<Rightarrow>
            if \<not> fit then (Inr acc, u)
            else if \<not> dq_include_approval q \<and> cd_approval_required d then (Inr acc, u)
            else (case permits policy x True d u of
                (Inl _, u') \<Rightarrow> (Inl PolicyEvaluationError, u')
              | (Inr ok, u') \<Rightarrow>
                  (Inr (if ok then acc\<lparr>ma_matches := ma_matches acc @ [dg]\<rparr> else acc\<lparr>ma_denied := True\<rparr>), u'))))"

fun match_all ::
  "(pyfloat \<Rightarrow> string) \<Rightarrow> gateway_policy option \<Rightarrow> run_context \<Rightarrow> discovery_query \<Rightarrow> (capability_descriptor \<times> int) list \<Rightarrow> match_acc
   \<Rightarrow> (run_state, match_error, match_acc) prog" where
  "match_all fr policy x q [] acc u = (Inr acc, u)"
| "match_all fr policy x q (dg # rest) acc u =
     (case match_capability fr policy x q dg acc u of
        (Inl e, u') \<Rightarrow> (Inl e, u')
      | (Inr acc', u') \<Rightarrow> match_all fr policy x q rest acc' u')"

definition offered_capabilities :: "discovery_query \<Rightarrow> registry_snapshot \<Rightarrow> (capability_descriptor \<times> int) list" where
  "offered_capabilities q snap =
     concat (map (\<lambda>a. map (\<lambda>d. (d, ad_generation a)) (ad_capabilities a)) (filter (agent_eligible q) (rs_agents snap)))"

definition match_key :: "capability_descriptor \<times> int \<Rightarrow> string \<times> string \<times> string \<times> string" where
  "match_key dg = (cd_capability_id (fst dg), cd_agent_id (fst dg), cd_agent_version (fst dg), cd_schema_digest (fst dg))"

definition matching_candidates ::
  "(pyfloat \<Rightarrow> string) \<Rightarrow> gateway_policy option \<Rightarrow> run_context \<Rightarrow> discovery_query \<Rightarrow> registry_snapshot
   \<Rightarrow> (run_state, match_error, int \<times> (capability_descriptor \<times> int) list \<times> bool \<times> bool) prog" where
  "matching_candidates fr policy x q snap u =
     (if \<not> query_schemas_valid q then (Inl UnsupportedSchemaError, u)
      else (case match_all fr policy x q (offered_capabilities q snap) \<lparr>ma_matches = [], ma_denied = False, ma_unsupported = False\<rparr> u of
          (Inl e, u') \<Rightarrow> (Inl e, u')
        | (Inr acc, u') \<Rightarrow> (Inr (rs_revision snap, sort_key match_key (ma_matches acc), ma_denied acc, ma_unsupported acc), u')))"

text \<open>The reference: what a query asks for, and what the caller's budget allows.\<close>

definition suitable :: "(pyfloat \<Rightarrow> string) \<Rightarrow> discovery_query \<Rightarrow> capability_descriptor \<Rightarrow> bool" where
  "suitable fr q d \<longleftrightarrow> named_by q d \<and> schemas_fit fr q d = Some True \<and> (dq_include_approval q \<or> \<not> cd_approval_required d)"

definition has_budget :: "run_context \<Rightarrow> run_state \<Rightarrow> bool" where
  "has_budget x u \<longleftrightarrow> 1 \<le> bu_calls (ru_budget u) \<and> int (length (rx_path x)) < bu_max_depth (ru_budget u)"

lemma match_capability_sound:
  assumes "match_capability fr policy x q dg acc u = (Inr acc', u')"
  shows "ma_matches acc' = ma_matches acc
     \<or> ma_matches acc' = ma_matches acc @ [dg] \<and> suitable fr q (fst dg) \<and> authorized policy x (fst dg) \<and> has_budget x u"
  using assms
  by (auto simp: match_capability_def Let_def suitable_def has_budget_def split: if_splits option.splits prod.splits sum.splits
      dest: permits_authorized permits_budget)

lemma match_capability_fields:
  assumes "match_capability fr policy x q dg acc u = (r, u')"
  shows "ru_budget u' = ru_budget u" "ru_calls u' = ru_calls u" "ru_retrievals u' = ru_retrievals u"
    "ru_invocation u' = ru_invocation u" "ru_current u' = ru_current u"
  using assms
  by (auto simp: match_capability_def Let_def split: if_splits option.splits prod.splits sum.splits dest: permits_fields)

lemma match_all_fields:
  assumes "match_all fr policy x q dgs acc u = (r, u')"
  shows "ru_budget u' = ru_budget u \<and> ru_calls u' = ru_calls u \<and> ru_retrievals u' = ru_retrievals u
    \<and> ru_invocation u' = ru_invocation u \<and> ru_current u' = ru_current u"
  using assms
proof (induction dgs arbitrary: acc u)
  case (Cons dg dgs)
  obtain r1 u1 where m: "match_capability fr policy x q dg acc u = (r1, u1)" by fastforce
  show ?case using Cons match_capability_fields[OF m] m by (cases r1) auto
qed simp

lemma match_all_sound:
  assumes "match_all fr policy x q dgs acc u = (Inr acc', u')"
  shows "set (ma_matches acc') \<subseteq> set (ma_matches acc)
     \<union> {p \<in> set dgs. suitable fr q (fst p) \<and> authorized policy x (fst p) \<and> has_budget x u}"
  using assms
proof (induction dgs arbitrary: acc u)
  case (Cons dg dgs)
  obtain acc1 u1 where m: "match_capability fr policy x q dg acc u = (Inr acc1, u1)"
    and rest: "match_all fr policy x q dgs acc1 u1 = (Inr acc', u')"
    using Cons.prems by (auto split: prod.splits sum.splits)
  have b: "has_budget x u1 = has_budget x u" using match_capability_fields(1)[OF m] by (simp add: has_budget_def)
  show ?case using Cons.IH[OF rest] match_capability_sound[OF m] unfolding b by auto
qed simp

lemma permits_exact:
  assumes "rx_deadline x = None" and "permits policy x True d u = (Inr ok, u')"
  shows "ok = (authorized policy x d \<and> has_budget x u) \<and> u' = u"
proof -
  have "context_budget x u = (snapshot (ru_budget u) (int (length (rx_path x))) None, u)"
    using assms(1) by (simp add: context_budget_def context_remaining_timeout_def)
  with assms(2) show ?thesis
    by (auto simp: permits_def Let_def authorized_def has_budget_def snapshot_def split: if_splits sum.splits)
qed

definition exact_acc ::
  "(pyfloat \<Rightarrow> string) \<Rightarrow> gateway_policy option \<Rightarrow> run_context \<Rightarrow> discovery_query \<Rightarrow> run_state \<Rightarrow> (capability_descriptor \<times> int) list \<Rightarrow> match_acc \<Rightarrow> match_acc" where
  "exact_acc fr policy x q u dgs acc =
     \<lparr>ma_matches = ma_matches acc @ filter (\<lambda>p. suitable fr q (fst p) \<and> authorized policy x (fst p) \<and> has_budget x u) dgs,
      ma_denied = (ma_denied acc \<or> list_ex (\<lambda>p. suitable fr q (fst p) \<and> \<not> (authorized policy x (fst p) \<and> has_budget x u)) dgs),
      ma_unsupported = (ma_unsupported acc \<or> list_ex (\<lambda>p. named_by q (fst p) \<and> schemas_fit fr q (fst p) = None) dgs)\<rparr>"

lemma match_capability_exact:
  assumes "rx_deadline x = None" and "match_capability fr policy x q dg acc u = (Inr acc', u')"
  shows "acc' = exact_acc fr policy x q u [dg] acc \<and> u' = u"
proof -
  obtain r u1 where p: "permits policy x True (fst dg) u = (r, u1)" by fastforce
  show ?thesis
  proof (cases r)
    case (Inl e)
    with p assms(2) show ?thesis
      by (auto simp: match_capability_def Let_def exact_acc_def suitable_def split: if_splits option.splits)
  next
    case (Inr ok)
    with permits_exact[OF assms(1)] p have "ok = (authorized policy x (fst dg) \<and> has_budget x u)" "u1 = u" by simp_all
    with Inr p assms(2) show ?thesis
      by (auto simp: match_capability_def Let_def exact_acc_def suitable_def split: if_splits option.splits)
  qed
qed

lemma match_all_exact:
  assumes "rx_deadline x = None" and "match_all fr policy x q dgs acc u = (Inr acc', u')"
  shows "acc' = exact_acc fr policy x q u dgs acc \<and> u' = u"
  using assms(2)
proof (induction dgs arbitrary: acc)
  case Nil
  then show ?case by (simp add: exact_acc_def)
next
  case (Cons dg dgs)
  obtain acc1 u1 where m: "match_capability fr policy x q dg acc u = (Inr acc1, u1)"
    and rest: "match_all fr policy x q dgs acc1 u1 = (Inr acc', u')"
    using Cons.prems by (auto split: prod.splits sum.splits)
  from match_capability_exact[OF assms(1) m] have "acc1 = exact_acc fr policy x q u [dg] acc" and "u1 = u" by simp_all
  with Cons.IH[of acc1] rest show ?case by (auto simp: exact_acc_def)
qed

lemma candidates_sound:
  assumes "matching_candidates fr policy x q snap u = (Inr (vn, ms, denied, unsupported), u')"
  shows "vn = rs_revision snap"
    and "p \<in> set ms \<Longrightarrow> p \<in> set (offered_capabilities q snap) \<and> suitable fr q (fst p) \<and> authorized policy x (fst p) \<and> has_budget x u"
    and "ru_budget u' = ru_budget u \<and> ru_calls u' = ru_calls u \<and> ru_retrievals u' = ru_retrievals u
      \<and> ru_invocation u' = ru_invocation u \<and> ru_current u' = ru_current u"
proof -
  let ?start = "\<lparr>ma_matches = [], ma_denied = False, ma_unsupported = False\<rparr>"
  obtain acc where m: "match_all fr policy x q (offered_capabilities q snap) ?start u = (Inr acc, u')"
    and out: "vn = rs_revision snap" "ms = sort_key match_key (ma_matches acc)"
    using assms by (auto simp: matching_candidates_def split: if_splits prod.splits sum.splits)
  show "vn = rs_revision snap" by (rule out(1))
  show "p \<in> set ms \<Longrightarrow> p \<in> set (offered_capabilities q snap) \<and> suitable fr q (fst p) \<and> authorized policy x (fst p) \<and> has_budget x u"
    using match_all_sound[OF m] out(2) by auto
  show "ru_budget u' = ru_budget u \<and> ru_calls u' = ru_calls u \<and> ru_retrievals u' = ru_retrievals u
      \<and> ru_invocation u' = ru_invocation u \<and> ru_current u' = ru_current u"
    by (rule match_all_fields[OF m])
qed

text \<open>
  C31. Discovery finds exactly what is authorized and fits.  Every candidate that a query yields is
  offered by an active, healthy agent of the snapshot, fits the query, is authorized for the caller
  (allow-list, scopes, policy, no cycle) and is within the caller's call and depth budgets, and the
  candidates are in their deterministic order; without a deadline the incremental search equals
  the reference: the offered capabilities filtered by these conditions and sorted, with the two flags telling
  whether a fitting capability was denied and whether a provider's schema was unsupported.
\<close>

theorem candidates_exact:
  assumes "matching_candidates fr policy x q snap u = (Inr (vn, ms, denied, unsupported), u')"
  shows "vn = rs_revision snap \<and> sorted (map match_key ms)
     \<and> (\<forall>p \<in> set ms. p \<in> set (offered_capabilities q snap) \<and> suitable fr q (fst p) \<and> authorized policy x (fst p) \<and> has_budget x u)
     \<and> (rx_deadline x = None \<longrightarrow>
          ms = sort_key match_key (filter (\<lambda>p. suitable fr q (fst p) \<and> authorized policy x (fst p) \<and> has_budget x u)
                 (offered_capabilities q snap))
        \<and> (denied \<longleftrightarrow> list_ex (\<lambda>p. suitable fr q (fst p) \<and> \<not> (authorized policy x (fst p) \<and> has_budget x u)) (offered_capabilities q snap))
        \<and> (unsupported \<longleftrightarrow> list_ex (\<lambda>p. named_by q (fst p) \<and> schemas_fit fr q (fst p) = None) (offered_capabilities q snap)))"
proof -
  let ?start = "\<lparr>ma_matches = [], ma_denied = False, ma_unsupported = False\<rparr>"
  obtain acc where m: "match_all fr policy x q (offered_capabilities q snap) ?start u = (Inr acc, u')"
    and out: "vn = rs_revision snap" "ms = sort_key match_key (ma_matches acc)" "denied = ma_denied acc" "unsupported = ma_unsupported acc"
    using assms by (auto simp: matching_candidates_def split: if_splits prod.splits sum.splits)
  have "set (ma_matches acc) \<subseteq> {p \<in> set (offered_capabilities q snap). suitable fr q (fst p) \<and> authorized policy x (fst p) \<and> has_budget x u}"
    using match_all_sound[OF m] by simp
  moreover have "acc = exact_acc fr policy x q u (offered_capabilities q snap) ?start" if "rx_deadline x = None"
    using match_all_exact[OF that m] by simp
  ultimately show ?thesis using out by (auto simp: exact_acc_def)
qed

section \<open>A concrete query\<close>

definition sample_caller :: run_context where
  "sample_caller = \<lparr>rx_id = 0, rx_run_id = ''run'', rx_correlation_id = ''corr'', rx_model = None, rx_timeout = None, rx_deadline = None,
     rx_metadata = VProxy [], rx_agent_id = ''desk'', rx_parent_run_id = None, rx_path = [(''desk'', ''ask'')],
     rx_allowed = None, rx_authorization = None, rx_chain = []\<rparr>"

definition sample_run_state :: run_state where
  "sample_run_state = \<lparr>ru_budget = \<lparr>bu_max_depth = 8, bu_calls = 2, bu_tokens = None, bu_cost = None\<rparr>, ru_calls = [], ru_retrievals = [],
     ru_cancelled = False, ru_invocation = init_invocation_state\<lparr>iv_active := True, iv_generation := 1, iv_context_generation := (\<lambda>_. 1)\<rparr>,
     ru_current = (\<lambda>_. Some 0), ru_clock = \<lparr>readings = of_nat, reads = 0\<rparr>\<rparr>"

definition sample_query :: discovery_query where
  "sample_query = \<lparr>dq_agent_id = None, dq_capability_ids = {}, dq_tags = {}, dq_version = Some ''>=1'', dq_input_schema = None,
     dq_output_schema = None, dq_limit = 20, dq_include_approval = False\<rparr>"

definition sample_snapshot :: registry_snapshot where
  "sample_snapshot = \<lparr>rs_revision = 4, rs_agents = [\<lparr>ad_agent_id = ''billing'', ad_version = ''1.2'', ad_description = None, ad_tags = {},
       ad_lifecycle = ACTIVE, ad_healthy = True, ad_generation = 2,
       ad_capabilities = [sample_descriptor, sample_descriptor\<lparr>cd_capability_id := ''pay'', cd_required_scopes := [''pay'']\<rparr>]\<rparr>],
     rs_data_sources = []\<rparr>"

definition sample_matches :: "(match_error + int \<times> (capability_descriptor \<times> int) list \<times> bool \<times> bool) \<times> run_state" where
  "sample_matches = matching_candidates (\<lambda>_. ''0'') None sample_caller sample_query sample_snapshot sample_run_state"

theorem candidates_exact_witness:
  "\<exists>ms u'. sample_matches = (Inr (4, ms, True, False), u')
     \<and> map (\<lambda>p. cd_capability_id (fst p)) ms = [''find''] \<and> list_all (\<lambda>p. authorized None sample_caller (fst p)) ms"
proof -
  have "case fst sample_matches of Inl _ \<Rightarrow> False
     | Inr (v, ms, den, uns) \<Rightarrow> v = 4 \<and> den \<and> \<not> uns \<and> map (\<lambda>p. cd_capability_id (fst p)) ms = [''find'']" by code_simp
  moreover obtain r u' where r: "sample_matches = (r, u')" by fastforce
  have "fst sample_matches = r" unfolding r by (rule fst_conv)
  ultimately obtain ms where "r = Inr (4, ms, True, False)" and ids: "map (\<lambda>p. cd_capability_id (fst p)) ms = [''find'']"
    by (cases r) auto
  with r have m: "sample_matches = (Inr (4, ms, True, False), u')" by simp
  from candidates_exact[OF m[unfolded sample_matches_def]] have "\<forall>p \<in> set ms. authorized None sample_caller (fst p)" by blast
  with m ids show ?thesis by (auto simp: list_all_iff)
qed

end
