(* ===== verification/Registry.thy ===== *)
theory Registry
  imports Decisions
begin

text \<open>
  The local registry of agents, \<open>core/registry.py\<close>.  Its methods run under one lock, so each is an
  atomic operation on the state.  An agent object is a number, compared by identity; \<open>info\<close> gives the
  metadata and the declared capabilities of an object, which do not change.  \<open>card_error\<close> tells whether
  building the agent card of an object raises; \<open>digest\<close> is the hexadecimal SHA-256.
\<close>

section \<open>Agents and their descriptors\<close>

record capability_info =
  ci_description :: "string option"
  ci_tags :: "string set"
  ci_input_schema :: pyval
  ci_output_schema :: "pyval option"
  ci_scopes :: "string list"
  ci_approval :: bool
  ci_policy :: capability_policy
  ci_data_sources :: "string list"

record agent_info =
  ai_name :: string
  ai_version :: string
  ai_description :: "string option"
  ai_tags :: "string set"
  ai_capabilities :: "(string, capability_info) dict"

type_synonym agents = "nat \<Rightarrow> agent_info"

record registration =
  re_agent :: nat
  re_generation :: int
  re_lifecycle :: lifecycle
  re_healthy :: bool
  re_descriptor :: agent_descriptor

datatype registry_error = RegistryValueError | RegistryKeyError | RegistrySource data_source_error | RegistryRaised py_error

definition schema_digest :: "(string \<Rightarrow> string) \<Rightarrow> (pyfloat \<Rightarrow> string) \<Rightarrow> pyval \<Rightarrow> pyval option \<Rightarrow> py_error + string" where
  "schema_digest digest fr i out =
     (case canonical_json fr (VDict [(''input'', i), (''output'', (case out of None \<Rightarrow> VNone | Some v \<Rightarrow> v))]) of
        None \<Rightarrow> Inl TypeError | Some enc \<Rightarrow> Inr (digest enc))"

definition build_capability ::
  "(string \<Rightarrow> string) \<Rightarrow> (pyfloat \<Rightarrow> string) \<Rightarrow> agent_info \<Rightarrow> string \<times> capability_info \<Rightarrow> py_error + capability_descriptor" where
  "build_capability digest fr a kc = (case kc of (name, c) \<Rightarrow>
     (case schema_digest digest fr (ci_input_schema c) (ci_output_schema c) of Inl e \<Rightarrow> Inl e
      | Inr d \<Rightarrow> mk_capability_descriptor
          \<lparr>cd_agent_id = ai_name a, cd_agent_version = ai_version a, cd_capability_id = name,
           cd_description = ci_description c, cd_tags = ai_tags a \<union> ci_tags c, cd_input_schema = ci_input_schema c,
           cd_output_schema = ci_output_schema c, cd_schema_digest = d, cd_required_scopes = ci_scopes c,
           cd_approval_required = ci_approval c, cd_policy = ci_policy c, cd_data_sources = ci_data_sources c\<rparr>))"

definition build_agent_descriptor ::
  "(string \<Rightarrow> string) \<Rightarrow> (pyfloat \<Rightarrow> string) \<Rightarrow> agent_info \<Rightarrow> int \<Rightarrow> lifecycle \<Rightarrow> bool \<Rightarrow> py_error + agent_descriptor" where
  "build_agent_descriptor digest fr a g l h =
     (case collect (map (build_capability digest fr a) (dsorted (ai_capabilities a))) of Inl e \<Rightarrow> Inl e
      | Inr caps \<Rightarrow> Inr \<lparr>ad_agent_id = ai_name a, ad_version = ai_version a, ad_description = ai_description a,
          ad_tags = ai_tags a, ad_lifecycle = l, ad_healthy = h, ad_generation = g, ad_capabilities = caps\<rparr>)"

section \<open>The registry\<close>

record registry =
  rg_agents :: "(string, nat) dict"
  rg_sources :: source_registry
  rg_registrations :: "(string, registration) dict"
  rg_index :: "(string, (string, registration) dict) dict"
  rg_removed :: "string set"
  rg_revision :: int
  rg_generation :: int

definition init_registry :: "data_source list \<Rightarrow> registry" where
  "init_registry ds = \<lparr>rg_agents = [], rg_sources = register_sources ds empty_sources, rg_registrations = [],
     rg_index = [], rg_removed = {}, rg_revision = 0, rg_generation = 0\<rparr>"

definition registry_snapshot_of :: "registry \<Rightarrow> registry_snapshot" where
  "registry_snapshot_of s = mk_registry_snapshot (rg_revision s)
     (map (re_descriptor \<circ> snd) (dsorted (rg_registrations s))) (ss_sources (sources_snapshot (rg_sources s)))"

definition register_data_source :: "data_source \<Rightarrow> (registry, registry_error, data_source) prog" where
  "register_data_source d s =
     (case register_source d (rg_sources s) of
        (Inl e, _) \<Rightarrow> (Inl (RegistrySource e), s)
      | (Inr x, src) \<Rightarrow> (Inr x, s\<lparr>rg_sources := src, rg_revision := rg_revision s + 1\<rparr>))"

definition registered_agents :: "registry \<Rightarrow> nat list" where
  "registered_agents s = map snd (dsorted (rg_agents s))"

definition capability_providers :: "string \<Rightarrow> registry \<Rightarrow> nat list" where
  "capability_providers c s = (case dget (rg_index s) c of None \<Rightarrow> [] | Some m \<Rightarrow> map (re_agent \<circ> snd) (dsorted m))"

text \<open>\<open>_remove_mapping_locked\<close>: also drops the agent from every capability, and empty capabilities.\<close>

definition drop_provider ::
  "string \<Rightarrow> (string, (string, registration) dict) dict \<Rightarrow> (string, (string, registration) dict) dict" where
  "drop_provider n index = filter (\<lambda>(c, m). m \<noteq> []) (map (\<lambda>(c, m). (c, ddel n m)) index)"

definition mapping_name :: "agents \<Rightarrow> nat \<Rightarrow> registry \<Rightarrow> string" where
  "mapping_name info a s = (case List.find (\<lambda>(n, x). x = a) (rg_agents s) of Some (n, _) \<Rightarrow> n | None \<Rightarrow> ai_name (info a))"

definition remove_mapping :: "agents \<Rightarrow> nat \<Rightarrow> registry \<Rightarrow> registry" where
  "remove_mapping info a s =
     (let n = mapping_name info a s in
      s\<lparr>rg_agents := ddel n (rg_agents s), rg_registrations := ddel n (rg_registrations s),
        rg_index := drop_provider n (rg_index s)\<rparr>)"

definition conflicting_capabilities :: "agents \<Rightarrow> nat \<Rightarrow> registry \<Rightarrow> string list" where
  "conflicting_capabilities info a s =
     filter (\<lambda>c. case dget (rg_index s) c of None \<Rightarrow> False | Some m \<Rightarrow> list_ex (\<lambda>(_, r). re_agent r \<noteq> a) m)
       (map fst (ai_capabilities (info a)))"

text \<open>The owners of a conflicting capability other than the agent lose their whole registration.\<close>

definition evict_owners :: "agents \<Rightarrow> nat \<Rightarrow> string \<Rightarrow> registry \<Rightarrow> registry" where
  "evict_owners info a c s =
     fold (remove_mapping info) (filter (\<lambda>o'. o' \<noteq> a)
       (case dget (rg_index s) c of None \<Rightarrow> [] | Some m \<Rightarrow> map (re_agent \<circ> snd) m)) s"

definition index_agent ::
  "string \<Rightarrow> registration \<Rightarrow> string \<Rightarrow> (string, (string, registration) dict) dict \<Rightarrow> (string, (string, registration) dict) dict" where
  "index_agent n r c index = dset c (dset n r (case dget index c of None \<Rightarrow> [] | Some m \<Rightarrow> m)) index"

definition add_registration :: "agents \<Rightarrow> string \<Rightarrow> registration \<Rightarrow> registry \<Rightarrow> registry" where
  "add_registration info n r s =
     s\<lparr>rg_generation := re_generation r,
       rg_registrations := dset n r (rg_registrations s),
       rg_agents := dset n (re_agent r) (rg_agents s),
       rg_removed := rg_removed s - {n},
       rg_index := fold (index_agent n r) (map fst (dsorted (ai_capabilities (info (re_agent r))))) (rg_index s),
       rg_revision := rg_revision s + 1\<rparr>"

definition dependencies :: "agent_info \<Rightarrow> string list" where
  "dependencies a = sorted_unique (concat (map (ci_data_sources \<circ> snd) (ai_capabilities a)))"

definition register ::
  "(string \<Rightarrow> string) \<Rightarrow> (pyfloat \<Rightarrow> string) \<Rightarrow> agents \<Rightarrow> (nat \<Rightarrow> py_error option) \<Rightarrow> nat \<Rightarrow> bool \<Rightarrow> bool
   \<Rightarrow> (registry, registry_error, nat option) prog" where
  "register digest fr info card_error a replace allow_conflicts s =
     (let name = ai_name (info a) in
      if strip name = [] then (Inl RegistryValueError, s)
      else (case resolve_sources (dependencies (info a)) (rg_sources s) of Inl e \<Rightarrow> (Inl (RegistrySource e), s)
      | Inr _ \<Rightarrow>
     (case card_error a of Some e \<Rightarrow> (Inl (RegistryRaised e), s)
      | None \<Rightarrow>
      let existing = dget (rg_registrations s) name;
          conflicts = conflicting_capabilities info a s;
          g = rg_generation s + 1 in
      if existing \<noteq> None \<and> \<not> replace then (Inl RegistryValueError, s)
      else if conflicts \<noteq> [] \<and> \<not> allow_conflicts \<and> \<not> replace then (Inl RegistryValueError, s)
      else (case build_agent_descriptor digest fr (info a) g ACTIVE True of
          Inl e \<Rightarrow> (Inl (RegistryRaised e), s)
        | Inr d \<Rightarrow>
            let r = \<lparr>re_agent = a, re_generation = g, re_lifecycle = ACTIVE, re_healthy = True, re_descriptor = d\<rparr>;
                s1 = (if conflicts \<noteq> [] \<and> \<not> allow_conflicts
                      then fold (evict_owners info a) (sorted_unique conflicts) s else s);
                s2 = (case existing of None \<Rightarrow> s1 | Some old \<Rightarrow> remove_mapping info (re_agent old) s1) in
            (Inr (map_option re_agent existing), add_registration info name r s2)))))"

definition replace_registration :: "agents \<Rightarrow> string \<Rightarrow> registration \<Rightarrow> registry \<Rightarrow> registry" where
  "replace_registration info n r s =
     s\<lparr>rg_registrations := dset n r (rg_registrations s),
       rg_index := fold (index_agent n r) (map fst (ai_capabilities (info (re_agent r)))) (rg_index s)\<rparr>"

definition update_registration ::
  "(string \<Rightarrow> string) \<Rightarrow> (pyfloat \<Rightarrow> string) \<Rightarrow> agents \<Rightarrow> string \<Rightarrow> (registration \<Rightarrow> lifecycle \<times> bool)
   \<Rightarrow> (registry, registry_error, unit) prog" where
  "update_registration digest fr info n f s =
     (case dget (rg_registrations s) n of None \<Rightarrow> (Inl RegistryKeyError, s)
      | Some cur \<Rightarrow> (case f cur of (l, h) \<Rightarrow>
        (case build_agent_descriptor digest fr (info (re_agent cur)) (re_generation cur) l h of
           Inl e \<Rightarrow> (Inl (RegistryRaised e), s)
         | Inr d \<Rightarrow>
             (Inr (), (replace_registration info n (cur\<lparr>re_lifecycle := l, re_healthy := h, re_descriptor := d\<rparr>) s)
                \<lparr>rg_revision := rg_revision s + 1\<rparr>))))"

text \<open>\<open>remove\<close>, by name or by object; the object need not be registered under its own name.\<close>

definition remove_registered :: "agents \<Rightarrow> nat \<Rightarrow> registry \<Rightarrow> registry" where
  "remove_registered info a s =
     (let s1 = remove_mapping info a s in
      s1\<lparr>rg_removed := insert (ai_name (info a)) (rg_removed s1), rg_revision := rg_revision s1 + 1\<rparr>)"

definition remove_by_name :: "agents \<Rightarrow> string \<Rightarrow> (registry, registry_error, nat) prog" where
  "remove_by_name info n s =
     (case dget (rg_registrations s) n of None \<Rightarrow> (Inl RegistryKeyError, s)
      | Some r \<Rightarrow> (Inr (re_agent r), remove_registered info (re_agent r) s))"

definition remove_by_agent :: "agents \<Rightarrow> nat \<Rightarrow> (registry, registry_error, nat) prog" where
  "remove_by_agent info a s =
     (case List.find (\<lambda>(_, r). re_agent r = a) (rg_registrations s) of None \<Rightarrow> (Inl RegistryKeyError, s)
      | Some (_, r) \<Rightarrow> (Inr (re_agent r), remove_registered info (re_agent r) s))"

definition set_lifecycle ::
  "(string \<Rightarrow> string) \<Rightarrow> (pyfloat \<Rightarrow> string) \<Rightarrow> agents \<Rightarrow> string \<Rightarrow> lifecycle \<Rightarrow> (registry, registry_error, unit) prog" where
  "set_lifecycle digest fr info n l s =
     (if l = REMOVED then (case remove_by_name info n s of (Inl e, s') \<Rightarrow> (Inl e, s') | (Inr _, s') \<Rightarrow> (Inr (), s'))
      else update_registration digest fr info n (\<lambda>r. (l, re_healthy r)) s)"

definition set_health ::
  "(string \<Rightarrow> string) \<Rightarrow> (pyfloat \<Rightarrow> string) \<Rightarrow> agents \<Rightarrow> string \<Rightarrow> bool \<Rightarrow> (registry, registry_error, unit) prog" where
  "set_health digest fr info n h = update_registration digest fr info n (\<lambda>r. (re_lifecycle r, h))"

definition lifecycle_of :: "string \<Rightarrow> registry \<Rightarrow> registry_error + lifecycle" where
  "lifecycle_of n s = (case dget (rg_registrations s) n of Some r \<Rightarrow> Inr (re_lifecycle r)
     | None \<Rightarrow> if n \<in> rg_removed s then Inr REMOVED else Inl RegistryKeyError)"

definition clear_registry :: "registry \<Rightarrow> registry" where
  "clear_registry s = s\<lparr>rg_removed := rg_removed s \<union> fst ` set (rg_agents s), rg_agents := [], rg_registrations := [],
     rg_index := [], rg_revision := rg_revision s + 1\<rparr>"

definition registry_get :: "string \<Rightarrow> registry \<Rightarrow> nat option" where
  "registry_get n s = dget (rg_agents s) n"

definition registry_names :: "registry \<Rightarrow> string list" where
  "registry_names s = sorted_unique (map fst (rg_agents s))"

text \<open>What \<open>accept_binding\<close> captures: target, descriptor, lifecycle, health and the two validity flags.\<close>

record acceptance =
  ab_agent :: "nat option"
  ab_descriptor :: "agent_descriptor option"
  ab_lifecycle :: lifecycle
  ab_healthy :: bool
  ab_generation_valid :: bool
  ab_schema_valid :: bool

definition accept_binding :: "string \<Rightarrow> string \<Rightarrow> int \<Rightarrow> string \<Rightarrow> registry \<Rightarrow> acceptance" where
  "accept_binding agent_id capability_id g schema s =
     (case dget (rg_registrations s) agent_id of
        None \<Rightarrow> \<lparr>ab_agent = None, ab_descriptor = None, ab_lifecycle = REMOVED, ab_healthy = False,
                 ab_generation_valid = False, ab_schema_valid = False\<rparr>
      | Some r \<Rightarrow>
          \<lparr>ab_agent = Some (re_agent r), ab_descriptor = Some (re_descriptor r), ab_lifecycle = re_lifecycle r,
           ab_healthy = re_healthy r, ab_generation_valid = (re_generation r = g),
           ab_schema_valid = (case List.find (\<lambda>d. cd_capability_id d = capability_id) (ad_capabilities (re_descriptor r)) of
              None \<Rightarrow> False | Some d \<Rightarrow> cd_schema_digest d = schema)\<rparr>)"

definition registration_of :: "string \<Rightarrow> registry \<Rightarrow> (nat \<times> agent_descriptor) option" where
  "registration_of n s = map_option (\<lambda>r. (re_agent r, re_descriptor r)) (dget (rg_registrations s) n)"

section \<open>The invariant of the registry\<close>

text \<open>The index as a function, and the keys of an agent's capabilities.\<close>

definition index_get :: "(string, (string, registration) dict) dict \<Rightarrow> string \<Rightarrow> string \<Rightarrow> registration option" where
  "index_get index c n = (case dget index c of None \<Rightarrow> None | Some m \<Rightarrow> dget m n)"

definition provides :: "agents \<Rightarrow> registration \<Rightarrow> string \<Rightarrow> bool" where
  "provides info r c \<longleftrightarrow> c \<in> fst ` set (ai_capabilities (info (re_agent r)))"

definition index_wf :: "(string, (string, registration) dict) dict \<Rightarrow> bool" where
  "index_wf index \<longleftrightarrow> ddistinct index \<and> (\<forall>c m. dget index c = Some m \<longrightarrow> ddistinct m \<and> m \<noteq> [])"

definition registration_ok :: "agents \<Rightarrow> string \<Rightarrow> registration \<Rightarrow> bool" where
  "registration_ok info n r \<longleftrightarrow> ai_name (info (re_agent r)) = n \<and> re_lifecycle r \<noteq> REMOVED
     \<and> ad_agent_id (re_descriptor r) = n \<and> ad_generation (re_descriptor r) = re_generation r
     \<and> ad_lifecycle (re_descriptor r) = re_lifecycle r \<and> ad_healthy (re_descriptor r) = re_healthy r"

definition registry_wf :: "agents \<Rightarrow> registry \<Rightarrow> bool" where
  "registry_wf info s \<longleftrightarrow> ddistinct (rg_agents s) \<and> ddistinct (rg_registrations s) \<and> index_wf (rg_index s)
     \<and> (\<forall>n. dget (rg_agents s) n = map_option re_agent (dget (rg_registrations s) n))
     \<and> (\<forall>n r. dget (rg_registrations s) n = Some r \<longrightarrow> registration_ok info n r \<and> re_generation r \<le> rg_generation s)
     \<and> (\<forall>c n. index_get (rg_index s) c n =
          (case dget (rg_registrations s) n of None \<Rightarrow> None | Some r \<Rightarrow> if provides info r c then Some r else None))
     \<and> rg_removed s \<inter> fst ` set (rg_registrations s) = {}"

lemma dget_drop_provider:
  assumes "ddistinct index"
  shows "dget (drop_provider n index) c = (case dget index c of None \<Rightarrow> None
     | Some m \<Rightarrow> if ddel n m = [] then None else Some (ddel n m))"
  using assms unfolding drop_provider_def
proof (induction index)
  case (Cons p index)
  obtain k m where p: "p = (k, m)" by (cases p)
  have "dget index k = None" and "ddistinct index"
    using Cons.prems p by (auto simp: ddistinct_def dget_None_keys)
  with Cons.IH p show ?case by (auto split: option.splits)
qed simp

lemma ddistinct_drop_provider: "ddistinct index \<Longrightarrow> ddistinct (drop_provider n index)"
proof -
  have "map fst (map (\<lambda>(c, m). (c, ddel n m)) index) = map fst index" by auto
  then show "ddistinct index \<Longrightarrow> ddistinct (drop_provider n index)"
    unfolding ddistinct_def drop_provider_def by (metis distinct_map_filter)
qed

lemma index_wf_drop: "index_wf index \<Longrightarrow> index_wf (drop_provider n index)"
  by (auto simp: index_wf_def ddistinct_drop_provider dget_drop_provider split: option.splits if_splits)

lemma index_get_drop: "index_wf index \<Longrightarrow> index_get (drop_provider n index) c n' = (if n' = n then None else index_get index c n')"
proof -
  assume "index_wf index"
  then have d: "ddistinct index" by (simp add: index_wf_def)
  have empty: "ddel n m = [] \<Longrightarrow> n' \<noteq> n \<Longrightarrow> dget m n' = None" for m :: "(string, registration) dict"
    by (metis dget_ddel map_of.simps(1))
  show ?thesis by (auto simp: index_get_def dget_drop_provider[OF d] empty split: option.splits)
qed

lemma index_wf_agent: "index_wf index \<Longrightarrow> index_wf (index_agent n r c index)"
proof -
  have "dset n r m \<noteq> []" for m :: "(string, registration) dict" by (metis dget_dset map_of.simps(1) option.distinct(1))
  then show "index_wf index \<Longrightarrow> index_wf (index_agent n r c index)"
    by (auto simp: index_wf_def index_agent_def split: option.splits if_splits)
qed

lemma index_get_agent:
  "index_get (index_agent n r c index) c' n' = (if c' = c \<and> n' = n then Some r else index_get index c' n')"
  by (auto simp: index_get_def index_agent_def split: option.splits)

lemma index_wf_agents: "index_wf index \<Longrightarrow> index_wf (fold (index_agent n r) cs index)"
  by (induction cs arbitrary: index) (auto intro: index_wf_agent)

lemma index_get_agents:
  "index_get (fold (index_agent n r) cs index) c' n' = (if c' \<in> set cs \<and> n' = n then Some r else index_get index c' n')"
  by (induction cs arbitrary: index) (auto simp: index_get_agent)

lemma keys_ddel: "fst ` set (ddel n d) = fst ` set d - {n}"
proof (rule set_eqI)
  fix k show "k \<in> fst ` set (ddel n d) \<longleftrightarrow> k \<in> fst ` set d - {n}"
    using dget_None_keys[of "ddel n d" k] dget_None_keys[of d k] by (auto split: if_splits)
qed

lemma remove_mapping_wf: "registry_wf info s \<Longrightarrow> registry_wf info (remove_mapping info a s)"
  by (auto simp: registry_wf_def remove_mapping_def Let_def index_wf_drop index_get_drop keys_ddel split: option.splits)

lemma remove_mapping_fields [simp]:
  "rg_generation (remove_mapping info a s) = rg_generation s" "rg_revision (remove_mapping info a s) = rg_revision s"
  "rg_removed (remove_mapping info a s) = rg_removed s" "rg_sources (remove_mapping info a s) = rg_sources s"
  by (simp_all add: remove_mapping_def Let_def)

lemma fold_remove_mapping_wf: "registry_wf info s \<Longrightarrow> registry_wf info (fold (remove_mapping info) as s)"
  by (induction as arbitrary: s) (auto intro: remove_mapping_wf)

lemma evict_wf: "registry_wf info s \<Longrightarrow> registry_wf info (evict_owners info a c s)"
  unfolding evict_owners_def by (rule fold_remove_mapping_wf)

lemma fold_evict_wf: "registry_wf info s \<Longrightarrow> registry_wf info (fold (evict_owners info a) cs s)"
  by (induction cs arbitrary: s) (auto intro: evict_wf)

text \<open>After the mapping of an agent is removed its own name is free.\<close>

lemma wf_agent_name:
  assumes "registry_wf info s" and "dget (rg_registrations s) n = Some r"
  shows "mapping_name info (re_agent r) s = n"
proof -
  have ok: "dget (rg_agents s) m = Some x \<Longrightarrow> ai_name (info x) = m" for m x
    using assms(1) by (auto simp: registry_wf_def registration_ok_def)
  have d: "ddistinct (rg_agents s)" using assms(1) by (simp add: registry_wf_def)
  have name: "ai_name (info (re_agent r)) = n" using assms by (auto simp: registry_wf_def registration_ok_def)
  show ?thesis
  proof (cases "List.find (\<lambda>(n, x). x = re_agent r) (rg_agents s)")
    case None
    with name show ?thesis by (simp add: mapping_name_def)
  next
    case (Some p)
    obtain m x where p: "p = (m, x)" by (cases p)
    have "p \<in> set (rg_agents s)" and "x = re_agent r"
      using Some p by (auto simp: find_Some_iff) (metis nth_mem)
    then have "dget (rg_agents s) m = Some (re_agent r)" using p d by (simp add: ddistinct_in_set)
    with ok name Some p show ?thesis by (auto simp: mapping_name_def)
  qed
qed

lemma add_registration_wf:
  assumes "registry_wf info s" and "registration_ok info n r" and "rg_generation s \<le> re_generation r"
    and "dget (rg_registrations s) n = None"
  shows "registry_wf info (add_registration info n r s)"
proof -
  have caps: "set (map fst (dsorted (ai_capabilities (info (re_agent r))))) = fst ` set (ai_capabilities (info (re_agent r)))"
    by (simp add: image_comp)
  have old: "re_generation r' \<le> re_generation r" if "dget (rg_registrations s) m = Some r'" for m r'
    using assms(1,3) that unfolding registry_wf_def by (meson order_trans)
  show ?thesis using assms old
    by (simp add: registry_wf_def add_registration_def index_wf_agents index_get_agents caps provides_def
        split: option.splits) blast
qed

lemma replace_registration_wf:
  assumes "registry_wf info s" and "dget (rg_registrations s) n = Some cur"
    and "registration_ok info n r" and "re_agent r = re_agent cur" and "re_generation r = re_generation cur"
  shows "registry_wf info (replace_registration info n r s)"
proof -
  have g: "re_generation cur \<le> rg_generation s" using assms(1,2) by (simp add: registry_wf_def)
  have n: "n \<in> fst ` set (rg_registrations s)" using assms(2) dget_None_keys[of "rg_registrations s" n] by simp
  show ?thesis using assms g n
    by (simp add: registry_wf_def replace_registration_def index_wf_agents index_get_agents provides_def insert_absorb
        split: option.splits)
qed

lemma build_agent_descriptor_fields:
  "build_agent_descriptor digest fr a g l h = Inr d \<Longrightarrow>
     ad_agent_id d = ai_name a \<and> ad_generation d = g \<and> ad_lifecycle d = l \<and> ad_healthy d = h"
  by (auto simp: build_agent_descriptor_def split: sum.splits)

text \<open>Evicting only removes registrations and leaves the counters alone.\<close>

lemma remove_mapping_mono:
  "dget (rg_registrations (remove_mapping info a s)) n = Some r \<Longrightarrow> dget (rg_registrations s) n = Some r"
  by (simp add: remove_mapping_def Let_def split: if_splits)

lemma fold_remove_mono:
  "dget (rg_registrations (fold (remove_mapping info) as s)) n = Some r \<Longrightarrow> dget (rg_registrations s) n = Some r"
  by (induction as arbitrary: s) (auto dest: remove_mapping_mono)

lemma fold_evict_mono:
  "dget (rg_registrations (fold (evict_owners info a) cs s)) n = Some r \<Longrightarrow> dget (rg_registrations s) n = Some r"
  by (induction cs arbitrary: s) (auto simp: evict_owners_def dest: fold_remove_mono)

lemma fold_remove_fields [simp]:
  "rg_generation (fold (remove_mapping info) as s) = rg_generation s"
  "rg_revision (fold (remove_mapping info) as s) = rg_revision s"
  by (induction as arbitrary: s) simp_all

lemma fold_evict_fields [simp]:
  "rg_generation (fold (evict_owners info a) cs s) = rg_generation s"
  "rg_revision (fold (evict_owners info a) cs s) = rg_revision s"
  by (induction cs arbitrary: s) (simp_all add: evict_owners_def)

text \<open>The state in which a registration is entered, and what \<open>register\<close> does in the end.\<close>

definition cleared :: "agents \<Rightarrow> nat \<Rightarrow> bool \<Rightarrow> registry \<Rightarrow> registry" where
  "cleared info a allow s =
     (let conflicts = conflicting_capabilities info a s;
          s1 = (if conflicts \<noteq> [] \<and> \<not> allow then fold (evict_owners info a) (sorted_unique conflicts) s else s) in
      case dget (rg_registrations s) (ai_name (info a)) of None \<Rightarrow> s1 | Some old \<Rightarrow> remove_mapping info (re_agent old) s1)"

lemma cleared_wf: "registry_wf info s \<Longrightarrow> registry_wf info (cleared info a allow s)"
  by (auto simp: cleared_def Let_def intro: fold_evict_wf remove_mapping_wf split: option.splits)

lemma cleared_fields [simp]:
  "rg_generation (cleared info a allow s) = rg_generation s" "rg_revision (cleared info a allow s) = rg_revision s"
  by (simp_all add: cleared_def Let_def split: option.splits)

lemma cleared_mono:
  "dget (rg_registrations (cleared info a allow s)) n = Some r \<Longrightarrow> dget (rg_registrations s) n = Some r"
  by (auto simp: cleared_def Let_def dest!: remove_mapping_mono fold_evict_mono split: option.splits if_splits)

lemma cleared_free:
  assumes "registry_wf info s"
  shows "dget (rg_registrations (cleared info a allow s)) (ai_name (info a)) = None"
proof (cases "dget (rg_registrations s) (ai_name (info a))")
  case None
  then show ?thesis using cleared_mono[of info a allow s "ai_name (info a)"]
    by (cases "dget (rg_registrations (cleared info a allow s)) (ai_name (info a))") auto
next
  case (Some old)
  let ?n = "ai_name (info a)"
  let ?s1 = "if conflicting_capabilities info a s \<noteq> [] \<and> \<not> allow
     then fold (evict_owners info a) (sorted_unique (conflicting_capabilities info a s)) s else s"
  have s1: "registry_wf info ?s1" using assms by (auto intro: fold_evict_wf)
  have c: "cleared info a allow s = remove_mapping info (re_agent old) ?s1" by (simp add: cleared_def Let_def Some)
  show ?thesis
  proof (cases "dget (rg_registrations ?s1) ?n")
    case None
    then show ?thesis unfolding c using remove_mapping_mono[of info "re_agent old" ?s1 ?n]
      by (cases "dget (rg_registrations (remove_mapping info (re_agent old) ?s1)) ?n") auto
  next
    case (Some r)
    have "dget (rg_registrations s) ?n = Some r"
    proof (cases "conflicting_capabilities info a s \<noteq> [] \<and> \<not> allow")
      case True
      with Some have "dget (rg_registrations (fold (evict_owners info a) (sorted_unique (conflicting_capabilities info a s)) s)) ?n = Some r"
        by simp
      then show ?thesis by (rule fold_evict_mono)
    next
      case False
      then show ?thesis using Some by (simp only: if_False)
    qed
    then have "r = old" using \<open>dget (rg_registrations s) ?n = Some old\<close> by simp
    with wf_agent_name[OF s1 Some] show ?thesis unfolding c by (simp add: remove_mapping_def Let_def)
  qed
qed

lemma register_cases:
  assumes "register digest fr info card_error a replace allow s = (r, s')"
  shows "(s' = s \<and> (\<exists>e. r = Inl e))
    \<or> (\<exists>d. build_agent_descriptor digest fr (info a) (rg_generation s + 1) ACTIVE True = Inr d
        \<and> r = Inr (map_option re_agent (dget (rg_registrations s) (ai_name (info a))))
        \<and> s' = add_registration info (ai_name (info a)) \<lparr>re_agent = a, re_generation = rg_generation s + 1,
              re_lifecycle = ACTIVE, re_healthy = True, re_descriptor = d\<rparr> (cleared info a allow s)
        \<and> (replace \<or> dget (rg_registrations s) (ai_name (info a)) = None))"
  using assms
  by (simp add: register_def Let_def cleared_def split: if_splits sum.splits option.splits) blast+

lemma register_wf:
  assumes "registry_wf info s" and "register digest fr info card_error a replace allow s = (r, s')"
  shows "registry_wf info s'"
  using register_cases[OF assms(2)] assms(1)
  by (auto simp: registration_ok_def build_agent_descriptor_fields
      intro!: add_registration_wf cleared_wf cleared_free)

lemma update_cases:
  assumes "update_registration digest fr info n f s = (r, s')"
  shows "(s' = s \<and> (\<exists>e. r = Inl e)) \<or> (\<exists>cur d. dget (rg_registrations s) n = Some cur
     \<and> build_agent_descriptor digest fr (info (re_agent cur)) (re_generation cur) (fst (f cur)) (snd (f cur)) = Inr d
     \<and> s' = (replace_registration info n (cur\<lparr>re_lifecycle := fst (f cur), re_healthy := snd (f cur), re_descriptor := d\<rparr>) s)
          \<lparr>rg_revision := rg_revision s + 1\<rparr>)"
  using assms by (auto simp: update_registration_def split: option.splits prod.splits sum.splits)

lemma wf_revision [simp]:
  "registry_wf info (s\<lparr>rg_revision := k\<rparr>) = registry_wf info s"
  "registry_wf info (s\<lparr>rg_sources := x\<rparr>) = registry_wf info s"
  by (simp_all add: registry_wf_def)

lemma update_wf:
  assumes "registry_wf info s" and "update_registration digest fr info n f s = (r, s')"
    and "\<And>cur. re_lifecycle cur \<noteq> REMOVED \<Longrightarrow> fst (f cur) \<noteq> REMOVED"
  shows "registry_wf info s'"
  using update_cases[OF assms(2)]
proof (elim disjE conjE exE)
  fix cur d assume cur: "dget (rg_registrations s) n = Some cur"
    and d: "build_agent_descriptor digest fr (info (re_agent cur)) (re_generation cur) (fst (f cur)) (snd (f cur)) = Inr d"
    and s': "s' = (replace_registration info n (cur\<lparr>re_lifecycle := fst (f cur), re_healthy := snd (f cur), re_descriptor := d\<rparr>) s)
          \<lparr>rg_revision := rg_revision s + 1\<rparr>"
  have "registration_ok info n cur" using assms(1) cur by (simp add: registry_wf_def)
  with build_agent_descriptor_fields[OF d] assms(3)[of cur]
  have "registration_ok info n (cur\<lparr>re_lifecycle := fst (f cur), re_healthy := snd (f cur), re_descriptor := d\<rparr>)"
    by (simp add: registration_ok_def)
  then show ?thesis unfolding s' wf_revision by (rule replace_registration_wf[OF assms(1) cur]) simp_all
qed (use assms(1) in simp)

lemma remove_registered_wf:
  assumes "registry_wf info s" and "dget (rg_registrations s) n = Some r"
  shows "registry_wf info (remove_registered info (re_agent r) s)"
proof -
  have name: "mapping_name info (re_agent r) s = n" by (rule wf_agent_name[OF assms])
  have own: "ai_name (info (re_agent r)) = n" using assms by (auto simp: registry_wf_def registration_ok_def)
  have "registry_wf info (remove_mapping info (re_agent r) s)" by (rule remove_mapping_wf[OF assms(1)])
  moreover have "n \<notin> fst ` set (rg_registrations (remove_mapping info (re_agent r) s))"
    by (simp add: remove_mapping_def Let_def name keys_ddel)
  ultimately show ?thesis by (simp add: remove_registered_def Let_def own registry_wf_def)
qed

lemma find_registration:
  assumes "registry_wf info s" and "List.find P (rg_registrations s) = Some (n, r)"
  shows "dget (rg_registrations s) n = Some r"
proof -
  have "(n, r) \<in> set (rg_registrations s)" using assms(2) by (auto simp: find_Some_iff)
  then show ?thesis using assms(1) by (simp add: registry_wf_def ddistinct_in_set)
qed

text \<open>Every operation that can change the registry.\<close>

inductive registry_step ::
  "(string \<Rightarrow> string) \<Rightarrow> (pyfloat \<Rightarrow> string) \<Rightarrow> agents \<Rightarrow> (nat \<Rightarrow> py_error option) \<Rightarrow> registry \<Rightarrow> registry \<Rightarrow> bool"
  for digest fr info card_error where
  step_register: "register digest fr info card_error a replace allow s = (r, s') \<Longrightarrow> registry_step digest fr info card_error s s'"
| step_source: "register_data_source d s = (r, s') \<Longrightarrow> registry_step digest fr info card_error s s'"
| step_lifecycle: "set_lifecycle digest fr info n l s = (r, s') \<Longrightarrow> registry_step digest fr info card_error s s'"
| step_health: "set_health digest fr info n h s = (r, s') \<Longrightarrow> registry_step digest fr info card_error s s'"
| step_remove_name: "remove_by_name info n s = (r, s') \<Longrightarrow> registry_step digest fr info card_error s s'"
| step_remove_agent: "remove_by_agent info a s = (r, s') \<Longrightarrow> registry_step digest fr info card_error s s'"
| step_clear: "registry_step digest fr info card_error s (clear_registry s)"

lemma remove_by_name_wf: "registry_wf info s \<Longrightarrow> remove_by_name info n s = (r, s') \<Longrightarrow> registry_wf info s'"
  by (auto simp: remove_by_name_def remove_registered_wf split: option.splits)

lemma registry_step_wf: "registry_step digest fr info card_error s s' \<Longrightarrow> registry_wf info s \<Longrightarrow> registry_wf info s'"
proof (induction rule: registry_step.induct)
  case (step_source d s r s')
  then show ?case
    by (cases "register_source d (rg_sources s)")
      (auto simp: register_data_source_def split: sum.splits)
next
  case (step_lifecycle n l s r s')
  then show ?case
    by (auto simp: set_lifecycle_def dest: remove_by_name_wf split: if_splits prod.splits sum.splits
        elim!: update_wf[rotated])
next
  case (step_health n h s r s')
  then show ?case by (auto simp: set_health_def elim!: update_wf[rotated])
next
  case (step_remove_agent a s r s')
  then show ?case
    by (auto simp: remove_by_agent_def dest: find_registration intro: remove_registered_wf split: option.splits)
next
  case (step_clear s)
  then show ?case by (auto simp: clear_registry_def registry_wf_def index_wf_def index_get_def ddistinct_def)
qed (auto dest: register_wf remove_by_name_wf)

lemma init_registry_wf: "registry_wf info (init_registry ds)"
  by (simp add: init_registry_def registry_wf_def index_wf_def index_get_def ddistinct_def)

definition registry_reach ::
  "(string \<Rightarrow> string) \<Rightarrow> (pyfloat \<Rightarrow> string) \<Rightarrow> agents \<Rightarrow> (nat \<Rightarrow> py_error option) \<Rightarrow> registry \<Rightarrow> registry \<Rightarrow> bool" where
  "registry_reach digest fr info card_error = (registry_step digest fr info card_error)\<^sup>*\<^sup>*"

lemma registry_reach_wf: "registry_reach digest fr info card_error s s' \<Longrightarrow> registry_wf info s \<Longrightarrow> registry_wf info s'"
  unfolding registry_reach_def by (induction rule: rtranclp_induct) (auto intro: registry_step_wf)

section \<open>What the registry guarantees\<close>

lemma dsorted_sorted_keys: "sorted (map fst (dsorted d))"
  by (rule sorted_dsorted)

lemma dsorted_filter_unique:
  assumes "ddistinct m" and "ddistinct d" and "\<And>n. dget m n = (case dget d n of None \<Rightarrow> None | Some r \<Rightarrow> if P r then Some r else None)"
  shows "dsorted m = filter (P \<circ> snd) (dsorted d)"
proof (rule map_sorted_distinct_set_unique[where f=fst])
  have "set m = {p \<in> set d. P (snd p)}"
  proof (rule set_eqI)
    fix p :: "'a \<times> 'b" obtain n r where p: "p = (n, r)" by (cases p)
    show "p \<in> set m \<longleftrightarrow> p \<in> {p \<in> set d. P (snd p)}"
      using assms(3)[of n] ddistinct_in_set[OF assms(1), of n r] ddistinct_in_set[OF assms(2), of n r]
      by (auto simp: p split: option.splits if_splits)
  qed
  then show "set (dsorted m) = set (filter (P \<circ> snd) (dsorted d))" by auto
  show "inj_on fst (set (dsorted m) \<union> set (filter (P \<circ> snd) (dsorted d)))"
    using assms(2) \<open>set m = _\<close> by (auto simp: ddistinct_def distinct_map intro: inj_on_subset)
  show "sorted (map fst (filter (P \<circ> snd) (dsorted d)))"
    using sorted_dsorted[of d] by (simp add: sorted_filter)
  show "distinct (map fst (filter (P \<circ> snd) (dsorted d)))"
    using ddistinct_dsorted[OF assms(2)] by (simp add: ddistinct_def distinct_map_filter)
qed (use ddistinct_dsorted[OF assms(1)] sorted_dsorted[of m] in \<open>auto simp: ddistinct_def\<close>)

text \<open>
  C23. The capability index is exactly the view of the registrations.  After any sequence of
  operations on a registry, the providers of a capability that the index yields are, in the order
  of their names, the registered agents that declare it: the incrementally maintained index
  refines the search through all registrations, also after replacements, evictions and removals.
\<close>

theorem index_refines_registrations:
  assumes "registry_reach digest fr info card_error (init_registry ds) s"
  shows "capability_providers c s =
     map (re_agent \<circ> snd) (filter (\<lambda>(n, r). provides info r c) (dsorted (rg_registrations s)))"
proof -
  have wf: "registry_wf info s" using registry_reach_wf[OF assms init_registry_wf] .
  have view: "index_get (rg_index s) c n = (case dget (rg_registrations s) n of None \<Rightarrow> None
      | Some r \<Rightarrow> if provides info r c then Some r else None)" for n
    using wf by (simp add: registry_wf_def)
  have d: "ddistinct (rg_registrations s)" using wf by (simp add: registry_wf_def)
  have snd_eq: "(\<lambda>r. provides info r c) \<circ> snd = (\<lambda>(n, r). provides info r c)" by auto
  show ?thesis
  proof (cases "dget (rg_index s) c")
    case None
    then have "\<not> provides info r c" if "dget (rg_registrations s) n = Some r" for n r
      using view[of n] that by (auto simp: index_get_def split: if_splits)
    then have "filter (\<lambda>(n, r). provides info r c) (dsorted (rg_registrations s)) = []"
      using d by (auto simp: filter_empty_conv ddistinct_in_set)
    then show ?thesis using None by (simp add: capability_providers_def)
  next
    case (Some m)
    then have "ddistinct m" using wf by (auto simp: registry_wf_def index_wf_def)
    from dsorted_filter_unique[OF this d, of "\<lambda>r. provides info r c"] view Some
    show ?thesis by (simp add: capability_providers_def index_get_def snd_eq)
  qed
qed

text \<open>Generations are never reused.\<close>

definition valid_binding :: "string \<Rightarrow> string \<Rightarrow> int \<Rightarrow> string \<Rightarrow> registry \<Rightarrow> bool" where
  "valid_binding n c g schema s \<longleftrightarrow> ab_generation_valid (accept_binding n c g schema s)"

definition generation_gone :: "string \<Rightarrow> int \<Rightarrow> registry \<Rightarrow> bool" where
  "generation_gone n g s \<longleftrightarrow> g \<le> rg_generation s \<and> (\<forall>r. dget (rg_registrations s) n = Some r \<longrightarrow> re_generation r \<noteq> g)"

lemma gone_valid: "g \<le> rg_generation s \<Longrightarrow> generation_gone n g s \<longleftrightarrow> \<not> valid_binding n c g schema s"
  by (auto simp: generation_gone_def valid_binding_def accept_binding_def split: option.splits)

lemma gone_mono:
  assumes "generation_gone n g s" and "rg_generation s \<le> rg_generation s'"
    and "\<And>r. dget (rg_registrations s') n = Some r \<Longrightarrow>
      (\<exists>r0. dget (rg_registrations s) n = Some r0 \<and> re_generation r = re_generation r0) \<or> rg_generation s < re_generation r"
  shows "generation_gone n g s'"
  using assms by (fastforce simp: generation_gone_def)

lemma gone_remove: "generation_gone n g s \<Longrightarrow> generation_gone n g (remove_registered info a s)"
  by (rule gone_mono) (auto simp: remove_registered_def Let_def dest: remove_mapping_mono)

lemma gone_update:
  assumes "update_registration digest fr info m f s = (r, s')" and "generation_gone n g s"
  shows "generation_gone n g s'"
  using update_cases[OF assms(1)]
proof (elim disjE conjE exE)
  assume "s' = s" then show ?thesis using assms(2) by simp
next
  fix cur d
  assume cur: "dget (rg_registrations s) m = Some cur"
    and s': "s' = (replace_registration info m (cur\<lparr>re_lifecycle := fst (f cur), re_healthy := snd (f cur), re_descriptor := d\<rparr>) s)
          \<lparr>rg_revision := rg_revision s + 1\<rparr>"
  show ?thesis by (rule gone_mono[OF assms(2)]) (auto simp: s' replace_registration_def cur split: if_splits)
qed

lemma gone_added:
  assumes "generation_gone n g s" and "re_generation x = rg_generation s + 1"
  shows "generation_gone n g (add_registration info m x (cleared info a allow s))"
proof (rule gone_mono[OF assms(1)])
  show "rg_generation s \<le> rg_generation (add_registration info m x (cleared info a allow s))"
    by (simp add: add_registration_def assms(2))
  fix y assume "dget (rg_registrations (add_registration info m x (cleared info a allow s))) n = Some y"
  then show "(\<exists>r0. dget (rg_registrations s) n = Some r0 \<and> re_generation y = re_generation r0) \<or> rg_generation s < re_generation y"
    using cleared_mono[of info a allow s n y] assms(2) by (cases "n = m") (auto simp: add_registration_def)
qed

lemma gone_register:
  assumes "register digest fr info card_error a replace allow s = (r, s')" and "generation_gone n g s"
  shows "generation_gone n g s'"
proof (cases "s' = s")
  case False
  then obtain x where "s' = add_registration info (ai_name (info a)) x (cleared info a allow s)"
    and "re_generation x = rg_generation s + 1"
    using register_cases[OF assms(1)] by fastforce
  with gone_added[OF assms(2)] show ?thesis by blast
qed (use assms(2) in simp)

lemma gone_remove_name: "remove_by_name info m s = (r, s') \<Longrightarrow> generation_gone n g s \<Longrightarrow> generation_gone n g s'"
  by (auto simp: remove_by_name_def intro: gone_remove split: option.splits)

lemma set_lifecycle_cases:
  assumes "set_lifecycle digest fr info m l s = (r, s')"
  obtains x where "remove_by_name info m s = (x, s')" | "update_registration digest fr info m (\<lambda>r. (l, re_healthy r)) s = (r, s')"
  using assms by (auto simp: set_lifecycle_def split: if_splits prod.splits sum.splits)

lemma gone_step:
  assumes "registry_step digest fr info card_error s s'" and "generation_gone n g s"
  shows "generation_gone n g s'"
  using assms(1)
proof cases
  case (step_register a replace allow r)
  then show ?thesis using gone_register assms(2) by blast
next
  case (step_source d r)
  then show ?thesis using assms(2)
    by (auto simp: register_data_source_def generation_gone_def split: prod.splits sum.splits)
next
  case (step_lifecycle m l r)
  then show ?thesis using assms(2) by (elim set_lifecycle_cases) (blast intro: gone_remove_name gone_update)+
next
  case (step_health m h r)
  then show ?thesis using assms(2) unfolding set_health_def by (blast intro: gone_update)
next
  case (step_remove_name m r)
  then show ?thesis using assms(2) by (blast intro: gone_remove_name)
next
  case (step_remove_agent a r)
  then show ?thesis using assms(2) by (auto simp: remove_by_agent_def intro: gone_remove split: option.splits)
next
  case step_clear
  then show ?thesis using assms(2) by (simp add: generation_gone_def clear_registry_def)
qed

lemma gone_reach:
  assumes "registry_reach digest fr info card_error s s'" and "generation_gone n g s" shows "generation_gone n g s'"
  using assms unfolding registry_reach_def by (induction rule: rtranclp_induct) (auto intro: gone_step)

text \<open>
  A binding to a replaced or removed registration never becomes valid again.  When a binding
  names a generation that the registry has issued and that is not the generation of the agent's
  current registration, then no sequence of further operations, including removing and registering
  the agent again, makes the registry accept it.
\<close>

theorem stale_binding_stays_stale:
  assumes "\<not> valid_binding n c g schema s" and "g \<le> rg_generation s" and "registry_reach digest fr info card_error s s'"
  shows "\<not> valid_binding n c g schema s'"
proof -
  have start: "generation_gone n g s" using assms(1) gone_valid[OF assms(2)] by blast
  have "generation_gone n g s'" by (rule gone_reach[OF assms(3) start])
  then show ?thesis using gone_valid[of g s' n c schema] by (auto simp: generation_gone_def)
qed

text \<open>The revision moves with every change.\<close>

lemma revision_update:
  "update_registration digest fr info n f s = (r, s') \<Longrightarrow> s' = s \<or> rg_revision s' = rg_revision s + 1"
  by (drule update_cases) (elim disjE conjE exE, simp_all)

lemma revision_remove_name: "remove_by_name info m s = (r, s') \<Longrightarrow> s' = s \<or> rg_revision s' = rg_revision s + 1"
  by (auto simp: remove_by_name_def remove_registered_def Let_def split: option.splits)

lemma revision_register:
  "register digest fr info card_error a replace allow s = (r, s') \<Longrightarrow> s' = s \<or> rg_revision s' = rg_revision s + 1"
  by (drule register_cases) (elim disjE conjE exE, simp_all add: add_registration_def)

lemma revision_step:
  assumes "registry_step digest fr info card_error s s'"
  shows "s' = s \<or> rg_revision s' = rg_revision s + 1"
  using assms
proof cases
  case (step_register a replace allow r)
  then show ?thesis by (rule revision_register)
next
  case (step_source d r)
  then show ?thesis by (auto simp: register_data_source_def split: prod.splits sum.splits)
next
  case (step_lifecycle m l r)
  then show ?thesis by (elim set_lifecycle_cases) (blast dest: revision_remove_name revision_update)+
next
  case (step_health m h r)
  then show ?thesis unfolding set_health_def by (rule revision_update)
next
  case (step_remove_name m r)
  then show ?thesis by (rule revision_remove_name)
next
  case (step_remove_agent a r)
  then show ?thesis by (auto simp: remove_by_agent_def remove_registered_def Let_def split: option.splits)
next
  case step_clear
  then show ?thesis by (simp add: clear_registry_def)
qed

lemma revision_reach:
  assumes "registry_reach digest fr info card_error s s'"
  shows "s' = s \<or> rg_revision s < rg_revision s'"
  using assms unfolding registry_reach_def
proof (induction rule: rtranclp_induct)
  case (step y z)
  from revision_step[OF step.hyps(2)] step.IH show ?case by (elim disjE) simp_all
qed simp

text \<open>
  C27. The revision identifies the registry.  It never decreases, and two states of one registry
  with the same revision are the same state, hence publish the same snapshot: a consumer that
  compares revisions never misses a change.
\<close>

theorem revision_identifies_state:
  assumes "registry_reach digest fr info card_error s s'"
  shows "rg_revision s \<le> rg_revision s'
     \<and> (rg_revision s = rg_revision s' \<longleftrightarrow> s = s')"
  using revision_reach[OF assms] by (elim disjE) auto

section \<open>What the snapshot offers\<close>

text \<open>
  The descriptor of a registration names its agent in every capability, each capability of the agent once, and
  the counters are those of a registry that has been built by registering.
\<close>

definition described :: "agents \<Rightarrow> registry \<Rightarrow> bool" where
  "described info s \<longleftrightarrow> 0 \<le> rg_revision s \<and> 0 \<le> rg_generation s
     \<and> (\<forall>n r. dget (rg_registrations s) n = Some r \<longrightarrow> 1 \<le> re_generation r
          \<and> distinct (map cd_capability_id (ad_capabilities (re_descriptor r)))
          \<and> (\<forall>d \<in> set (ad_capabilities (re_descriptor r)). cd_agent_id d = ad_agent_id (re_descriptor r)
                \<and> provides info r (cd_capability_id d)))"

lemma collect_all2: "collect (map f xs) = Inr ys \<Longrightarrow> list_all2 (\<lambda>x y. f x = Inr y) xs ys"
proof (induction xs arbitrary: ys)
  case (Cons x xs)
  then show ?case by (cases "f x") (auto split: sum.splits)
qed simp

lemma build_capability_fields:
  "build_capability digest fr a kc = Inr d \<Longrightarrow> cd_capability_id d = fst kc \<and> cd_agent_id d = ai_name a"
  by (auto simp: build_capability_def mk_capability_descriptor_def split: prod.splits sum.splits)

lemma built_descriptor:
  assumes "ddistinct (ai_capabilities a)" and "build_agent_descriptor digest fr a g l h = Inr d"
  shows "distinct (map cd_capability_id (ad_capabilities d)) \<and> (\<forall>c \<in> set (ad_capabilities d). cd_agent_id c = ad_agent_id d
     \<and> cd_capability_id c \<in> fst ` set (ai_capabilities a))"
proof -
  have "collect (map (build_capability digest fr a) (dsorted (ai_capabilities a))) = Inr (ad_capabilities d)"
    and name: "ad_agent_id d = ai_name a" using assms(2) by (auto simp: build_agent_descriptor_def split: sum.splits)
  from collect_all2[OF this(1)]
  have all2: "list_all2 (\<lambda>k c. build_capability digest fr a k = Inr c) (dsorted (ai_capabilities a)) (ad_capabilities d)" .
  then have ids: "map cd_capability_id (ad_capabilities d) = map fst (dsorted (ai_capabilities a))"
    by (induction rule: list_all2_induct) (auto dest: build_capability_fields)
  then have keys: "cd_capability_id ` set (ad_capabilities d) = fst ` set (ai_capabilities a)" by (metis set_dsorted set_map)
  have "\<forall>c \<in> set (ad_capabilities d). cd_agent_id c = ai_name a"
    using all2 by (induction rule: list_all2_induct) (auto dest: build_capability_fields)
  moreover have "\<forall>c \<in> set (ad_capabilities d). cd_capability_id c \<in> fst ` set (ai_capabilities a)"
    unfolding keys[symmetric] by blast
  ultimately show ?thesis using ddistinct_dsorted[OF assms(1)] name ids by (simp add: ddistinct_def)
qed

lemma described_fewer:
  assumes "described info s" and "0 \<le> rg_revision s'" and "rg_generation s' = rg_generation s"
    and "\<And>n r. dget (rg_registrations s') n = Some r \<Longrightarrow> dget (rg_registrations s) n = Some r"
  shows "described info s'"
  unfolding described_def
proof (intro conjI allI impI)
  show "0 \<le> rg_revision s'" by (rule assms(2))
  show "0 \<le> rg_generation s'" using assms(1,3) by (simp add: described_def)
qed (use assms(1) in \<open>auto simp: described_def dest!: assms(4)\<close>)

lemma described_remove: "described info s \<Longrightarrow> described info (remove_registered info a s)"
  by (rule described_fewer) (auto simp: described_def remove_registered_def Let_def dest: remove_mapping_mono)

lemma described_update:
  assumes "\<And>a. ddistinct (ai_capabilities (info a))" and "described info s" and "update_registration digest fr info m f s = (r, s')"
  shows "described info s'"
  using update_cases[OF assms(3)]
proof (elim disjE conjE exE)
  assume "s' = s" then show ?thesis using assms(2) by simp
next
  fix cur d
  assume "dget (rg_registrations s) m = Some cur"
    and "build_agent_descriptor digest fr (info (re_agent cur)) (re_generation cur) (fst (f cur)) (snd (f cur)) = Inr d"
    and "s' = (replace_registration info m (cur\<lparr>re_lifecycle := fst (f cur), re_healthy := snd (f cur), re_descriptor := d\<rparr>) s)
          \<lparr>rg_revision := rg_revision s + 1\<rparr>"
  with assms(2) built_descriptor[OF assms(1)] show ?thesis
    by (auto simp: described_def replace_registration_def provides_def split: if_splits)
qed

lemma described_register:
  assumes "\<And>a. ddistinct (ai_capabilities (info a))" and "described info s"
    and "register digest fr info card_error a replace allow s = (r, s')"
  shows "described info s'"
proof (cases "s' = s")
  case False
  then obtain d where d: "build_agent_descriptor digest fr (info a) (rg_generation s + 1) ACTIVE True = Inr d"
    and s': "s' = add_registration info (ai_name (info a)) \<lparr>re_agent = a, re_generation = rg_generation s + 1,
              re_lifecycle = ACTIVE, re_healthy = True, re_descriptor = d\<rparr> (cleared info a allow s)"
    using register_cases[OF assms(3)] by fastforce
  have old: "described info (cleared info a allow s)"
    using assms(2) by (rule described_fewer) (auto simp: assms(2)[unfolded described_def] dest: cleared_mono)
  have g: "0 \<le> rg_generation s" using assms(2) by (simp add: described_def)
  from old g built_descriptor[OF assms(1) d] show ?thesis unfolding s' by (simp add: described_def add_registration_def provides_def)
qed (use assms(2) in simp)

lemma described_step:
  assumes "\<And>a. ddistinct (ai_capabilities (info a))" and "registry_step digest fr info card_error s s'" and "described info s"
  shows "described info s'"
  using assms(2)
proof cases
  case (step_register a replace allow r)
  then show ?thesis using described_register assms by blast
next
  case (step_source d r)
  then show ?thesis using assms(3)
    by (auto simp: register_data_source_def described_def split: prod.splits sum.splits)
next
  case (step_lifecycle m l r)
  then show ?thesis using assms(1,3)
    by (elim set_lifecycle_cases)
      (auto simp: remove_by_name_def intro: described_remove described_update split: option.splits)
next
  case (step_health m h r)
  then show ?thesis using assms(1,3) described_update unfolding set_health_def by blast
next
  case (step_remove_name m r)
  then show ?thesis using assms(3) by (auto simp: remove_by_name_def intro: described_remove split: option.splits)
next
  case (step_remove_agent a r)
  then show ?thesis using assms(3) by (auto simp: remove_by_agent_def intro: described_remove split: option.splits)
next
  case step_clear
  then show ?thesis using assms(3) by (simp add: described_def clear_registry_def)
qed

lemma described_reach:
  assumes "\<And>a. ddistinct (ai_capabilities (info a))" and "registry_reach digest fr info card_error (init_registry ds) s"
  shows "described info s"
  using assms(2) unfolding registry_reach_def
proof (induction rule: rtranclp_induct)
  case base
  show ?case by (simp add: described_def init_registry_def)
next
  case (step y z)
  show ?case by (rule described_step[where info = info, OF assms(1) step.hyps(2) step.IH])
qed

section \<open>A concrete registry\<close>

definition sample_agents :: agents where
  "sample_agents a = \<lparr>ai_name = (if a = 2 then ''other'' else ''billing''), ai_version = ''1.0'', ai_description = None, ai_tags = {},
     ai_capabilities = [(''find'', \<lparr>ci_description = None, ci_tags = {}, ci_input_schema = VDict [], ci_output_schema = None,
        ci_scopes = [], ci_approval = False,
        ci_policy = empty_policy,
        ci_data_sources = []\<rparr>)]\<rparr>"

definition sample_register :: "nat \<Rightarrow> registry \<Rightarrow> registry" where
  "sample_register a s = snd (register (\<lambda>_. ''d'') (\<lambda>_. ''0'') sample_agents (\<lambda>_. None) a True False s)"

definition sample_registry :: registry where
  "sample_registry = sample_register 1 (init_registry [])"

lemma sample_register_step:
  "registry_step (\<lambda>_. ''d'') (\<lambda>_. ''0'') sample_agents (\<lambda>_. None) s (sample_register a s)"
  by (rule step_register[where r = "fst (register (\<lambda>_. ''d'') (\<lambda>_. ''0'') sample_agents (\<lambda>_. None) a True False s)"])
    (simp add: sample_register_def)

lemma sample_register_reach:
  "registry_reach (\<lambda>_. ''d'') (\<lambda>_. ''0'') sample_agents (\<lambda>_. None) s (sample_register a s)"
  unfolding registry_reach_def by (rule r_into_rtranclp) (rule sample_register_step)

theorem index_refines_registrations_witness:
  "capability_providers ''find'' sample_registry = [1] \<and>
   map (re_agent \<circ> snd) (filter (\<lambda>(n, r). provides sample_agents r ''find'') (dsorted (rg_registrations sample_registry))) = [1]"
proof -
  have "capability_providers ''find'' sample_registry = [1]" by code_simp
  moreover have "registry_reach (\<lambda>_. ''d'') (\<lambda>_. ''0'') sample_agents (\<lambda>_. None) (init_registry []) sample_registry"
    unfolding sample_registry_def by (rule sample_register_reach)
  ultimately show ?thesis using index_refines_registrations[of _ _ sample_agents _ "[]" sample_registry "''find''"] by simp
qed

theorem stale_binding_stays_stale_witness:
  "valid_binding ''billing'' ''find'' 1 ''d'' sample_registry
   \<and> \<not> valid_binding ''billing'' ''find'' 1 ''d'' (sample_register 0 (sample_register 3 sample_registry))"
proof -
  have first: "valid_binding ''billing'' ''find'' 1 ''d'' sample_registry" by code_simp
  have gone: "\<not> valid_binding ''billing'' ''find'' 1 ''d'' (sample_register 3 sample_registry)" by code_simp
  have g: "1 \<le> rg_generation (sample_register 3 sample_registry)" by code_simp
  from first stale_binding_stays_stale[OF gone g sample_register_reach] show ?thesis by blast
qed

theorem revision_identifies_state_witness:
  "rg_revision sample_registry = 1 \<and> rg_revision (sample_register 2 sample_registry) = 2
   \<and> sample_register 2 sample_registry \<noteq> sample_registry"
proof -
  have "rg_revision sample_registry = 1" and "rg_revision (sample_register 2 sample_registry) = 2" by code_simp+
  with revision_identifies_state[OF sample_register_reach, of sample_registry 2] show ?thesis by auto
qed

end
