(* ===== verification/LocalGateway.thy ===== *)
theory LocalGateway
  imports Discovery Registry
begin

text \<open>
  The in-process gateway, \<open>core/gateway/_local.py\<close>: discovery, selection, tool projection and the
  invocation of a binding.  \<open>ld\<close> gathers the library functions (SHA-256 digests, float texts, HMAC).
  \<open>Runtime.invoke\<close> is a parameter: what it does to the registry, the bindings, the budget and the rest
  of the world (the state \<open>'g\<close>) is unrestricted, since an invoked capability may itself use all of them.
  The state stored with a local binding is the text \<open>local\<close>.
\<close>

section \<open>The gateway\<close>

record library =
  li_digest :: "string \<Rightarrow> string"
  li_float :: "pyfloat \<Rightarrow> string"
  li_mac :: "string \<Rightarrow> string \<Rightarrow> string"

record gateway_config =
  gc_policy :: "gateway_policy option"
  gc_preferred :: "(string, string) dict"
  gc_authority :: authority
  gc_max_results :: int
  gc_max_bytes :: int

text \<open>The constructor, with the defaults of the runtime already taken.\<close>

definition mk_gateway :: "gateway_config \<Rightarrow> py_error + gateway_config" where
  "mk_gateway g =
     (if float_le (au_ttl (gc_authority g)) 0 then Inl ValueError
      else if gc_max_results g < 1 \<or> gc_max_bytes g < 1 then Inl ValueError
      else Inr g)"

record ('s, 'g) world =
  wo_registry :: registry
  wo_bindings :: "'s binding_state"
  wo_run :: run_state
  wo_ext :: 'g

text \<open>\<open>'e\<close> is what \<open>Runtime.invoke\<close> raises.\<close>

datatype 'e gateway_error = GatewayInactive | GatewayRaised py_error | RuntimeRaised 'e

text \<open>The context is active in task \<open>c\<close>.\<close>

definition active :: "nat \<Rightarrow> run_context \<Rightarrow> ('s, 'g) world \<Rightarrow> bool" where
  "active c x w \<longleftrightarrow> fst (context_active c x (wo_run w)) = Inr ()"

definition local_issue ::
  "library \<Rightarrow> gateway_config \<Rightarrow> int \<Rightarrow> capability_descriptor \<times> int \<Rightarrow> (string, 'g) world \<Rightarrow> capability_binding \<times> (string, 'g) world" where
  "local_issue li g v dg w =
     (case issue (li_mac li) (li_float li) (gc_authority g) (fst dg) v (snd dg) ''local'' (wo_bindings w) of
        (b, s) \<Rightarrow> (b, w\<lparr>wo_bindings := s\<rparr>))"

fun issue_all ::
  "library \<Rightarrow> gateway_config \<Rightarrow> int \<Rightarrow> (capability_descriptor \<times> int) list \<Rightarrow> (string, 'g) world \<Rightarrow> bound_capability list \<times> (string, 'g) world" where
  "issue_all li g v [] w = ([], w)"
| "issue_all li g v (dg # dgs) w =
     (let (b, w1) = local_issue li g v dg w; (bs, w2) = issue_all li g v dgs w1 in
      (\<lparr>bc_descriptor = fst dg, bc_binding = b\<rparr> # bs, w2))"

definition find_matches ::
  "library \<Rightarrow> gateway_config \<Rightarrow> run_context \<Rightarrow> discovery_query \<Rightarrow> ('s, 'g) world
   \<Rightarrow> (match_error + int \<times> (capability_descriptor \<times> int) list \<times> bool \<times> bool) \<times> ('s, 'g) world" where
  "find_matches li g x q w =
     (case matching_candidates (li_float li) (gc_policy g) x q (registry_snapshot_of (wo_registry w)) (wo_run w) of
        (r, u) \<Rightarrow> (r, w\<lparr>wo_run := u\<rparr>))"

text \<open>The message of an unsupported query schema is the text of the exception; it is left out.\<close>

definition match_failure :: "match_error \<Rightarrow> gateway_failure" where
  "match_failure e = (case e of
       PolicyEvaluationError \<Rightarrow> \<lparr>gf_code = POLICY_EVALUATION_FAILED, gf_message = ''Gateway policy evaluation failed''\<rparr>
     | UnsupportedSchemaError \<Rightarrow> \<lparr>gf_code = UNSUPPORTED_SCHEMA, gf_message = []\<rparr>)"

definition empty_failure :: "bool \<Rightarrow> bool \<Rightarrow> gateway_failure" where
  "empty_failure denied unsupported =
     (if unsupported then \<lparr>gf_code = UNSUPPORTED_SCHEMA, gf_message = ''Matching providers use unsupported JSON Schema features''\<rparr>
      else if denied then \<lparr>gf_code = DISCOVERY_DENIED, gf_message = ''Capability discovery was denied''\<rparr>
      else \<lparr>gf_code = NO_MATCH, gf_message = ''No eligible capability matched the query''\<rparr>)"

definition discover ::
  "library \<Rightarrow> gateway_config \<Rightarrow> nat \<Rightarrow> run_context \<Rightarrow> discovery_query \<Rightarrow> ((string, 'g) world, 'e gateway_error, discovery_result) prog" where
  "discover li g c x q w =
     (if \<not> active c x w then (Inl GatewayInactive, w)
      else (case find_matches li g x q w of
          (Inl e, w1) \<Rightarrow> (Inr \<lparr>dr_revision = rg_revision (wo_registry w1), dr_candidates = [],
              dr_failure = Some (match_failure e), dr_truncated = False\<rparr>, w1)
        | (Inr (v, ms, denied, unsupported), w1) \<Rightarrow>
            (let limit = nat (min (dq_limit q) (gc_max_results g));
                 (cands, w2) = issue_all li g v (take limit ms) w1 in
             (Inr \<lparr>dr_revision = v, dr_candidates = cands,
                dr_failure = (if cands = [] then Some (empty_failure denied unsupported) else None),
                dr_truncated = (limit < length ms \<or> (unsupported \<and> cands \<noteq> []))\<rparr>, w2))))"

definition selected ::
  "library \<Rightarrow> gateway_config \<Rightarrow> int \<Rightarrow> bool \<Rightarrow> capability_descriptor \<times> int \<Rightarrow> (string, 'g) world \<Rightarrow> selection_outcome \<times> (string, 'g) world" where
  "selected li g v unsupported dg w =
     (case local_issue li g v dg w of (b, w1) \<Rightarrow>
        (\<lparr>so_status = SELECTED, so_binding = Some b, so_descriptor = Some (fst dg), so_candidates = [], so_failure = None,
          so_truncated = unsupported\<rparr>, w1))"

text \<open>The configured provider, when all matches are of one capability.\<close>

definition preferred_match :: "gateway_config \<Rightarrow> (capability_descriptor \<times> int) list \<Rightarrow> (capability_descriptor \<times> int) option" where
  "preferred_match g ms =
     (case remdups (map (cd_capability_id \<circ> fst) ms) of
        [c] \<Rightarrow> (case dget (gc_preferred g) c of None \<Rightarrow> None
           | Some a \<Rightarrow> List.find (\<lambda>dg. cd_agent_id (fst dg) = a) ms)
      | _ \<Rightarrow> None)"

definition select ::
  "library \<Rightarrow> gateway_config \<Rightarrow> nat \<Rightarrow> run_context \<Rightarrow> discovery_query \<Rightarrow> ((string, 'g) world, 'e gateway_error, selection_outcome) prog" where
  "select li g c x q w =
     (if \<not> active c x w then (Inl GatewayInactive, w)
      else (case find_matches li g x q w of
          (Inl e, w1) \<Rightarrow> (Inr (failed_selection SEL_FAILED (match_failure e)), w1)
        | (Inr (v, ms, denied, unsupported), w1) \<Rightarrow>
            (case ms of
               [] \<Rightarrow> (Inr (failed_selection (if unsupported then SEL_FAILED else if denied then SEL_DENIED else SEL_NO_MATCH)
                         (empty_failure denied unsupported)), w1)
             | [dg] \<Rightarrow> (case selected li g v unsupported dg w1 of (s, w2) \<Rightarrow> (Inr s, w2))
             | _ \<Rightarrow>
                 (case preferred_match g ms of
                    Some dg \<Rightarrow> (case selected li g v unsupported dg w1 of (s, w2) \<Rightarrow> (Inr s, w2))
                  | None \<Rightarrow>
                      (Inr \<lparr>so_status = SEL_AMBIGUOUS, so_binding = None, so_descriptor = None,
                         so_candidates = map fst (take (nat (gc_max_results g)) ms),
                         so_failure = Some \<lparr>gf_code = AMBIGUOUS,
                           gf_message = ''Several eligible capabilities matched without a configured selection''\<rparr>,
                         so_truncated = (nat (gc_max_results g) < length ms \<or> unsupported)\<rparr>, w1)))))"

definition lookup ::
  "library \<Rightarrow> gateway_config \<Rightarrow> nat \<Rightarrow> run_context \<Rightarrow> string \<Rightarrow> string \<Rightarrow> ((string, 'g) world, 'e gateway_error, selection_outcome) prog" where
  "lookup li g c x agent_id capability_id w =
     (case mk_discovery_query \<lparr>dq_agent_id = Some agent_id, dq_capability_ids = {capability_id}, dq_tags = {}, dq_version = None,
             dq_input_schema = None, dq_output_schema = None, dq_limit = 2, dq_include_approval = True\<rparr> of
        Inl e \<Rightarrow> (Inl (GatewayRaised e), w)
      | Inr q \<Rightarrow> select li g c x q w)"

definition discover_tools ::
  "library \<Rightarrow> gateway_config \<Rightarrow> nat \<Rightarrow> run_context \<Rightarrow> discovery_query \<Rightarrow> ((string, 'g) world, 'e gateway_error, tool_discovery_result) prog" where
  "discover_tools li g c x q w =
     (case discover li g c x q w of
        (Inl e, w1) \<Rightarrow> (Inl e, w1)
      | (Inr r, w1) \<Rightarrow> (map_sum GatewayRaised id (project_tools (li_digest li) (li_float li) (gc_max_bytes g) r), w1))"

section \<open>Invocation\<close>

type_synonym ('s, 'g, 'e) runtime_invoke =
  "nat \<Rightarrow> string \<Rightarrow> pyval \<Rightarrow> time option \<Rightarrow> string \<Rightarrow> ('s, 'g) world \<Rightarrow> ('e gateway_error + invocation_result) \<times> ('s, 'g) world"

text \<open>The reason of \<open>InvocationTargetUnavailable\<close>.\<close>

definition unavailable_reason :: "lifecycle \<Rightarrow> string" where
  "unavailable_reason l = (if l = ACTIVE then ''unhealthy'' else lifecycle_value l)"

text \<open>
  The last part of \<open>_invoke_resolved_binding\<close>: reserve the budget and dispatch.  \<open>reserve\<close> raises on a
  negative or non-finite cost.
\<close>

definition reserve_and_dispatch ::
  "('s, 'g, 'e) runtime_invoke \<Rightarrow> run_context \<Rightarrow> nat \<Rightarrow> string \<Rightarrow> pyval \<Rightarrow> time option \<Rightarrow> int \<Rightarrow> pyfloat \<Rightarrow> invocation_metadata option
   \<Rightarrow> (('s, 'g) world, 'e gateway_error, invocation_result) prog" where
  "reserve_and_dispatch rt x agent cap args timeout tokens cost md w =
     (let corr = rx_correlation_id x in
      case reserve 1 tokens cost (ru_budget (wo_run w)) of
        (Inl e, _) \<Rightarrow> (Inl (GatewayRaised e), w)
      | (Inr ok, b) \<Rightarrow>
          if \<not> ok then (Inr (InvocationBudgetExhausted corr ''calls, tokens, or cost'' md), w)
          else
            let w1 = w\<lparr>wo_run := (wo_run w)\<lparr>ru_budget := b\<rparr>\<rparr>; prior = ru_calls (wo_run w1) in
            (case rt agent cap args timeout corr w1 of
               (Inl e, w2) \<Rightarrow> (Inl e, w2)
             | (Inr res, w2) \<Rightarrow>
                 (Inr (case result_metadata res of None \<Rightarrow> res
                       | Some m \<Rightarrow> if prior = [] then res else replace_metadata (Some (with_prior_model_calls prior m)) res), w2)))"

definition invoke_resolved ::
  "('s, 'g, 'e) runtime_invoke \<Rightarrow> gateway_config \<Rightarrow> run_context \<Rightarrow> capability_binding \<Rightarrow> pyval \<Rightarrow> time option \<Rightarrow> int \<Rightarrow> pyfloat
   \<Rightarrow> (('s, 'g) world, 'e gateway_error, invocation_result) prog" where
  "invoke_resolved rt g x b args timeout tokens cost w =
     (let corr = rx_correlation_id x; md = plain_metadata x (wo_run w); a = bd_agent_id b; c = bd_capability_id b;
          acc = accept_binding a c (bd_generation b) (bd_schema_digest b) (wo_registry w) in
      case (ab_agent acc, ab_descriptor acc) of
        (Some agent, Some ad) \<Rightarrow>
          if \<not> ab_generation_valid acc then (Inr (InvocationStaleBinding corr a c md), w)
          else if \<not> ab_schema_valid acc then (Inr (InvocationSchemaMismatch corr a c md), w)
          else if ab_lifecycle acc \<noteq> ACTIVE \<or> \<not> ab_healthy acc
          then (Inr (InvocationTargetUnavailable corr a c (unavailable_reason (ab_lifecycle acc)) md), w)
          else (case List.find (\<lambda>d. cd_capability_id d = c) (ad_capabilities ad) of
              None \<Rightarrow> (Inl (GatewayRaised RuntimeError), w)
            | Some d \<Rightarrow>
              (case permits (gc_policy g) x False d (wo_run w) of
                 (Inl _, u) \<Rightarrow> (Inr (InvocationAuthorizationFailure corr (failure_value POLICY_EVALUATION_FAILED) md), w\<lparr>wo_run := u\<rparr>)
               | (Inr ok, u) \<Rightarrow>
                   let w1 = w\<lparr>wo_run := u\<rparr> in
                   if \<not> ok then (Inr (InvocationAuthorizationFailure corr (failure_value DISCOVERY_DENIED) md), w1)
                   else (case context_remaining_timeout x u of
                       (Inl _, u2) \<Rightarrow> (Inr (InvocationTimeout corr 0 md), w\<lparr>wo_run := u2\<rparr>)
                     | (Inr _, u2) \<Rightarrow> reserve_and_dispatch rt x agent c args timeout tokens cost md (w\<lparr>wo_run := u2\<rparr>))))
      | _ \<Rightarrow> (Inr (InvocationStaleBinding corr a c md), w))"

definition gateway_invoke ::
  "('s, 'g, 'e) runtime_invoke \<Rightarrow> library \<Rightarrow> gateway_config \<Rightarrow> nat \<Rightarrow> run_context \<Rightarrow> capability_binding \<Rightarrow> pyval \<Rightarrow> time option \<Rightarrow> int \<Rightarrow> pyfloat
   \<Rightarrow> (('s, 'g) world, 'e gateway_error, invocation_result) prog" where
  "gateway_invoke rt li g c x b args timeout tokens cost w =
     (if \<not> active c x w then (Inl GatewayInactive, w)
      else
        let corr = rx_correlation_id x; md = plain_metadata x (wo_run w) in
        case resolve (li_mac li) (li_float li) (gc_authority g) b (wo_bindings w) of
          (Inl code, s) \<Rightarrow> (Inr (InvocationBindingFailure corr (failure_value code) md), w\<lparr>wo_bindings := s\<rparr>)
        | (Inr _, s) \<Rightarrow>
            let w1 = w\<lparr>wo_bindings := s\<rparr> in
            if (bd_agent_id b, bd_capability_id b) \<in> set (rx_path x)
            then (Inr (InvocationDelegationFailure corr (failure_value CYCLE_DETECTED) (rx_path x) md), w1)
            else (case context_budget x (wo_run w1) of (bud, u) \<Rightarrow>
              let w2 = w1\<lparr>wo_run := u\<rparr> in
              if rb_depth bud < 1 then (Inr (InvocationDelegationFailure corr (failure_value DEPTH_EXCEEDED) (rx_path x) md), w2)
              else invoke_resolved rt g x b args timeout tokens cost w2))"

section \<open>An invocation needs live authority\<close>

text \<open>
  What must hold of the world for a binding to be dispatched to an agent: the context is active, the
  binding is well formed, of this runtime, signed and not expired, its registration is the
  current one, active and healthy, offers the capability with the schema of the binding, and the caller is authorized.
\<close>

definition live_authority ::
  "library \<Rightarrow> gateway_config \<Rightarrow> nat \<Rightarrow> run_context \<Rightarrow> capability_binding \<Rightarrow> nat \<Rightarrow> ('s, 'g) world \<Rightarrow> bool" where
  "live_authority li g c x b agent w \<longleftrightarrow> active c x w
     \<and> well_formed b \<and> bd_runtime_id b = au_runtime_id (gc_authority g)
     \<and> bd_signature b = binding_mac (li_mac li) (li_float li) (gc_authority g) b
     \<and> readings (bs_clock (wo_bindings w)) (reads (bs_clock (wo_bindings w))) < fin_val (bd_expires_at b)
     \<and> (\<exists>e st. dget (bs_store (wo_bindings w)) (bd_nonce b) = Some (StoredBinding e st))
     \<and> (\<exists>r d. dget (rg_registrations (wo_registry w)) (bd_agent_id b) = Some r \<and> re_agent r = agent
          \<and> re_generation r = bd_generation b \<and> re_lifecycle r = ACTIVE \<and> re_healthy r
          \<and> d \<in> set (ad_capabilities (re_descriptor r)) \<and> cd_capability_id d = bd_capability_id b
          \<and> cd_schema_digest d = bd_schema_digest b \<and> authorized (gc_policy g) x d)
     \<and> (bd_agent_id b, bd_capability_id b) \<notin> set (rx_path x)
     \<and> int (length (rx_path x)) < bu_max_depth (ru_budget (wo_run w))"

text \<open>\<open>undispatched\<close>: nothing was invoked, the answer is not a success, and only clocks and the binding store moved.\<close>

definition undispatched :: "('s, 'g) world \<Rightarrow> ('e gateway_error + invocation_result) \<times> ('s, 'g) world \<Rightarrow> bool" where
  "undispatched w out \<longleftrightarrow> wo_registry (snd out) = wo_registry w \<and> wo_ext (snd out) = wo_ext w
     \<and> ru_budget (wo_run (snd out)) = ru_budget (wo_run w)
     \<and> (\<forall>cid v u m. fst out \<noteq> Inr (InvocationSuccess cid v u m))"

text \<open>
  \<open>dispatched\<close>: the budget of one call was reserved and \<open>Runtime.invoke\<close> was called once, with the rest of the
  world as it was; its result is returned, up to the metadata.
\<close>

definition dispatched ::
  "('s, 'g, 'e) runtime_invoke \<Rightarrow> run_context \<Rightarrow> capability_binding \<Rightarrow> pyval \<Rightarrow> time option \<Rightarrow> int \<Rightarrow> pyfloat \<Rightarrow> nat
   \<Rightarrow> ('s, 'g) world \<Rightarrow> ('e gateway_error + invocation_result) \<times> ('s, 'g) world \<Rightarrow> bool" where
  "dispatched rt x b args timeout tokens cost agent w out \<longleftrightarrow>
     (\<exists>bud w1. reserve 1 tokens cost (ru_budget (wo_run w)) = (Inr True, bud) \<and> ru_budget (wo_run w1) = bud
        \<and> wo_registry w1 = wo_registry w \<and> wo_ext w1 = wo_ext w \<and> ru_calls (wo_run w1) = ru_calls (wo_run w)
        \<and> snd out = snd (rt agent (bd_capability_id b) args timeout (rx_correlation_id x) w1)
        \<and> map_sum id (replace_metadata None) (fst out)
          = map_sum id (replace_metadata None) (fst (rt agent (bd_capability_id b) args timeout (rx_correlation_id x) w1)))"

lemma replace_metadata_twice [simp]: "replace_metadata m (replace_metadata m' r) = replace_metadata m r"
  by (cases r) simp_all

lemma undispatchedI:
  "wo_registry w' = wo_registry w \<Longrightarrow> wo_ext w' = wo_ext w \<Longrightarrow> ru_budget (wo_run w') = ru_budget (wo_run w) \<Longrightarrow>
   (\<And>cid v u m. r \<noteq> Inr (InvocationSuccess cid v u m)) \<Longrightarrow> undispatched w (r, w')"
  by (simp add: undispatched_def)

lemma reserve_and_dispatch_cases:
  "undispatched w (reserve_and_dispatch rt x agent (bd_capability_id b) args timeout tokens cost md w)
   \<or> dispatched rt x b args timeout tokens cost agent w
        (reserve_and_dispatch rt x agent (bd_capability_id b) args timeout tokens cost md w)"
proof -
  obtain r bud where r: "reserve 1 tokens cost (ru_budget (wo_run w)) = (r, bud)" by fastforce
  show ?thesis
  proof (cases "r = Inr True")
    case True
    define w1 where "w1 = w\<lparr>wo_run := (wo_run w)\<lparr>ru_budget := bud\<rparr>\<rparr>"
    have "snd (reserve_and_dispatch rt x agent (bd_capability_id b) args timeout tokens cost md w)
        = snd (rt agent (bd_capability_id b) args timeout (rx_correlation_id x) w1)
      \<and> map_sum id (replace_metadata None) (fst (reserve_and_dispatch rt x agent (bd_capability_id b) args timeout tokens cost md w))
        = map_sum id (replace_metadata None) (fst (rt agent (bd_capability_id b) args timeout (rx_correlation_id x) w1))"
      using r True by (simp add: reserve_and_dispatch_def Let_def w1_def split: prod.splits sum.splits option.splits)
    then have "dispatched rt x b args timeout tokens cost agent w
        (reserve_and_dispatch rt x agent (bd_capability_id b) args timeout tokens cost md w)"
      unfolding dispatched_def using r True by (intro exI[of _ bud] exI[of _ w1]) (simp add: w1_def)
    then show ?thesis ..
  next
    case False
    with r show ?thesis by (cases r) (simp_all add: reserve_and_dispatch_def Let_def undispatched_def)
  qed
qed

text \<open>Moving only the clocks of the run state or the binding store does not matter for either.\<close>

lemma undispatched_from:
  assumes "undispatched w1 out" and "wo_registry w1 = wo_registry w" and "wo_ext w1 = wo_ext w"
    and "ru_budget (wo_run w1) = ru_budget (wo_run w)"
  shows "undispatched w out"
  using assms by (simp add: undispatched_def)

lemma dispatched_from:
  assumes "dispatched rt x b args timeout tokens cost agent w1 out" and "wo_registry w1 = wo_registry w" and "wo_ext w1 = wo_ext w"
    and "ru_budget (wo_run w1) = ru_budget (wo_run w)" and "ru_calls (wo_run w1) = ru_calls (wo_run w)"
  shows "dispatched rt x b args timeout tokens cost agent w out"
  using assms by (simp add: dispatched_def)

text \<open>The checks against the registry and the authority of the caller.\<close>

definition current_target :: "gateway_config \<Rightarrow> run_context \<Rightarrow> capability_binding \<Rightarrow> nat \<Rightarrow> registry \<Rightarrow> bool" where
  "current_target g x b agent s \<longleftrightarrow> (\<exists>r d. dget (rg_registrations s) (bd_agent_id b) = Some r \<and> re_agent r = agent
     \<and> re_generation r = bd_generation b \<and> re_lifecycle r = ACTIVE \<and> re_healthy r
     \<and> d \<in> set (ad_capabilities (re_descriptor r)) \<and> cd_capability_id d = bd_capability_id b
     \<and> cd_schema_digest d = bd_schema_digest b \<and> authorized (gc_policy g) x d)"

lemma invoke_resolved_split:
  obtains (stopped) out where "\<And>rt :: ('s, 'g, 'e) runtime_invoke. invoke_resolved rt g x b args timeout tokens cost w = out" "undispatched w out"
  | (admitted) agent w2 md where
      "\<And>rt :: ('s, 'g, 'e) runtime_invoke. invoke_resolved rt g x b args timeout tokens cost w
         = reserve_and_dispatch rt x agent (bd_capability_id b) args timeout tokens cost md w2"
      "current_target g x b agent (wo_registry w)" "wo_registry w2 = wo_registry w" "wo_ext w2 = wo_ext w"
      "ru_budget (wo_run w2) = ru_budget (wo_run w)" "ru_calls (wo_run w2) = ru_calls (wo_run w)"
proof -
  note stop = stopped[of "invoke_resolved undefined g x b args timeout tokens cost w"]
  show thesis
  proof (cases "dget (rg_registrations (wo_registry w)) (bd_agent_id b)")
    case None
    then show thesis by (intro stop) (simp_all add: invoke_resolved_def accept_binding_def Let_def undispatched_def)
  next
    case (Some r)
    let ?md = "plain_metadata x (wo_run w)"
    show thesis
    proof (cases "re_generation r = bd_generation b \<and> re_lifecycle r = ACTIVE \<and> re_healthy r")
      case False
      with Some show thesis by (intro stop) (auto simp: invoke_resolved_def accept_binding_def Let_def undispatched_def)
    next
      case ok: True
      show thesis
      proof (cases "List.find (\<lambda>d. cd_capability_id d = bd_capability_id b) (ad_capabilities (re_descriptor r))")
        case None
        with Some ok show thesis by (intro stop) (simp_all add: invoke_resolved_def accept_binding_def Let_def undispatched_def)
      next
        case d: (Some d)
        then have mem: "d \<in> set (ad_capabilities (re_descriptor r))" "cd_capability_id d = bd_capability_id b"
          by (auto simp: find_Some_iff)
        obtain verdict u where p: "permits (gc_policy g) x False d (wo_run w) = (verdict, u)" by fastforce
        show thesis
        proof (cases "cd_schema_digest d = bd_schema_digest b \<and> verdict = Inr True")
          case False
          with Some ok d p permits_fields(1)[OF p] show thesis
            by (intro stop; cases verdict) (auto simp: invoke_resolved_def accept_binding_def Let_def undispatched_def)
        next
          case True
          then have auth: "authorized (gc_policy g) x d" using permits_authorized p by blast
          obtain t u2 where t: "context_remaining_timeout x u = (t, u2)" by fastforce
          note u2 = context_remaining_fields[OF t] and u = permits_fields[OF p]
          show thesis
          proof (cases t)
            case (Inl e)
            with Some ok d p True t u2 u show thesis
              by (intro stop) (simp_all add: invoke_resolved_def accept_binding_def Let_def undispatched_def)
          next
            case (Inr left)
            have "current_target g x b (re_agent r) (wo_registry w)"
              unfolding current_target_def using Some ok mem True auth by blast
            with Some ok d p True t Inr u u2 show thesis
              by (intro admitted[of "re_agent r" ?md "w\<lparr>wo_run := u2\<rparr>"]) (simp_all add: invoke_resolved_def accept_binding_def Let_def)
          qed
        qed
      qed
    qed
  qed
qed

lemma resolve_Inr:
  assumes "resolve mac fr au b s = (Inr st, s')"
  shows "fst (validate mac fr au b s) = Inr () \<and> (\<exists>e. dget (bs_store s) (bd_nonce b) = Some (StoredBinding e st))"
proof -
  obtain s1 where v: "validate mac fr au b s = (Inr (), s1)" and st: "stored_state b s1 = (Inr st, s')"
    using assms by (auto simp: resolve_def bindS_def split: prod.splits sum.splits)
  have "bs_store s1 = bs_store s" using validate_Inr[OF v] by (simp add: read_clock_def tick_def)
  with st v show ?thesis
    by (auto simp: stored_state_def split: option.splits stored.splits prod.splits if_splits)
qed

lemma gateway_invoke_cases:
  obtains (early) out where "\<And>rt :: ('s, 'g, 'e) runtime_invoke. gateway_invoke rt li g c x b args timeout tokens cost w = out" "undispatched w out"
  | (resolved) w2 st s where
      "\<And>rt :: ('s, 'g, 'e) runtime_invoke. gateway_invoke rt li g c x b args timeout tokens cost w = invoke_resolved rt g x b args timeout tokens cost w2"
      "wo_registry w2 = wo_registry w" "wo_ext w2 = wo_ext w" "ru_budget (wo_run w2) = ru_budget (wo_run w)"
      "ru_calls (wo_run w2) = ru_calls (wo_run w)" "active c x w"
      "resolve (li_mac li) (li_float li) (gc_authority g) b (wo_bindings w) = (Inr st, s)"
      "(bd_agent_id b, bd_capability_id b) \<notin> set (rx_path x)" "int (length (rx_path x)) < bu_max_depth (ru_budget (wo_run w))"
proof (cases "active c x w")
  case False
  show ?thesis
    by (rule early[of "(Inl GatewayInactive, w)"]) (simp_all add: False gateway_invoke_def undispatched_def)
next
  case act: True
  obtain r s where r: "resolve (li_mac li) (li_float li) (gc_authority g) b (wo_bindings w) = (r, s)" by fastforce
  show ?thesis
  proof (cases r)
    case (Inl code)
    show ?thesis
      by (rule early[of "(Inr (InvocationBindingFailure (rx_correlation_id x) (failure_value code) (plain_metadata x (wo_run w))), w\<lparr>wo_bindings := s\<rparr>)"])
        (simp_all add: act r Inl gateway_invoke_def Let_def undispatched_def)
  next
    case (Inr st)
    let ?w1 = "w\<lparr>wo_bindings := s\<rparr>"
    obtain bud u where bud: "context_budget x (wo_run w) = (bud, u)" by fastforce
    note u = context_budget_fields[OF bud]
    let ?fail = "\<lambda>code w'. (Inr (InvocationDelegationFailure (rx_correlation_id x) (failure_value code) (rx_path x) (plain_metadata x (wo_run w))), w')"
    consider "(bd_agent_id b, bd_capability_id b) \<in> set (rx_path x)"
      | "(bd_agent_id b, bd_capability_id b) \<notin> set (rx_path x)" "rb_depth bud < 1"
      | "(bd_agent_id b, bd_capability_id b) \<notin> set (rx_path x)" "\<not> rb_depth bud < 1" by blast
    then show ?thesis
    proof cases
      case 1
      show ?thesis
        by (rule early[of "?fail CYCLE_DETECTED ?w1"]) (simp_all add: 1 act r Inr gateway_invoke_def Let_def undispatched_def)
    next
      case 2
      show ?thesis
        by (rule early[of "?fail DEPTH_EXCEEDED (?w1\<lparr>wo_run := u\<rparr>)"])
          (simp_all add: 2 act r Inr bud u(1-5) gateway_invoke_def Let_def undispatched_def)
    next
      case 3
      have depth: "int (length (rx_path x)) < bu_max_depth (ru_budget (wo_run w))" using 3(2) u(7) by auto
      show ?thesis
        by (rule resolved[of "?w1\<lparr>wo_run := u\<rparr>", OF _ _ _ _ _ act r[unfolded Inr] 3(1) depth])
          (simp_all add: 3 act r Inr bud u(1-5) gateway_invoke_def Let_def)
    qed
  qed
qed

text \<open>An invocation is refused, the same for every behaviour of the runtime, or it comes down to the last part under live authority.\<close>

lemma gateway_invoke_split:
  obtains (stopped) out where "\<And>rt :: ('s, 'g, 'e) runtime_invoke. gateway_invoke rt li g c x b args timeout tokens cost w = out" "undispatched w out"
  | (live) agent w2 md where
      "\<And>rt :: ('s, 'g, 'e) runtime_invoke. gateway_invoke rt li g c x b args timeout tokens cost w
         = reserve_and_dispatch rt x agent (bd_capability_id b) args timeout tokens cost md w2"
      "live_authority li g c x b agent w" "wo_registry w2 = wo_registry w" "wo_ext w2 = wo_ext w"
      "ru_budget (wo_run w2) = ru_budget (wo_run w)" "ru_calls (wo_run w2) = ru_calls (wo_run w)"
proof (cases rule: gateway_invoke_cases[where 'e = 'e, of li g c x b args timeout tokens cost w])
  case (early out)
  then show ?thesis by (rule stopped)
next
  case (resolved w2 st s)
  have "fst (validate (li_mac li) (li_float li) (gc_authority g) b (wo_bindings w)) = Inr ()"
    using resolve_Inr[OF resolved(7)] by blast
  then obtain s1 where v: "validate (li_mac li) (li_float li) (gc_authority g) b (wo_bindings w) = (Inr (), s1)"
    by (cases "validate (li_mac li) (li_float li) (gc_authority g) b (wo_bindings w)") simp
  show ?thesis
  proof (cases rule: invoke_resolved_split[where 'e = 'e, of g x b args timeout tokens cost w2])
    case (stopped out)
    with resolved show ?thesis by (intro that(1)[of out]) (auto intro: undispatched_from)
  next
    case (admitted agent w3 md)
    have "current_target g x b agent (wo_registry w)" using admitted(2) resolved(2) by simp
    then have "live_authority li g c x b agent w"
      unfolding live_authority_def current_target_def[symmetric]
      using resolved(6,8,9) validate_Inr[OF v] resolve_Inr[OF resolved(7)] by blast
    with admitted resolved show ?thesis by (intro that(2)[of agent md w3]) simp_all
  qed
qed

text \<open>An invocation that depends on what the runtime does has reserved one call and comes to the registered agent.\<close>

lemma gateway_invoke_differs:
  fixes rt :: "('s, 'g, 'e) runtime_invoke"
  assumes "gateway_invoke rt li g c x b args timeout tokens cost w \<noteq> gateway_invoke rt' li g c x b args timeout tokens cost w"
  shows "\<exists>agent bud w1. live_authority li g c x b agent w
     \<and> reserve 1 tokens cost (ru_budget (wo_run w)) = (Inr True, bud) \<and> ru_budget (wo_run w1) = bud
     \<and> wo_registry w1 = wo_registry w \<and> wo_ext w1 = wo_ext w
     \<and> rt agent (bd_capability_id b) args timeout (rx_correlation_id x) w1 \<noteq> rt' agent (bd_capability_id b) args timeout (rx_correlation_id x) w1"
proof (cases rule: gateway_invoke_split[where 'e = 'e, of li g c x b args timeout tokens cost w])
  case (stopped out)
  with assms show ?thesis by simp
next
  case (live agent w2 md)
  obtain r bud where r: "reserve 1 tokens cost (ru_budget (wo_run w)) = (r, bud)" by fastforce
  let ?w1 = "w2\<lparr>wo_run := (wo_run w2)\<lparr>ru_budget := bud\<rparr>\<rparr>"
  have "r = Inr True \<and> rt agent (bd_capability_id b) args timeout (rx_correlation_id x) ?w1
      \<noteq> rt' agent (bd_capability_id b) args timeout (rx_correlation_id x) ?w1"
    using assms live(1,5) r by (auto simp: reserve_and_dispatch_def Let_def split: sum.splits if_splits)
  with live r show ?thesis by (intro exI[of _ agent] exI[of _ bud] exI[of _ ?w1]) simp
qed

text \<open>
  C24. Only live authority is dispatched.  Whatever a caller passes as a binding, an invocation either
  invokes nothing, answers with something other than success and leaves the registry, the budget and
  the rest of the world alone; or the context is active, the binding is authentic, of this
  runtime, unexpired and known to the store, its registration is current, active and
  healthy with the same schema, the caller is authorized for it without a cycle and within
  the depth limit, one call has been reserved from the shared budget, and exactly this agent is invoked.
\<close>

theorem invoke_needs_live_authority:
  fixes rt :: "('s, 'g, 'e) runtime_invoke"
  shows "undispatched w (gateway_invoke rt li g c x b args timeout tokens cost w)
   \<or> (\<exists>agent. live_authority li g c x b agent w
        \<and> dispatched rt x b args timeout tokens cost agent w (gateway_invoke rt li g c x b args timeout tokens cost w))"
proof (cases rule: gateway_invoke_split[where 'e = 'e, of li g c x b args timeout tokens cost w])
  case (stopped out)
  then show ?thesis by simp
next
  case (live agent w2 md)
  with reserve_and_dispatch_cases[of w2 rt x agent b args timeout tokens cost md]
  show ?thesis by (auto intro: undispatched_from dispatched_from)
qed

text \<open>
  C26. A revoked binding is never dispatched.  Let the generation of a binding have been issued by
  a registry and no longer be that of the agent's registration, because the agent was
  replaced or removed.  After any further operations on the registry, registering the
  agent again included, invoking the binding through any gateway over this registry invokes nothing:
  the answer is the same for every behaviour of the runtime, and is not a success.
\<close>

theorem revoked_binding_not_dispatched:
  fixes rt :: "('s, 'g, 'e) runtime_invoke"
  assumes "\<not> valid_binding (bd_agent_id b) (bd_capability_id b) (bd_generation b) (bd_schema_digest b) s"
    and "bd_generation b \<le> rg_generation s" and "registry_reach digest fr info card_error s (wo_registry w)"
  shows "undispatched w (gateway_invoke rt li g c x b args timeout tokens cost w)
     \<and> gateway_invoke rt li g c x b args timeout tokens cost w = gateway_invoke rt' li g c x b args timeout tokens cost w"
proof -
  have gone: "generation_gone (bd_agent_id b) (bd_generation b) (wo_registry w)"
    using assms(1) gone_valid[OF assms(2)] gone_reach[OF assms(3)] by blast
  show ?thesis
  proof (cases rule: gateway_invoke_cases[where 'e = 'e, of li g c x b args timeout tokens cost w])
    case (early out)
    then show ?thesis by simp
  next
    case (resolved w2 st s)
    have stale: "invoke_resolved any g x b args timeout tokens cost w2
      = (Inr (InvocationStaleBinding (rx_correlation_id x) (bd_agent_id b) (bd_capability_id b) (plain_metadata x (wo_run w2))), w2)"
      for any :: "('s, 'g, 'e) runtime_invoke"
      using gone resolved(2)
      by (auto simp: invoke_resolved_def accept_binding_def generation_gone_def Let_def split: option.splits)
    show ?thesis unfolding resolved(1) stale using resolved(2-4) by (simp add: undispatched_def)
  qed
qed

section \<open>What is selected can be invoked\<close>

lemma select_selected:
  assumes "select li g c x q w = (Inr so, w1)" and "so_status so = SELECTED"
  obtains v ms denied unsupported wm dg b where
    "active c x w" "find_matches li g x q w = (Inr (v, ms, denied, unsupported), wm)" "dg \<in> set ms"
    "local_issue li g v dg wm = (b, w1)" "so_binding so = Some b" "so_descriptor so = Some (fst dg)"
proof -
  have act: "active c x w" using assms(1) by (auto simp: select_def split: if_splits)
  obtain r wm where r: "find_matches li g x q w = (r, wm)" by fastforce
  obtain v ms denied unsupported where m: "find_matches li g x q w = (Inr (v, ms, denied, unsupported), wm)"
    using assms act r by (cases r) (auto simp: select_def failed_selection_def)
  have pick: "so_binding so = Some (fst (local_issue li g v dg wm)) \<and> so_descriptor so = Some (fst dg) \<and> w1 = snd (local_issue li g v dg wm)"
    if "selected li g v unsupported dg wm = (so, w1)" for dg
    using that by (auto simp: selected_def split: prod.splits)
  have "\<exists>dg \<in> set ms. selected li g v unsupported dg wm = (so, w1)"
  proof (cases ms)
    case Nil
    with assms act m show ?thesis by (auto simp: select_def failed_selection_def split: if_splits)
  next
    case (Cons dg rest)
    show ?thesis
    proof (cases rest)
      case Nil
      with Cons assms act m show ?thesis by (auto simp: select_def split: prod.splits)
    next
      case (Cons dg' rest')
      with \<open>ms = dg # rest\<close> have ms: "ms = dg # dg' # rest'" by simp
      show ?thesis
      proof (cases "preferred_match g ms")
        case None
        with ms assms act m show ?thesis by (auto simp: select_def)
      next
        case (Some p)
        then have "p \<in> set ms" by (auto simp: preferred_match_def find_Some_iff split: list.splits option.splits)
        moreover have "selected li g v unsupported p wm = (so, w1)"
          using Some ms assms(1) act m by (auto simp: select_def split: prod.splits)
        ultimately show ?thesis by blast
      qed
    qed
  qed
  then obtain dg where "dg \<in> set ms" "selected li g v unsupported dg wm = (so, w1)" by blast
  with pick[of dg] act m show thesis by (intro that[of v ms denied unsupported wm dg "fst (local_issue li g v dg wm)"]) simp_all
qed

lemma offered_registration:
  assumes "ddistinct (rg_registrations s)" and "p \<in> set (offered_capabilities q (registry_snapshot_of s))"
  obtains n r where "dget (rg_registrations s) n = Some r" "fst p \<in> set (ad_capabilities (re_descriptor r))"
    "snd p = ad_generation (re_descriptor r)" "ad_lifecycle (re_descriptor r) = ACTIVE" "ad_healthy (re_descriptor r)"
proof -
  obtain a where a: "a \<in> set (rs_agents (registry_snapshot_of s))" "agent_eligible q a"
    and p: "fst p \<in> set (ad_capabilities a)" "snd p = ad_generation a"
    using assms(2) by (auto simp: offered_capabilities_def)
  obtain n r where r: "(n, r) \<in> set (rg_registrations s)" "a = re_descriptor r"
    using a(1) by (auto simp: registry_snapshot_of_def mk_registry_snapshot_def)
  with assms(1) have "dget (rg_registrations s) n = Some r" by (simp add: ddistinct_in_set)
  with a p r that show thesis by (simp add: agent_eligible_def)
qed

lemma find_unique:
  assumes "distinct (map f xs)" and "x \<in> set xs"
  shows "List.find (\<lambda>y. f y = f x) xs = Some x"
  using assms by (induction xs) (auto simp: image_iff)

text \<open>The registry accepts the binding of a capability of a current registration.\<close>

lemma accept_current:
  assumes "dget (rg_registrations s) n = Some r" and "distinct (map cd_capability_id (ad_capabilities (re_descriptor r)))"
    and "d \<in> set (ad_capabilities (re_descriptor r))"
  shows "accept_binding n (cd_capability_id d) (re_generation r) (cd_schema_digest d) s =
    \<lparr>ab_agent = Some (re_agent r), ab_descriptor = Some (re_descriptor r), ab_lifecycle = re_lifecycle r,
     ab_healthy = re_healthy r, ab_generation_valid = True, ab_schema_valid = True\<rparr>"
  using assms find_unique[OF assms(2,3)] by (simp add: accept_binding_def)

lemma permits_again:
  "authorized policy x d \<Longrightarrow> permits policy x False d u = (Inr True, u)"
  by (simp add: permits_def authorized_def)

lemma resolve_issued:
  assumes "issue mac fr au d v g st s = (b, s0)" and "mono (readings (bs_clock s))" and "au_ttl au = Finite ttl"
    and "readings (bs_clock s) (reads (bs_clock s) + 2) < fin_val (bd_expires_at b)"
    and "\<And>m. length (mac (au_secret au) m) = 64 \<and> list_all is_hex (mac (au_secret au) m)"
    and "list_all (\<lambda>x. x \<noteq> []) [cd_agent_id d, cd_capability_id d, cd_schema_digest d, au_runtime_id au, bs_nonces s (bs_next s)]"
    and "0 \<le> v" and "1 \<le> g" and "0 < ttl"
  shows "\<exists>s1. resolve mac fr au b s0 = (Inr st, s1)"
proof -
  let ?t = "readings (bs_clock s) (reads (bs_clock s))"
  note f = issue_fields[OF assms(1)] and st = issue_state[OF assms(1)]
  have e: "bd_expires_at b = Finite (?t + ttl)" using f assms(3) by simp
  have sig: "bd_signature b = binding_mac mac fr au b" using issue_signature[of mac fr au d v g st s] assms(1) by simp
  have "bd_signature b \<noteq> []" unfolding sig binding_mac_def using assms(5) by (metis list.size(3) zero_neq_numeral)
  then have w: "well_formed b" using assms(5-9) e by (simp add: well_formed_def f(1-7,9) e sig binding_mac_def)
  have later: "readings (bs_clock s) (Suc (Suc (reads (bs_clock s)))) < ?t + ttl" using assms(4) e by simp
  then have "readings (bs_clock s) (Suc (reads (bs_clock s))) < ?t + ttl" by (rule mono_before[OF assms(2)])
  with w later show ?thesis
    by (simp add: resolve_def bindS_def validate_def stored_state_def Bindings.read_clock_def tick_def st e f(6) sig)
qed

lemma reserve_dispatches:
  assumes "reserve 1 tokens cost (ru_budget (wo_run w)) = (Inr True, bud)"
  shows "dispatched rt x b args timeout tokens cost agent w
    (reserve_and_dispatch rt x agent (bd_capability_id b) args timeout tokens cost md w)"
proof -
  define w1 where "w1 = w\<lparr>wo_run := (wo_run w)\<lparr>ru_budget := bud\<rparr>\<rparr>"
  have "snd (reserve_and_dispatch rt x agent (bd_capability_id b) args timeout tokens cost md w)
      = snd (rt agent (bd_capability_id b) args timeout (rx_correlation_id x) w1)
    \<and> map_sum id (replace_metadata None) (fst (reserve_and_dispatch rt x agent (bd_capability_id b) args timeout tokens cost md w))
      = map_sum id (replace_metadata None) (fst (rt agent (bd_capability_id b) args timeout (rx_correlation_id x) w1))"
    using assms by (simp add: reserve_and_dispatch_def Let_def w1_def split: prod.splits sum.splits option.splits)
  then show ?thesis
    unfolding dispatched_def using assms by (intro exI[of _ bud] exI[of _ w1]) (simp add: w1_def)
qed

lemma invoke_resolved_current:
  assumes "accept_binding (bd_agent_id b) (bd_capability_id b) (bd_generation b) (bd_schema_digest b) (wo_registry w)
      = \<lparr>ab_agent = Some agent, ab_descriptor = Some ad, ab_lifecycle = ACTIVE, ab_healthy = True, ab_generation_valid = True, ab_schema_valid = True\<rparr>"
    and "List.find (\<lambda>d. cd_capability_id d = bd_capability_id b) (ad_capabilities ad) = Some d"
    and "authorized (gc_policy g) x d" and "rx_deadline x = None" and "reserve 1 tokens cost (ru_budget (wo_run w)) = (Inr True, bud)"
  shows "dispatched rt x b args timeout tokens cost agent w (invoke_resolved rt g x b args timeout tokens cost w)"
proof -
  have "invoke_resolved rt g x b args timeout tokens cost w
      = reserve_and_dispatch rt x agent (bd_capability_id b) args timeout tokens cost (plain_metadata x (wo_run w)) w"
    using assms(1-4) by (simp add: invoke_resolved_def Let_def permits_again context_remaining_timeout_def)
  then show ?thesis using reserve_dispatches[OF assms(5)] by simp
qed

lemma gateway_invoke_resolved:
  assumes "active c x w" and "resolve (li_mac li) (li_float li) (gc_authority g) b (wo_bindings w) = (Inr st, s)"
    and "(bd_agent_id b, bd_capability_id b) \<notin> set (rx_path x)" and "has_budget x (wo_run w)" and "rx_deadline x = None"
  shows "gateway_invoke rt li g c x b args timeout tokens cost w
    = invoke_resolved rt g x b args timeout tokens cost (w\<lparr>wo_bindings := s\<rparr>)"
proof -
  have "context_budget x (wo_run w) = (snapshot (ru_budget (wo_run w)) (int (length (rx_path x))) None, wo_run w)"
    using assms(5) by (simp add: context_budget_def context_remaining_timeout_def)
  with assms show ?thesis by (simp add: gateway_invoke_def Let_def has_budget_def snapshot_def)
qed

lemma active_cong:
  "ru_invocation (wo_run w) = ru_invocation (wo_run w') \<Longrightarrow> ru_current (wo_run w) = ru_current (wo_run w') \<Longrightarrow>
   active c x w = active c x w'"
  by (auto simp: active_def context_active_def split: sum.splits prod.splits if_splits)

text \<open>
  C25. What a caller selects it can invoke.  In a registry that was built by its operations, let a
  gateway select a binding.  When it is invoked next, before its expiry, without a
  deadline on the run and with a budget that covers the call, then the invocation is dispatched: to
  the agent that the registry holds under the name in the selected descriptor, and whose
  registration offers this descriptor.  No check of the invocation rejects what discovery admitted.
\<close>

theorem selected_is_dispatched:
  assumes "registry_reach digest fr info card_error (init_registry ds) (wo_registry w)"
    and "\<And>a. ddistinct (ai_capabilities (info a))"
    and "select li g c x q w = (Inr so, w1)" and "so_status so = SELECTED"
    and "so_descriptor so = Some d" and "so_binding so = Some b"
    and "mono (readings (bs_clock (wo_bindings w)))" and "au_ttl (gc_authority g) = Finite ttl" and "0 < ttl"
    and "readings (bs_clock (wo_bindings w)) (reads (bs_clock (wo_bindings w)) + 2) < fin_val (bd_expires_at b)"
    and "\<And>m. length (li_mac li (au_secret (gc_authority g)) m) = 64 \<and> list_all is_hex (li_mac li (au_secret (gc_authority g)) m)"
    and "list_all (\<lambda>t. t \<noteq> []) [cd_agent_id d, cd_capability_id d, cd_schema_digest d, au_runtime_id (gc_authority g),
        bs_nonces (wo_bindings w) (bs_next (wo_bindings w))]"
    and "rx_deadline x = None" and "reserve 1 tokens cost (ru_budget (wo_run w)) = (Inr True, bud)"
  shows "\<exists>r. dget (rg_registrations (wo_registry w)) (cd_agent_id d) = Some r \<and> d \<in> set (ad_capabilities (re_descriptor r))
     \<and> dispatched rt x b args timeout tokens cost (re_agent r) w1 (gateway_invoke rt li g c x b args timeout tokens cost w1)"
proof -
  let ?s = "wo_registry w"
  have wf: "registry_wf info ?s" using registry_reach_wf[OF assms(1) init_registry_wf] .
  have des: "described info ?s" by (rule described_reach[OF assms(2,1)])
  obtain v ms denied unsupported wm dg b' where act: "active c x w"
    and fm: "find_matches li g x q w = (Inr (v, ms, denied, unsupported), wm)" and dg: "dg \<in> set ms"
    and li: "local_issue li g v dg wm = (b', w1)" and so: "so_binding so = Some b'" "so_descriptor so = Some (fst dg)"
    by (rule select_selected[OF assms(3,4)])
  have d: "fst dg = d" "b' = b" using so assms(5,6) by simp_all
  obtain u where mc: "matching_candidates (li_float li) (gc_policy g) x q (registry_snapshot_of ?s) (wo_run w)
      = (Inr (v, ms, denied, unsupported), u)" and wm: "wm = w\<lparr>wo_run := u\<rparr>"
    using fm by (auto simp: find_matches_def split: prod.splits)
  note found = candidates_sound(2)[OF mc dg] and u = candidates_sound(3)[OF mc]
  have v: "v = rg_revision ?s" using candidates_sound(1)[OF mc] by (simp add: registry_snapshot_of_def mk_registry_snapshot_def)
  obtain n r where r: "dget (rg_registrations ?s) n = Some r" "fst dg \<in> set (ad_capabilities (re_descriptor r))"
    "snd dg = ad_generation (re_descriptor r)" "ad_lifecycle (re_descriptor r) = ACTIVE" "ad_healthy (re_descriptor r)"
    using offered_registration[of ?s dg q] found wf by (auto simp: registry_wf_def)
  have ok: "registration_ok info n r" using wf r(1) by (simp add: registry_wf_def)
  have caps: "distinct (map cd_capability_id (ad_capabilities (re_descriptor r)))" "cd_agent_id d = n" "1 \<le> re_generation r" "0 \<le> v"
    using des r(1,2) ok d v by (auto simp: described_def registration_ok_def)
  have gen: "snd dg = re_generation r" "re_lifecycle r = ACTIVE" "re_healthy r" using ok r by (simp_all add: registration_ok_def)
  obtain s0 where iss: "issue (li_mac li) (li_float li) (gc_authority g) d v (re_generation r) ''local'' (wo_bindings w) = (b, s0)"
    and w1: "w1 = wm\<lparr>wo_bindings := s0\<rparr>"
    using li d gen(1) wm by (auto simp: local_issue_def split: prod.splits)
  note f = issue_fields[OF iss]
  obtain s1 where res: "resolve (li_mac li) (li_float li) (gc_authority g) b s0 = (Inr ''local'', s1)"
    using resolve_issued[OF iss assms(7,8,10,11,12) caps(4,3) assms(9)] by blast
  have act1: "active c x w1" using act u active_cong[of w w1 c x] by (simp add: w1 wm)
  have eq: "gateway_invoke rt li g c x b args timeout tokens cost w1
      = invoke_resolved rt g x b args timeout tokens cost (w1\<lparr>wo_bindings := s1\<rparr>)"
    using found u res by (intro gateway_invoke_resolved[OF act1 _ _ _ assms(13)])
      (simp_all add: w1 wm f authorized_def has_budget_def d)
  have "dispatched rt x b args timeout tokens cost (re_agent r) (w1\<lparr>wo_bindings := s1\<rparr>)
      (invoke_resolved rt g x b args timeout tokens cost (w1\<lparr>wo_bindings := s1\<rparr>))"
  proof (rule invoke_resolved_current[OF _ _ _ assms(13)])
    show "accept_binding (bd_agent_id b) (bd_capability_id b) (bd_generation b) (bd_schema_digest b) (wo_registry (w1\<lparr>wo_bindings := s1\<rparr>))
      = \<lparr>ab_agent = Some (re_agent r), ab_descriptor = Some (re_descriptor r), ab_lifecycle = ACTIVE, ab_healthy = True,
         ab_generation_valid = True, ab_schema_valid = True\<rparr>"
      using accept_current[OF r(1) caps(1), of d] r(2) d gen caps(2) by (simp add: f w1 wm)
    show "List.find (\<lambda>y. cd_capability_id y = bd_capability_id b) (ad_capabilities (re_descriptor r)) = Some d"
      using find_unique[OF caps(1), of d] r(2) d by (simp add: f)
    show "authorized (gc_policy g) x d" using found d by simp
    show "reserve 1 tokens cost (ru_budget (wo_run (w1\<lparr>wo_bindings := s1\<rparr>))) = (Inr True, bud)"
      using assms(14) u by (simp add: w1 wm)
  qed
  then have "dispatched rt x b args timeout tokens cost (re_agent r) w1 (gateway_invoke rt li g c x b args timeout tokens cost w1)"
    unfolding eq by (rule dispatched_from) simp_all
  with r(1,2) d caps(2) show ?thesis by blast
qed

section \<open>A concrete gateway\<close>

definition sample_gateway :: gateway_config where
  "sample_gateway = \<lparr>gc_policy = None, gc_preferred = [], gc_authority = sample_authority, gc_max_results = 20, gc_max_bytes = 65536\<rparr>"

definition sample_library :: library where
  "sample_library = \<lparr>li_digest = (\<lambda>_. ''d''), li_float = sample_float_text, li_mac = sample_mac\<rparr>"

definition sample_world :: "(string, unit) world" where
  "sample_world = \<lparr>wo_registry = sample_registry,
     wo_bindings = \<lparr>bs_store = [], bs_clock = \<lparr>readings = of_nat, reads = 0\<rparr>, bs_nonces = (\<lambda>n. replicate (Suc n) CHR ''x''), bs_next = 0\<rparr>,
     wo_run = sample_run_state, wo_ext = ()\<rparr>"

definition sample_selection :: "(unit gateway_error + selection_outcome) \<times> (string, unit) world" where
  "sample_selection = select sample_library sample_gateway 0 sample_caller sample_query sample_world"

definition sample_binding :: capability_binding where
  "sample_binding = \<lparr>bd_agent_id = ''billing'', bd_capability_id = ''find'', bd_schema_digest = ''d'', bd_registry_revision = 1,
     bd_generation = 1, bd_runtime_id = ''runtime'', bd_issued_at = Finite 0, bd_expires_at = Finite 10, bd_nonce = ''x'',
     bd_signature = replicate 64 CHR ''a''\<rparr>"

lemma sample_registry_reach:
  "registry_reach (\<lambda>_. ''d'') (\<lambda>_. ''0'') sample_agents (\<lambda>_. None) (init_registry []) sample_registry"
  unfolding sample_registry_def by (rule sample_register_reach)

theorem revoked_binding_not_dispatched_witness:
  "undispatched (sample_world\<lparr>wo_registry := sample_register 0 (sample_register 3 sample_registry)\<rparr>)
     (gateway_invoke (\<lambda>_ _ _ _ _ w. (Inl (GatewayInactive :: unit gateway_error), w)) sample_library sample_gateway 0 sample_caller sample_binding (VDict []) None 0 (Finite 0)
        (sample_world\<lparr>wo_registry := sample_register 0 (sample_register 3 sample_registry)\<rparr>))"
proof -
  have gone: "\<not> valid_binding (bd_agent_id sample_binding) (bd_capability_id sample_binding) (bd_generation sample_binding)
      (bd_schema_digest sample_binding) (sample_register 3 sample_registry)"
    and g: "bd_generation sample_binding \<le> rg_generation (sample_register 3 sample_registry)" by code_simp+
  show ?thesis
    by (rule revoked_binding_not_dispatched[OF gone g, THEN conjunct1]) (simp, rule sample_register_reach)
qed

theorem selected_is_dispatched_witness:
  "\<exists>so w1 b r. sample_selection = (Inr so, w1) \<and> so_binding so = Some b
     \<and> dget (rg_registrations sample_registry) ''billing'' = Some r
     \<and> dispatched (\<lambda>_ _ _ _ _ w. (Inl (GatewayInactive :: unit gateway_error), w)) sample_caller b (VDict []) None 0 (Finite 0) (re_agent r) w1
         (gateway_invoke (\<lambda>_ _ _ _ _ w. (Inl (GatewayInactive :: unit gateway_error), w)) sample_library sample_gateway 0 sample_caller b (VDict []) None 0 (Finite 0) w1)"
proof -
  have "case fst sample_selection of Inl _ \<Rightarrow> False
     | Inr so \<Rightarrow> so_status so = SELECTED \<and> map_option cd_agent_id (so_descriptor so) = Some ''billing''
         \<and> map_option cd_capability_id (so_descriptor so) = Some ''find''
         \<and> map_option cd_schema_digest (so_descriptor so) = Some ''d'' \<and> map_option bd_expires_at (so_binding so) = Some (Finite 10)" by code_simp
  moreover obtain out w1 where r: "sample_selection = (out, w1)" by fastforce
  have "fst sample_selection = out" unfolding r by (rule fst_conv)
  ultimately obtain so d b where so: "out = Inr so" "so_status so = SELECTED" "so_descriptor so = Some d" "so_binding so = Some b"
    and d: "cd_agent_id d = ''billing''" "cd_capability_id d = ''find''" "cd_schema_digest d = ''d''" and b: "bd_expires_at b = Finite 10"
    by (auto split: sum.splits)
  have sel: "sample_selection = (Inr so, w1)" using r so(1) by simp
  have reach: "registry_reach (\<lambda>_. ''d'') (\<lambda>_. ''0'') sample_agents (\<lambda>_. None) (init_registry []) (wo_registry sample_world)"
    using sample_registry_reach by (simp add: sample_world_def)
  have caps: "ddistinct (ai_capabilities (sample_agents a))" for a by (simp add: sample_agents_def ddistinct_def)
  have bud: "reserve 1 0 (Finite 0) (ru_budget (wo_run sample_world)) = (Inr True, (ru_budget sample_run_state)\<lparr>bu_calls := 1\<rparr>)"
    by (simp add: reserve_def sample_world_def sample_run_state_def)
  have hex: "list_all is_hex (replicate 64 CHR ''a'')" by (simp add: list_all_iff is_hex_def)
  have mono: "mono (readings (bs_clock (wo_bindings sample_world)))" by (simp add: sample_world_def mono_def)
  have "\<exists>r. dget (rg_registrations (wo_registry sample_world)) (cd_agent_id d) = Some r \<and> d \<in> set (ad_capabilities (re_descriptor r))
     \<and> dispatched (\<lambda>_ _ _ _ _ w. (Inl (GatewayInactive :: unit gateway_error), w)) sample_caller b (VDict []) None 0 (Finite 0) (re_agent r) w1
         (gateway_invoke (\<lambda>_ _ _ _ _ w. (Inl (GatewayInactive :: unit gateway_error), w)) sample_library sample_gateway 0 sample_caller b (VDict []) None 0 (Finite 0) w1)"
    by (rule selected_is_dispatched[OF reach caps sel[unfolded sample_selection_def] so(2,3,4) mono _ _ _ _ _ _ bud, where ttl = 10])
      (use hex in \<open>simp_all add: sample_gateway_def sample_authority_def sample_world_def sample_library_def sample_mac_def
         sample_caller_def d b\<close>)
  with r so(1,4) d(1) show ?thesis by (auto simp: sample_world_def)
qed

end
