(* ===== verification/NestedInvocation.thy ===== *)
theory NestedInvocation
  imports Invocation LocalGateway
begin

text \<open>
  The local gateway over the invocation pipeline: \<open>LocalAgentGateway\<close> invokes \<open>Runtime.invoke\<close> in the run context it
  serves (\<open>core/gateway/_local.py\<close>), and the invoked capability runs in a child context with a gateway of its own.
  \<open>delegating_runtime\<close> is the contract that the gateway relies on.
\<close>

section \<open>The runtime behind the gateway\<close>

text \<open>
  The registry and the bindings belong to the runtime and are reached by capabilities as well, so they are part of the
  application state of the machine; the world of the gateway is another view of the machine.
\<close>

record 'a shared =
  sh_registry :: registry
  sh_bindings :: "string binding_state"
  sh_app :: 'a

type_synonym ('s, 'm, 'a) host = "('s, 'm, 'a shared) machine"

definition world_of :: "('s, 'm, 'a) host \<Rightarrow> (string, ('s, 'm, 'a) host) LocalGateway.world" where
  "world_of m = \<lparr>wo_registry = sh_registry (w_app (mc_world m)), wo_bindings = sh_bindings (w_app (mc_world m)),
     wo_run = mc_run m, wo_ext = m\<rparr>"

definition machine_of :: "(string, ('s, 'm, 'a) host) LocalGateway.world \<Rightarrow> ('s, 'm, 'a) host" where
  "machine_of w = (let m = wo_ext w; v = mc_world m in
     m\<lparr>mc_run := wo_run w, mc_world := v\<lparr>w_app := (w_app v)\<lparr>sh_registry := wo_registry w, sh_bindings := wo_bindings w\<rparr>\<rparr>\<rparr>)"

lemma machine_of_world_of [simp]: "machine_of (world_of m) = m"
  by (simp add: machine_of_def world_of_def Let_def)

text \<open>The call of \<open>Runtime.invoke\<close> with the identifier of the capability and the correlation identifier of the run.\<close>

definition gateway_request :: "string \<Rightarrow> pyval \<Rightarrow> time option \<Rightarrow> string \<Rightarrow> invoke_request" where
  "gateway_request cap args timeout corr =
     \<lparr>iq_capability = CapName cap, iq_arguments = args, iq_timeout = map_option (\<lambda>t. VFloat (Finite t)) timeout,
      iq_correlation = corr, iq_model = None, iq_run = None, iq_authorization = None, iq_approved = None, iq_allowed = None,
      iq_budget = None, iq_cancelled = False\<rparr>"

text \<open>The gateway is used while its own context is the active one of task \<open>c\<close>.\<close>

definition dispatch ::
  "('s, 'm, 'priv, 'key) runtime_env \<Rightarrow> (nat \<Rightarrow> ('s, 'm, 'a shared) agent_object) \<Rightarrow> nat \<Rightarrow> run_context
   \<Rightarrow> (string, ('s, 'm, 'a) host, invoke_error) runtime_invoke" where
  "dispatch env agents c x agent cap args timeout corr w =
     (case runtime_invoke_op env c (Some (x, True)) (agents agent) (gateway_request cap args timeout corr) (machine_of w) of
        (r, m) \<Rightarrow> (map_sum RuntimeRaised id r, world_of m))"

section \<open>The contract of a runtime that delegates\<close>

text \<open>
  \<open>run p t\<close> is \<open>Runtime.invoke\<close> in context \<open>p\<close> with \<open>t\<close> for the programs of the capabilities, and
  \<open>enters t t' agent cap x\<close> says that in context \<open>x\<close> the programs \<open>t\<close> and \<open>t'\<close> of the capability are told apart.
  The law: an invocation that depends on the program runs it in a child context of the same identity,
  whose path has one frame more.
\<close>

definition child_of :: "run_context \<Rightarrow> string \<Rightarrow> string \<Rightarrow> run_context \<Rightarrow> bool" where
  "child_of p agent cap x \<longleftrightarrow> attenuated p x \<and> rx_path x = rx_path p @ [(agent, cap)] \<and> rx_authorization x = rx_authorization p"

locale delegating_runtime =
  fixes run :: "run_context \<Rightarrow> 'p \<Rightarrow> (string, 'g, 'e) runtime_invoke"
    and enters :: "'p \<Rightarrow> 'p \<Rightarrow> nat \<Rightarrow> string \<Rightarrow> run_context \<Rightarrow> bool"
    and agent_name :: "nat \<Rightarrow> string"
    and published :: "nat \<Rightarrow> string set"
  assumes runs_in_child: "cap \<in> published agent \<Longrightarrow>
      run p t agent cap args timeout corr w \<noteq> run p t' agent cap args timeout corr w \<Longrightarrow>
      \<exists>x. enters t t' agent cap x \<and> child_of p (agent_name agent) cap x"
begin

text \<open>Every registration is of an agent of that name which publishes what its descriptor offers.\<close>

definition catalogued :: "registry \<Rightarrow> bool" where
  "catalogued s \<longleftrightarrow> (\<forall>n r. dget (rg_registrations s) n = Some r \<longrightarrow> agent_name (re_agent r) = n
     \<and> (\<forall>d \<in> set (ad_capabilities (re_descriptor r)). cd_capability_id d \<in> published (re_agent r)))"

lemma governed:
  assumes "gateway_invoke (run p t) li g c p b args timeout tokens cost w \<noteq> gateway_invoke (run p t') li g c p b args timeout tokens cost w"
    and "catalogued (wo_registry w)"
  shows "\<exists>agent x. live_authority li g c p b agent w \<and> enters t t' agent (bd_capability_id b) x
     \<and> child_of p (bd_agent_id b) (bd_capability_id b) x \<and> (bd_agent_id b, bd_capability_id b) \<notin> set (rx_path p)
     \<and> int (length (rx_path x)) \<le> bu_max_depth (ru_budget (wo_run w))"
proof -
  from gateway_invoke_differs[OF assms(1)] obtain agent w1 where live: "live_authority li g c p b agent w"
    and d: "run p t agent (bd_capability_id b) args timeout (rx_correlation_id p) w1 \<noteq> run p t' agent (bd_capability_id b) args timeout (rx_correlation_id p) w1"
    by blast
  obtain r e where r: "dget (rg_registrations (wo_registry w)) (bd_agent_id b) = Some r" "re_agent r = agent"
    "e \<in> set (ad_capabilities (re_descriptor r))" "cd_capability_id e = bd_capability_id b"
    using live unfolding live_authority_def by blast
  have "bd_capability_id b \<in> published agent" "agent_name agent = bd_agent_id b"
    using r assms(2) unfolding catalogued_def by metis+
  with runs_in_child[OF _ d] live show ?thesis by (fastforce simp: live_authority_def child_of_def)
qed

end

section \<open>The invocation pipeline keeps the contract\<close>

text \<open>In context \<open>x\<close> the guardrails of the capability are met and the two programs are told apart.\<close>

definition runs_guarded ::
  "(nat \<Rightarrow> ('s, 'm, 'a) agent_object) \<Rightarrow> ('s, 'm, 'a) body \<Rightarrow> ('s, 'm, 'a) body \<Rightarrow> nat \<Rightarrow> string \<Rightarrow> run_context \<Rightarrow> bool" where
  "runs_guarded agents t t' agent cap x \<longleftrightarrow> (\<exists>reg args m. dget (ag_capabilities (agents agent)) cap = Some reg
     \<and> guardrails_met (cb_guardrails reg) (rx_authorization x) args \<and> t args x m \<noteq> t' args x m)"

lemma resolve_published:
  "cap \<in> fst ` set (ag_capabilities ag) \<Longrightarrow>
   \<exists>reg. dget (ag_capabilities ag) cap = Some reg \<and> resolve_capability digest ag (CapName cap) = Some (cap, reg)"
  by (cases "dget (ag_capabilities ag) cap") (auto simp: resolve_capability_def dget_None_keys)

lemma dispatch_in_child:
  assumes "cap \<in> fst ` set (ag_capabilities (agents agent))"
    and "dispatch env (\<lambda>a. retarget t (agents a)) c p agent cap args timeout corr w
      \<noteq> dispatch env (\<lambda>a. retarget t' (agents a)) c p agent cap args timeout corr w"
  shows "\<exists>x. runs_guarded agents t t' agent cap x \<and> child_of p (ag_name (agents agent)) cap x"
proof -
  let ?q = "gateway_request cap args timeout corr"
  have "runtime_invoke_op env c (Some (p, True)) (retarget t (agents agent)) ?q (machine_of w)
      \<noteq> runtime_invoke_op env c (Some (p, True)) (retarget t' (agents agent)) ?q (machine_of w)"
    using assms(2) by (auto simp: dispatch_def)
  from runtime_differs[OF this] obtain k reg args' x m1 authorization where
    res: "resolve_capability (en_digest env) (agents agent) (CapName cap) = Some (k, reg)" and d: "t args' x m1 \<noteq> t' args' x m1"
    and del: "delegate_context (rx_authorization p) None = Inr authorization"
    and g: "guardrails_met (cb_guardrails reg) authorization args'"
    and x: "invocation_context (Some p) (ag_name (agents agent)) k authorization x"
    by (auto simp: gateway_request_def own_parent_def)
  have same: "k = cap" "dget (ag_capabilities (agents agent)) cap = Some reg"
    using resolve_published[OF assms(1), of "en_digest env"] res by auto
  have auth: "authorization = rx_authorization p" using del by (cases "rx_authorization p") auto
  from x same auth have "child_of p (ag_name (agents agent)) cap x" "rx_authorization x = authorization"
    by (auto simp: invocation_context_def child_of_def)
  with d g same(2) show ?thesis unfolding runs_guarded_def by metis
qed

interpretation pipeline: delegating_runtime
  "\<lambda>p t. dispatch env (\<lambda>a. retarget t (agents a)) c p"
  "runs_guarded agents" "\<lambda>a. ag_name (agents a)" "\<lambda>a. fst ` set (ag_capabilities (agents a))"
  for env agents c
  by unfold_locales (rule dispatch_in_child)


section \<open>Delegation through the gateway\<close>

text \<open>The agent objects are those that the registry describes.\<close>

definition same_agents :: "agents \<Rightarrow> (nat \<Rightarrow> ('s, 'm, 'a) agent_object) \<Rightarrow> bool" where
  "same_agents info agents \<longleftrightarrow> (\<forall>a. ag_name (agents a) = ai_name (info a)
     \<and> fst ` set (ag_capabilities (agents a)) = fst ` set (ai_capabilities (info a)))"

lemma registry_catalogued:
  fixes agents :: "nat \<Rightarrow> ('s, 'm, 'a shared) agent_object"
  assumes "registry_reach digest fr info card_error (init_registry ds) s" and "\<And>a. ddistinct (ai_capabilities (info a))"
    and "same_agents info agents"
  shows "delegating_runtime.catalogued (\<lambda>a. ag_name (agents a)) (\<lambda>a. fst ` set (ag_capabilities (agents a))) s"
proof -
  have wf: "registry_wf info s" by (rule registry_reach_wf[OF assms(1) init_registry_wf])
  have des: "described info s" by (rule described_reach[OF assms(2,1)])
  show ?thesis
    unfolding pipeline.catalogued_def
  proof (intro allI impI conjI ballI)
    fix n r assume r: "dget (rg_registrations s) n = Some r"
    then have "ai_name (info (re_agent r)) = n" using wf by (simp add: registry_wf_def registration_ok_def)
    then show "ag_name (agents (re_agent r)) = n" using assms(3) by (simp add: same_agents_def)
    fix d assume "d \<in> set (ad_capabilities (re_descriptor r))"
    then have "provides info r (cd_capability_id d)" using des r by (simp add: described_def)
    then show "cd_capability_id d \<in> fst ` set (ag_capabilities (agents (re_agent r)))"
      using assms(3) by (simp add: provides_def same_agents_def)
  qed
qed

definition governed_call ::
  "library \<Rightarrow> gateway_config \<Rightarrow> nat \<Rightarrow> (nat \<Rightarrow> ('s, 'm, 'a shared) agent_object) \<Rightarrow> ('s, 'm, 'a shared) body \<Rightarrow> ('s, 'm, 'a shared) body
   \<Rightarrow> run_context \<Rightarrow> capability_binding \<Rightarrow> (string, ('s, 'm, 'a) host) LocalGateway.world \<Rightarrow> run_context \<Rightarrow> bool" where
  "governed_call li g c agents t t' p b w x \<longleftrightarrow> (\<exists>agent. live_authority li g c p b agent w
     \<and> runs_guarded agents t t' agent (bd_capability_id b) x)
     \<and> child_of p (bd_agent_id b) (bd_capability_id b) x \<and> (bd_agent_id b, bd_capability_id b) \<notin> set (rx_path p)
     \<and> int (length (rx_path x)) \<le> bu_max_depth (ru_budget (wo_run w))"

lemma governed_calls:
  assumes "registry_reach digest fr info card_error (init_registry ds) (wo_registry w)" and "\<And>a. ddistinct (ai_capabilities (info a))"
    and "same_agents info agents"
    and "gateway_invoke (dispatch env (\<lambda>a. retarget t (agents a)) c p) li g c p b args timeout tokens cost w
      \<noteq> gateway_invoke (dispatch env (\<lambda>a. retarget t' (agents a)) c p) li g c p b args timeout tokens cost w"
  shows "\<exists>x. governed_call li g c agents t t' p b w x"
  using pipeline.governed[OF assms(4) registry_catalogued[OF assms(1-3)]] unfolding governed_call_def by blast

text \<open>
  C2. Delegation end to end.  Let an agent invoke a binding through the gateway of its run context, in a registry that was
  built by its operations.  If what the capabilities of the registered agents do makes any difference, then the binding has
  live authority, and the capability it names runs for the caller's identity, which meets all its guardrails, in
  a child context whose deadline and allowed capabilities are within the caller's and whose path is the caller's path and this
  call, which is not yet on it, within the depth limit of the shared budget.
\<close>

theorem delegation_end_to_end:
  assumes "registry_reach digest fr info card_error (init_registry ds) (wo_registry w)" and "\<And>a. ddistinct (ai_capabilities (info a))"
    and "same_agents info agents"
    and "gateway_invoke (dispatch env (\<lambda>a. retarget t (agents a)) c p) li g c p b args timeout tokens cost w
      \<noteq> gateway_invoke (dispatch env (\<lambda>a. retarget t' (agents a)) c p) li g c p b args timeout tokens cost w"
  shows "\<exists>agent reg arguments x m. live_authority li g c p b agent w
     \<and> dget (ag_capabilities (agents agent)) (bd_capability_id b) = Some reg \<and> t arguments x m \<noteq> t' arguments x m
     \<and> guardrails_met (cb_guardrails reg) (rx_authorization p) arguments \<and> rx_authorization x = rx_authorization p \<and> attenuated p x
     \<and> rx_path x = rx_path p @ [(bd_agent_id b, bd_capability_id b)] \<and> (bd_agent_id b, bd_capability_id b) \<notin> set (rx_path p)
     \<and> int (length (rx_path x)) \<le> bu_max_depth (ru_budget (wo_run w))"
  using governed_calls[OF assms] unfolding governed_call_def runs_guarded_def child_of_def by metis

section \<open>Nested delegation\<close>

text \<open>
  \<open>delegated \<dots> d p x\<close>: by delegations through gateways, each in the context of the one before, a capability comes to run in
  context \<open>x\<close> below \<open>p\<close>; the two programs of a step differ in context \<open>x\<close> only, so that the invocation depends on the
  program in that very context.  The budget is shared, with depth limit \<open>d\<close>; everything else may change between the steps.
\<close>

inductive delegated ::
  "agents \<Rightarrow> (nat \<Rightarrow> ('s, 'm, 'a shared) agent_object) \<Rightarrow> ('s, 'm, 'priv, 'key) runtime_env \<Rightarrow> library \<Rightarrow> int
   \<Rightarrow> run_context \<Rightarrow> run_context \<Rightarrow> bool"
  for info agents env li d p where
  here: "delegated info agents env li d p p"
| call: "delegated info agents env li d p q \<Longrightarrow>
     registry_reach digest fr info card_error (init_registry ds) (wo_registry w) \<Longrightarrow> bu_max_depth (ru_budget (wo_run w)) = d \<Longrightarrow>
     (\<And>y a m. y \<noteq> x \<Longrightarrow> t a y m = t' a y m) \<Longrightarrow>
     gateway_invoke (dispatch env (\<lambda>a. retarget t (agents a)) c q) li g c q b args timeout tokens cost w
       \<noteq> gateway_invoke (dispatch env (\<lambda>a. retarget t' (agents a)) c q) li g c q b args timeout tokens cost w \<Longrightarrow>
     delegated info agents env li d p x"

definition nests :: "int \<Rightarrow> run_context \<Rightarrow> run_context \<Rightarrow> bool" where
  "nests d p x \<longleftrightarrow> (\<exists>f. f \<notin> set (rx_path p) \<and> child_of p (fst f) (snd f) x) \<and> int (length (rx_path x)) \<le> d"

lemma delegated_nests:
  assumes "\<And>a. ddistinct (ai_capabilities (info a))" and "same_agents info agents" and "delegated info agents env li d p x"
  shows "(nests d)\<^sup>*\<^sup>* p x"
  using assms(3)
proof induction
  case (call q digest fr card_error ds w x t t' c g b args timeout tokens cost)
  from governed_calls[OF call.hyps(2) assms(1,2) call.hyps(5)] obtain y where y: "governed_call li g c agents t t' q b w y" by blast
  then have "y = x" using call.hyps(4) unfolding governed_call_def runs_guarded_def by blast
  with y have "nests d q x" using call.hyps(3) unfolding governed_call_def nests_def by fastforce
  with call.IH show ?case by simp
qed simp

text \<open>What a context below \<open>p\<close> has of the authority of \<open>p\<close>.\<close>

definition below :: "int \<Rightarrow> run_context \<Rightarrow> run_context \<Rightarrow> bool" where
  "below d p x \<longleftrightarrow> rx_authorization x = rx_authorization p
     \<and> (\<exists>fs. rx_path x = rx_path p @ fs \<and> distinct fs \<and> set fs \<inter> set (rx_path p) = {} \<and> (fs = [] \<or> int (length (rx_path x)) \<le> d))
     \<and> (\<forall>t. rx_deadline p = Some t \<longrightarrow> (\<exists>e. rx_deadline x = Some e \<and> e \<le> t))
     \<and> (\<forall>bound. rx_allowed p = Some bound \<longrightarrow> (\<exists>caps. rx_allowed x = Some caps \<and> caps \<subseteq> bound))"

lemma below_nests: "below d p q \<Longrightarrow> nests d q x \<Longrightarrow> below d p x"
  unfolding below_def nests_def child_of_def attenuated_def by (auto; fastforce)

lemma nests_below: "(nests d)\<^sup>*\<^sup>* p x \<Longrightarrow> below d p x"
proof (induction rule: rtranclp_induct)
  case base
  show ?case by (simp add: below_def)
next
  case (step y z)
  then show ?case by (blast intro: below_nests)
qed


text \<open>
  C3. Nested delegation is bounded and acyclic.  However far capabilities delegate to each other through their gateways, and
  whatever happens to the registry, the bindings and the rest of the world in between, a capability that comes to run
  below a context runs for its identity, within its deadline and its allowed capabilities; no capability
  of an agent is on the path twice, and no path is longer than the depth limit.
\<close>

theorem nested_delegation_bounded:
  assumes "\<And>a. ddistinct (ai_capabilities (info a))" and "same_agents info agents" and "delegated info agents env li d p x"
  shows "rx_authorization x = rx_authorization p
     \<and> (\<exists>fs. rx_path x = rx_path p @ fs \<and> distinct fs \<and> set fs \<inter> set (rx_path p) = {} \<and> (fs = [] \<or> int (length (rx_path x)) \<le> d))
     \<and> (\<forall>t. rx_deadline p = Some t \<longrightarrow> (\<exists>e. rx_deadline x = Some e \<and> e \<le> t))
     \<and> (\<forall>bound. rx_allowed p = Some bound \<longrightarrow> (\<exists>caps. rx_allowed x = Some caps \<and> caps \<subseteq> bound))"
  using nests_below[OF delegated_nests[OF assms]] unfolding below_def .

section \<open>A concrete delegation\<close>

type_synonym demo_host = "(approval_store, unit emitter, nat) host"

definition host_machine :: demo_host where
  "host_machine = \<lparr>mc_run = sample_run_state,
     mc_world = init_world (init_store sample_clock) (init_emitter ()) sample_verifier_state
       \<lparr>sh_registry = sample_registry, sh_bindings = wo_bindings LocalGateway.sample_world, sh_app = 0\<rparr>,
     mc_ids = 0, mc_closed = False, mc_detached = []\<rparr>"

definition host_body :: "int \<Rightarrow> (approval_store, unit emitter, nat shared) body" where
  "host_body n args x m = (Returned (PlainValue (RInt n)), m)"

definition host_agents :: "nat \<Rightarrow> (approval_store, unit emitter, nat shared) agent_object" where
  "host_agents a = \<lparr>ag_name = ai_name (sample_agents a), ag_instructions = None,
     ag_config = \<lparr>am_default_model = None, am_requirement = NO_MODEL, am_required_capabilities = {}\<rparr>,
     ag_capabilities = [(''find'', \<lparr>cb_function = 0, cb_guardrails = sample_target False, cb_validate = (\<lambda>_. Inr []), cb_retriever = None,
       cb_model_required = None, cb_instructions = None, cb_target = host_body 0\<rparr>)]\<rparr>"

definition host_caller :: run_context where
  "host_caller = sample_caller\<lparr>rx_correlation_id := ''c'', rx_authorization := Some sample_context\<rparr>"

definition host_selection :: "(invoke_error gateway_error + selection_outcome) \<times> (string, demo_host) LocalGateway.world" where
  "host_selection = select sample_library sample_gateway 0 host_caller sample_query (world_of host_machine)"

definition host_binding :: capability_binding where
  "host_binding = (case fst host_selection of Inr so \<Rightarrow> (case so_binding so of Some b \<Rightarrow> b | None \<Rightarrow> sample_binding) | _ \<Rightarrow> sample_binding)"

definition host_call :: "(approval_store, unit emitter, nat shared) body \<Rightarrow> (invoke_error gateway_error + invocation_result) \<times> (string, demo_host) LocalGateway.world" where
  "host_call t = gateway_invoke (dispatch demo_env (\<lambda>a. retarget t (host_agents a)) 0 host_caller) sample_library sample_gateway 0 host_caller
     host_binding (VDict []) None 0 (Finite 0) (snd host_selection)"

text \<open>The context in which the capability runs.\<close>

definition host_child :: run_context where
  "host_child = \<lparr>rx_id = 1, rx_run_id = ''id'', rx_correlation_id = ''c'', rx_model = None, rx_timeout = None, rx_deadline = None,
     rx_metadata = VProxy [], rx_agent_id = ''billing'', rx_parent_run_id = Some ''run'',
     rx_path = [(''desk'', ''ask''), (''billing'', ''find'')], rx_allowed = None, rx_authorization = Some sample_context,
     rx_chain = [''policy'']\<rparr>"

definition host_probe :: "(approval_store, unit emitter, nat shared) body" where
  "host_probe args y m = host_body (if y = host_child then 2 else 1) args y m"

lemma host_answers:
  "case fst (host_call (host_body 1)) of Inr (InvocationSuccess i w u md) \<Rightarrow> w = VInt 1 | _ \<Rightarrow> False"
  "case fst (host_call host_probe) of Inr (InvocationSuccess i w u md) \<Rightarrow> w = VInt 2 | _ \<Rightarrow> False"
  by code_simp+

lemma host_differs: "host_call (host_body 1) \<noteq> host_call host_probe"
proof
  assume "host_call (host_body 1) = host_call host_probe"
  with host_answers show False by (auto split: sum.splits invocation_result.splits)
qed

lemma host_world: "wo_registry (snd host_selection) = sample_registry \<and> bu_max_depth (ru_budget (wo_run (snd host_selection))) = 8"
  by code_simp

lemma host_same_agents: "same_agents sample_agents host_agents"
  by (simp add: same_agents_def host_agents_def sample_agents_def)

lemma host_reach: "registry_reach (\<lambda>_. ''d'') (\<lambda>_. ''0'') sample_agents (\<lambda>_. None) (init_registry []) (wo_registry (snd host_selection))"
  using sample_registry_reach host_world by simp

lemma sample_capabilities_distinct: "ddistinct (ai_capabilities (sample_agents a))"
  by (simp add: sample_agents_def ddistinct_def)

theorem delegation_end_to_end_witness:
  "\<exists>agent x m. live_authority sample_library sample_gateway 0 host_caller host_binding agent (snd host_selection)
     \<and> host_body 1 [] x m \<noteq> host_probe [] x m \<and> rx_authorization x = Some sample_context
     \<and> rx_path x = [(''desk'', ''ask''), (bd_agent_id host_binding, bd_capability_id host_binding)]"
proof -
  from delegation_end_to_end[OF host_reach sample_capabilities_distinct host_same_agents host_differs[unfolded host_call_def]]
  obtain agent reg args x m where
    "live_authority sample_library sample_gateway 0 host_caller host_binding agent (snd host_selection)" "host_body 1 args x m \<noteq> host_probe args x m"
    "rx_authorization x = rx_authorization host_caller"
    "rx_path x = rx_path host_caller @ [(bd_agent_id host_binding, bd_capability_id host_binding)]" by blast
  then show ?thesis
    by (intro exI[of _ agent] exI[of _ x] exI[of _ m]) (simp add: host_caller_def sample_caller_def host_body_def host_probe_def split: if_splits)
qed

theorem nested_delegation_bounded_witness:
  "delegated sample_agents host_agents demo_env sample_library 8 host_caller host_child
     \<and> (\<exists>fs. rx_path host_child = rx_path host_caller @ fs \<and> distinct fs \<and> int (length (rx_path host_child)) \<le> 8)"
proof -
  have other: "host_body 1 a y m = host_probe a y m" if "y \<noteq> host_child" for a y m using that by (simp add: host_probe_def)
  have "delegated sample_agents host_agents demo_env sample_library 8 host_caller host_child"
    by (rule delegated.call[OF delegated.here host_reach _ other host_differs[unfolded host_call_def]]) (use host_world in simp)
  with nested_delegation_bounded[OF sample_capabilities_distinct host_same_agents this]
  show ?thesis by (auto simp: host_child_def host_caller_def sample_caller_def)
qed

end
