(* ===== verification/CatalogModels.thy ===== *)
theory CatalogModels
  imports Schema GatewayModels
begin

text \<open>
  The data of the remote-agent catalog, \<open>core/catalog/_models.py\<close> and \<open>core/catalog/_managed_models.py\<close>, and the
  admission policy of \<open>core/catalog/_admission.py\<close>.  A capability keeps its JSON Schemas frozen; what \<open>frozenset\<close> makes of
  a field is a set.  \<open>AgentInstanceRecord\<close> and the internal \<open>_InstanceState\<close> have the same fields and are one record.
\<close>

section \<open>Enumerations\<close>

datatype deployment_type = IN_PROCESS | LOCAL_CONTAINER | REMOTE_CONTAINER | FOUNDRY

fun deployment_value :: "deployment_type \<Rightarrow> string" where
  "deployment_value IN_PROCESS = ''in_process''"
| "deployment_value LOCAL_CONTAINER = ''local_container''"
| "deployment_value REMOTE_CONTAINER = ''remote_container''"
| "deployment_value FOUNDRY = ''foundry''"

datatype catalog_state = CAT_ACTIVE | CAT_QUARANTINED | CAT_DISABLED | CAT_REVOKED | CAT_REMOVED

fun catalog_state_value :: "catalog_state \<Rightarrow> string" where
  "catalog_state_value CAT_ACTIVE = ''active''"
| "catalog_state_value CAT_QUARANTINED = ''quarantined''"
| "catalog_state_value CAT_DISABLED = ''disabled''"
| "catalog_state_value CAT_REVOKED = ''revoked''"
| "catalog_state_value CAT_REMOVED = ''removed''"

datatype instance_state = INST_ACTIVE | INST_DRAINING | INST_REMOVED | INST_REVOKED | INST_EXPIRED

datatype managed_code = MC_OK | MC_NOT_FOUND | MC_IDENTITY_CONFLICT | MC_IDEMPOTENCY_CONFLICT | MC_STALE_GENERATION
  | MC_INVALID_LEASE | MC_INVALID_HANDLE | MC_INACTIVE | MC_EXPIRED | MC_REPLAY_REJECTED | MC_CAPACITY_EXCEEDED

text \<open>\<open>CatalogRaised\<close>: an exception from outside the catalog's hierarchy.\<close>

datatype catalog_error = CatalogValidation | CatalogUnavailable | UnknownCatalogAgent | UnknownCatalogInstance | CatalogRaised py_error

section \<open>Capabilities and instances\<close>

record catalog_capability =
  kc_capability_id :: string
  kc_name :: string
  kc_description :: "string option"
  kc_tags :: "string set"
  kc_input_schema :: pyval
  kc_output_schema :: "pyval option"
  kc_version :: string
  kc_modality :: string
  kc_required_scopes :: "string list"
  kc_approval_required :: bool
  kc_policy :: capability_policy
  kc_data_sources :: "string list"

definition mk_catalog_capability :: "catalog_capability \<Rightarrow> py_error + catalog_capability" where
  "mk_catalog_capability k =
     (case freeze_json (kc_input_schema k) of Inl e \<Rightarrow> Inl e | Inr i \<Rightarrow>
     (case freeze_option (kc_output_schema k) of Inl e \<Rightarrow> Inl e | Inr out \<Rightarrow>
        Inr (k\<lparr>kc_input_schema := i, kc_output_schema := out, kc_data_sources := sorted_unique (kc_data_sources k)\<rparr>)))"

definition catalog_capability_dict :: "catalog_capability \<Rightarrow> pyval" where
  "catalog_capability_dict k = VDict (
     [(''capability_id'', VStr (kc_capability_id k)), (''name'', VStr (kc_name k)), (''description'', opt_value (kc_description k)),
      (''tags'', tags_list (kc_tags k)), (''input_schema'', thaw_json (kc_input_schema k)),
      (''output_schema'', thaw_option (kc_output_schema k)), (''version'', VStr (kc_version k)),
      (''modality'', VStr (kc_modality k)), (''required_scopes'', str_list (kc_required_scopes k)),
      (''approval_required'', VBool (kc_approval_required k))]
     @ (if kc_data_sources k = [] then [] else [(''data_sources'', str_list (kc_data_sources k))])
     @ (if policy_is_empty (kc_policy k) then [] else [(''policy'', policy_dict (kc_policy k))]))"

text \<open>The descriptor of the gateway is named by the capability's name; \<open>json.dumps\<close> raises \<open>TypeError\<close> on what is not JSON.\<close>

definition to_capability_descriptor ::
  "(string \<Rightarrow> string) \<Rightarrow> (pyfloat \<Rightarrow> string) \<Rightarrow> string \<Rightarrow> string \<Rightarrow> catalog_capability \<Rightarrow> py_error + capability_descriptor" where
  "to_capability_descriptor digest fr agent_id version k =
     (case canonical_json fr (VDict [(''input'', thaw_json (kc_input_schema k)), (''output'', thaw_option (kc_output_schema k))]) of
        None \<Rightarrow> Inl TypeError
      | Some t \<Rightarrow> mk_capability_descriptor
          \<lparr>cd_agent_id = agent_id, cd_agent_version = version, cd_capability_id = kc_name k, cd_description = kc_description k,
           cd_tags = kc_tags k, cd_input_schema = kc_input_schema k, cd_output_schema = kc_output_schema k,
           cd_schema_digest = digest t, cd_required_scopes = kc_required_scopes k,
           cd_approval_required = kc_approval_required k, cd_policy = kc_policy k, cd_data_sources = kc_data_sources k\<rparr>)"

record agent_instance =
  ns_instance_id :: string
  ns_deployment :: deployment_type
  ns_card_url :: string
  ns_transports :: "string set"
  ns_healthy :: bool
  ns_lease :: time
  ns_heartbeat :: time
  ns_environment :: string
  ns_deployment_id :: string
  ns_provenance :: string
  ns_subject :: string
  ns_issuer :: string

definition is_expired :: "agent_instance \<Rightarrow> time \<Rightarrow> bool" where
  "is_expired n now \<longleftrightarrow> ns_lease n \<le> now"

definition instance_dict :: "agent_instance \<Rightarrow> pyval" where
  "instance_dict n = VDict [(''instance_id'', VStr (ns_instance_id n)), (''deployment_type'', VStr (deployment_value (ns_deployment n))),
     (''transports'', tags_list (ns_transports n)), (''healthy'', VBool (ns_healthy n)),
     (''lease_expires_at'', VFloat (Finite (ns_lease n))), (''last_heartbeat_at'', VFloat (Finite (ns_heartbeat n))),
     (''environment'', VStr (ns_environment n)), (''deployment_id'', VStr (ns_deployment_id n)),
     (''provenance'', VStr (ns_provenance n)), (''subject_id'', VStr (ns_subject n)), (''issuer'', VStr (ns_issuer n))]"

section \<open>Agents\<close>

record catalog_agent =
  ca_agent_id :: string
  ca_owner :: string
  ca_provenance :: "string option"
  ca_trust_policy_ref :: "string option"
  ca_versions :: "string set"
  ca_card_digest :: string
  ca_capabilities :: "catalog_capability list"
  ca_lifecycle :: catalog_state
  ca_generation :: int
  ca_instances :: "agent_instance list"

definition healthy_instances :: "catalog_agent \<Rightarrow> time \<Rightarrow> agent_instance list" where
  "healthy_instances a now = filter (\<lambda>n. ns_healthy n \<and> \<not> is_expired n now) (ca_instances a)"

definition catalog_agent_dict :: "catalog_agent \<Rightarrow> pyval" where
  "catalog_agent_dict a = VDict [(''agent_id'', VStr (ca_agent_id a)), (''owner'', VStr (ca_owner a)),
     (''provenance'', opt_value (ca_provenance a)), (''trust_policy_ref'', opt_value (ca_trust_policy_ref a)),
     (''supported_versions'', tags_list (ca_versions a)), (''card_digest'', VStr (ca_card_digest a)),
     (''capabilities'', VList (map catalog_capability_dict (ca_capabilities a))),
     (''lifecycle'', VStr (catalog_state_value (ca_lifecycle a))), (''generation'', VInt (ca_generation a)),
     (''instances'', VList (map instance_dict (ca_instances a)))]"

record catalog_snapshot =
  cs_revision :: int
  cs_agents :: "catalog_agent list"

definition catalog_snapshot_capabilities :: "catalog_snapshot \<Rightarrow> catalog_capability list" where
  "catalog_snapshot_capabilities s = concat (map ca_capabilities (cs_agents s))"

definition catalog_snapshot_dict :: "catalog_snapshot \<Rightarrow> pyval" where
  "catalog_snapshot_dict s = VDict [(''revision'', VInt (cs_revision s)), (''agents'', VList (map catalog_agent_dict (cs_agents s)))]"

section \<open>Admission entries\<close>

record catalog_entry =
  ce_agent_id :: string
  ce_instance_id :: string
  ce_owner :: string
  ce_deployment :: deployment_type
  ce_card_url :: string
  ce_card :: pyval
  ce_provenance :: "string option"
  ce_trust_policy_ref :: "string option"
  ce_versions :: "string set"
  ce_transports :: "string set"
  ce_lease :: pyfloat
  ce_signature :: "string option"

text \<open>\<open>url\<close> is \<open>is_absolute_http_url\<close>, which parses with \<open>urllib\<close>.\<close>

definition mk_catalog_entry :: "(string \<Rightarrow> bool) \<Rightarrow> catalog_entry \<Rightarrow> catalog_error + catalog_entry" where
  "mk_catalog_entry url e =
     (if strip (ce_agent_id e) = [] \<or> strip (ce_instance_id e) = [] \<or> strip (ce_owner e) = [] then Inl CatalogValidation
      else if \<not> url (ce_card_url e) then Inl CatalogValidation
      else if \<not> isfinite (ce_lease e) \<or> fin_val (ce_lease e) \<le> 0 then Inl CatalogValidation
      else (case freeze_json (ce_card e) of Inl x \<Rightarrow> Inl (CatalogRaised x) | Inr c \<Rightarrow> Inr (e\<lparr>ce_card := c\<rparr>)))"

section \<open>Admission\<close>

record prepared =
  pr_card_name :: string
  pr_card_digest :: string
  pr_capabilities :: "catalog_capability list"
  pr_logical_digest :: string

text \<open>
  \<open>AdmissionPolicy.validate\<close>: \<open>None\<close> is no exception.  A dictionary built from the new capabilities has the last of those
  with the same identifier.
\<close>

definition provenance_ok :: "(catalog_entry \<Rightarrow> bool) option \<Rightarrow> bool \<Rightarrow> catalog_entry \<Rightarrow> bool" where
  "provenance_ok verify need e \<longleftrightarrow>
     (need \<or> ce_trust_policy_ref e \<noteq> None) \<longrightarrow>
       ce_signature e \<noteq> None \<and> ce_signature e \<noteq> Some [] \<and> (case verify of None \<Rightarrow> False | Some v \<Rightarrow> v e)"

definition updated_capability :: "catalog_capability list \<Rightarrow> string \<Rightarrow> catalog_capability option" where
  "updated_capability ks i = List.find (\<lambda>k. kc_capability_id k = i) (rev ks)"

definition schema_kept :: "catalog_capability list \<Rightarrow> catalog_capability \<Rightarrow> bool" where
  "schema_kept new old \<longleftrightarrow> (case updated_capability new (kc_capability_id old) of None \<Rightarrow> True
     | Some k \<Rightarrow> kc_version k = kc_version old \<longrightarrow> py_eq (kc_input_schema k) (kc_input_schema old))"

definition validate_admission ::
  "(catalog_entry \<Rightarrow> bool) option \<Rightarrow> bool \<Rightarrow> catalog_entry \<Rightarrow> prepared \<Rightarrow> string option \<Rightarrow> catalog_capability list
   \<Rightarrow> catalog_error option" where
  "validate_admission verify need e p card_name known =
     (if \<not> provenance_ok verify need e then Some CatalogValidation
      else if (case card_name of None \<Rightarrow> False | Some n \<Rightarrow> n \<noteq> [] \<and> pr_card_name p \<noteq> n) then Some CatalogValidation
      else if \<not> list_all (schema_kept (pr_capabilities p)) known then Some CatalogValidation
      else None)"

section \<open>Managed commands\<close>

datatype managed_operation = OpRegister | OpRenew | OpDrain | OpDeregister | OpStatus | OpRevoke

record managed_command =
  cm_operation :: managed_operation
  cm_agent_id :: string
  cm_instance_id :: string
  cm_owner :: string
  cm_environment :: string
  cm_subject :: string
  cm_issuer :: string
  cm_key :: string
  cm_fingerprint :: string
  cm_generation :: int
  cm_lease :: pyfloat
  cm_handle :: string
  cm_entry :: "catalog_entry option"
  cm_deployment_id :: string
  cm_provenance :: string

record managed_result =
  mr_code :: managed_code
  mr_generation :: int
  mr_state :: "instance_state option"
  mr_lease :: "time option"
  mr_handle :: string
  mr_subject :: string
  mr_issuer :: string

definition bare_result :: "managed_code \<Rightarrow> managed_result" where
  "bare_result c = \<lparr>mr_code = c, mr_generation = 0, mr_state = None, mr_lease = None, mr_handle = [], mr_subject = [], mr_issuer = []\<rparr>"

end
