(* ===== verification/Catalog.thy ===== *)
theory Catalog
  imports CatalogModels
begin

text \<open>
  The remote-agent catalog: \<open>core/catalog/_lifecycle.py\<close> (registrations, leases, lifecycle, snapshots) and
  \<open>core/catalog/_managed.py\<close> (the ledger of managed instances: identities, handles, generations, receipts).  Both are behind
  one lock, so an operation is one step.  The record of a managed instance is mutated in place by the code and is
  looked up again here.  Preparing the Agent Card is a parameter of the configuration (\<open>Admission\<close> provides it);
  handles of \<open>secrets.token_urlsafe\<close> come from a supply.
\<close>

section \<open>State\<close>

record catalog_registration =
  gs_agent_id :: string
  gs_owner :: string
  gs_provenance :: "string option"
  gs_trust_policy_ref :: "string option"
  gs_versions :: "string set"
  gs_card_name :: string
  gs_card_digest :: string
  gs_logical_digest :: string
  gs_capabilities :: "catalog_capability list"
  gs_lifecycle :: catalog_state
  gs_generation :: int
  gs_instances :: "(string, agent_instance) dict"

definition catalog_record :: "agent_instance list \<Rightarrow> catalog_registration \<Rightarrow> catalog_agent" where
  "catalog_record ns g = \<lparr>ca_agent_id = gs_agent_id g, ca_owner = gs_owner g, ca_provenance = gs_provenance g,
     ca_trust_policy_ref = gs_trust_policy_ref g, ca_versions = gs_versions g, ca_card_digest = gs_card_digest g,
     ca_capabilities = gs_capabilities g, ca_lifecycle = gs_lifecycle g, ca_generation = gs_generation g, ca_instances = ns\<rparr>"

definition public_record :: "catalog_registration \<Rightarrow> catalog_agent" where
  "public_record g = catalog_record (map snd (dsorted (gs_instances g))) g"

record managed =
  mg_owner :: string
  mg_environment :: string
  mg_subject :: string
  mg_issuer :: string
  mg_handle :: string
  mg_generation :: int
  mg_state :: instance_state
  mg_instance :: agent_instance

definition result_of :: "managed_code \<Rightarrow> bool \<Rightarrow> managed \<Rightarrow> managed_result" where
  "result_of code with_handle m = \<lparr>mr_code = code, mr_generation = mg_generation m, mr_state = Some (mg_state m),
     mr_lease = Some (ns_lease (mg_instance m)), mr_handle = (if with_handle then mg_handle m else []),
     mr_subject = mg_subject m, mr_issuer = mg_issuer m\<rparr>"

type_synonym identity = "string \<times> string"

record receipt =
  rp_fingerprint :: string
  rp_identity :: identity
  rp_result :: managed_result

record catalog =
  ct_agents :: "(string, catalog_registration) dict"
  ct_revision :: int
  ct_managed :: "(identity, managed) dict"
  ct_receipts :: "(string \<times> string \<times> string, receipt) dict"
  ct_pending :: "(identity, managed_result) dict"
  ct_clock :: clock
  ct_handles :: "nat \<Rightarrow> string"
  ct_next :: nat

record catalog_config =
  cc_prepare :: "catalog_entry \<Rightarrow> catalog_error + prepared"
  cc_verify :: "(catalog_entry \<Rightarrow> bool) option"
  cc_require :: bool
  cc_capacity :: int

definition mk_catalog :: "catalog_config \<Rightarrow> clock \<Rightarrow> (nat \<Rightarrow> string) \<Rightarrow> py_error + catalog" where
  "mk_catalog cfg clk handles =
     (if cc_capacity cfg \<le> 0 then Inl ValueError
      else Inr \<lparr>ct_agents = [], ct_revision = 0, ct_managed = [], ct_receipts = [], ct_pending = [], ct_clock = clk,
        ct_handles = handles, ct_next = 0\<rparr>)"

definition now_in :: "catalog \<Rightarrow> time \<times> catalog" where
  "now_in s = (case tick (ct_clock s) of (t, c) \<Rightarrow> (t, s\<lparr>ct_clock := c\<rparr>))"

section \<open>The ledger of managed instances\<close>

text \<open>\<open>_publish\<close>: the state and the instance of the managed record, in the ledger and among the agent's instances.\<close>

definition publish :: "identity \<Rightarrow> managed \<Rightarrow> instance_state \<Rightarrow> agent_instance \<Rightarrow> catalog \<Rightarrow> catalog" where
  "publish k m st n s =
     (let s1 = s\<lparr>ct_managed := dset k (m\<lparr>mg_state := st, mg_instance := n, mg_generation := mg_generation m + 1\<rparr>) (ct_managed s),
                ct_revision := ct_revision s + 1\<rparr> in
      case dget (ct_agents s1) (fst k) of None \<Rightarrow> s1
      | Some g \<Rightarrow> s1\<lparr>ct_agents := dset (fst k)
            (g\<lparr>gs_instances := (if st = INST_REMOVED then ddel (snd k) (gs_instances g) else dset (snd k) n (gs_instances g))\<rparr>)
            (ct_agents s1)\<rparr>)"

definition live_state :: "instance_state \<Rightarrow> bool" where
  "live_state st \<longleftrightarrow> st = INST_ACTIVE \<or> st = INST_DRAINING"

text \<open>\<open>_expire_one\<close>: the lease of a live record that is past is fenced, and its receipt is kept for the reporter.\<close>

definition expire_one :: "identity \<Rightarrow> managed \<Rightarrow> time \<Rightarrow> catalog \<Rightarrow> bool \<times> catalog" where
  "expire_one k m now s =
     (if \<not> live_state (mg_state m) \<or> now < ns_lease (mg_instance m) then (False, s)
      else
        let s1 = publish k m INST_EXPIRED ((mg_instance m)\<lparr>ns_healthy := False\<rparr>) s in
        (True, case dget (ct_managed s1) k of None \<Rightarrow> s1
           | Some m1 \<Rightarrow> s1\<lparr>ct_pending := dset k (result_of MC_EXPIRED False m1) (ct_pending s1)\<rparr>))"

definition is_ascii :: "string \<Rightarrow> bool" where
  "is_ascii t \<longleftrightarrow> list_all (\<lambda>c. (of_char c :: nat) < 128) t"

definition authorize_command :: "managed_command \<Rightarrow> managed \<Rightarrow> managed_code option" where
  "authorize_command cmd m =
     (if (cm_owner cmd, cm_environment cmd) \<noteq> (mg_owner m, mg_environment m) then Some MC_IDENTITY_CONFLICT
      else if cm_operation cmd = OpRevoke then None
      else if (cm_issuer cmd, cm_subject cmd) \<noteq> (mg_issuer m, mg_subject m) then Some MC_IDENTITY_CONFLICT
      else if cm_operation cmd \<noteq> OpRegister \<and> (\<not> is_ascii (cm_handle cmd) \<or> cm_handle cmd \<noteq> mg_handle m) then Some MC_INVALID_HANDLE
      else None)"

definition check_managed :: "managed_command \<Rightarrow> identity \<Rightarrow> managed \<Rightarrow> catalog \<Rightarrow> managed_result option \<times> catalog" where
  "check_managed cmd k m s =
     (case authorize_command cmd m of Some c \<Rightarrow> (Some (bare_result c), s)
      | None \<Rightarrow>
          (let (now, s1) = now_in s; (_, s2) = expire_one k m now s1 in
           case dget (ct_managed s2) k of None \<Rightarrow> (None, s2)
           | Some m1 \<Rightarrow>
               (if mg_state m1 = INST_EXPIRED then Some (result_of MC_EXPIRED False m1)
                else if mg_state m1 = INST_REMOVED \<or> mg_state m1 = INST_REVOKED then Some (result_of MC_INACTIVE False m1)
                else None, s2)))"

definition command_key :: "managed_command \<Rightarrow> string \<times> string \<times> string" where
  "command_key cmd = (cm_issuer cmd, cm_subject cmd, cm_key cmd)"

definition command_identity :: "managed_command \<Rightarrow> identity" where
  "command_identity cmd = (cm_agent_id cmd, cm_instance_id cmd)"

definition ends_instance :: "managed_operation \<Rightarrow> bool" where
  "ends_instance op \<longleftrightarrow> op = OpDeregister \<or> op = OpRevoke"

text \<open>\<open>lookup\<close>: the receipt of the command's key, unless the identity is denied by now.\<close>

definition lookup_receipt :: "managed_command \<Rightarrow> catalog \<Rightarrow> managed_result option \<times> catalog" where
  "lookup_receipt cmd s =
     (case dget (ct_receipts s) (command_key cmd) of None \<Rightarrow> (None, s)
      | Some rp \<Rightarrow>
          let k = command_identity cmd; found = dget (ct_managed s) k in
          (case (case found of None \<Rightarrow> if cm_operation cmd \<noteq> OpRegister then Some MC_NOT_FOUND else None
                 | Some m \<Rightarrow> authorize_command cmd m) of
             Some c \<Rightarrow> (Some (bare_result c), s)
           | None \<Rightarrow>
               if rp_fingerprint rp \<noteq> cm_fingerprint cmd \<or> rp_identity rp \<noteq> k then (Some (bare_result MC_IDEMPOTENCY_CONFLICT), s)
               else (case found of None \<Rightarrow> (Some (bare_result MC_REPLAY_REJECTED), s)
                 | Some m \<Rightarrow> (case check_managed cmd k m s of
                     (Some denied, s1) \<Rightarrow>
                       (case dget (ct_managed s1) k of None \<Rightarrow> (Some denied, s1)
                        | Some m1 \<Rightarrow>
                            if mr_code denied = MC_INACTIVE \<and> ends_instance (cm_operation cmd)
                                \<and> mr_generation (rp_result rp) = mg_generation m1 \<and> mr_state (rp_result rp) = Some (mg_state m1)
                            then (Some (rp_result rp), s1) else (Some denied, s1))
                   | (None, s1) \<Rightarrow>
                       (case dget (ct_managed s1) k of None \<Rightarrow> (Some (rp_result rp), s1)
                        | Some m1 \<Rightarrow>
                            if mr_generation (rp_result rp) \<noteq> mg_generation m1 then (Some (result_of MC_STALE_GENERATION False m1), s1)
                            else (Some (rp_result rp), s1))))))"

text \<open>\<open>fence\<close>: the live records of an agent, or of one instance of it, become terminal.\<close>

definition fenced_by :: "string \<Rightarrow> string option \<Rightarrow> identity \<Rightarrow> bool" where
  "fenced_by a i k \<longleftrightarrow> fst k = a \<and> (case i of None \<Rightarrow> True | Some j \<Rightarrow> snd k = j)"

definition fence_one :: "instance_state \<Rightarrow> identity \<Rightarrow> catalog \<Rightarrow> catalog" where
  "fence_one terminal k s =
     (case dget (ct_managed s) k of None \<Rightarrow> s
      | Some m \<Rightarrow> if live_state (mg_state m) then publish k m terminal ((mg_instance m)\<lparr>ns_healthy := False\<rparr>) s else s)"

definition fence :: "string \<Rightarrow> string option \<Rightarrow> instance_state \<Rightarrow> catalog \<Rightarrow> catalog" where
  "fence a i terminal s = fold (fence_one terminal) (filter (fenced_by a i) (map fst (ct_managed s))) s"

definition sweep_one :: "time \<Rightarrow> identity \<Rightarrow> identity list \<times> catalog \<Rightarrow> identity list \<times> catalog" where
  "sweep_one now k acc =
     (case dget (ct_managed (snd acc)) k of None \<Rightarrow> acc
      | Some m \<Rightarrow> (case expire_one k m now (snd acc) of (b, s) \<Rightarrow> (if b then fst acc @ [k] else fst acc, s)))"

definition sweep :: "catalog \<Rightarrow> identity list \<times> catalog" where
  "sweep s = (let (now, s1) = now_in s in fold (sweep_one now) (map fst (dsorted (ct_managed s1))) ([], s1))"

text \<open>\<open>expire\<close>: the receipts of all expirations since the last call.\<close>

definition expire_managed :: "catalog \<Rightarrow> (identity \<times> managed_result) list \<times> catalog" where
  "expire_managed s = (let (_, s1) = sweep s in (dsorted (ct_pending s1), s1\<lparr>ct_pending := []\<rparr>))"

definition reject_external :: "string \<Rightarrow> string \<Rightarrow> (catalog, catalog_error, unit) prog" where
  "reject_external a i s =
     (case dget (ct_managed s) (a, i) of None \<Rightarrow> (Inr (), s)
      | Some _ \<Rightarrow> (Inl CatalogValidation, fence a (Some i) INST_REVOKED s))"

definition guard_external :: "catalog_entry \<Rightarrow> prepared \<Rightarrow> (catalog, catalog_error, unit) prog" where
  "guard_external e p =
     thenS (reject_external (ce_agent_id e) (ce_instance_id e)) (\<lambda>s.
       (case dget (ct_agents s) (ce_agent_id e) of None \<Rightarrow> (Inr (), s)
        | Some g \<Rightarrow>
            if list_ex (\<lambda>(k, m). fst k = ce_agent_id e \<and> live_state (mg_state m)) (ct_managed s)
               \<and> (gs_owner g \<noteq> ce_owner e \<or> gs_logical_digest g \<noteq> pr_logical_digest p \<or> gs_versions g \<noteq> ce_versions e)
            then (Inl CatalogValidation, s) else (Inr (), s)))"

section \<open>Registrations\<close>

definition lease_of :: "catalog_entry \<Rightarrow> time" where
  "lease_of e = fin_val (ce_lease e)"

definition entry_instance :: "catalog_entry \<Rightarrow> time \<Rightarrow> agent_instance" where
  "entry_instance e now = \<lparr>ns_instance_id = ce_instance_id e, ns_deployment = ce_deployment e, ns_card_url = ce_card_url e,
     ns_transports = ce_transports e, ns_healthy = True, ns_lease = now + lease_of e, ns_heartbeat = now,
     ns_environment = [], ns_deployment_id = [], ns_provenance = [], ns_subject = [], ns_issuer = []\<rparr>"

definition entry_registration :: "catalog_entry \<Rightarrow> prepared \<Rightarrow> catalog_registration option \<Rightarrow> time \<Rightarrow> catalog_registration" where
  "entry_registration e p existing now =
     \<lparr>gs_agent_id = ce_agent_id e, gs_owner = ce_owner e, gs_provenance = ce_provenance e,
      gs_trust_policy_ref = ce_trust_policy_ref e, gs_versions = ce_versions e, gs_card_name = pr_card_name p,
      gs_card_digest = pr_card_digest p, gs_logical_digest = pr_logical_digest p, gs_capabilities = pr_capabilities p,
      gs_lifecycle = (case existing of None \<Rightarrow> CAT_ACTIVE | Some g \<Rightarrow> gs_lifecycle g),
      gs_generation = (case existing of None \<Rightarrow> 0 | Some g \<Rightarrow> gs_generation g) + 1,
      gs_instances = dset (ce_instance_id e) (entry_instance e now) (case existing of None \<Rightarrow> [] | Some g \<Rightarrow> gs_instances g)\<rparr>"

definition register_instance :: "catalog_config \<Rightarrow> catalog_entry \<Rightarrow> (catalog, catalog_error, catalog_agent) prog" where
  "register_instance cfg e s =
     (case cc_prepare cfg e of Inl x \<Rightarrow> (Inl x, s)
      | Inr p \<Rightarrow>
          (let (now, s0) = now_in s in
           case guard_external e p s0 of (Inl x, s1) \<Rightarrow> (Inl x, s1)
           | (Inr _, s1) \<Rightarrow>
               let existing = dget (ct_agents s1) (ce_agent_id e) in
               (case validate_admission (cc_verify cfg) (cc_require cfg) e p (map_option gs_card_name existing)
                       (case existing of None \<Rightarrow> [] | Some g \<Rightarrow> gs_capabilities g) of
                  Some x \<Rightarrow> (Inl x, s1)
                | None \<Rightarrow>
                    let g = entry_registration e p existing now in
                    (Inr (public_record g),
                     s1\<lparr>ct_agents := dset (ce_agent_id e) g (ct_agents s1), ct_revision := ct_revision s1 + 1\<rparr>))))"

section \<open>Managed operations\<close>

text \<open>A new instance of a known agent: the agent is active, of the same owner, and agrees with siblings whose leases last.\<close>

definition sibling_conflict :: "managed_command \<Rightarrow> catalog_entry \<Rightarrow> prepared \<Rightarrow> catalog \<Rightarrow> managed_result option \<times> catalog" where
  "sibling_conflict cmd e p s =
     (case dget (ct_agents s) (cm_agent_id cmd) of None \<Rightarrow> (None, s)
      | Some g \<Rightarrow>
          if gs_lifecycle g \<noteq> CAT_ACTIVE then (Some (bare_result MC_INACTIVE), s)
          else if gs_owner g \<noteq> cm_owner cmd \<or> dget (gs_instances g) (cm_instance_id cmd) \<noteq> None
          then (Some (bare_result MC_IDENTITY_CONFLICT), s)
          else (let (now, s1) = now_in s in
            (if list_ex (\<lambda>(_, n). now < ns_lease n) (gs_instances g)
                \<and> (gs_logical_digest g \<noteq> pr_logical_digest p \<or> gs_versions g \<noteq> ce_versions e)
             then Some (bare_result MC_IDENTITY_CONFLICT) else None, s1)))"

text \<open>The admitted instance becomes managed by the caller.\<close>

definition attach_managed :: "managed_command \<Rightarrow> (catalog, catalog_error, managed_result) prog" where
  "attach_managed cmd s =
     (case dget (ct_agents s) (cm_agent_id cmd) of None \<Rightarrow> (Inl (CatalogRaised KeyError), s)
      | Some g \<Rightarrow> (case dget (gs_instances g) (cm_instance_id cmd) of None \<Rightarrow> (Inl (CatalogRaised KeyError), s)
         | Some n0 \<Rightarrow>
             let n = n0\<lparr>ns_environment := cm_environment cmd, ns_deployment_id := cm_deployment_id cmd,
                        ns_provenance := cm_provenance cmd, ns_subject := cm_subject cmd, ns_issuer := cm_issuer cmd\<rparr>;
                 m = \<lparr>mg_owner = cm_owner cmd, mg_environment = cm_environment cmd, mg_subject = cm_subject cmd,
                      mg_issuer = cm_issuer cmd, mg_handle = ct_handles s (ct_next s), mg_generation = 1,
                      mg_state = INST_ACTIVE, mg_instance = n\<rparr> in
             (Inr (result_of MC_OK True m),
              s\<lparr>ct_agents := dset (cm_agent_id cmd) (g\<lparr>gs_instances := dset (cm_instance_id cmd) n (gs_instances g)\<rparr>) (ct_agents s),
                ct_managed := dset (command_identity cmd) m (ct_managed s), ct_next := Suc (ct_next s)\<rparr>)))"

definition register_managed :: "catalog_config \<Rightarrow> managed_command \<Rightarrow> (catalog, catalog_error, managed_result) prog" where
  "register_managed cfg cmd s =
     (if cc_capacity cfg \<le> int (length (ct_managed s)) then (Inr (bare_result MC_CAPACITY_EXCEEDED), s)
      else (case cm_entry cmd of None \<Rightarrow> (Inr (bare_result MC_IDENTITY_CONFLICT), s)
      | Some e \<Rightarrow>
          if (ce_agent_id e, ce_instance_id e, ce_owner e) \<noteq> (cm_agent_id cmd, cm_instance_id cmd, cm_owner cmd)
          then (Inr (bare_result MC_IDENTITY_CONFLICT), s)
          else (case cc_prepare cfg e of Inl x \<Rightarrow> (Inl x, s)
          | Inr p \<Rightarrow> (case sibling_conflict cmd e p s of
                (Some r, s1) \<Rightarrow> (Inr r, s1)
              | (None, s1) \<Rightarrow> (case register_instance cfg (e\<lparr>ce_lease := cm_lease cmd\<rparr>) s1 of
                   (Inl x, s2) \<Rightarrow> (Inl x, s2)
                 | (Inr _, s2) \<Rightarrow> attach_managed cmd s2)))))"

definition settled_result :: "identity \<Rightarrow> catalog \<Rightarrow> managed_result \<times> catalog" where
  "settled_result k s = (case dget (ct_managed s) k of None \<Rightarrow> (bare_result MC_NOT_FOUND, s) | Some m \<Rightarrow> (result_of MC_OK False m, s))"

definition mutate_managed :: "managed_command \<Rightarrow> identity \<Rightarrow> managed \<Rightarrow> catalog \<Rightarrow> managed_result \<times> catalog" where
  "mutate_managed cmd k m s =
     (case cm_operation cmd of
        OpStatus \<Rightarrow> (result_of MC_OK False m, s)
      | OpRenew \<Rightarrow>
          if mg_state m \<noteq> INST_ACTIVE then (result_of MC_INACTIVE False m, s)
          else (let (now, s1) = now_in s in
            settled_result k (publish k m INST_ACTIVE
              ((mg_instance m)\<lparr>ns_lease := max (ns_lease (mg_instance m)) (now + fin_val (cm_lease cmd)), ns_heartbeat := now\<rparr>) s1))
      | OpDrain \<Rightarrow>
          settled_result k (if mg_state m = INST_DRAINING then s
            else publish k m INST_DRAINING ((mg_instance m)\<lparr>ns_healthy := False\<rparr>) s)
      | OpDeregister \<Rightarrow> settled_result k (publish k m INST_REMOVED ((mg_instance m)\<lparr>ns_healthy := False\<rparr>) s)
      | OpRevoke \<Rightarrow> settled_result k (publish k m INST_REVOKED ((mg_instance m)\<lparr>ns_healthy := False\<rparr>) s)
      | OpRegister \<Rightarrow> (result_of MC_REPLAY_REJECTED False m, s))"

text \<open>The checks of \<open>execute\<close> after the receipts: the result that denies the command, if any.\<close>

definition precheck :: "catalog_config \<Rightarrow> managed_command \<Rightarrow> managed option \<Rightarrow> catalog \<Rightarrow> managed_result option" where
  "precheck cfg cmd found s =
     (if cm_operation cmd = OpRegister \<and> found \<noteq> None then map_option (result_of MC_IDENTITY_CONFLICT False) found
      else if cm_operation cmd = OpRegister \<and> cm_generation cmd \<noteq> 0 then Some (bare_result MC_STALE_GENERATION)
      else if cm_operation cmd \<noteq> OpRegister \<and> found = None then Some (bare_result MC_NOT_FOUND)
      else if cm_operation cmd \<noteq> OpRegister \<and> cm_operation cmd \<noteq> OpStatus
          \<and> map_option mg_generation found \<noteq> Some (cm_generation cmd) then map_option (result_of MC_STALE_GENERATION False) found
      else if (cm_operation cmd = OpRegister \<or> cm_operation cmd = OpRenew) \<and> (\<not> isfinite (cm_lease cmd) \<or> fin_val (cm_lease cmd) \<le> 0)
      then Some (bare_result MC_INVALID_LEASE)
      else if cc_capacity cfg \<le> int (length (ct_receipts s)) \<and> \<not> ends_instance (cm_operation cmd) then Some (bare_result MC_CAPACITY_EXCEEDED)
      else None)"

definition apply_command :: "catalog_config \<Rightarrow> managed_command \<Rightarrow> (catalog, catalog_error, managed_result) prog" where
  "apply_command cfg cmd s =
     (let k = command_identity cmd; found = dget (ct_managed s) k in
      case (case found of None \<Rightarrow> (None, s) | Some m \<Rightarrow> check_managed cmd k m s) of
        (Some denied, s1) \<Rightarrow> (Inr denied, s1)
      | (None, s1) \<Rightarrow>
          let current = dget (ct_managed s1) k in
          (case precheck cfg cmd current s1 of Some r \<Rightarrow> (Inr r, s1)
           | None \<Rightarrow> (case current of None \<Rightarrow> register_managed cfg cmd s1
               | Some m \<Rightarrow> (case mutate_managed cmd k m s1 of (r, s2) \<Rightarrow> (Inr r, s2)))))"

text \<open>\<open>execute\<close>, under the lock of \<open>manage_instance\<close>.\<close>

definition manage_instance :: "catalog_config \<Rightarrow> managed_command \<Rightarrow> (catalog, catalog_error, managed_result) prog" where
  "manage_instance cfg cmd s =
     (case lookup_receipt cmd s of
        (Some r, s1) \<Rightarrow> (Inr r, s1)
      | (None, s1) \<Rightarrow>
          (case apply_command cfg cmd s1 of
             (Inl x, s2) \<Rightarrow> (Inl x, s2)
           | (Inr r, s2) \<Rightarrow>
               (Inr r, if mr_code r = MC_OK
                  then s2\<lparr>ct_receipts := dset (command_key cmd)
                    \<lparr>rp_fingerprint = cm_fingerprint cmd, rp_identity = command_identity cmd, rp_result = r\<rparr> (ct_receipts s2)\<rparr>
                  else s2)))"

section \<open>Leases and lifecycle\<close>

definition renew_lease :: "string \<Rightarrow> string \<Rightarrow> pyfloat option \<Rightarrow> (catalog, catalog_error, agent_instance) prog" where
  "renew_lease a i lease s =
     (let (now, s0) = now_in s in
      case reject_external a i s0 of (Inl x, s1) \<Rightarrow> (Inl x, s1)
      | (Inr _, s1) \<Rightarrow>
          (case dget (ct_agents s1) a of None \<Rightarrow> (Inl UnknownCatalogAgent, s1)
           | Some g \<Rightarrow> (case dget (gs_instances g) i of None \<Rightarrow> (Inl UnknownCatalogInstance, s1)
              | Some n \<Rightarrow>
                  let d = (case lease of Some x \<Rightarrow> x | None \<Rightarrow> Finite (max (ns_lease n - ns_heartbeat n) 1)) in
                  if \<not> isfinite d \<or> fin_val d \<le> 0 then (Inl CatalogValidation, s1)
                  else
                    let n' = n\<lparr>ns_healthy := True, ns_lease := now + fin_val d, ns_heartbeat := now\<rparr> in
                    (Inr n', s1\<lparr>ct_agents := dset a (g\<lparr>gs_instances := dset i n' (gs_instances g)\<rparr>) (ct_agents s1),
                                ct_revision := ct_revision s1 + 1\<rparr>))))"

text \<open>\<open>expire_instances\<close>: the managed leases first, then every instance past its lease at the time of the call.\<close>

definition lapsed :: "time \<Rightarrow> agent_instance \<Rightarrow> bool" where
  "lapsed now n \<longleftrightarrow> ns_healthy n \<and> is_expired n now"

definition expire_agent :: "time \<Rightarrow> string \<Rightarrow> identity list \<times> catalog \<Rightarrow> identity list \<times> catalog" where
  "expire_agent now a acc =
     (case dget (ct_agents (snd acc)) a of None \<Rightarrow> acc
      | Some g \<Rightarrow>
          if list_ex (\<lambda>(_, n). lapsed now n) (gs_instances g) then
            (fst acc @ map (\<lambda>(i, _). (a, i)) (filter (\<lambda>(_, n). lapsed now n) (gs_instances g)),
             (snd acc)\<lparr>ct_agents := dset a (g\<lparr>gs_instances :=
                  map (map_prod (\<lambda>i. i) (\<lambda>n. if lapsed now n then n\<lparr>ns_healthy := False\<rparr> else n)) (gs_instances g)\<rparr>) (ct_agents (snd acc)),
               ct_revision := ct_revision (snd acc) + 1\<rparr>)
          else acc)"

definition expire_instances :: "catalog \<Rightarrow> identity list \<times> catalog" where
  "expire_instances s =
     (let (now, s0) = now_in s; (expired, s1) = sweep s0 in
      fold (expire_agent now) (map fst (ct_agents s1)) (expired, s1))"

definition set_lifecycle :: "string \<Rightarrow> catalog_state \<Rightarrow> (catalog, catalog_error, unit) prog" where
  "set_lifecycle a l s =
     (let s1 = (if l = CAT_ACTIVE then s else fence a None (if l = CAT_REMOVED then INST_REMOVED else INST_REVOKED) s) in
      case dget (ct_agents s1) a of None \<Rightarrow> (Inl UnknownCatalogAgent, s1)
      | Some g \<Rightarrow> (Inr (), s1\<lparr>ct_agents := dset a (g\<lparr>gs_lifecycle := l\<rparr>) (ct_agents s1), ct_revision := ct_revision s1 + 1\<rparr>))"

definition remove_agent :: "string \<Rightarrow> (catalog, catalog_error, unit) prog" where
  "remove_agent a s =
     (case dget (ct_agents s) a of None \<Rightarrow> (Inl UnknownCatalogAgent, s)
      | Some _ \<Rightarrow>
          let s1 = fence a None INST_REMOVED s in
          (Inr (), s1\<lparr>ct_agents := ddel a (ct_agents s1), ct_revision := ct_revision s1 + 1\<rparr>))"

definition get_agent :: "string \<Rightarrow> catalog \<Rightarrow> catalog_agent option" where
  "get_agent a s = map_option public_record (dget (ct_agents s) a)"

definition eligible_record :: "time \<Rightarrow> catalog_registration \<Rightarrow> catalog_agent option" where
  "eligible_record now g =
     (let ns = filter (\<lambda>n. ns_healthy n \<and> now < ns_lease n) (map snd (dsorted (gs_instances g))) in
      if gs_lifecycle g \<noteq> CAT_ACTIVE \<or> ns = [] then None else Some (catalog_record ns g))"

definition catalog_snapshot_at :: "time \<Rightarrow> catalog \<Rightarrow> catalog_snapshot" where
  "catalog_snapshot_at now s =
     \<lparr>cs_revision = ct_revision s, cs_agents = List.map_filter (\<lambda>(_, g). eligible_record now g) (dsorted (ct_agents s))\<rparr>"

definition catalog_snapshot :: "catalog \<Rightarrow> catalog_snapshot \<times> catalog" where
  "catalog_snapshot s = (let (now, s1) = now_in s in (catalog_snapshot_at now s1, s1))"

definition catalog_providers :: "string \<Rightarrow> catalog \<Rightarrow> catalog_agent list \<times> catalog" where
  "catalog_providers c s =
     (let (snap, s1) = catalog_snapshot s in
      (filter (\<lambda>a. list_ex (\<lambda>k. kc_capability_id k = c) (ca_capabilities a)) (cs_agents snap), s1))"

text \<open>\<open>refresh\<close> with what the provider offers; \<open>load_entries\<close> makes other exceptions \<open>CatalogProviderUnavailableError\<close>.\<close>

definition load_entries :: "(catalog_error + 'e) \<Rightarrow> catalog_error + 'e" where
  "load_entries r = (case r of Inl (CatalogRaised _) \<Rightarrow> Inl CatalogUnavailable | _ \<Rightarrow> r)"

fun register_all :: "catalog_config \<Rightarrow> catalog_entry list \<Rightarrow> (catalog, catalog_error, unit) prog" where
  "register_all cfg [] s = (Inr (), s)"
| "register_all cfg (e # es) s =
     (case register_instance cfg e s of (Inl x, s1) \<Rightarrow> (Inl x, s1) | (Inr _, s1) \<Rightarrow> register_all cfg es s1)"

definition refresh :: "catalog_config \<Rightarrow> (catalog_error + catalog_entry list) \<Rightarrow> (catalog, catalog_error, catalog_snapshot) prog" where
  "refresh cfg offered s =
     (case load_entries offered of Inl x \<Rightarrow> (Inl x, s)
      | Inr es \<Rightarrow> (case register_all cfg es s of (Inl x, s1) \<Rightarrow> (Inl x, s1)
          | (Inr _, s1) \<Rightarrow> (case catalog_snapshot s1 of (snap, s2) \<Rightarrow> (Inr snap, s2))))"

end
