(* ===== verification/Hybrid.thy ===== *)
theory Hybrid
  imports LocalGateway Catalog
begin

text \<open>
  The gateway that composes the local registry with the remote-agent catalog: \<open>core/gateway/_hybrid.py\<close>, with the
  contracts of \<open>core/gateway/_contracts.py\<close> and the selection counters of \<open>core/runtime.py\<close>.  The catalog and the
  counters are part of the rest of the world of the local gateway; the state stored with a binding is local, or the
  snapshot of a remote agent.  The transport is a parameter: what it does to the world is unrestricted.
\<close>

section \<open>Contracts\<close>

datatype selection_mode = MODE_AMBIGUOUS | LOCAL_PREFERRED | REMOTE_PREFERRED | ROUND_ROBIN | STICKY_TASK | STICKY_SESSION

record selection_policy =
  sp_mode :: selection_mode
  sp_failover :: bool

record remote_error =
  te_boundary :: string
  te_uncertain :: bool

record remote_state =
  rm_agent :: catalog_agent
  rm_capability :: catalog_capability
  rm_revision :: int
  rm_policy :: selection_policy

datatype bound_state = LocalState | RemoteState remote_state

text \<open>The catalog and the runtime's counters; \<open>'h\<close> is the rest of the world.\<close>

record 'h hybrid_part =
  hx_catalog :: catalog
  hx_counters :: "(string, int) dict"
  hx_ext :: 'h

type_synonym 'h hybrid_world = "(bound_state, 'h hybrid_part) world"

type_synonym remote_policy = "run_context \<Rightarrow> catalog_agent \<Rightarrow> catalog_capability \<Rightarrow> unit + bool"

text \<open>What \<open>RemoteGatewayTransport.invoke\<close> does with an agent, an instance, a capability and its arguments; \<open>Inl (Inl e)\<close>
  is a \<open>RemoteTransportError\<close>, \<open>Inl (Inr e)\<close> another exception.\<close>

type_synonym ('h, 'e) transport =
  "catalog_agent \<Rightarrow> agent_instance \<Rightarrow> catalog_capability \<Rightarrow> pyval \<Rightarrow> time option \<Rightarrow> 'h hybrid_world
   \<Rightarrow> ((remote_error + 'e) + invocation_result) \<times> 'h hybrid_world"

record hybrid_config =
  hc_gateway :: gateway_config
  hc_remote_policy :: "remote_policy option"
  hc_allowed :: "deployment_type set option"
  hc_selection :: selection_policy
  hc_supported :: "string set"
  hc_boundary :: string

section \<open>Candidates\<close>

record hybrid_match =
  hm_descriptor :: capability_descriptor
  hm_generation :: int
  hm_remote :: "(catalog_agent \<times> catalog_capability) option"

definition hm_source :: "hybrid_match \<Rightarrow> string" where
  "hm_source m = (if hm_remote m = None then ''local'' else ''remote'')"

definition eligible_instances :: "hybrid_config \<Rightarrow> catalog_agent \<Rightarrow> agent_instance list" where
  "eligible_instances h a = filter
     (\<lambda>n. (case hc_allowed h of None \<Rightarrow> True | Some ds \<Rightarrow> ns_deployment n \<in> ds)
        \<and> (ns_transports n = {} \<or> ns_transports n \<inter> hc_supported h \<noteq> {}))
     (sort_key ns_instance_id (ca_instances a))"

record remote_acc =
  ra_matches :: "hybrid_match list"
  ra_denied :: bool
  ra_unsupported :: bool
  ra_none :: bool

definition remote_named :: "discovery_query \<Rightarrow> capability_descriptor \<Rightarrow> bool" where
  "remote_named q d \<longleftrightarrow> named_by q d \<and> (case dq_version q of None \<Rightarrow> True | Some c \<Rightarrow> c = [] \<or> version_matches (cd_agent_version d) c)"

text \<open>One capability of one agent.\<close>

definition match_remote ::
  "library \<Rightarrow> hybrid_config \<Rightarrow> run_context \<Rightarrow> discovery_query \<Rightarrow> catalog_agent \<times> catalog_capability \<Rightarrow> remote_acc
   \<Rightarrow> (run_state, match_error + py_error, remote_acc) prog" where
  "match_remote li h x q ak acc u =
     (let a = fst ak; k = snd ak in
      case to_capability_descriptor (li_digest li) (li_float li) (ca_agent_id a) (kc_version k) k of
        Inl e \<Rightarrow> (Inl (Inr e), u)
      | Inr d \<Rightarrow>
          if \<not> remote_named q d then (Inr acc, u)
          else (case schemas_fit (li_float li) q d of
              None \<Rightarrow> (Inr (acc\<lparr>ra_unsupported := True\<rparr>), u)
            | Some fit \<Rightarrow>
                if \<not> fit then (Inr acc, u)
                else if \<not> dq_include_approval q \<and> cd_approval_required d then (Inr acc, u)
                else if eligible_instances h a = [] then (Inr (acc\<lparr>ra_none := True\<rparr>), u)
                else (case permits (gc_policy (hc_gateway h)) x True d u of
                    (Inl _, u') \<Rightarrow> (Inl (Inl PolicyEvaluationError), u')
                  | (Inr ok, u') \<Rightarrow>
                      if \<not> ok then (Inr (acc\<lparr>ra_denied := True\<rparr>), u')
                      else (case (case hc_remote_policy h of None \<Rightarrow> Inr True | Some p \<Rightarrow> p x a k) of
                          Inl _ \<Rightarrow> (Inl (Inl PolicyEvaluationError), u')
                        | Inr permitted \<Rightarrow>
                            if \<not> permitted then (Inr (acc\<lparr>ra_denied := True\<rparr>), u')
                            else (Inr (acc\<lparr>ra_matches := ra_matches acc
                                @ [\<lparr>hm_descriptor = d, hm_generation = ca_generation a, hm_remote = Some (a, k)\<rparr>]\<rparr>), u')))))"

fun match_remote_all ::
  "library \<Rightarrow> hybrid_config \<Rightarrow> run_context \<Rightarrow> discovery_query \<Rightarrow> (catalog_agent \<times> catalog_capability) list \<Rightarrow> remote_acc
   \<Rightarrow> (run_state, match_error + py_error, remote_acc) prog" where
  "match_remote_all li h x q [] acc u = (Inr acc, u)"
| "match_remote_all li h x q (ak # rest) acc u =
     (case match_remote li h x q ak acc u of
        (Inl e, u') \<Rightarrow> (Inl e, u')
      | (Inr acc', u') \<Rightarrow> match_remote_all li h x q rest acc' u')"

definition offered_remotely :: "discovery_query \<Rightarrow> catalog_snapshot \<Rightarrow> (catalog_agent \<times> catalog_capability) list" where
  "offered_remotely q snap = concat (map (\<lambda>a. map (Pair a) (ca_capabilities a))
     (filter (\<lambda>a. case dq_agent_id q of None \<Rightarrow> True | Some i \<Rightarrow> ca_agent_id a = i) (cs_agents snap)))"

definition take_snapshot :: "'h hybrid_world \<Rightarrow> catalog_snapshot \<times> 'h hybrid_world" where
  "take_snapshot w = (case catalog_snapshot (hx_catalog (wo_ext w)) of
     (snap, c) \<Rightarrow> (snap, w\<lparr>wo_ext := (wo_ext w)\<lparr>hx_catalog := c\<rparr>\<rparr>))"

definition remote_candidates ::
  "library \<Rightarrow> hybrid_config \<Rightarrow> run_context \<Rightarrow> discovery_query \<Rightarrow> 'h hybrid_world
   \<Rightarrow> ((match_error + py_error) + int \<times> remote_acc) \<times> 'h hybrid_world" where
  "remote_candidates li h x q w =
     (if \<not> query_schemas_valid q then (Inl (Inl UnsupportedSchemaError), w)
      else (case take_snapshot w of (snap, w1) \<Rightarrow>
        (case match_remote_all li h x q (offered_remotely q snap)
            \<lparr>ra_matches = [], ra_denied = False, ra_unsupported = False, ra_none = False\<rparr> (wo_run w1) of
           (Inl e, u) \<Rightarrow> (Inl e, w1\<lparr>wo_run := u\<rparr>)
         | (Inr acc, u) \<Rightarrow> (Inr (cs_revision snap, acc), w1\<lparr>wo_run := u\<rparr>))))"

definition hybrid_key :: "hybrid_match \<Rightarrow> string \<times> string \<times> string \<times> string \<times> string" where
  "hybrid_key m = (let d = hm_descriptor m in
     (cd_capability_id d, cd_agent_id d, cd_agent_version d, cd_schema_digest d, hm_source m))"

definition local_match :: "capability_descriptor \<times> int \<Rightarrow> hybrid_match" where
  "local_match dg = \<lparr>hm_descriptor = fst dg, hm_generation = snd dg, hm_remote = None\<rparr>"

record candidates =
  hs_revision :: int
  hs_matches :: "hybrid_match list"
  hs_denied :: bool
  hs_unsupported :: bool
  hs_none :: bool

definition hybrid_candidates ::
  "library \<Rightarrow> hybrid_config \<Rightarrow> run_context \<Rightarrow> discovery_query \<Rightarrow> 'h hybrid_world
   \<Rightarrow> ((match_error + py_error) + candidates) \<times> 'h hybrid_world" where
  "hybrid_candidates li h x q w =
     (case find_matches li (hc_gateway h) x q w of
        (Inl e, w1) \<Rightarrow> (Inl (Inl e), w1)
      | (Inr (v, ms, denied, unsupported), w1) \<Rightarrow>
          (case remote_candidates li h x q w1 of
             (Inl e, w2) \<Rightarrow> (Inl e, w2)
           | (Inr (v', acc), w2) \<Rightarrow>
               (Inr \<lparr>hs_revision = max v v', hs_matches = sort_key hybrid_key (map local_match ms @ ra_matches acc),
                     hs_denied = (denied \<or> ra_denied acc), hs_unsupported = (unsupported \<or> ra_unsupported acc),
                     hs_none = ra_none acc\<rparr>, w2)))"

section \<open>Discovery and selection\<close>

definition issue_match ::
  "library \<Rightarrow> hybrid_config \<Rightarrow> int \<Rightarrow> hybrid_match \<Rightarrow> 'h hybrid_world \<Rightarrow> capability_binding \<times> 'h hybrid_world" where
  "issue_match li h v m w =
     (case issue (li_mac li) (li_float li) (gc_authority (hc_gateway h)) (hm_descriptor m) v (hm_generation m)
         (case hm_remote m of None \<Rightarrow> LocalState
          | Some (a, k) \<Rightarrow> RemoteState \<lparr>rm_agent = a, rm_capability = k, rm_revision = v, rm_policy = hc_selection h\<rparr>)
         (wo_bindings w) of
        (b, s) \<Rightarrow> (b, w\<lparr>wo_bindings := s\<rparr>))"

fun issue_matches ::
  "library \<Rightarrow> hybrid_config \<Rightarrow> int \<Rightarrow> hybrid_match list \<Rightarrow> 'h hybrid_world \<Rightarrow> bound_capability list \<times> 'h hybrid_world" where
  "issue_matches li h v [] w = ([], w)"
| "issue_matches li h v (m # ms) w =
     (let (b, w1) = issue_match li h v m w; (bs, w2) = issue_matches li h v ms w1 in
      (\<lparr>bc_descriptor = hm_descriptor m, bc_binding = b\<rparr> # bs, w2))"

definition nothing_found :: "candidates \<Rightarrow> gateway_failure" where
  "nothing_found c = (if hs_none c
     then \<lparr>gf_code = NO_ELIGIBLE_INSTANCE, gf_message = ''No eligible runtime instance matched the query''\<rparr>
     else empty_failure (hs_denied c) (hs_unsupported c))"

definition hybrid_discover ::
  "library \<Rightarrow> hybrid_config \<Rightarrow> nat \<Rightarrow> run_context \<Rightarrow> discovery_query \<Rightarrow> ('h hybrid_world, 'e gateway_error, discovery_result) prog" where
  "hybrid_discover li h t x q w =
     (if \<not> active t x w then (Inl GatewayInactive, w)
      else (case hybrid_candidates li h x q w of
          (Inl (Inr e), w1) \<Rightarrow> (Inl (GatewayRaised e), w1)
        | (Inl (Inl e), w1) \<Rightarrow> (Inr \<lparr>dr_revision = max (rg_revision (wo_registry w1)) (ct_revision (hx_catalog (wo_ext w1))),
              dr_candidates = [], dr_failure = Some (match_failure e), dr_truncated = False\<rparr>, w1)
        | (Inr c, w1) \<Rightarrow>
            (let limit = nat (min (dq_limit q) (gc_max_results (hc_gateway h)));
                 (cands, w2) = issue_matches li h (hs_revision c) (take limit (hs_matches c)) w1 in
             (Inr \<lparr>dr_revision = hs_revision c, dr_candidates = cands,
                dr_failure = (if cands = [] then Some (nothing_found c) else None),
                dr_truncated = (limit < length (hs_matches c) \<or> (hs_unsupported c \<and> cands \<noteq> []))\<rparr>, w2))))"

definition hybrid_discover_tools ::
  "library \<Rightarrow> hybrid_config \<Rightarrow> nat \<Rightarrow> run_context \<Rightarrow> discovery_query \<Rightarrow> ('h hybrid_world, 'e gateway_error, tool_discovery_result) prog" where
  "hybrid_discover_tools li h t x q w =
     (case hybrid_discover li h t x q w of
        (Inl e, w1) \<Rightarrow> (Inl e, w1)
      | (Inr r, w1) \<Rightarrow> (map_sum GatewayRaised id (project_tools (li_digest li) (li_float li) (gc_max_bytes (hc_gateway h)) r), w1))"

text \<open>\<open>next_gateway_selection_index\<close>, for a positive size.\<close>

definition next_selection_index :: "string \<Rightarrow> nat \<Rightarrow> 'h hybrid_world \<Rightarrow> nat \<times> 'h hybrid_world" where
  "next_selection_index key n w =
     (let i = (case dget (hx_counters (wo_ext w)) key of None \<Rightarrow> 0 | Some i \<Rightarrow> i) in
      (nat (i mod int n), w\<lparr>wo_ext := (wo_ext w)\<lparr>hx_counters := dset key (i + 1) (hx_counters (wo_ext w))\<rparr>\<rparr>))"

definition selection_key :: "(pyfloat \<Rightarrow> string) \<Rightarrow> discovery_query \<Rightarrow> string option" where
  "selection_key fr q = map_option (\<lambda>t. ''candidate'' @ [CHR 0x00] @ t) (canonical_json fr (VDict
     [(''agent_id'', opt_value (dq_agent_id q)), (''capability_ids'', tags_list (dq_capability_ids q)),
      (''tags'', tags_list (dq_tags q)), (''version_constraint'', opt_value (dq_version q)),
      (''input_schema'', thaw_option (dq_input_schema q)), (''output_schema'', thaw_option (dq_output_schema q))]))"

text \<open>The first eight bytes of the SHA-256 digest, as a number: the first sixteen digits of its hexadecimal text.\<close>

definition hex_value :: "char \<Rightarrow> nat" where
  "hex_value c = (let n = of_char c :: nat in if 97 \<le> n then n - 87 else n - 48)"

definition digest_number :: "string \<Rightarrow> nat" where
  "digest_number t = foldl (\<lambda>n c. 16 * n + hex_value c) 0 (take 16 t)"

definition sticky_key :: "run_context \<Rightarrow> bool \<Rightarrow> string" where
  "sticky_key x task_scoped =
     (let task = (case rx_authorization x of None \<Rightarrow> [] | Some a \<Rightarrow> ac_task_id a) in
      if \<not> task_scoped then rx_correlation_id x else if task \<noteq> [] then task else rx_run_id x)"

definition sticky_index :: "library \<Rightarrow> run_context \<Rightarrow> nat \<Rightarrow> bool \<Rightarrow> nat" where
  "sticky_index li x n task_scoped = digest_number (li_digest li (sticky_key x task_scoped)) mod n"

definition select_match ::
  "library \<Rightarrow> hybrid_config \<Rightarrow> run_context \<Rightarrow> discovery_query \<Rightarrow> hybrid_match list \<Rightarrow> 'h hybrid_world
   \<Rightarrow> (py_error + hybrid_match option) \<times> 'h hybrid_world" where
  "select_match li h x q ms w =
     (case sp_mode (hc_selection h) of
        MODE_AMBIGUOUS \<Rightarrow> (Inr None, w)
      | LOCAL_PREFERRED \<Rightarrow> (Inr (Some (hd (sort_key (\<lambda>m. (hm_source m \<noteq> ''local'', cd_agent_id (hm_descriptor m))) ms))), w)
      | REMOTE_PREFERRED \<Rightarrow> (Inr (Some (hd (sort_key (\<lambda>m. (hm_source m \<noteq> ''remote'', cd_agent_id (hm_descriptor m))) ms))), w)
      | ROUND_ROBIN \<Rightarrow> (case selection_key (li_float li) q of None \<Rightarrow> (Inl TypeError, w)
          | Some key \<Rightarrow> (case next_selection_index key (length ms) w of (i, w1) \<Rightarrow> (Inr (Some (ms ! i)), w1)))
      | STICKY_TASK \<Rightarrow> (Inr (Some (ms ! sticky_index li x (length ms) True)), w)
      | STICKY_SESSION \<Rightarrow> (Inr (Some (ms ! sticky_index li x (length ms) False)), w))"

definition selected_match ::
  "library \<Rightarrow> hybrid_config \<Rightarrow> candidates \<Rightarrow> hybrid_match \<Rightarrow> 'h hybrid_world \<Rightarrow> selection_outcome \<times> 'h hybrid_world" where
  "selected_match li h c m w =
     (case issue_match li h (hs_revision c) m w of (b, w1) \<Rightarrow>
        (\<lparr>so_status = SELECTED, so_binding = Some b, so_descriptor = Some (hm_descriptor m), so_candidates = [], so_failure = None,
          so_truncated = hs_unsupported c\<rparr>, w1))"

definition preferred_hybrid :: "gateway_config \<Rightarrow> hybrid_match list \<Rightarrow> hybrid_match option" where
  "preferred_hybrid g ms =
     (case remdups (map (cd_capability_id \<circ> hm_descriptor) ms) of
        [c] \<Rightarrow> (case dget (gc_preferred g) c of None \<Rightarrow> None
           | Some a \<Rightarrow> List.find (\<lambda>m. cd_agent_id (hm_descriptor m) = a) ms)
      | _ \<Rightarrow> None)"

definition hybrid_select ::
  "library \<Rightarrow> hybrid_config \<Rightarrow> nat \<Rightarrow> run_context \<Rightarrow> discovery_query \<Rightarrow> ('h hybrid_world, 'e gateway_error, selection_outcome) prog" where
  "hybrid_select li h t x q w =
     (if \<not> active t x w then (Inl GatewayInactive, w)
      else (case hybrid_candidates li h x q w of
          (Inl (Inr e), w1) \<Rightarrow> (Inl (GatewayRaised e), w1)
        | (Inl (Inl e), w1) \<Rightarrow> (Inr (failed_selection SEL_FAILED (match_failure e)), w1)
        | (Inr c, w1) \<Rightarrow>
            (case hs_matches c of
               [] \<Rightarrow> (Inr (failed_selection (if hs_none c \<or> hs_unsupported c then SEL_FAILED
                        else if hs_denied c then SEL_DENIED else SEL_NO_MATCH) (nothing_found c)), w1)
             | [m] \<Rightarrow> (case selected_match li h c m w1 of (s, w2) \<Rightarrow> (Inr s, w2))
             | _ \<Rightarrow>
                 (case preferred_hybrid (hc_gateway h) (hs_matches c) of
                    Some m \<Rightarrow> (case selected_match li h c m w1 of (s, w2) \<Rightarrow> (Inr s, w2))
                  | None \<Rightarrow> (case select_match li h x q (hs_matches c) w1 of
                      (Inl e, w2) \<Rightarrow> (Inl (GatewayRaised e), w2)
                    | (Inr (Some m), w2) \<Rightarrow> (case selected_match li h c m w2 of (s, w3) \<Rightarrow> (Inr s, w3))
                    | (Inr None, w2) \<Rightarrow>
                        (Inr \<lparr>so_status = SEL_AMBIGUOUS, so_binding = None, so_descriptor = None,
                           so_candidates = map hm_descriptor (take (nat (gc_max_results (hc_gateway h))) (hs_matches c)),
                           so_failure = Some \<lparr>gf_code = AMBIGUOUS,
                             gf_message = ''Several eligible capabilities matched without a configured selection''\<rparr>,
                           so_truncated = (nat (gc_max_results (hc_gateway h)) < length (hs_matches c) \<or> hs_unsupported c)\<rparr>, w2))))))"

section \<open>Remote invocation\<close>

definition order_instances ::
  "library \<Rightarrow> run_context \<Rightarrow> catalog_agent \<Rightarrow> catalog_capability \<Rightarrow> selection_mode \<Rightarrow> agent_instance list \<Rightarrow> 'h hybrid_world
   \<Rightarrow> agent_instance list \<times> 'h hybrid_world" where
  "order_instances li x a k mode ns w =
     (case mode of
        ROUND_ROBIN \<Rightarrow> (case next_selection_index (''instance'' @ [CHR 0x00] @ ca_agent_id a @ [CHR 0x00] @ kc_name k) (length ns) w of
            (i, w1) \<Rightarrow> (drop i ns @ take i ns, w1))
      | STICKY_TASK \<Rightarrow> (let i = sticky_index li x (length ns) True in (drop i ns @ take i ns, w))
      | STICKY_SESSION \<Rightarrow> (let i = sticky_index li x (length ns) False in (drop i ns @ take i ns, w))
      | _ \<Rightarrow> (ns, w))"

definition boundary_message :: "string \<Rightarrow> capability_binding \<Rightarrow> string" where
  "boundary_message boundary b = ''Remote transport boundary '' @ [CHR 0x27] @ boundary @ [CHR 0x27] @ '' failed for ''
     @ bd_agent_id b @ '':'' @ bd_capability_id b"

text \<open>The loop over the ordered instances; the end of the list is not reached, since the last failure is not retried.\<close>

fun try_instances ::
  "('h, 'e) transport \<Rightarrow> hybrid_config \<Rightarrow> run_context \<Rightarrow> catalog_agent \<Rightarrow> catalog_capability \<Rightarrow> capability_binding \<Rightarrow> pyval
   \<Rightarrow> time option \<Rightarrow> bool \<Rightarrow> model_call list \<Rightarrow> invocation_metadata option \<Rightarrow> agent_instance list
   \<Rightarrow> ('h hybrid_world, 'e gateway_error, invocation_result) prog" where
  "try_instances tr h x a k b args timeout failover prior md [] w =
     (Inr (InvocationFailure (rx_correlation_id x) (boundary_message (hc_boundary h) b) ''RemoteTransportError'' md None), w)"
| "try_instances tr h x a k b args timeout failover prior md (n # ns) w =
     (case tr a n k args timeout w of
        (Inl (Inl e), w1) \<Rightarrow>
          if failover \<and> \<not> te_uncertain e \<and> ns \<noteq> []
          then try_instances tr h x a k b args timeout failover prior md ns w1
          else (Inr (InvocationFailure (rx_correlation_id x) (boundary_message (te_boundary e) b) ''RemoteTransportError'' md None), w1)
      | (Inl (Inr e), w1) \<Rightarrow> (Inl (RuntimeRaised e), w1)
      | (Inr res, w1) \<Rightarrow>
          (Inr (case result_metadata res of None \<Rightarrow> res
                | Some m \<Rightarrow> if prior = [] then res else replace_metadata (Some (with_prior_model_calls prior m)) res), w1))"

text \<open>The part that reserves the budget, finds and orders the instances and dispatches.\<close>

definition dispatch_remote ::
  "('h, 'e) transport \<Rightarrow> library \<Rightarrow> hybrid_config \<Rightarrow> run_context \<Rightarrow> catalog_agent \<Rightarrow> catalog_capability \<Rightarrow> selection_policy
   \<Rightarrow> capability_binding \<Rightarrow> pyval \<Rightarrow> time option \<Rightarrow> int \<Rightarrow> pyfloat \<Rightarrow> invocation_metadata option
   \<Rightarrow> ('h hybrid_world, 'e gateway_error, invocation_result) prog" where
  "dispatch_remote tr li h x a k sp b args timeout tokens cost md w =
     (let corr = rx_correlation_id x in
      case reserve 1 tokens cost (ru_budget (wo_run w)) of
        (Inl e, _) \<Rightarrow> (Inl (GatewayRaised e), w)
      | (Inr ok, bud) \<Rightarrow>
          if \<not> ok then (Inr (InvocationBudgetExhausted corr ''calls, tokens, or cost'' md), w)
          else
            let w1 = w\<lparr>wo_run := (wo_run w)\<lparr>ru_budget := bud\<rparr>\<rparr>; ns = eligible_instances h a in
            if ns = [] then (Inr (InvocationTargetUnavailable corr (bd_agent_id b) (bd_capability_id b) (failure_value NO_ELIGIBLE_INSTANCE) md), w1)
            else (case order_instances li x a k (sp_mode sp) ns w1 of (ordered, w2) \<Rightarrow>
              try_instances tr h x a k b args timeout (sp_failover sp) (ru_calls (wo_run w2)) md ordered w2))"

definition invoke_remote ::
  "('h, 'e) transport \<Rightarrow> library \<Rightarrow> hybrid_config \<Rightarrow> run_context \<Rightarrow> remote_state \<Rightarrow> capability_binding \<Rightarrow> pyval \<Rightarrow> time option
   \<Rightarrow> int \<Rightarrow> pyfloat \<Rightarrow> ('h hybrid_world, 'e gateway_error, invocation_result) prog" where
  "invoke_remote tr li h x st b args timeout tokens cost w =
     (let corr = rx_correlation_id x; md = plain_metadata x (wo_run w); i = bd_agent_id b; c = bd_capability_id b in
      case get_agent i (hx_catalog (wo_ext w)) of
        None \<Rightarrow> (Inr (InvocationStaleBinding corr i c md), w)
      | Some a \<Rightarrow>
          if ca_lifecycle a \<noteq> CAT_ACTIVE then (Inr (InvocationTargetUnavailable corr i c (catalog_state_value (ca_lifecycle a)) md), w)
          else (case List.find (\<lambda>k. kc_name k = c) (ca_capabilities a) of
              None \<Rightarrow> (Inr (InvocationStaleBinding corr i c md), w)
            | Some k \<Rightarrow>
                if ca_generation a \<noteq> ca_generation (rm_agent st) then (Inr (InvocationStaleBinding corr i c md), w)
                else (case to_capability_descriptor (li_digest li) (li_float li) (ca_agent_id a) (kc_version k) k of
                    Inl e \<Rightarrow> (Inl (GatewayRaised e), w)
                  | Inr d \<Rightarrow>
                      if cd_schema_digest d \<noteq> bd_schema_digest b then (Inr (InvocationSchemaMismatch corr i c md), w)
                      else (case permits (gc_policy (hc_gateway h)) x True d (wo_run w) of
                          (Inl _, u) \<Rightarrow> (Inr (InvocationAuthorizationFailure corr (failure_value POLICY_EVALUATION_FAILED) md), w\<lparr>wo_run := u\<rparr>)
                        | (Inr ok, u) \<Rightarrow>
                            if \<not> ok then (Inr (InvocationAuthorizationFailure corr (failure_value DISCOVERY_DENIED) md), w\<lparr>wo_run := u\<rparr>)
                            else (case (case hc_remote_policy h of None \<Rightarrow> Inr True | Some p \<Rightarrow> p x a k) of
                                Inl _ \<Rightarrow> (Inr (InvocationAuthorizationFailure corr (failure_value POLICY_EVALUATION_FAILED) md), w\<lparr>wo_run := u\<rparr>)
                              | Inr permitted \<Rightarrow>
                                  if \<not> permitted then (Inr (InvocationAuthorizationFailure corr (failure_value DISCOVERY_DENIED) md), w\<lparr>wo_run := u\<rparr>)
                                  else (case context_remaining_timeout x u of
                                      (Inl _, u2) \<Rightarrow> (Inr (InvocationTimeout corr 0 md), w\<lparr>wo_run := u2\<rparr>)
                                    | (Inr _, u2) \<Rightarrow>
                                        dispatch_remote tr li h x a k (rm_policy st) b args timeout tokens cost md (w\<lparr>wo_run := u2\<rparr>)))))))"

definition hybrid_resolved ::
  "('h, 'e) transport \<Rightarrow> (bound_state, 'h hybrid_part, 'e) runtime_invoke \<Rightarrow> library \<Rightarrow> hybrid_config \<Rightarrow> run_context \<Rightarrow> capability_binding
   \<Rightarrow> bound_state \<Rightarrow> pyval \<Rightarrow> time option \<Rightarrow> int \<Rightarrow> pyfloat \<Rightarrow> ('h hybrid_world, 'e gateway_error, invocation_result) prog" where
  "hybrid_resolved tr rt li h x b st args timeout tokens cost w =
     (case st of RemoteState r \<Rightarrow> invoke_remote tr li h x r b args timeout tokens cost w
      | LocalState \<Rightarrow> invoke_resolved rt (hc_gateway h) x b args timeout tokens cost w)"

text \<open>The inherited \<open>invoke\<close>, over what it does with a resolved binding.\<close>

definition checked_invoke ::
  "('s \<Rightarrow> (('s, 'g) world, 'e gateway_error, invocation_result) prog) \<Rightarrow> library \<Rightarrow> gateway_config \<Rightarrow> nat \<Rightarrow> run_context
   \<Rightarrow> capability_binding \<Rightarrow> (('s, 'g) world, 'e gateway_error, invocation_result) prog" where
  "checked_invoke resolved li g t x b w =
     (if \<not> active t x w then (Inl GatewayInactive, w)
      else
        let corr = rx_correlation_id x; md = plain_metadata x (wo_run w) in
        case resolve (li_mac li) (li_float li) (gc_authority g) b (wo_bindings w) of
          (Inl code, s) \<Rightarrow> (Inr (InvocationBindingFailure corr (failure_value code) md), w\<lparr>wo_bindings := s\<rparr>)
        | (Inr st, s) \<Rightarrow>
            let w1 = w\<lparr>wo_bindings := s\<rparr> in
            if (bd_agent_id b, bd_capability_id b) \<in> set (rx_path x)
            then (Inr (InvocationDelegationFailure corr (failure_value CYCLE_DETECTED) (rx_path x) md), w1)
            else (case context_budget x (wo_run w1) of (bud, u) \<Rightarrow>
              let w2 = w1\<lparr>wo_run := u\<rparr> in
              if rb_depth bud < 1 then (Inr (InvocationDelegationFailure corr (failure_value DEPTH_EXCEEDED) (rx_path x) md), w2)
              else resolved st w2))"

lemma gateway_invoke_checked:
  "gateway_invoke rt li g t x b args timeout tokens cost = checked_invoke (\<lambda>_. invoke_resolved rt g x b args timeout tokens cost) li g t x b"
  by (rule ext) (simp add: gateway_invoke_def checked_invoke_def)

definition hybrid_invoke ::
  "('h, 'e) transport \<Rightarrow> (bound_state, 'h hybrid_part, 'e) runtime_invoke \<Rightarrow> library \<Rightarrow> hybrid_config \<Rightarrow> nat \<Rightarrow> run_context
   \<Rightarrow> capability_binding \<Rightarrow> pyval \<Rightarrow> time option \<Rightarrow> int \<Rightarrow> pyfloat \<Rightarrow> ('h hybrid_world, 'e gateway_error, invocation_result) prog" where
  "hybrid_invoke tr rt li h t x b args timeout tokens cost =
     checked_invoke (\<lambda>st. hybrid_resolved tr rt li h x b st args timeout tokens cost) li (hc_gateway h) t x b"

end
