(* ===== verification/CatalogSafety.thy ===== *)
theory CatalogSafety
  imports Catalog
begin

text \<open>
  What the operations of the catalog keep.  Every operation comes down to a sequence of the atomic updates
  \<open>catalog_update\<close>, each with the conditions under which the code performs it; \<open>catalog_invariant\<close> is the contract of
  a property that the updates keep, and its instances are the invariants of the ledger.
\<close>

section \<open>Atomic updates\<close>

definition no_live :: "string \<Rightarrow> catalog \<Rightarrow> bool" where
  "no_live a s \<longleftrightarrow> (\<forall>k m. dget (ct_managed s) k = Some m \<longrightarrow> fst k = a \<longrightarrow> \<not> live_state (mg_state m))"

definition unhealthy :: "managed \<Rightarrow> agent_instance" where
  "unhealthy m = (mg_instance m)\<lparr>ns_healthy := False\<rparr>"

definition put_agent :: "string \<Rightarrow> catalog_registration \<Rightarrow> catalog \<Rightarrow> catalog" where
  "put_agent a g s = s\<lparr>ct_agents := dset a g (ct_agents s), ct_revision := ct_revision s + 1\<rparr>"

definition lapse :: "time \<Rightarrow> catalog_registration \<Rightarrow> catalog_registration" where
  "lapse now g = g\<lparr>gs_instances :=
     map (map_prod (\<lambda>i. i) (\<lambda>n. if lapsed now n then n\<lparr>ns_healthy := False\<rparr> else n)) (gs_instances g)\<rparr>"

definition add_receipt :: "string \<times> string \<times> string \<Rightarrow> receipt \<Rightarrow> catalog \<Rightarrow> catalog" where
  "add_receipt key rp s = s\<lparr>ct_receipts := dset key rp (ct_receipts s)\<rparr>"

inductive catalog_update :: "catalog_config \<Rightarrow> catalog \<Rightarrow> catalog \<Rightarrow> bool" for cfg where
  u_clock: "catalog_update cfg s (s\<lparr>ct_clock := c\<rparr>)"
| u_fence: "dget (ct_managed s) k = Some m \<Longrightarrow> live_state (mg_state m) \<Longrightarrow> \<not> live_state st \<Longrightarrow>
    catalog_update cfg s (publish k m st (unhealthy m) s)"
| u_drain: "dget (ct_managed s) k = Some m \<Longrightarrow> mg_state m = INST_ACTIVE \<Longrightarrow>
    catalog_update cfg s (publish k m INST_DRAINING (unhealthy m) s)"
| u_renew: "dget (ct_managed s) k = Some m \<Longrightarrow> mg_state m = INST_ACTIVE \<Longrightarrow>
    catalog_update cfg s (publish k m INST_ACTIVE ((mg_instance m)\<lparr>ns_lease := l, ns_heartbeat := h\<rparr>) s)"
| u_pending: "dget (ct_managed s) k = Some m \<Longrightarrow> catalog_update cfg s (s\<lparr>ct_pending := dset k r (ct_pending s)\<rparr>)"
| u_reported: "catalog_update cfg s (s\<lparr>ct_pending := []\<rparr>)"
| u_receipt: "dget (ct_receipts s) key = None \<Longrightarrow> int (length (ct_receipts s)) < cc_capacity cfg \<Longrightarrow>
    mr_state (rp_result rp) = Some st \<Longrightarrow> live_state st \<Longrightarrow> catalog_update cfg s (add_receipt key rp s)"
| u_ended: "dget (ct_managed s) k = Some m \<Longrightarrow> live_state (mg_state m) \<Longrightarrow> \<not> live_state st \<Longrightarrow>
    dget (ct_receipts s) key = None \<Longrightarrow> rp_identity rp = k \<Longrightarrow> mr_state (rp_result rp) = Some st \<Longrightarrow>
    catalog_update cfg s (add_receipt key rp (publish k m st (unhealthy m) s))"
| u_admit: "dget (ct_managed s) (a, i) = None \<Longrightarrow> gs_agent_id g = a \<Longrightarrow> ns_instance_id n = i \<Longrightarrow>
    gs_instances g = dset i n (case dget (ct_agents s) a of None \<Rightarrow> [] | Some old \<Rightarrow> gs_instances old) \<Longrightarrow>
    (\<And>old. dget (ct_agents s) a = Some old \<Longrightarrow> gs_lifecycle g = gs_lifecycle old \<and> (no_live a s \<or> gs_owner g = gs_owner old)) \<Longrightarrow>
    catalog_update cfg s (put_agent a g s)"
| u_manage: "dget (ct_managed s) (a, i) = None \<Longrightarrow> int (length (ct_managed s)) < cc_capacity cfg \<Longrightarrow>
    dget (ct_agents s) a = Some g \<Longrightarrow> gs_owner g = mg_owner m \<Longrightarrow> gs_lifecycle g = CAT_ACTIVE \<Longrightarrow> mg_state m = INST_ACTIVE \<Longrightarrow>
    mg_instance m = n \<Longrightarrow> ns_instance_id n = i \<Longrightarrow> mg_generation m = 1 \<Longrightarrow>
    catalog_update cfg s (s\<lparr>ct_agents := dset a (g\<lparr>gs_instances := dset i n (gs_instances g)\<rparr>) (ct_agents s),
        ct_managed := dset (a, i) m (ct_managed s), ct_next := Suc (ct_next s)\<rparr>)"
| u_heartbeat: "dget (ct_managed s) (a, i) = None \<Longrightarrow> dget (ct_agents s) a = Some g \<Longrightarrow> dget (gs_instances g) i = Some old \<Longrightarrow>
    ns_instance_id n = ns_instance_id old \<Longrightarrow>
    catalog_update cfg s (put_agent a (g\<lparr>gs_instances := dset i n (gs_instances g)\<rparr>) s)"
| u_lapse: "dget (ct_agents s) a = Some g \<Longrightarrow> catalog_update cfg s (put_agent a (lapse now g) s)"
| u_lifecycle: "dget (ct_agents s) a = Some g \<Longrightarrow> l = CAT_ACTIVE \<or> no_live a s \<Longrightarrow>
    catalog_update cfg s (put_agent a (g\<lparr>gs_lifecycle := l\<rparr>) s)"
| u_remove: "no_live a s \<Longrightarrow>
    catalog_update cfg s (s\<lparr>ct_agents := ddel a (ct_agents s), ct_revision := ct_revision s + 1\<rparr>)"

definition updates :: "catalog_config \<Rightarrow> catalog \<Rightarrow> catalog \<Rightarrow> bool" where
  "updates cfg = (catalog_update cfg)\<^sup>*\<^sup>*"

lemma updates_refl [simp]: "updates cfg s s"
  by (simp add: updates_def)

lemma updates_trans: "updates cfg s t \<Longrightarrow> updates cfg t u \<Longrightarrow> updates cfg s u"
  unfolding updates_def by simp

lemma updates_one: "catalog_update cfg s t \<Longrightarrow> updates cfg s t"
  unfolding updates_def by (rule r_into_rtranclp)

lemma updates_then: "updates cfg s t \<Longrightarrow> catalog_update cfg t u \<Longrightarrow> updates cfg s u"
  using updates_trans updates_one by blast

text \<open>An operation that folds over identities.\<close>

lemma updates_fold:
  "(\<And>x s. updates cfg s (f x s)) \<Longrightarrow> updates cfg s (fold f xs s)"
  by (induction xs arbitrary: s) (auto intro: updates_trans)

lemma updates_fold_snd:
  assumes "\<And>x acc. updates cfg (snd acc) (snd (f x acc))"
  shows "updates cfg (snd acc) (snd (fold f xs acc))"
proof (induction xs arbitrary: acc)
  case (Cons x xs)
  show ?case using updates_trans[OF assms[of acc x] Cons.IH[of "f x acc"]] by simp
qed simp

lemma updates_now: "updates cfg s (snd (now_in s))"
  by (simp add: now_in_def tick_def updates_one u_clock)

lemma publish_managed [simp]:
  "ct_managed (publish k m st n s) = dset k (m\<lparr>mg_state := st, mg_instance := n, mg_generation := mg_generation m + 1\<rparr>) (ct_managed s)"
  by (simp add: publish_def Let_def split: option.splits)

lemma publish_receipts [simp]: "ct_receipts (publish k m st n s) = ct_receipts s" "ct_pending (publish k m st n s) = ct_pending s"
  by (simp_all add: publish_def Let_def split: option.splits)

section \<open>The operations are sequences of updates\<close>

lemma expire_one_updates:
  assumes "dget (ct_managed s) k = Some m"
  shows "updates cfg s (snd (expire_one k m now s))"
proof (cases "\<not> live_state (mg_state m) \<or> now < ns_lease (mg_instance m)")
  case False
  let ?s1 = "publish k m INST_EXPIRED (unhealthy m) s"
  from False have "updates cfg s ?s1" by (intro updates_one u_fence[OF assms]) (simp_all add: live_state_def)
  then have "updates cfg s (?s1\<lparr>ct_pending := dset k r (ct_pending ?s1)\<rparr>)" for r
    by (rule updates_then[OF _ u_pending]) simp
  with False show ?thesis by (simp add: expire_one_def Let_def unhealthy_def)
qed (auto simp: expire_one_def)

lemma check_managed_updates:
  assumes "dget (ct_managed s) k = Some m"
  shows "updates cfg s (snd (check_managed cmd k m s))"
proof -
  have "updates cfg s (snd (expire_one k m (fst (now_in s)) (snd (now_in s))))"
    using updates_trans[OF updates_now expire_one_updates] assms by (simp add: now_in_def tick_def)
  then show ?thesis by (auto simp: check_managed_def Let_def split: option.splits prod.splits)
qed

lemma lookup_updates: "updates cfg s (snd (lookup_receipt cmd s))"
proof -
  have "snd (lookup_receipt cmd s) = s \<or> (\<exists>m. dget (ct_managed s) (command_identity cmd) = Some m
      \<and> snd (lookup_receipt cmd s) = snd (check_managed cmd (command_identity cmd) m s))"
    by (auto simp: lookup_receipt_def Let_def split: option.splits prod.splits)
  then show ?thesis by (metis check_managed_updates updates_refl)
qed

lemma fence_one_updates: "\<not> live_state st \<Longrightarrow> updates cfg s (fence_one st k s)"
  by (auto simp: fence_one_def unhealthy_def[symmetric] split: option.splits intro: updates_one u_fence)

lemma fence_updates: "\<not> live_state st \<Longrightarrow> updates cfg s (fence a i st s)"
  unfolding fence_def by (rule updates_fold) (rule fence_one_updates)

lemma sweep_updates: "updates cfg s (snd (sweep s))"
proof -
  have one: "updates cfg (snd acc) (snd (sweep_one now k acc))" for now k acc
    using expire_one_updates[of "snd acc" k] by (auto simp: sweep_one_def split: option.splits prod.splits) (metis snd_conv)
  have "snd (sweep s) = snd (fold (sweep_one (fst (now_in s))) (map fst (dsorted (ct_managed (snd (now_in s))))) ([], snd (now_in s)))"
    by (simp add: sweep_def Let_def split: prod.splits)
  moreover have "updates cfg (snd acc) (snd (fold (sweep_one now) ks acc))" for now ks acc
    by (rule updates_fold_snd) (rule one)
  ultimately show ?thesis using updates_trans[OF updates_now[of cfg s]] by (metis snd_conv)
qed

lemma expire_managed_updates: "updates cfg s (snd (expire_managed s))"
  using updates_then[OF sweep_updates u_reported, of cfg s] by (cases "sweep s") (simp add: expire_managed_def)

lemma reject_external_updates: "updates cfg s (snd (reject_external a i s))"
  by (auto simp: reject_external_def live_state_def split: option.splits intro: fence_updates)

lemma guard_external_updates: "updates cfg s (snd (guard_external e p s))"
  using reject_external_updates[of cfg s "ce_agent_id e" "ce_instance_id e"]
  by (auto simp: guard_external_def prog_defs split: option.splits prod.splits sum.splits)


text \<open>What a registration that is let through finds and leaves.\<close>

lemma guard_external_passed:
  assumes "guard_external e p s = (Inr u, s1)"
  shows "s1 = s" and "dget (ct_managed s) (ce_agent_id e, ce_instance_id e) = None"
    and "dget (ct_agents s) (ce_agent_id e) = Some g \<Longrightarrow> no_live (ce_agent_id e) s
      \<or> gs_owner g = ce_owner e \<and> gs_logical_digest g = pr_logical_digest p \<and> gs_versions g = ce_versions e"
proof -
  show s1: "s1 = s" and free: "dget (ct_managed s) (ce_agent_id e, ce_instance_id e) = None"
    using assms by (auto simp: guard_external_def reject_external_def prog_defs split: option.splits if_splits prod.splits)
  assume g: "dget (ct_agents s) (ce_agent_id e) = Some g"
  have "no_live (ce_agent_id e) s" if "\<not> list_ex (\<lambda>(k, m). fst k = ce_agent_id e \<and> live_state (mg_state m)) (ct_managed s)"
    using that by (auto simp: no_live_def list_ex_iff dest!: map_of_SomeD)
  with assms g free show "no_live (ce_agent_id e) s
      \<or> gs_owner g = ce_owner e \<and> gs_logical_digest g = pr_logical_digest p \<and> gs_versions g = ce_versions e"
    by (auto simp: guard_external_def reject_external_def prog_defs split: if_splits)
qed

lemma register_instance_cases:
  obtains (rejected) x where "fst (register_instance cfg e s) = Inl x" "updates cfg s (snd (register_instance cfg e s))"
  | (admitted) p now s0 existing where "cc_prepare cfg e = Inr p" "now_in s = (now, s0)"
      "guard_external e p s0 = (Inr (), s0)" "existing = dget (ct_agents s0) (ce_agent_id e)"
      "validate_admission (cc_verify cfg) (cc_require cfg) e p (map_option gs_card_name existing)
         (case existing of None \<Rightarrow> [] | Some g \<Rightarrow> gs_capabilities g) = None"
      "register_instance cfg e s = (Inr (public_record (entry_registration e p existing now)),
         put_agent (ce_agent_id e) (entry_registration e p existing now) s0)"
proof (cases "cc_prepare cfg e")
  case (Inl x)
  then show ?thesis by (intro rejected) (simp_all add: register_instance_def)
next
  case (Inr p)
  obtain now s0 where now: "now_in s = (now, s0)" by fastforce
  have u: "updates cfg s s0" using updates_now[of cfg s] now by simp
  obtain r s1 where g: "guard_external e p s0 = (r, s1)" by fastforce
  have u1: "updates cfg s s1" using updates_trans[OF u guard_external_updates[of cfg s0 e p]] g by simp
  show ?thesis
  proof (cases r)
    case (Inl x)
    with \<open>cc_prepare cfg e = Inr p\<close> now g u1 show ?thesis by (intro rejected) (simp_all add: register_instance_def)
  next
    case (Inr v)
    then have s1: "s1 = s0" using guard_external_passed(1) g by blast
    let ?ex = "dget (ct_agents s0) (ce_agent_id e)"
    show ?thesis
    proof (cases "validate_admission (cc_verify cfg) (cc_require cfg) e p (map_option gs_card_name ?ex)
        (case ?ex of None \<Rightarrow> [] | Some g \<Rightarrow> gs_capabilities g)")
      case None
      with \<open>cc_prepare cfg e = Inr p\<close> now g s1 Inr show ?thesis
        by (intro admitted[of p now s0 ?ex]) (simp_all add: register_instance_def put_agent_def Let_def)
    next
      case (Some x)
      with \<open>cc_prepare cfg e = Inr p\<close> now g s1 Inr u1 show ?thesis
        by (intro rejected) (simp_all add: register_instance_def Let_def)
    qed
  qed
qed

lemma register_instance_updates: "updates cfg s (snd (register_instance cfg e s))"
proof (cases rule: register_instance_cases[of cfg e s])
  case (admitted p now s0 existing)
  let ?g = "entry_registration e p existing now"
  have "catalog_update cfg s0 (put_agent (ce_agent_id e) ?g s0)"
  proof (rule u_admit[where i = "ce_instance_id e" and n = "entry_instance e now"])
    show "dget (ct_managed s0) (ce_agent_id e, ce_instance_id e) = None" by (rule guard_external_passed(2)[OF admitted(3)])
    show "gs_lifecycle ?g = gs_lifecycle old \<and> (no_live (ce_agent_id e) s0 \<or> gs_owner ?g = gs_owner old)"
      if "dget (ct_agents s0) (ce_agent_id e) = Some old" for old
      using guard_external_passed(3)[OF admitted(3) that] that admitted(4) by (auto simp: entry_registration_def)
  qed (simp_all add: entry_registration_def entry_instance_def admitted(4) split: option.splits)
  then show ?thesis using admitted(2,6) updates_now[of cfg s] by (auto intro: updates_then)
qed

lemma register_all_updates: "updates cfg s (snd (register_all cfg es s))"
proof (induction es arbitrary: s)
  case (Cons e es)
  obtain r s1 where r: "register_instance cfg e s = (r, s1)" by fastforce
  then have "updates cfg s s1" using register_instance_updates[of cfg s e] by simp
  with r Cons[of s1] show ?case by (auto split: sum.splits intro: updates_trans)
qed simp

lemma sibling_conflict_run:
  assumes "sibling_conflict cmd e p s = (r, s1)"
  shows "updates cfg s s1" and "ct_managed s1 = ct_managed s" and "ct_agents s1 = ct_agents s" and "ct_receipts s1 = ct_receipts s"
    and "r = Some x \<Longrightarrow> mr_code x \<noteq> MC_OK"
    and "r = None \<Longrightarrow> dget (ct_agents s) (cm_agent_id cmd) = Some g \<Longrightarrow> gs_lifecycle g = CAT_ACTIVE"
  using assms updates_now[of cfg s]
  by (auto simp: sibling_conflict_def now_in_def tick_def bare_result_def split: option.splits if_splits)

lemma guard_external_receipts: "ct_receipts (snd (guard_external e p s)) = ct_receipts s"
proof -
  have one: "ct_receipts (fence_one st k t) = ct_receipts t" for st k t by (simp add: fence_one_def split: option.splits)
  have "ct_receipts (fold (fence_one st) ks t) = ct_receipts t" for st ks t
    by (induction ks arbitrary: t) (simp_all add: one)
  then show ?thesis
    by (auto simp: guard_external_def reject_external_def fence_def prog_defs split: option.splits prod.splits sum.splits)
qed

lemma register_instance_keeps: "ct_receipts (snd (register_instance cfg e s)) = ct_receipts s"
proof (cases "cc_prepare cfg e")
  case (Inr p)
  obtain now s0 where now: "now_in s = (now, s0)" by fastforce
  obtain r s1 where g: "guard_external e p s0 = (r, s1)" by fastforce
  have "ct_receipts s1 = ct_receipts s0" using guard_external_receipts[of e p s0] g by simp
  moreover have "ct_receipts s0 = ct_receipts s" using now by (auto simp: now_in_def tick_def)
  ultimately show ?thesis using Inr now g
    by (cases r) (simp_all add: register_instance_def Let_def split: option.splits)
qed (simp add: register_instance_def)

text \<open>The command registers a new instance, or nothing but the clock and registrations moved.\<close>

lemma register_managed_run:
  assumes "dget (ct_managed s) (command_identity cmd) = None" and "register_managed cfg cmd s = (r, s')"
  shows "updates cfg s s' \<and> ct_receipts s' = ct_receipts s
     \<and> (\<forall>x. r = Inr x \<longrightarrow> mr_code x = MC_OK \<longrightarrow> mr_state x = Some INST_ACTIVE)"
proof -
  let ?k = "command_identity cmd"
  have plain: ?thesis if "updates cfg s s'" "ct_receipts s' = ct_receipts s" "\<And>x. r = Inr x \<Longrightarrow> mr_code x \<noteq> MC_OK"
    using that by blast
  show ?thesis
  proof (cases "int (length (ct_managed s)) < cc_capacity cfg")
    case False
    with assms(2) show ?thesis by (intro plain) (auto simp: register_managed_def bare_result_def)
  next
    case room: True
    show ?thesis
    proof (cases "\<exists>e p. cm_entry cmd = Some e \<and> (ce_agent_id e, ce_instance_id e, ce_owner e) = (cm_agent_id cmd, cm_instance_id cmd, cm_owner cmd)
        \<and> cc_prepare cfg e = Inr p")
      case False
      with assms(2) show ?thesis
        by (intro plain) (auto simp: register_managed_def bare_result_def split: option.splits if_splits sum.splits)
    next
      case True
      then obtain e p where e: "cm_entry cmd = Some e" "ce_agent_id e = cm_agent_id cmd" "ce_instance_id e = cm_instance_id cmd"
        "ce_owner e = cm_owner cmd" "cc_prepare cfg e = Inr p" by blast
      obtain c s1 where c: "sibling_conflict cmd e p s = (c, s1)" by fastforce
      note sib = sibling_conflict_run[OF c]
      let ?e = "e\<lparr>ce_lease := cm_lease cmd\<rparr>"
      show ?thesis
      proof (cases c)
        case (Some x)
        with assms(2) room e c sib(1,4,5) show ?thesis by (intro plain) (auto simp: register_managed_def)
      next
        case None
        then have run: "(r, s') = (case register_instance cfg ?e s1 of (Inl x, s2) \<Rightarrow> (Inl x, s2) | (Inr _, s2) \<Rightarrow> attach_managed cmd s2)"
          using assms(2) room e c by (simp add: register_managed_def)
        show ?thesis
        proof (cases rule: register_instance_cases[of cfg ?e s1])
          case (rejected x)
          with run sib(1,4) register_instance_keeps[of cfg ?e s1] show ?thesis
            by (intro plain) (auto split: prod.splits intro: updates_trans)
        next
          case (admitted q now s0 existing)
          let ?g = "entry_registration ?e q existing now" and ?n0 = "entry_instance ?e now"
          let ?s2 = "put_agent (cm_agent_id cmd) ?g s0"
          have s0: "updates cfg s1 s0" "ct_managed s0 = ct_managed s1" "ct_agents s0 = ct_agents s1" "ct_receipts s0 = ct_receipts s1"
            using admitted(2) updates_now[of cfg s1] by (auto simp: now_in_def tick_def)
          have s2: "updates cfg s1 ?s2" using register_instance_updates[of cfg s1 ?e] admitted(6) e(2) by simp
          have g: "dget (ct_agents ?s2) (cm_agent_id cmd) = Some ?g" "dget (gs_instances ?g) (cm_instance_id cmd) = Some ?n0"
            by (simp_all add: put_agent_def entry_registration_def e)
          have out: "(r, s') = attach_managed cmd ?s2" using run admitted(6) e(2) by simp
          define n where "n = ?n0\<lparr>ns_environment := cm_environment cmd, ns_deployment_id := cm_deployment_id cmd,
              ns_provenance := cm_provenance cmd, ns_subject := cm_subject cmd, ns_issuer := cm_issuer cmd\<rparr>"
          define m where "m = \<lparr>mg_owner = cm_owner cmd, mg_environment = cm_environment cmd, mg_subject = cm_subject cmd,
              mg_issuer = cm_issuer cmd, mg_handle = ct_handles ?s2 (ct_next ?s2), mg_generation = 1, mg_state = INST_ACTIVE, mg_instance = n\<rparr>"
          have "gs_lifecycle ?g = CAT_ACTIVE"
            using sib(6) None s0 sib(3) admitted(4) e by (auto simp: entry_registration_def split: option.splits)
          then have "catalog_update cfg ?s2 (?s2\<lparr>ct_agents := dset (cm_agent_id cmd) (?g\<lparr>gs_instances := dset (cm_instance_id cmd) n (gs_instances ?g)\<rparr>) (ct_agents ?s2),
              ct_managed := dset (command_identity cmd) m (ct_managed ?s2), ct_next := Suc (ct_next ?s2)\<rparr>)"
            unfolding command_identity_def
            using assms(1) room s0(2) sib(2) g e
            by (intro u_manage) (simp_all add: put_agent_def m_def n_def entry_instance_def entry_registration_def command_identity_def)
          with out g s2 sib(1,4) s0(4) show ?thesis
            by (auto simp: attach_managed_def Let_def m_def n_def result_of_def put_agent_def intro: updates_trans updates_then)
        qed
      qed
    qed
  qed
qed

lemma expire_one_run:
  assumes "dget (ct_managed s) k = Some m" and "expire_one k m now s = (b, s')"
  shows "ct_receipts s' = ct_receipts s"
    and "dget (ct_managed s') k = Some m \<and> s' = s \<and> \<not> b
       \<or> b \<and> live_state (mg_state m) \<and> (\<exists>m'. dget (ct_managed s') k = Some m' \<and> mg_state m' = INST_EXPIRED)"
  using assms by (auto simp: expire_one_def Let_def split: if_splits)

lemma check_managed_at:
  assumes "dget (ct_managed s) k = Some m" and "authorize_command cmd m = None"
  obtains now s1 b s2 m1 where "ct_managed s1 = ct_managed s" "ct_receipts s1 = ct_receipts s" "expire_one k m now s1 = (b, s2)"
    "dget (ct_managed s2) k = Some m1" "if b then live_state (mg_state m) \<and> mg_state m1 = INST_EXPIRED else m1 = m \<and> s2 = s1"
    "check_managed cmd k m s = (if mg_state m1 = INST_EXPIRED then Some (result_of MC_EXPIRED False m1)
       else if mg_state m1 = INST_REMOVED \<or> mg_state m1 = INST_REVOKED then Some (result_of MC_INACTIVE False m1) else None, s2)"
proof -
  obtain now s1 where now: "now_in s = (now, s1)" by fastforce
  then have s1: "ct_managed s1 = ct_managed s" "ct_receipts s1 = ct_receipts s" by (auto simp: now_in_def tick_def)
  obtain b s2 where b: "expire_one k m now s1 = (b, s2)" by fastforce
  have "dget (ct_managed s1) k = Some m" using assms(1) s1 by simp
  note ex = expire_one_run(2)[OF this b]
  then obtain m1 where m1: "dget (ct_managed s2) k = Some m1"
    "if b then live_state (mg_state m) \<and> mg_state m1 = INST_EXPIRED else m1 = m \<and> s2 = s1"
    by (cases b) auto
  show ?thesis
    by (rule that[OF s1 b m1]) (simp add: check_managed_def assms(2) now b m1(1))
qed

lemma check_managed_run:
  assumes "dget (ct_managed s) k = Some m" and "check_managed cmd k m s = (r, s')"
  shows "ct_receipts s' = ct_receipts s" and "r = Some x \<Longrightarrow> mr_code x \<noteq> MC_OK"
    and "r = None \<Longrightarrow> dget (ct_managed s') k = Some m \<and> live_state (mg_state m) \<and> authorize_command cmd m = None"
proof -
  have "ct_receipts s' = ct_receipts s \<and> (\<forall>x. r = Some x \<longrightarrow> mr_code x \<noteq> MC_OK)
     \<and> (r = None \<longrightarrow> dget (ct_managed s') k = Some m \<and> live_state (mg_state m) \<and> authorize_command cmd m = None)"
  proof (cases "authorize_command cmd m")
    case (Some c)
    then have "c \<noteq> MC_OK" by (auto simp: authorize_command_def split: if_splits)
    with Some assms(2) show ?thesis by (auto simp: check_managed_def bare_result_def)
  next
    case None
    then show ?thesis
    proof (rule check_managed_at[OF assms(1)])
      fix now s1 b s2 m1
      assume s1: "ct_managed s1 = ct_managed s" "ct_receipts s1 = ct_receipts s" and b: "expire_one k m now s1 = (b, s2)"
        and m1: "dget (ct_managed s2) k = Some m1" "if b then live_state (mg_state m) \<and> mg_state m1 = INST_EXPIRED else m1 = m \<and> s2 = s1"
        and out: "check_managed cmd k m s = (if mg_state m1 = INST_EXPIRED then Some (result_of MC_EXPIRED False m1)
       else if mg_state m1 = INST_REMOVED \<or> mg_state m1 = INST_REVOKED then Some (result_of MC_INACTIVE False m1) else None, s2)"
      have "ct_receipts s2 = ct_receipts s" using expire_one_run(1)[OF _ b] assms(1) s1 by simp
      with out assms(2) m1 None show ?thesis
        by (cases "mg_state m1"; cases b) (auto simp: result_of_def live_state_def)
    qed
  qed
  then show "ct_receipts s' = ct_receipts s" "r = Some x \<Longrightarrow> mr_code x \<noteq> MC_OK"
    "r = None \<Longrightarrow> dget (ct_managed s') k = Some m \<and> live_state (mg_state m) \<and> authorize_command cmd m = None" by auto
qed

lemma mutate_managed_run:
  assumes "dget (ct_managed s) k = Some m" and "live_state (mg_state m)" and "mutate_managed cmd k m s = (r, s')"
  shows "if ends_instance (cm_operation cmd)
    then mr_code r = MC_OK \<and> (\<exists>st. \<not> live_state st \<and> mr_state r = Some st \<and> s' = publish k m st (unhealthy m) s)
    else updates cfg s s' \<and> ct_receipts s' = ct_receipts s \<and> (mr_code r = MC_OK \<longrightarrow> (\<exists>st. mr_state r = Some st \<and> live_state st))"
proof -
  have now: "updates cfg s (snd (now_in s))" "ct_managed (snd (now_in s)) = ct_managed s" "ct_receipts (snd (now_in s)) = ct_receipts s"
    using updates_now by (simp_all add: now_in_def tick_def)
  have settled: "settled_result k (publish k m st n t) = (result_of MC_OK False (m\<lparr>mg_state := st, mg_instance := n, mg_generation := mg_generation m + 1\<rparr>), publish k m st n t)"
    for st n t by (simp add: settled_result_def)
  show ?thesis
  proof (cases "cm_operation cmd")
    case OpRenew
    obtain t s1 where t: "now_in s = (t, s1)" by fastforce
    have "updates cfg s (publish k m INST_ACTIVE ((mg_instance m)\<lparr>ns_lease := l, ns_heartbeat := h\<rparr>) s1)" if "mg_state m = INST_ACTIVE" for l h
      using now t assms(1) that by (intro updates_then[OF _ u_renew[where l = l and h = h]]) simp_all
    with OpRenew assms t now show ?thesis
      by (auto simp: mutate_managed_def settled ends_instance_def result_of_def live_state_def split: if_splits)
  next
    case OpDrain
    have "updates cfg s (publish k m INST_DRAINING (unhealthy m) s)" if "mg_state m = INST_ACTIVE"
      by (rule updates_one[OF u_drain[OF assms(1) that]])
    with OpDrain assms show ?thesis
      by (auto simp: mutate_managed_def settled unhealthy_def[symmetric] ends_instance_def result_of_def live_state_def
          settled_result_def split: if_splits)
  qed (use assms in \<open>auto simp: mutate_managed_def settled unhealthy_def ends_instance_def result_of_def live_state_def\<close>)
qed

lemma precheck_run:
  "precheck cfg cmd found s = Some r \<Longrightarrow> mr_code r \<noteq> MC_OK"
  "precheck cfg cmd found s = None \<Longrightarrow> (cm_operation cmd = OpRegister \<longleftrightarrow> found = None)
     \<and> (ends_instance (cm_operation cmd) \<or> int (length (ct_receipts s)) < cc_capacity cfg)"
  by (auto simp: precheck_def bare_result_def result_of_def split: if_splits)

definition made_receipt :: "managed_command \<Rightarrow> managed_result \<Rightarrow> receipt" where
  "made_receipt cmd r = \<lparr>rp_fingerprint = cm_fingerprint cmd, rp_identity = command_identity cmd, rp_result = r\<rparr>"

definition check_found :: "managed_command \<Rightarrow> catalog \<Rightarrow> managed_result option \<times> catalog" where
  "check_found cmd s = (case dget (ct_managed s) (command_identity cmd) of None \<Rightarrow> (None, s)
     | Some m \<Rightarrow> check_managed cmd (command_identity cmd) m s)"

lemma check_found_run:
  assumes "check_found cmd s = (d, s')"
  shows "updates cfg s s'" and "ct_receipts s' = ct_receipts s" and "d = Some x \<Longrightarrow> mr_code x \<noteq> MC_OK"
    and "d = None \<Longrightarrow> dget (ct_managed s') (command_identity cmd) = Some m \<Longrightarrow> live_state (mg_state m) \<and> authorize_command cmd m = None"
proof -
  let ?k = "command_identity cmd"
  have all: "updates cfg s s' \<and> ct_receipts s' = ct_receipts s \<and> (\<forall>x. d = Some x \<longrightarrow> mr_code x \<noteq> MC_OK)
     \<and> (d = None \<longrightarrow> dget (ct_managed s') ?k = Some m \<longrightarrow> live_state (mg_state m) \<and> authorize_command cmd m = None)"
  proof (cases "dget (ct_managed s) ?k")
    case None
    with assms show ?thesis by (simp add: check_found_def)
  next
    case (Some m0)
    then have c: "check_managed cmd ?k m0 s = (d, s')" using assms by (simp add: check_found_def)
    have "updates cfg s s'" using check_managed_updates[OF Some, of cfg cmd] c by simp
    with check_managed_run[OF Some c] show ?thesis by (cases d) auto
  qed
  then show "updates cfg s s'" "ct_receipts s' = ct_receipts s" "d = Some x \<Longrightarrow> mr_code x \<noteq> MC_OK"
    "d = None \<Longrightarrow> dget (ct_managed s') ?k = Some m \<Longrightarrow> live_state (mg_state m) \<and> authorize_command cmd m = None"
    by (cases d; simp)+
qed

text \<open>A command without a receipt is denied, or applied and recorded.\<close>

lemma apply_command_run:
  assumes "apply_command cfg cmd s = (Inr r, s')" and "dget (ct_receipts s) (command_key cmd) = None"
  shows "if mr_code r = MC_OK then updates cfg s (add_receipt (command_key cmd) (made_receipt cmd r) s') else updates cfg s s'"
proof -
  let ?k = "command_identity cmd"
  obtain d s1 where d: "check_found cmd s = (d, s1)" by fastforce
  note found = check_found_run[OF d]
  have u1: "updates cfg s s1" and rc: "ct_receipts s1 = ct_receipts s" by (rule found)+
  have run: "(Inr r, s') = (case (d, s1) of (Some denied, s1) \<Rightarrow> (Inr denied, s1)
      | (None, s1) \<Rightarrow> (case precheck cfg cmd (dget (ct_managed s1) ?k) s1 of Some r \<Rightarrow> (Inr r, s1)
           | None \<Rightarrow> (case dget (ct_managed s1) ?k of None \<Rightarrow> register_managed cfg cmd s1
               | Some m \<Rightarrow> (case mutate_managed cmd ?k m s1 of (r, s2) \<Rightarrow> (Inr r, s2)))))"
    using assms(1) unfolding apply_command_def Let_def check_found_def[symmetric] d by simp
  show ?thesis
  proof (cases d)
    case (Some x)
    with run u1 found(3) show ?thesis by simp
  next
    case None
    have live: "live_state (mg_state m)" if "dget (ct_managed s1) ?k = Some m" for m
      using check_found_run(4)[OF d None that] by blast
    show ?thesis
    proof (cases "precheck cfg cmd (dget (ct_managed s1) ?k) s1")
      case (Some x)
      with run None u1 precheck_run(1) show ?thesis by simp
    next
      case ok: None
      note pre = precheck_run(2)[OF ok]
      show ?thesis
      proof (cases "dget (ct_managed s1) ?k")
        case free: None
        have "register_managed cfg cmd s1 = (Inr r, s')" using run None ok free by simp
        from register_managed_run[OF free this] have run': "updates cfg s1 s'" "ct_receipts s' = ct_receipts s1"
          "mr_code r = MC_OK \<Longrightarrow> mr_state r = Some INST_ACTIVE" by auto
        have "\<not> ends_instance (cm_operation cmd)" using pre free by (simp add: ends_instance_def)
        with pre run' rc assms(2) have "mr_code r = MC_OK \<Longrightarrow> catalog_update cfg s' (add_receipt (command_key cmd) (made_receipt cmd r) s')"
          by (intro u_receipt[where st = INST_ACTIVE]) (simp_all add: made_receipt_def live_state_def)
        with run'(1) u1 show ?thesis by (auto intro: updates_trans updates_then)
      next
        case m: (Some m)
        have mut: "mutate_managed cmd ?k m s1 = (r, s')"
          using run None ok m by (simp split: prod.splits)
        from mutate_managed_run[OF m live[OF m] mut, of cfg] show ?thesis
        proof (cases "ends_instance (cm_operation cmd)")
          case True
          with mutate_managed_run[OF m live[OF m] mut, of cfg] obtain st where st: "mr_code r = MC_OK" "\<not> live_state st"
            "mr_state r = Some st" "s' = publish ?k m st (unhealthy m) s1" by auto
          have "catalog_update cfg s1 (add_receipt (command_key cmd) (made_receipt cmd r) s')"
            unfolding st(4) using rc assms(2) st by (intro u_ended[OF m live[OF m]]) (simp_all add: made_receipt_def)
          with st(1) u1 show ?thesis by (auto intro: updates_then)
        next
          case False
          with mutate_managed_run[OF m live[OF m] mut, of cfg] have run: "updates cfg s1 s'" "ct_receipts s' = ct_receipts s1"
            "mr_code r = MC_OK \<Longrightarrow> \<exists>st. mr_state r = Some st \<and> live_state st" by auto
          from run pre False rc assms(2) have "mr_code r = MC_OK \<Longrightarrow> catalog_update cfg s' (add_receipt (command_key cmd) (made_receipt cmd r) s')"
            by (auto simp: made_receipt_def intro: u_receipt)
          with run(1) u1 show ?thesis by (auto intro: updates_trans updates_then)
        qed
      qed
    qed
  qed
qed

lemma apply_command_failed:
  assumes "apply_command cfg cmd s = (Inl x, s')"
  shows "updates cfg s s'"
proof -
  let ?k = "command_identity cmd"
  obtain d s1 where d: "check_found cmd s = (d, s1)" by fastforce
  have run: "(Inl x, s') = (case (d, s1) of (Some denied, s1) \<Rightarrow> (Inr denied, s1)
      | (None, s1) \<Rightarrow> (case precheck cfg cmd (dget (ct_managed s1) ?k) s1 of Some r \<Rightarrow> (Inr r, s1)
           | None \<Rightarrow> (case dget (ct_managed s1) ?k of None \<Rightarrow> register_managed cfg cmd s1
               | Some m \<Rightarrow> (case mutate_managed cmd ?k m s1 of (r, s2) \<Rightarrow> (Inr r, s2)))))"
    using assms(1) unfolding apply_command_def Let_def check_found_def[symmetric] d by simp
  then have free: "dget (ct_managed s1) ?k = None" and out: "register_managed cfg cmd s1 = (Inl x, s')"
    by (auto split: option.splits prod.splits)
  show ?thesis
    using updates_trans[OF check_found_run(1)[OF d]] register_managed_run[OF free out] by blast
qed

lemma lookup_missing: "lookup_receipt cmd s = (None, s1) \<Longrightarrow> s1 = s \<and> dget (ct_receipts s) (command_key cmd) = None"
  by (auto simp: lookup_receipt_def Let_def split: option.splits prod.splits if_splits)

lemma manage_instance_cases:
  obtains (replayed) r s1 where "lookup_receipt cmd s = (Some r, s1)" "manage_instance cfg cmd s = (Inr r, s1)"
  | (failed) x s1 where "manage_instance cfg cmd s = (Inl x, s1)" "updates cfg s s1"
  | (denied) r s1 where "dget (ct_receipts s) (command_key cmd) = None" "manage_instance cfg cmd s = (Inr r, s1)"
      "mr_code r \<noteq> MC_OK" "updates cfg s s1"
  | (applied) r s1 where "dget (ct_receipts s) (command_key cmd) = None" "apply_command cfg cmd s = (Inr r, s1)"
      "manage_instance cfg cmd s = (Inr r, add_receipt (command_key cmd) (made_receipt cmd r) s1)" "mr_code r = MC_OK"
      "updates cfg s (add_receipt (command_key cmd) (made_receipt cmd r) s1)"
proof -
  obtain o1 s1 where l: "lookup_receipt cmd s = (o1, s1)" by fastforce
  show ?thesis
  proof (cases o1)
    case (Some r)
    with l show ?thesis by (intro replayed) (simp_all add: manage_instance_def)
  next
    case None
    with l have s1: "s1 = s" and new: "dget (ct_receipts s) (command_key cmd) = None" using lookup_missing by blast+
    obtain q s2 where a: "apply_command cfg cmd s = (q, s2)" by fastforce
    show ?thesis
    proof (cases q)
      case (Inl x)
      with a None l s1 apply_command_failed show ?thesis by (intro failed) (simp_all add: manage_instance_def)
    next
      case (Inr r)
      show ?thesis
      proof (cases "mr_code r = MC_OK")
        case True
        with a Inr None l s1 new apply_command_run[OF _ new, of cfg r s2] show ?thesis
          by (intro applied[of r s2]) (simp_all add: manage_instance_def add_receipt_def made_receipt_def)
      next
        case False
        with a Inr None l s1 new apply_command_run[OF _ new, of cfg r s2] show ?thesis
          by (intro denied[of r s2]) (simp_all add: manage_instance_def)
      qed
    qed
  qed
qed

lemma manage_instance_updates: "updates cfg s (snd (manage_instance cfg cmd s))"
  by (cases rule: manage_instance_cases[of cmd s cfg]) (use lookup_updates[of cfg s cmd] in auto)

lemma renew_lease_updates: "updates cfg s (snd (renew_lease a i lease s))"
proof -
  obtain now s0 where now: "now_in s = (now, s0)" by fastforce
  have u0: "updates cfg s s0" using updates_now[of cfg s] now by simp
  obtain r s1 where r: "reject_external a i s0 = (r, s1)" by fastforce
  have u1: "updates cfg s s1" using updates_trans[OF u0 reject_external_updates[of cfg s0 a i]] r by simp
  show ?thesis
  proof (cases r)
    case (Inl x)
    with now r u1 show ?thesis by (simp add: renew_lease_def)
  next
    case (Inr v)
    then have free: "dget (ct_managed s1) (a, i) = None" using r by (auto simp: reject_external_def split: option.splits)
    have beat: "updates cfg s (put_agent a (g\<lparr>gs_instances := dset i n' (gs_instances g)\<rparr>) s1)"
      if "dget (ct_agents s1) a = Some g" "dget (gs_instances g) i = Some n" "ns_instance_id n' = ns_instance_id n" for g n n'
      using u1 u_heartbeat[OF free that] by (rule updates_then)
    show ?thesis
    proof (cases "\<exists>g n. dget (ct_agents s1) a = Some g \<and> dget (gs_instances g) i = Some n")
      case True
      then obtain g n where gn: "dget (ct_agents s1) a = Some g" "dget (gs_instances g) i = Some n" by blast
      then show ?thesis using now r Inr u1
        by (simp add: renew_lease_def Let_def put_agent_def[symmetric] beat[OF gn])
    next
      case False
      with now r Inr u1 show ?thesis by (auto simp: renew_lease_def split: option.splits)
    qed
  qed
qed

lemma expire_instances_updates: "updates cfg s (snd (expire_instances s))"
proof -
  have one: "updates cfg (snd acc) (snd (expire_agent now a acc))" for now a acc
    by (auto simp: expire_agent_def lapse_def[symmetric] put_agent_def[symmetric] split: option.splits intro: updates_one u_lapse)
  obtain now s0 where now: "now_in s = (now, s0)" by fastforce
  obtain xs s1 where sw: "sweep s0 = (xs, s1)" by fastforce
  have "updates cfg s s1" using updates_trans[OF updates_now[of cfg s]] sweep_updates[of cfg s0] now sw by simp
  moreover have "updates cfg (snd (xs, s1)) (snd (fold (expire_agent now) as (xs, s1)))" for as
    by (rule updates_fold_snd) (rule one)
  ultimately show ?thesis using now sw by (auto simp: expire_instances_def intro: updates_trans)
qed

text \<open>After a fence no record of the agent is live.\<close>

lemma fence_one_managed:
  "dget (ct_managed (fence_one st k s)) k' = (if k' = k \<and> (\<exists>m. dget (ct_managed s) k = Some m \<and> live_state (mg_state m))
     then map_option (\<lambda>m. m\<lparr>mg_state := st, mg_instance := unhealthy m, mg_generation := mg_generation m + 1\<rparr>) (dget (ct_managed s) k)
     else dget (ct_managed s) k')"
  by (auto simp: fence_one_def unhealthy_def split: option.splits)

lemma fence_fold_dead:
  assumes "\<not> live_state st" and "dget (ct_managed (fold (fence_one st) ks s)) k = Some m"
    and "k \<in> set ks \<or> (\<forall>m. dget (ct_managed s) k = Some m \<longrightarrow> \<not> live_state (mg_state m))"
  shows "\<not> live_state (mg_state m)"
  using assms(2,3)
proof (induction ks arbitrary: s)
  case (Cons x ks)
  from Cons.prems show ?case
    by (intro Cons.IH[of "fence_one st x s"]) (auto simp: fence_one_managed assms(1) split: if_splits)
qed auto

lemma fence_no_live:
  assumes "\<not> live_state st"
  shows "no_live a (fence a None st s)"
  unfolding no_live_def
proof (intro allI impI)
  fix k m
  assume k: "dget (ct_managed (fence a None st s)) k = Some m" "fst k = a"
  show "\<not> live_state (mg_state m)"
    using fence_fold_dead[OF assms k(1)[unfolded fence_def]] k(2)
    by (cases "dget (ct_managed s) k") (auto simp: fenced_by_def dom_map_of_conv_image_fst[symmetric])
qed

lemma set_lifecycle_updates: "updates cfg s (snd (set_lifecycle a l s))"
proof (cases "l = CAT_ACTIVE")
  case True
  then show ?thesis
    by (auto simp: set_lifecycle_def Let_def put_agent_def[symmetric] split: option.splits intro!: updates_one u_lifecycle)
next
  case False
  let ?st = "if l = CAT_REMOVED then INST_REMOVED else INST_REVOKED"
  have st: "\<not> live_state ?st" by (simp add: live_state_def)
  let ?s1 = "fence a None ?st s"
  have "updates cfg s ?s1" by (rule fence_updates[OF st])
  then show ?thesis
    using False u_lifecycle[of ?s1 a _ l cfg] fence_no_live[OF st, of a s]
    by (auto simp: set_lifecycle_def Let_def put_agent_def[symmetric] split: option.splits intro: updates_then)
qed

lemma remove_agent_updates: "updates cfg s (snd (remove_agent a s))"
proof -
  have st: "\<not> live_state INST_REMOVED" by (simp add: live_state_def)
  show ?thesis
    using updates_then[OF fence_updates[OF st] u_remove[OF fence_no_live[OF st]], of cfg s a]
    by (auto simp: remove_agent_def Let_def split: option.splits)
qed

section \<open>Operations and invariants\<close>

datatype catalog_op = DoManage managed_command | DoAdmit catalog_entry | DoHeartbeat string string "pyfloat option" | DoExpire
  | DoReport | DoLifecycle string catalog_state | DoRemove string | DoRefresh "catalog_error + catalog_entry list" | DoSnapshot

text \<open>The state after an operation, whether it returns or raises.\<close>

fun perform :: "catalog_config \<Rightarrow> catalog_op \<Rightarrow> catalog \<Rightarrow> catalog" where
  "perform cfg (DoManage cmd) s = snd (manage_instance cfg cmd s)"
| "perform cfg (DoAdmit e) s = snd (register_instance cfg e s)"
| "perform cfg (DoHeartbeat a i l) s = snd (renew_lease a i l s)"
| "perform cfg DoExpire s = snd (expire_instances s)"
| "perform cfg DoReport s = snd (expire_managed s)"
| "perform cfg (DoLifecycle a l) s = snd (set_lifecycle a l s)"
| "perform cfg (DoRemove a) s = snd (remove_agent a s)"
| "perform cfg (DoRefresh es) s = snd (refresh cfg es s)"
| "perform cfg DoSnapshot s = snd (catalog_snapshot s)"

definition perform_all :: "catalog_config \<Rightarrow> catalog_op list \<Rightarrow> catalog \<Rightarrow> catalog" where
  "perform_all cfg ops s = fold (perform cfg) ops s"

lemma snapshot_updates: "updates cfg s (snd (catalog_snapshot s))"
  using updates_now[of cfg s] by (cases "now_in s") (simp add: catalog_snapshot_def)

lemma refresh_updates: "updates cfg s (snd (refresh cfg r s))"
proof (cases "load_entries r")
  case (Inr es)
  obtain q s1 where q: "register_all cfg es s = (q, s1)" by fastforce
  then have u: "updates cfg s s1" using register_all_updates[of cfg s es] by simp
  from Inr q u show ?thesis
    using updates_trans[OF u snapshot_updates] by (cases q) (auto simp: refresh_def split: prod.splits)
qed (simp add: refresh_def)

lemma perform_updates: "updates cfg s (perform cfg op s)"
  by (cases op) (simp_all add: manage_instance_updates register_instance_updates renew_lease_updates expire_instances_updates
      expire_managed_updates set_lifecycle_updates remove_agent_updates refresh_updates snapshot_updates)

lemma perform_all_updates: "updates cfg s (perform_all cfg ops s)"
  unfolding perform_all_def by (rule updates_fold) (rule perform_updates)

locale catalog_invariant =
  fixes I :: "catalog_config \<Rightarrow> catalog \<Rightarrow> bool"
  assumes keeps: "catalog_update cfg s t \<Longrightarrow> I cfg s \<Longrightarrow> I cfg t"
begin

lemma updates_keep: "updates cfg s t \<Longrightarrow> I cfg s \<Longrightarrow> I cfg t"
  unfolding updates_def by (induction rule: rtranclp_induct) (auto intro: keeps)

lemma always: "I cfg s \<Longrightarrow> I cfg (perform_all cfg ops s)"
  using updates_keep[OF perform_all_updates] by blast

end

text \<open>A record that is not live stays as it is.\<close>

definition ended_record :: "identity \<Rightarrow> managed \<Rightarrow> catalog_config \<Rightarrow> catalog \<Rightarrow> bool" where
  "ended_record k m cfg s \<longleftrightarrow> dget (ct_managed s) k = Some m \<and> \<not> live_state (mg_state m)"

interpretation ended: catalog_invariant "ended_record k m" for k m
proof
  fix cfg s t
  assume "catalog_update cfg s t" "ended_record k m cfg s"
  then show "ended_record k m cfg t"
    by cases (auto simp: ended_record_def live_state_def put_agent_def add_receipt_def)
qed

text \<open>A receipt is never replaced.\<close>

definition kept_receipt :: "string \<times> string \<times> string \<Rightarrow> receipt \<Rightarrow> catalog_config \<Rightarrow> catalog \<Rightarrow> bool" where
  "kept_receipt key rp cfg s \<longleftrightarrow> dget (ct_receipts s) key = Some rp"

interpretation kept: catalog_invariant "kept_receipt key rp" for key rp
proof
  fix cfg s t
  assume "catalog_update cfg s t" "kept_receipt key rp cfg s"
  then show "kept_receipt key rp cfg t"
    by cases (auto simp: kept_receipt_def put_agent_def add_receipt_def)
qed

text \<open>The sizes of the ledger.\<close>

definition ended_count :: "catalog \<Rightarrow> nat" where
  "ended_count s = length (filter (\<lambda>(_, m). \<not> live_state (mg_state m)) (ct_managed s))"

lemma count_dset:
  "ddistinct d \<Longrightarrow> length (filter (\<lambda>(_, v). P v) (dset k v d)) + (case dget d k of None \<Rightarrow> 0 | Some m \<Rightarrow> if P m then 1 else 0)
     = length (filter (\<lambda>(_, v). P v) d) + (if P v then 1 else 0)"
proof (induction d)
  case (Cons x d)
  obtain k0 v0 where x: "x = (k0, v0)" by fastforce
  with Cons.prems have d: "ddistinct d" "dget d k0 = None" by (auto simp: ddistinct_def map_of_eq_None_iff)
  show ?case using Cons.IH[OF d(1)] d(2) by (auto simp: x dset_def)
qed (simp add: dset_def)

definition ledger_fits :: "catalog_config \<Rightarrow> catalog \<Rightarrow> bool" where
  "ledger_fits cfg s \<longleftrightarrow> ddistinct (ct_managed s) \<and> ddistinct (ct_pending s) \<and> fst ` set (ct_pending s) \<subseteq> fst ` set (ct_managed s)
     \<and> int (length (ct_managed s)) \<le> cc_capacity cfg \<and> int (length (ct_receipts s)) \<le> cc_capacity cfg + int (ended_count s)"

lemma ended_count_publish:
  assumes "ddistinct (ct_managed s)" and "dget (ct_managed s) k = Some m" and "live_state (mg_state m)"
  shows "ended_count (publish k m st n s) = ended_count s + (if live_state st then 0 else 1)"
  using count_dset[OF assms(1), of "\<lambda>m. \<not> live_state (mg_state m)" k "m\<lparr>mg_state := st, mg_instance := n, mg_generation := mg_generation m + 1\<rparr>"]
    assms(2,3)
  by (simp add: ended_count_def)

lemma publish_fits:
  assumes "ledger_fits cfg s" and "dget (ct_managed s) k = Some m" and "live_state (mg_state m)"
  shows "ledger_fits cfg (publish k m st n s)"
    and "\<not> live_state st \<Longrightarrow> ledger_fits cfg (add_receipt key rp (publish k m st n s))"
proof -
  have k: "k \<in> fst ` set (ct_managed s)" using assms(2) by (simp add: dom_map_of_conv_image_fst[symmetric] domI)
  have d: "ddistinct (ct_managed s)" using assms(1) by (simp add: ledger_fits_def)
  note c = ended_count_publish[OF d assms(2,3), of st n]
  show "ledger_fits cfg (publish k m st n s)"
    using assms(1) k c by (auto simp: ledger_fits_def length_dset)
  have r: "length (dset key rp (ct_receipts s)) \<le> Suc (length (ct_receipts s))" by (simp add: length_dset)
  have e: "ended_count (add_receipt key rp t) = ended_count t" for t by (simp add: ended_count_def add_receipt_def)
  show "ledger_fits cfg (add_receipt key rp (publish k m st n s))" if "\<not> live_state st"
  proof -
    have "ledger_fits cfg (publish k m st n s)"
      using assms(1) k c by (auto simp: ledger_fits_def length_dset)
    moreover have "int (length (dset key rp (ct_receipts s))) \<le> cc_capacity cfg + int (ended_count (publish k m st n s))"
      using r c that assms(1) by (simp add: ledger_fits_def)
    ultimately show ?thesis unfolding ledger_fits_def e by (simp add: add_receipt_def)
  qed
qed

lemma fits_same_managed:
  "ledger_fits cfg s \<Longrightarrow> ct_managed t = ct_managed s \<Longrightarrow> ct_pending t = ct_pending s \<Longrightarrow> ct_receipts t = ct_receipts s
     \<Longrightarrow> ledger_fits cfg t"
  by (simp add: ledger_fits_def ended_count_def)

interpretation ledger: catalog_invariant ledger_fits
proof
  fix cfg s t
  assume "catalog_update cfg s t" "ledger_fits cfg s"
  then show "ledger_fits cfg t"
  proof cases
    case (u_fence k m st) then show ?thesis using publish_fits(1)[OF \<open>ledger_fits cfg s\<close>] by simp
  next
    case (u_drain k m) then show ?thesis using publish_fits(1)[OF \<open>ledger_fits cfg s\<close>] by (simp add: live_state_def)
  next
    case (u_renew k m l h) then show ?thesis using publish_fits(1)[OF \<open>ledger_fits cfg s\<close>] by (simp add: live_state_def)
  next
    case (u_ended k m st key rp) then show ?thesis using publish_fits(2)[OF \<open>ledger_fits cfg s\<close>] by simp
  next
    case (u_pending k m r)
    then have "k \<in> fst ` set (ct_managed s)" by (simp add: dom_map_of_conv_image_fst[symmetric] domI)
    with u_pending \<open>ledger_fits cfg s\<close> show ?thesis by (simp add: ledger_fits_def ended_count_def)
  next
    case (u_receipt key rp st)
    then show ?thesis using \<open>ledger_fits cfg s\<close> by (auto simp: ledger_fits_def ended_count_def add_receipt_def length_dset)
  next
    case (u_manage a i g m n)
    then have "length (filter (\<lambda>(_, m). \<not> live_state (mg_state m)) (dset (a, i) m (ct_managed s))) = ended_count s"
      using count_dset[of "ct_managed s" "\<lambda>m. \<not> live_state (mg_state m)" "(a, i)" m] \<open>ledger_fits cfg s\<close>
      by (simp add: ended_count_def live_state_def ledger_fits_def)
    with u_manage \<open>ledger_fits cfg s\<close> show ?thesis
      by (auto simp: ledger_fits_def ended_count_def length_dset)
  qed (auto simp: ledger_fits_def ended_count_def put_agent_def)
qed

text \<open>
  What the published registrations agree on with the ledger.  A managed instance that is healthy is the instance of its
  record, and the record is active; a live record belongs to a registered and active agent of the same owner.
\<close>

definition instance_sound :: "(identity, managed) dict \<Rightarrow> string \<Rightarrow> string \<Rightarrow> agent_instance \<Rightarrow> bool" where
  "instance_sound ms a i n \<longleftrightarrow> ns_instance_id n = i
     \<and> (\<forall>m. dget ms (a, i) = Some m \<longrightarrow> ns_healthy n \<longrightarrow> mg_state m = INST_ACTIVE \<and> mg_instance m = n)"

definition agent_sound :: "(identity, managed) dict \<Rightarrow> string \<Rightarrow> catalog_registration \<Rightarrow> bool" where
  "agent_sound ms a g \<longleftrightarrow> gs_agent_id g = a \<and> ddistinct (gs_instances g)
     \<and> (\<forall>i n. dget (gs_instances g) i = Some n \<longrightarrow> instance_sound ms a i n)"

definition record_sound :: "(string, catalog_registration) dict \<Rightarrow> identity \<Rightarrow> managed \<Rightarrow> bool" where
  "record_sound ags k m \<longleftrightarrow> ns_instance_id (mg_instance m) = snd k \<and> (live_state (mg_state m) \<longrightarrow>
     (\<exists>g. dget ags (fst k) = Some g \<and> gs_owner g = mg_owner m \<and> gs_lifecycle g = CAT_ACTIVE))"

definition catalog_sound :: "catalog_config \<Rightarrow> catalog \<Rightarrow> bool" where
  "catalog_sound cfg s \<longleftrightarrow> ddistinct (ct_agents s)
     \<and> (\<forall>a g. dget (ct_agents s) a = Some g \<longrightarrow> agent_sound (ct_managed s) a g)
     \<and> (\<forall>k m. dget (ct_managed s) k = Some m \<longrightarrow> record_sound (ct_agents s) k m)"

lemmas sound_defs = catalog_sound_def agent_sound_def record_sound_def instance_sound_def

lemma catalog_soundD:
  assumes "catalog_sound cfg s"
  shows "dget (ct_managed s) k = Some m \<Longrightarrow> record_sound (ct_agents s) k m"
    and "dget (ct_agents s) a = Some g \<Longrightarrow> agent_sound (ct_managed s) a g"
  using assms unfolding catalog_sound_def by blast+

lemma sound_same: "catalog_sound cfg s \<Longrightarrow> ct_agents t = ct_agents s \<Longrightarrow> ct_managed t = ct_managed s \<Longrightarrow> catalog_sound cfg t"
  by (simp add: catalog_sound_def)

lemma agent_sound_dset:
  "agent_sound ms a g \<Longrightarrow> instance_sound ms a i n \<Longrightarrow> agent_sound ms a (g\<lparr>gs_instances := dset i n (gs_instances g)\<rparr>)"
  by (auto simp: agent_sound_def)

lemma agent_sound_ddel: "agent_sound ms a g \<Longrightarrow> agent_sound ms a (g\<lparr>gs_instances := ddel i (gs_instances g)\<rparr>)"
  by (auto simp: agent_sound_def)

lemma agent_sound_other:
  assumes "agent_sound ms a g" and "dget (gs_instances g) (snd k) = None \<or> fst k \<noteq> a"
  shows "agent_sound (dset k m ms) a g"
  using assms by (cases k) (auto simp: agent_sound_def instance_sound_def)

lemma put_agent_sound:
  assumes "catalog_sound cfg s" and "agent_sound (ct_managed s) a g"
    and "no_live a s \<or> (\<exists>old. dget (ct_agents s) a = Some old \<and> gs_owner g = gs_owner old
       \<and> (gs_lifecycle g = gs_lifecycle old \<or> gs_lifecycle g = CAT_ACTIVE))"
  shows "catalog_sound cfg (put_agent a g s)"
proof -
  have "record_sound (dset a g (ct_agents s)) k m" if k: "dget (ct_managed s) k = Some m" for k m
  proof -
    have r: "record_sound (ct_agents s) k m" using catalog_soundD(1)[OF assms(1) k] .
    show ?thesis
    proof (cases "fst k = a")
      case True
      have "\<not> live_state (mg_state m)" if "no_live a s" using that k True unfolding no_live_def by blast
      with r assms(3) k True show ?thesis by (auto simp: record_sound_def)
    qed (use r in \<open>auto simp: record_sound_def\<close>)
  qed
  with assms(1,2) show ?thesis by (simp add: catalog_sound_def put_agent_def)
qed

lemma publish_sound:
  assumes "catalog_sound cfg s" and "dget (ct_managed s) k = Some m" and "live_state (mg_state m)"
    and "ns_instance_id n = snd k" and "ns_healthy n \<longrightarrow> st = INST_ACTIVE"
  shows "catalog_sound cfg (publish k m st n s)"
proof -
  let ?m = "m\<lparr>mg_state := st, mg_instance := n, mg_generation := mg_generation m + 1\<rparr>"
  obtain g where g: "dget (ct_agents s) (fst k) = Some g" "gs_owner g = mg_owner m" "gs_lifecycle g = CAT_ACTIVE"
    using catalog_soundD(1)[OF assms(1,2)] assms(3) by (auto simp: record_sound_def)
  let ?g = "g\<lparr>gs_instances := (if st = INST_REMOVED then ddel (snd k) (gs_instances g) else dset (snd k) n (gs_instances g))\<rparr>"
  have p: "ct_agents (publish k m st n s) = dset (fst k) ?g (ct_agents s)" using g by (simp add: publish_def)
  have ag: "agent_sound (ct_managed s) a h" if "dget (ct_agents s) a = Some h" for a h using assms(1) that by (simp add: catalog_sound_def)
  have self: "agent_sound (dset k ?m (ct_managed s)) (fst k) ?g"
    using ag[OF g(1)] assms(4,5) by (cases k) (auto simp: agent_sound_def instance_sound_def)
  have other: "agent_sound (dset k ?m (ct_managed s)) a h" if "dget (ct_agents s) a = Some h" "a \<noteq> fst k" for a h
    by (rule agent_sound_other[OF ag[OF that(1)]]) (use that(2) in simp)
  have rec: "record_sound (dset (fst k) ?g (ct_agents s)) j q"
    if "dget (dset k ?m (ct_managed s)) j = Some q" for j q
  proof (cases "j = k")
    case True
    with that g assms(4) show ?thesis by (auto simp: record_sound_def)
  next
    case False
    with that catalog_soundD(1)[OF assms(1)] have "record_sound (ct_agents s) j q" by simp
    with g show ?thesis by (auto simp: record_sound_def)
  qed
  from assms(1) self other rec show ?thesis by (auto simp: catalog_sound_def p)
qed

lemma publish_fenced_sound:
  assumes "catalog_sound cfg s" and "dget (ct_managed s) k = Some m" and "live_state (mg_state m)"
  shows "catalog_sound cfg (publish k m st (unhealthy m) s)"
  using assms catalog_soundD(1)[OF assms(1,2)] by (intro publish_sound) (simp_all add: unhealthy_def record_sound_def)

interpretation sound: catalog_invariant catalog_sound
proof
  fix cfg s t
  assume up: "catalog_update cfg s t" and s: "catalog_sound cfg s"
  note rec = catalog_soundD(1)[OF s] and ag = catalog_soundD(2)[OF s]
  from up show "catalog_sound cfg t"
  proof cases
    case (u_fence k m st) then show ?thesis using publish_fenced_sound[OF s] by simp
  next
    case (u_drain k m) then show ?thesis using publish_fenced_sound[OF s] by (simp add: live_state_def)
  next
    case (u_renew k m l h)
    then show ?thesis using rec[of k m] by (auto simp: record_sound_def live_state_def intro!: publish_sound[OF s])
  next
    case (u_ended k m st key rp)
    then show ?thesis using sound_same[OF publish_fenced_sound[OF s, of k m st]] by (simp add: add_receipt_def)
  next
    case (u_admit a i g n)
    let ?old = "case dget (ct_agents s) a of None \<Rightarrow> [] | Some old \<Rightarrow> gs_instances old"
    have "agent_sound (ct_managed s) a g"
      using u_admit ag[of a] by (auto simp: agent_sound_def instance_sound_def split: option.splits)
    moreover have "no_live a s" if "dget (ct_agents s) a = None"
      using that rec unfolding no_live_def record_sound_def by fastforce
    ultimately show ?thesis unfolding u_admit(1) using u_admit(6)
      by (cases "dget (ct_agents s) a") (auto intro!: put_agent_sound[OF s])
  next
    case (u_manage a i g m n)
    let ?g = "g\<lparr>gs_instances := dset i n (gs_instances g)\<rparr>"
    have self: "agent_sound (dset (a, i) m (ct_managed s)) a ?g"
      using ag[OF u_manage(4)] u_manage by (auto simp: agent_sound_def instance_sound_def)
    have other: "agent_sound (dset (a, i) m (ct_managed s)) b h" if "dget (ct_agents s) b = Some h" "b \<noteq> a" for b h
      using agent_sound_other[OF ag[OF that(1)], of "(a, i)" m] that(2) by simp
    have "record_sound (dset a ?g (ct_agents s)) k q" if "dget (dset (a, i) m (ct_managed s)) k = Some q" for k q
      using that rec[of k q] u_manage by (cases "k = (a, i)") (auto simp: record_sound_def)
    with self other s show ?thesis by (auto simp: u_manage(1) catalog_sound_def)
  next
    case (u_heartbeat a i g old n)
    then show ?thesis using ag[of a g] 
      by (auto intro!: put_agent_sound[OF s] agent_sound_dset simp: instance_sound_def agent_sound_def)
  next
    case (u_lapse a g now)
    have "dget (gs_instances (lapse now g)) i = map_option (\<lambda>n. if lapsed now n then n\<lparr>ns_healthy := False\<rparr> else n) (dget (gs_instances g) i)" for i
      by (simp add: lapse_def map_prod_def map_of_map)
    moreover have "ddistinct (gs_instances (lapse now g)) = ddistinct (gs_instances g)"
      by (simp add: lapse_def ddistinct_def comp_def)
    ultimately have "agent_sound (ct_managed s) a (lapse now g)"
      using ag[OF u_lapse(2)] by (auto simp: agent_sound_def instance_sound_def lapse_def)
    with u_lapse show ?thesis by (auto intro!: put_agent_sound[OF s] simp: lapse_def)
  next
    case (u_lifecycle a g l)
    then show ?thesis using ag[of a g] by (auto intro!: put_agent_sound[OF s] simp: agent_sound_def)
  next
    case (u_remove a)
    with s show ?thesis by (auto simp: catalog_sound_def record_sound_def no_live_def)
  qed (use s in \<open>auto intro: sound_same simp: add_receipt_def\<close>)
qed

end
