(* ===== verification/CatalogProperties.thy ===== *)
theory CatalogProperties
  imports CatalogSafety
begin

text \<open>
  The properties of the remote-agent catalog, over any sequence of its operations (\<open>perform_all\<close>), from the invariants of
  \<open>CatalogSafety\<close>.
\<close>

section \<open>From the invariants\<close>

lemma start_invariants:
  assumes "mk_catalog cfg clk hs = Inr s0"
  shows "catalog_sound cfg s0" and "ledger_fits cfg s0"
  using assms by (auto simp: mk_catalog_def catalog_sound_def ledger_fits_def split: if_splits)

lemma snapshot_agent:
  assumes "catalog_sound cfg s" and "a \<in> set (cs_agents (catalog_snapshot_at now s))" and "n \<in> set (ca_instances a)"
  obtains g where "dget (ct_agents s) (ca_agent_id a) = Some g" "dget (gs_instances g) (ns_instance_id n) = Some n"
    "gs_lifecycle g = CAT_ACTIVE" "ca_lifecycle a = CAT_ACTIVE" "ns_healthy n" "now < ns_lease n" "ca_owner a = gs_owner g"
proof -
  from assms(2) obtain b g where bg: "(b, g) \<in> set (ct_agents s)" "eligible_record now g = Some a"
    by (auto simp: catalog_snapshot_at_def List.map_filter_def)
  then have g: "dget (ct_agents s) b = Some g" using assms(1) by (simp add: catalog_sound_def ddistinct_in_set)
  from bg(2) have a: "gs_lifecycle g = CAT_ACTIVE"
    "a = catalog_record (filter (\<lambda>n. ns_healthy n \<and> now < ns_lease n) (map snd (dsorted (gs_instances g)))) g"
    by (auto simp: eligible_record_def Let_def split: if_splits)
  with assms(3) obtain i where i: "(i, n) \<in> set (gs_instances g)" "ns_healthy n" "now < ns_lease n"
    by (auto simp: catalog_record_def)
  note snd = catalog_soundD(2)[OF assms(1) g]
  then have "dget (gs_instances g) i = Some n" using i(1) by (simp add: agent_sound_def ddistinct_in_set)
  with snd i a g show ?thesis by (intro that[of g]) (auto simp: agent_sound_def instance_sound_def catalog_record_def)
qed

section \<open>Replays\<close>

lemma authorize_not_ok: "authorize_command cmd m \<noteq> Some MC_OK"
  by (simp add: authorize_command_def)

lemma check_managed_outcome:
  assumes "dget (ct_managed s) k = Some m" and "check_managed cmd k m s = (d, s')" and "authorize_command cmd m = None"
  shows "ct_agents s' = ct_agents s \<and> ct_managed s' = ct_managed s \<and> ct_revision s' = ct_revision s \<and> ct_pending s' = ct_pending s
     \<or> (\<exists>x. d = Some x \<and> mr_code x = MC_EXPIRED)"
  using assms(2,3)
  by (auto simp: check_managed_def expire_one_def now_in_def tick_def Let_def result_of_def assms(1) split: if_splits)

text \<open>A success that is replayed is the stored result, for an authorized command, and nothing moves but the clock.\<close>

lemma replayed_success:
  assumes "lookup_receipt cmd s = (Some r, s1)" and "mr_code r = MC_OK"
  obtains rp m where "dget (ct_receipts s) (command_key cmd) = Some rp" "rp_result rp = r"
    "dget (ct_managed s) (command_identity cmd) = Some m" "authorize_command cmd m = None"
    "ct_agents s1 = ct_agents s" "ct_managed s1 = ct_managed s" "ct_revision s1 = ct_revision s"
proof -
  let ?k = "command_identity cmd"
  obtain rp where rp: "dget (ct_receipts s) (command_key cmd) = Some rp"
    using assms(1) by (cases "dget (ct_receipts s) (command_key cmd)") (simp_all add: lookup_receipt_def)
  have "\<exists>m. dget (ct_managed s) ?k = Some m"
    using assms rp by (auto simp: lookup_receipt_def bare_result_def Let_def split: if_splits option.splits)
  then obtain m where m: "dget (ct_managed s) ?k = Some m" by blast
  have au: "authorize_command cmd m = None"
    using assms rp m authorize_not_ok[of cmd m] by (cases "authorize_command cmd m") (auto simp: lookup_receipt_def bare_result_def Let_def)
  have same: "\<not> (rp_fingerprint rp \<noteq> cm_fingerprint cmd \<or> rp_identity rp \<noteq> ?k)"
    using assms rp m au by (auto simp: lookup_receipt_def bare_result_def Let_def split: if_splits)
  obtain d s2 where d: "check_managed cmd ?k m s = (d, s2)" by fastforce
  have s2: "s1 = s2" using assms(1) rp m au same d
    by (auto simp: lookup_receipt_def Let_def split: option.splits if_splits)
  have "rp_result rp = r \<and> \<not> (\<exists>x. d = Some x \<and> mr_code x = MC_EXPIRED)"
    using assms rp m au same d check_managed_run(2)[OF m d]
    by (auto simp: lookup_receipt_def Let_def result_of_def split: option.splits if_splits)
  with check_managed_outcome[OF m d au] that[OF rp _ m au] s2 show ?thesis by blast
qed

lemma receipt_of_success:
  assumes "manage_instance cfg cmd s = (Inr r, s1)" and "mr_code r = MC_OK"
  shows "\<exists>rp. dget (ct_receipts s1) (command_key cmd) = Some rp \<and> rp_result rp = r"
proof (cases rule: manage_instance_cases[of cmd s cfg])
  case (replayed r' s')
  with assms have l: "lookup_receipt cmd s = (Some r, s1)" by simp
  then obtain rp where rp: "dget (ct_receipts s) (command_key cmd) = Some rp" "rp_result rp = r"
    using replayed_success[OF l assms(2)] by metis
  have "kept_receipt (command_key cmd) rp cfg s1"
    using kept.updates_keep[of cfg s s1] lookup_updates[of cfg s cmd] l rp by (simp add: kept_receipt_def)
  with rp show ?thesis by (simp add: kept_receipt_def)
next
  case (applied r' s')
  with assms show ?thesis by (auto simp: add_receipt_def made_receipt_def)
qed (use assms in auto)

lemma applied_command_known:
  assumes "apply_command cfg cmd s = (Inr r, s')" and "mr_code r = MC_OK" and "cm_operation cmd \<noteq> OpRegister"
  shows "\<exists>m. dget (ct_managed s) (command_identity cmd) = Some m \<and> authorize_command cmd m = None"
proof (cases "dget (ct_managed s) (command_identity cmd)")
  case None
  with assms show ?thesis by (auto simp: apply_command_def precheck_def bare_result_def)
next
  case (Some m)
  obtain d s1 where d: "check_managed cmd (command_identity cmd) m s = (d, s1)" by fastforce
  have "d = None" using check_managed_run(2)[OF Some d] assms Some d by (cases d) (auto simp: apply_command_def)
  with check_managed_run(3)[OF Some d] Some show ?thesis by blast
qed

lemma lookup_receipts: "lookup_receipt cmd s = (q, s1) \<Longrightarrow> ct_receipts s1 = ct_receipts s"
proof -
  assume l: "lookup_receipt cmd s = (q, s1)"
  then have "s1 = s \<or> (\<exists>m d. dget (ct_managed s) (command_identity cmd) = Some m
      \<and> check_managed cmd (command_identity cmd) m s = (d, s1))"
    by (auto simp: lookup_receipt_def Let_def split: option.splits prod.splits if_splits)
  with check_managed_run(1) show ?thesis by blast
qed

section \<open>Sample\<close>

definition sample_entry :: catalog_entry where
  "sample_entry = \<lparr>ce_agent_id = ''a'', ce_instance_id = ''i'', ce_owner = ''o'', ce_deployment = REMOTE_CONTAINER,
     ce_card_url = ''http://h'', ce_card = VDict [], ce_provenance = None, ce_trust_policy_ref = None, ce_versions = {},
     ce_transports = {}, ce_lease = Finite 60, ce_signature = None\<rparr>"

definition sample_prepared :: "catalog_entry \<Rightarrow> catalog_error + prepared" where
  "sample_prepared e = Inr \<lparr>pr_card_name = ''card'', pr_card_digest = ''d'', pr_capabilities = [], pr_logical_digest = ''l''\<rparr>"

definition sample_catalog_config :: catalog_config where
  "sample_catalog_config = \<lparr>cc_prepare = sample_prepared, cc_verify = None, cc_require = False, cc_capacity = 2\<rparr>"

definition sample_handles :: "nat \<Rightarrow> string" where
  "sample_handles n = ''h''"

definition catalog_clock :: clock where
  "catalog_clock = \<lparr>readings = (\<lambda>n. 10), reads = 0\<rparr>"

definition empty_catalog :: catalog where
  "empty_catalog = \<lparr>ct_agents = [], ct_revision = 0, ct_managed = [], ct_receipts = [], ct_pending = [], ct_clock = catalog_clock,
     ct_handles = sample_handles, ct_next = 0\<rparr>"

definition sample_command :: "managed_operation \<Rightarrow> string \<Rightarrow> string \<Rightarrow> int \<Rightarrow> managed_command" where
  "sample_command op key handle gen = \<lparr>cm_operation = op, cm_agent_id = ''a'', cm_instance_id = ''i'', cm_owner = ''o'',
     cm_environment = ''e'', cm_subject = ''s'', cm_issuer = ''u'', cm_key = key, cm_fingerprint = key, cm_generation = gen,
     cm_lease = Finite 60, cm_handle = handle, cm_entry = Some sample_entry, cm_deployment_id = [], cm_provenance = []\<rparr>"

definition sample_register :: managed_command where
  "sample_register = sample_command OpRegister ''k1'' [] 0"

definition sample_revoke :: managed_command where
  "sample_revoke = sample_command OpRevoke ''k2'' [] 1"

lemmas catalog_samples = sample_entry_def sample_prepared_def sample_catalog_config_def sample_handles_def catalog_clock_def
  empty_catalog_def sample_command_def sample_register_def sample_revoke_def

lemma sample_starts: "mk_catalog sample_catalog_config catalog_clock sample_handles = Inr empty_catalog"
  by (simp add: mk_catalog_def catalog_samples)

definition registered_catalog :: catalog where
  "registered_catalog = snd (manage_instance sample_catalog_config sample_register empty_catalog)"

lemmas catalog_eval = manage_instance_def lookup_receipt_def command_key_def command_identity_def apply_command_def precheck_def
  register_managed_def sibling_conflict_def register_instance_def now_in_def tick_def guard_external_def reject_external_def prog_defs
  validate_admission_def provenance_ok_def entry_registration_def entry_instance_def lease_of_def attach_managed_def result_of_def
  ends_instance_def bare_result_def dset_def Let_def

lemma sample_registers:
  "fst (manage_instance sample_catalog_config sample_register empty_catalog) = Inr
     \<lparr>mr_code = MC_OK, mr_generation = 1, mr_state = Some INST_ACTIVE, mr_lease = Some 70, mr_handle = ''h'',
      mr_subject = ''s'', mr_issuer = ''u''\<rparr>"
  by (simp add: catalog_eval catalog_samples)

lemma registered_catalog_state:
  "ct_managed registered_catalog = [((''a'', ''i''), \<lparr>mg_owner = ''o'', mg_environment = ''e'', mg_subject = ''s'', mg_issuer = ''u'',
     mg_handle = ''h'', mg_generation = 1, mg_state = INST_ACTIVE, mg_instance = (entry_instance sample_entry 10)
       \<lparr>ns_environment := ''e'', ns_subject := ''s'', ns_issuer := ''u''\<rparr>\<rparr>)]"
  "map fst (ct_agents registered_catalog) = [''a'']"
  "ct_clock registered_catalog = catalog_clock\<lparr>reads := 1\<rparr>"
  by (simp_all add: registered_catalog_def catalog_eval catalog_samples)

lemma registered_is_reached: "registered_catalog = perform_all sample_catalog_config [DoManage sample_register] empty_catalog"
  by (simp add: registered_catalog_def perform_all_def)

section \<open>Properties\<close>

text \<open>
  C10. What the catalog publishes is alive.  After any sequence of registrations, managed commands, heartbeats, expirations,
  refreshes, lifecycle changes and removals, whether they returned or raised, an instance in a snapshot belongs to an
  active agent, is healthy, and its lease runs.  If the instance is managed, its record is active (not draining, removed,
  revoked or expired), is of the agent's owner, and holds exactly this instance.
\<close>

theorem published_instances_live:
  assumes "mk_catalog cfg clk hs = Inr s0" and "s = perform_all cfg ops s0"
    and "a \<in> set (cs_agents (catalog_snapshot_at now s))" and "n \<in> set (ca_instances a)"
  shows "ca_lifecycle a = CAT_ACTIVE \<and> ns_healthy n \<and> now < ns_lease n
     \<and> (case dget (ct_managed s) (ca_agent_id a, ns_instance_id n) of None \<Rightarrow> True
        | Some m \<Rightarrow> mg_state m = INST_ACTIVE \<and> mg_instance m = n \<and> mg_owner m = ca_owner a)"
proof -
  have snd: "catalog_sound cfg s" unfolding assms(2) by (rule sound.always[OF start_invariants(1)[OF assms(1)]])
  obtain g where g: "dget (ct_agents s) (ca_agent_id a) = Some g" "dget (gs_instances g) (ns_instance_id n) = Some n"
    "ca_lifecycle a = CAT_ACTIVE" "ns_healthy n" "now < ns_lease n" "ca_owner a = gs_owner g"
    using snapshot_agent[OF snd assms(3,4)] by metis
  have "mg_state m = INST_ACTIVE \<and> mg_instance m = n \<and> mg_owner m = ca_owner a"
    if m: "dget (ct_managed s) (ca_agent_id a, ns_instance_id n) = Some m" for m
  proof -
    have "instance_sound (ct_managed s) (ca_agent_id a) (ns_instance_id n) n"
      using catalog_soundD(2)[OF snd g(1)] g(2) by (simp add: agent_sound_def)
    with m g(4) have "mg_state m = INST_ACTIVE" "mg_instance m = n" by (auto simp: instance_sound_def)
    with catalog_soundD(1)[OF snd m] g(1,6) show ?thesis by (auto simp: record_sound_def live_state_def)
  qed
  with g show ?thesis by (simp split: option.splits)
qed

theorem published_instances_live_witness:
  "\<exists>a n. a \<in> set (cs_agents (catalog_snapshot_at 20 registered_catalog)) \<and> n \<in> set (ca_instances a) \<and> ns_healthy n \<and> 20 < ns_lease n
     \<and> ct_managed registered_catalog \<noteq> []"
proof -
  obtain a n where an: "a \<in> set (cs_agents (catalog_snapshot_at 20 registered_catalog))" "n \<in> set (ca_instances a)"
    by (simp add: registered_catalog_def catalog_eval catalog_samples catalog_snapshot_at_def dsorted_def List.map_filter_def
        eligible_record_def catalog_record_def)
  show ?thesis
    using published_instances_live[OF sample_starts registered_is_reached an] an registered_catalog_state(1) by (intro exI[of _ a] exI[of _ n]) simp
qed

text \<open>
  C11. A managed instance that ended never comes back.  Once its record is removed, revoked or expired, whatever operations
  follow (including registering an instance of the same name, a heartbeat for it, or bringing its agent back), the record
  stays exactly as it is and no snapshot at any time offers the instance.
\<close>

theorem ended_instances_never_return:
  assumes "mk_catalog cfg clk hs = Inr s0" and "s = perform_all cfg ops s0" and "dget (ct_managed s) (a, i) = Some m"
    and "mg_state m \<noteq> INST_ACTIVE" and "mg_state m \<noteq> INST_DRAINING" and "t = perform_all cfg later s"
  shows "dget (ct_managed t) (a, i) = Some m
     \<and> \<not> (\<exists>ag\<in>set (cs_agents (catalog_snapshot_at now t)). ca_agent_id ag = a \<and> i \<in> ns_instance_id ` set (ca_instances ag))"
proof -
  have "ended_record (a, i) m cfg s" using assms by (simp add: ended_record_def live_state_def)
  then have m: "dget (ct_managed t) (a, i) = Some m" using ended.always[of "(a, i)" m cfg s later] assms(6) by (simp add: ended_record_def)
  have snd: "catalog_sound cfg t" unfolding assms(6,2) by (rule sound.always[OF sound.always[OF start_invariants(1)[OF assms(1)]]])
  have False if ag: "ag \<in> set (cs_agents (catalog_snapshot_at now t))" "ca_agent_id ag = a"
    and n: "n \<in> set (ca_instances ag)" "ns_instance_id n = i" for ag n
  proof -
    obtain g where g: "dget (ct_agents t) a = Some g" "dget (gs_instances g) i = Some n" "ns_healthy n"
      using snapshot_agent[OF snd ag(1) n(1)] ag(2) n(2) by metis
    with catalog_soundD(2)[OF snd g(1)] m assms(4) show False by (auto simp: agent_sound_def instance_sound_def)
  qed
  with m show ?thesis by blast
qed

theorem ended_instances_never_return_witness:
  "\<exists>m. dget (ct_managed (perform_all sample_catalog_config
      [DoRemove ''a'', DoAdmit sample_entry, DoManage sample_register, DoLifecycle ''a'' CAT_ACTIVE]
      (perform_all sample_catalog_config [DoManage sample_register, DoManage sample_revoke] empty_catalog))) (''a'', ''i'') = Some m
    \<and> mg_state m = INST_REVOKED"
proof -
  let ?s = "perform_all sample_catalog_config [DoManage sample_register, DoManage sample_revoke] empty_catalog"
  have "\<exists>m. dget (ct_managed ?s) (''a'', ''i'') = Some m \<and> mg_state m = INST_REVOKED"
    by (simp add: perform_all_def catalog_eval catalog_samples check_managed_def authorize_command_def expire_one_def mutate_managed_def
        settled_result_def publish_def live_state_def)
  then obtain m where m: "dget (ct_managed ?s) (''a'', ''i'') = Some m" "mg_state m = INST_REVOKED" by blast
  show ?thesis
    using ended_instances_never_return[OF sample_starts refl m(1) _ _ refl] m(2) by (intro exI[of _ m]) simp
qed

text \<open>
  C29. The ledger is bounded.  Whatever commands are sent, there are at most as many managed records as the capacity, ended
  ones included, at most twice as many receipts, and at most one unreported expiration for each record.
\<close>

theorem ledger_bounded:
  assumes "mk_catalog cfg clk hs = Inr s0" and "s = perform_all cfg ops s0"
  shows "int (length (ct_managed s)) \<le> cc_capacity cfg \<and> int (length (ct_receipts s)) \<le> 2 * cc_capacity cfg
     \<and> length (ct_pending s) \<le> length (ct_managed s)"
proof -
  have fits: "ledger_fits cfg s" unfolding assms(2) by (rule ledger.always[OF start_invariants(2)[OF assms(1)]])
  have "ended_count s \<le> length (ct_managed s)" unfolding ended_count_def by simp
  moreover have "length (ct_pending s) = card (fst ` set (ct_pending s))" "length (ct_managed s) = card (fst ` set (ct_managed s))"
    using fits distinct_card[of "map fst (ct_pending s)"] distinct_card[of "map fst (ct_managed s)"]
    by (simp_all add: ledger_fits_def ddistinct_def)
  ultimately show ?thesis
    using fits card_mono[of "fst ` set (ct_managed s)" "fst ` set (ct_pending s)"] by (simp add: ledger_fits_def)
qed

theorem ledger_bounded_witness:
  "int (length (ct_receipts (perform_all sample_catalog_config [DoManage sample_register, DoManage sample_revoke] empty_catalog))) \<le> 4"
  using ledger_bounded[OF sample_starts refl, of "[DoManage sample_register, DoManage sample_revoke]"]
  by (simp add: sample_catalog_config_def)

text \<open>
  C12. A managed command takes effect once.  If a command succeeded, then after any further operations a second delivery of
  it either gets the first result, and changes neither a registration nor a managed record, or is denied; it never
  succeeds with another result and never adds a receipt.
\<close>

theorem managed_commands_idempotent:
  assumes "manage_instance cfg cmd s = (Inr r, s1)" and "mr_code r = MC_OK" and "s2 = perform_all cfg ops s1"
    and "manage_instance cfg cmd s2 = (r', s3)"
  shows "\<exists>x. r' = Inr x \<and> ct_receipts s3 = ct_receipts s2
     \<and> (mr_code x = MC_OK \<longrightarrow> x = r \<and> ct_agents s3 = ct_agents s2 \<and> ct_managed s3 = ct_managed s2 \<and> ct_revision s3 = ct_revision s2)"
proof -
  obtain rp where rp: "dget (ct_receipts s1) (command_key cmd) = Some rp" "rp_result rp = r"
    using receipt_of_success[OF assms(1,2)] by blast
  have rp2: "dget (ct_receipts s2) (command_key cmd) = Some rp"
    using kept.always[of "command_key cmd" rp cfg s1 ops] rp assms(3) by (simp add: kept_receipt_def)
  obtain q s4 where l: "lookup_receipt cmd s2 = (q, s4)" by fastforce
  with lookup_missing[of cmd s2 s4] rp2 obtain x where x: "q = Some x" by (cases q) auto
  with l assms(4) have out: "r' = Inr x" "s3 = s4" by (simp_all add: manage_instance_def)
  have "ct_receipts s4 = ct_receipts s2" using l by (rule lookup_receipts)
  moreover have "x = r \<and> ct_agents s4 = ct_agents s2 \<and> ct_managed s4 = ct_managed s2 \<and> ct_revision s4 = ct_revision s2" if "mr_code x = MC_OK"
    by (rule replayed_success[OF l[unfolded x] that]) (use rp2 rp(2) in simp)
  ultimately show ?thesis using out by blast
qed

theorem managed_commands_idempotent_witness:
  "\<exists>r s3. manage_instance sample_catalog_config sample_register
       (perform_all sample_catalog_config [DoSnapshot] registered_catalog) = (Inr r, s3)
     \<and> mr_handle r = ''h'' \<and> ct_agents s3 = ct_agents registered_catalog"
proof -
  let ?s2 = "perform_all sample_catalog_config [DoSnapshot] registered_catalog"
  obtain r' s3 where again: "manage_instance sample_catalog_config sample_register ?s2 = (r', s3)" by fastforce
  have first: "manage_instance sample_catalog_config sample_register empty_catalog = (Inr \<lparr>mr_code = MC_OK, mr_generation = 1,
     mr_state = Some INST_ACTIVE, mr_lease = Some 70, mr_handle = ''h'', mr_subject = ''s'', mr_issuer = ''u''\<rparr>, registered_catalog)"
    using sample_registers by (simp add: registered_catalog_def prod_eq_iff)
  have "fst (manage_instance sample_catalog_config sample_register ?s2) = Inr \<lparr>mr_code = MC_OK, mr_generation = 1,
     mr_state = Some INST_ACTIVE, mr_lease = Some 70, mr_handle = ''h'', mr_subject = ''s'', mr_issuer = ''u''\<rparr>"
    by (simp add: perform_all_def registered_catalog_def catalog_snapshot_def catalog_eval catalog_samples check_managed_def
        authorize_command_def expire_one_def live_state_def)
  moreover have "ct_agents ?s2 = ct_agents registered_catalog"
    by (simp add: perform_all_def catalog_snapshot_def now_in_def tick_def)
  ultimately show ?thesis
    using managed_commands_idempotent[OF first _ refl again] again by auto
qed

text \<open>
  C13. Managed instances answer to their owner.  A managed command other than a registration succeeds, directly or as a
  replay, only on a record of the same owner and environment; unless it is an administrator's revocation, it also comes
  from the issuer and subject that registered the instance and carries the handle that was returned to them.
\<close>

theorem managed_commands_authorized:
  assumes "manage_instance cfg cmd s = (Inr r, s')" and "mr_code r = MC_OK" and "cm_operation cmd \<noteq> OpRegister"
  shows "\<exists>m. dget (ct_managed s) (cm_agent_id cmd, cm_instance_id cmd) = Some m \<and> cm_owner cmd = mg_owner m
     \<and> cm_environment cmd = mg_environment m
     \<and> (cm_operation cmd = OpRevoke \<or> cm_issuer cmd = mg_issuer m \<and> cm_subject cmd = mg_subject m \<and> cm_handle cmd = mg_handle m)"
proof -
  have "\<exists>m. dget (ct_managed s) (command_identity cmd) = Some m \<and> authorize_command cmd m = None"
  proof (cases rule: manage_instance_cases[of cmd s cfg])
    case (replayed r' s1)
    with assms(1) have "lookup_receipt cmd s = (Some r, s')" by simp
    then show ?thesis using assms(2) by (rule replayed_success) blast
  next
    case (applied r' s1)
    with assms show ?thesis using applied_command_known by simp
  qed (use assms in simp_all)
  with assms(3) show ?thesis by (auto simp: authorize_command_def command_identity_def split: if_splits)
qed

theorem managed_commands_authorized_witness:
  "\<exists>m. dget (ct_managed registered_catalog) (''a'', ''i'') = Some m \<and> mg_owner m = ''o'' \<and> mg_environment m = ''e''"
proof -
  obtain r s' where run: "manage_instance sample_catalog_config sample_revoke registered_catalog = (r, s')" by fastforce
  have ok: "\<exists>x. fst (manage_instance sample_catalog_config sample_revoke registered_catalog) = Inr x \<and> mr_code x = MC_OK"
    by (simp add: registered_catalog_def catalog_eval catalog_samples check_managed_def authorize_command_def expire_one_def
        mutate_managed_def settled_result_def publish_def live_state_def)
  with run obtain x where "r = Inr x" "mr_code x = MC_OK" by auto
  with managed_commands_authorized[OF run[unfolded \<open>r = Inr x\<close>]] show ?thesis
    by (auto simp: catalog_samples)
qed

text \<open>
  Removing an agent forgets its generation.  \<open>ca_generation\<close> is documented as a monotonic counter that marks stale
  references; whatever happened before, an agent that is admitted again after its removal is at generation 1, which a
  reference issued before the removal may carry.
\<close>

theorem generation_restarts:
  assumes "remove_agent a s = (Inr (), s1)" and "register_instance cfg e s1 = (Inr ag, s2)" and "ce_agent_id e = a"
  shows "ca_agent_id ag = a \<and> ca_generation ag = 1 \<and> get_agent a s2 = Some ag"
proof -
  have none: "dget (ct_agents s1) a = None" using assms(1) by (auto simp: remove_agent_def Let_def split: option.splits)
  show ?thesis
  proof (cases rule: register_instance_cases[of cfg e s1])
    case (admitted p now s0 existing)
    have "ct_agents s0 = ct_agents s1" using admitted(2) by (auto simp: now_in_def tick_def)
    with none admitted(4) assms(3) have "existing = None" by simp
    with admitted(6) assms(2,3) show ?thesis
      by (auto simp: entry_registration_def public_record_def catalog_record_def get_agent_def put_agent_def)
  qed (use assms(2) in simp)
qed

definition second_entry :: catalog_entry where
  "second_entry = sample_entry\<lparr>ce_instance_id := ''j''\<rparr>"

theorem generation_restarts_witness:
  "\<exists>ag s2. register_instance sample_catalog_config second_entry (snd (remove_agent ''a'' registered_catalog)) = (Inr ag, s2)
     \<and> ca_generation ag = 1"
proof -
  let ?s1 = "snd (remove_agent ''a'' registered_catalog)"
  have "remove_agent ''a'' registered_catalog = (Inr (), ?s1)"
    by (simp add: registered_catalog_def remove_agent_def catalog_eval catalog_samples)
  moreover have "\<exists>ag. fst (register_instance sample_catalog_config second_entry ?s1) = Inr ag"
    by (simp add: second_entry_def registered_catalog_def remove_agent_def fence_def fence_one_def fenced_by_def publish_def ddel_def
        live_state_def catalog_eval catalog_samples)
  then obtain ag s2 where "register_instance sample_catalog_config second_entry ?s1 = (Inr ag, s2)" by (metis prod.collapse)
  ultimately show ?thesis
    using generation_restarts[of "''a''" registered_catalog ?s1 sample_catalog_config second_entry ag s2]
    by (simp add: second_entry_def sample_entry_def)
qed

end
