(* ===== verification/HybridSafety.thy ===== *)
theory HybridSafety
  imports Hybrid CatalogProperties
begin

text \<open>
  What the composed gateway dispatches: only under live authority, to instances of the current record of the agent, at most
  once to each, and without regard to their health.
\<close>

section \<open>The checks before a dispatch\<close>

lemma checked_invoke_cases:
  obtains (early) out where
      "\<And>resolved :: 's \<Rightarrow> (('s, 'g) world, 'e gateway_error, invocation_result) prog. checked_invoke resolved li g t x b w = out"
      "wo_ext (snd out) = wo_ext w" "\<And>cid v u m. fst out \<noteq> Inr (InvocationSuccess cid v u m)"
  | (resolved) st s w2 where
      "\<And>resolved :: 's \<Rightarrow> (('s, 'g) world, 'e gateway_error, invocation_result) prog. checked_invoke resolved li g t x b w = resolved st w2"
      "active t x w" "resolve (li_mac li) (li_float li) (gc_authority g) b (wo_bindings w) = (Inr st, s)"
      "wo_registry w2 = wo_registry w" "wo_ext w2 = wo_ext w" "ru_budget (wo_run w2) = ru_budget (wo_run w)"
      "ru_calls (wo_run w2) = ru_calls (wo_run w)"
      "(bd_agent_id b, bd_capability_id b) \<notin> set (rx_path x)" "int (length (rx_path x)) < bu_max_depth (ru_budget (wo_run w))"
proof (cases "active t x w")
  case False
  show ?thesis by (rule early[of "(Inl GatewayInactive, w)"]) (simp_all add: False checked_invoke_def)
next
  case act: True
  obtain r s where r: "resolve (li_mac li) (li_float li) (gc_authority g) b (wo_bindings w) = (r, s)" by fastforce
  show ?thesis
  proof (cases r)
    case (Inl code)
    show ?thesis
      by (rule early[of "(Inr (InvocationBindingFailure (rx_correlation_id x) (failure_value code) (plain_metadata x (wo_run w))), w\<lparr>wo_bindings := s\<rparr>)"])
        (simp_all add: act r Inl checked_invoke_def Let_def)
  next
    case (Inr st)
    let ?w1 = "w\<lparr>wo_bindings := s\<rparr>"
    obtain bud u where bud: "context_budget x (wo_run w) = (bud, u)" by fastforce
    note u = context_budget_fields[OF bud]
    let ?fail = "\<lambda>code w'. (Inr (InvocationDelegationFailure (rx_correlation_id x) (failure_value code) (rx_path x) (plain_metadata x (wo_run w))), w')"
    consider "(bd_agent_id b, bd_capability_id b) \<in> set (rx_path x)"
      | "(bd_agent_id b, bd_capability_id b) \<notin> set (rx_path x)" "rb_depth bud < 1"
      | "(bd_agent_id b, bd_capability_id b) \<notin> set (rx_path x)" "\<not> rb_depth bud < 1" by blast
    then show ?thesis
    proof cases
      case 1
      show ?thesis by (rule early[of "?fail CYCLE_DETECTED ?w1"]) (simp_all add: 1 act r Inr checked_invoke_def Let_def)
    next
      case 2
      show ?thesis
        by (rule early[of "?fail DEPTH_EXCEEDED (?w1\<lparr>wo_run := u\<rparr>)"]) (simp_all add: 2 act r Inr bud checked_invoke_def Let_def)
    next
      case 3
      have depth: "int (length (rx_path x)) < bu_max_depth (ru_budget (wo_run w))" using 3(2) u(7) by auto
      show ?thesis
        by (rule resolved[of st "?w1\<lparr>wo_run := u\<rparr>" s, OF _ act r[unfolded Inr] _ _ _ _ 3(1) depth])
          (simp_all add: 3 act r Inr bud u(1-5) checked_invoke_def Let_def)
    qed
  qed
qed

text \<open>The binding is authentic, of this runtime, unexpired and stored with the state \<open>st\<close>.\<close>

definition authentic :: "library \<Rightarrow> authority \<Rightarrow> capability_binding \<Rightarrow> 's \<Rightarrow> 's binding_state \<Rightarrow> bool" where
  "authentic li au b st s \<longleftrightarrow> well_formed b \<and> bd_runtime_id b = au_runtime_id au
     \<and> bd_signature b = binding_mac (li_mac li) (li_float li) au b
     \<and> readings (bs_clock s) (reads (bs_clock s)) < fin_val (bd_expires_at b)
     \<and> (\<exists>e. dget (bs_store s) (bd_nonce b) = Some (StoredBinding e st))"

lemma resolve_authentic:
  assumes "resolve (li_mac li) (li_float li) au b s = (Inr st, s')"
  shows "authentic li au b st s"
proof -
  from resolve_Inr[OF assms] obtain s1 where "validate (li_mac li) (li_float li) au b s = (Inr (), s1)"
    by (cases "validate (li_mac li) (li_float li) au b s") auto
  from validate_Inr[OF this] resolve_Inr[OF assms] show ?thesis by (auto simp: authentic_def)
qed

text \<open>What the catalog says of the target of a binding at the moment it is invoked.\<close>

definition remote_target :: "library \<Rightarrow> hybrid_config \<Rightarrow> run_context \<Rightarrow> capability_binding \<Rightarrow> remote_state \<Rightarrow> catalog_agent
    \<Rightarrow> catalog_capability \<Rightarrow> catalog \<Rightarrow> bool" where
  "remote_target li h x b r a k s \<longleftrightarrow> get_agent (bd_agent_id b) s = Some a \<and> ca_lifecycle a = CAT_ACTIVE
     \<and> ca_generation a = ca_generation (rm_agent r) \<and> k \<in> set (ca_capabilities a) \<and> kc_name k = bd_capability_id b
     \<and> (\<exists>d. to_capability_descriptor (li_digest li) (li_float li) (ca_agent_id a) (kc_version k) k = Inr d
          \<and> cd_schema_digest d = bd_schema_digest b \<and> authorized (gc_policy (hc_gateway h)) x d)
     \<and> (case hc_remote_policy h of None \<Rightarrow> True | Some p \<Rightarrow> p x a k = Inr True)"

definition remote_authority :: "library \<Rightarrow> hybrid_config \<Rightarrow> nat \<Rightarrow> run_context \<Rightarrow> capability_binding \<Rightarrow> remote_state \<Rightarrow> catalog_agent
    \<Rightarrow> catalog_capability \<Rightarrow> 'h hybrid_world \<Rightarrow> bool" where
  "remote_authority li h t x b r a k w \<longleftrightarrow> active t x w \<and> authentic li (gc_authority (hc_gateway h)) b (RemoteState r) (wo_bindings w)
     \<and> remote_target li h x b r a k (hx_catalog (wo_ext w))
     \<and> (bd_agent_id b, bd_capability_id b) \<notin> set (rx_path x)
     \<and> int (length (rx_path x)) < bu_max_depth (ru_budget (wo_run w))"

lemma invoke_remote_split:
  obtains (stopped) out where "\<And>tr :: ('h, 'e) transport. invoke_remote tr li h x r b args timeout tokens cost w = out"
      "wo_ext (snd out) = wo_ext w" "\<And>cid v u m. fst out \<noteq> Inr (InvocationSuccess cid v u m)"
  | (admitted) a k w2 md where
      "\<And>tr :: ('h, 'e) transport. invoke_remote tr li h x r b args timeout tokens cost w
         = dispatch_remote tr li h x a k (rm_policy r) b args timeout tokens cost md w2"
      "remote_target li h x b r a k (hx_catalog (wo_ext w))" "wo_registry w2 = wo_registry w" "wo_ext w2 = wo_ext w"
      "ru_budget (wo_run w2) = ru_budget (wo_run w)" "ru_calls (wo_run w2) = ru_calls (wo_run w)"
proof -
  note stop = stopped[of "invoke_remote undefined li h x r b args timeout tokens cost w"]
  let ?md = "plain_metadata x (wo_run w)"
  show thesis
  proof (cases "get_agent (bd_agent_id b) (hx_catalog (wo_ext w))")
    case None
    then show thesis by (intro stop) (simp_all add: invoke_remote_def Let_def)
  next
    case a: (Some a)
    show thesis
    proof (cases "ca_lifecycle a = CAT_ACTIVE \<and> ca_generation a = ca_generation (rm_agent r)
        \<and> List.find (\<lambda>k. kc_name k = bd_capability_id b) (ca_capabilities a) \<noteq> None")
      case False
      with a show thesis by (intro stop) (auto simp: invoke_remote_def Let_def split: option.splits)
    next
      case True
      then obtain k where ok: "ca_lifecycle a = CAT_ACTIVE" "ca_generation a = ca_generation (rm_agent r)"
        and k: "List.find (\<lambda>k. kc_name k = bd_capability_id b) (ca_capabilities a) = Some k" by blast
      then have mem: "k \<in> set (ca_capabilities a)" "kc_name k = bd_capability_id b" by (auto simp: find_Some_iff)
      show thesis
      proof (cases "to_capability_descriptor (li_digest li) (li_float li) (ca_agent_id a) (kc_version k) k")
        case (Inl e)
        with a ok k show thesis by (intro stop) (simp_all add: invoke_remote_def Let_def)
      next
        case d: (Inr d)
        obtain verdict u where p: "permits (gc_policy (hc_gateway h)) x True d (wo_run w) = (verdict, u)" by fastforce
        let ?q = "case hc_remote_policy h of None \<Rightarrow> Inr True | Some p \<Rightarrow> p x a k"
        show thesis
        proof (cases "cd_schema_digest d = bd_schema_digest b \<and> verdict = Inr True \<and> ?q = Inr True")
          case False
          with a ok k d p show thesis
            by (intro stop; cases verdict; cases ?q) (auto simp: invoke_remote_def Let_def)
        next
          case True
          then have auth: "authorized (gc_policy (hc_gateway h)) x d" using permits_authorized p by blast
          obtain q u2 where t: "context_remaining_timeout x u = (q, u2)" by fastforce
          note u2 = context_remaining_fields[OF t] and u = permits_fields[OF p]
          show thesis
          proof (cases q)
            case (Inl e)
            with a ok k d p True t show thesis by (intro stop) (simp_all add: invoke_remote_def Let_def)
          next
            case (Inr left)
            have "remote_target li h x b r a k (hx_catalog (wo_ext w))"
              unfolding remote_target_def using a ok mem d True auth by (auto split: option.splits)
            with a ok k d p True t Inr u u2 show thesis
              by (intro admitted[of a k ?md "w\<lparr>wo_run := u2\<rparr>"]) (simp_all add: invoke_remote_def Let_def)
          qed
        qed
      qed
    qed
  qed
qed

lemma try_instances_same:
  assumes "\<And>n w. n \<in> set ns \<Longrightarrow> tr a n k args timeout w = tr' a n k args timeout w"
  shows "try_instances tr h x a k b args timeout failover prior md ns w = try_instances tr' h x a k b args timeout failover prior md ns w"
  using assms by (induction ns arbitrary: w) (auto split: sum.splits prod.splits)

lemma order_instances_set: "set (fst (order_instances li x a k mode ns w)) = set ns"
proof -
  have "set (drop i ns @ take i ns) = set ns" for i by (metis Un_commute append_take_drop_id set_append)
  then show ?thesis by (auto simp: order_instances_def Let_def split: selection_mode.splits prod.splits)
qed

text \<open>Rotating keeps every instance once.\<close>

lemma order_instances_distinct:
  assumes "distinct (map ns_instance_id ns)"
  shows "distinct (map ns_instance_id (fst (order_instances li x a k mode ns w)))"
proof -
  have "distinct (map ns_instance_id (drop i ns @ take i ns))" for i
    using assms by (metis (no_types, lifting) append_take_drop_id distinct_append inf_commute map_append)
  with assms show ?thesis
    by (auto simp: order_instances_def Let_def simp del: map_append distinct_append split: selection_mode.splits prod.splits)
qed

lemma order_instances_length: "length (fst (order_instances li x a k mode ns w)) = length ns"
  by (auto simp: order_instances_def Let_def min_def split: selection_mode.splits prod.splits)

lemma order_instances_world:
  "order_instances li x a k mode ns w = (ordered, w') \<Longrightarrow> wo_run w' = wo_run w \<and> wo_registry w' = wo_registry w
     \<and> hx_catalog (wo_ext w') = hx_catalog (wo_ext w) \<and> hx_ext (wo_ext w') = hx_ext (wo_ext w)"
  by (auto simp: order_instances_def next_selection_index_def Let_def split: selection_mode.splits)

text \<open>
  C8. Remote work runs only under live authority.  If it makes a difference to an invocation what the transport does, then
  the context is active, the binding is authentic, of this runtime, unexpired and stored with the snapshot of a
  remote agent, the catalog still holds this agent, active and at the generation of the snapshot, its capability of that name
  has the schema of the binding, the caller is authorized by allowlist, scopes and both policies without a cycle and within the
  depth limit, one call has been reserved from the shared budget, and the difference is made by a call of this capability of
  the current record on one of its instances, of a permitted deployment and with a supported transport.
\<close>

theorem remote_work_needs_authority:
  fixes tr tr' :: "('h, 'e) transport"
  assumes "hybrid_invoke tr rt li h t x b args timeout tokens cost w \<noteq> hybrid_invoke tr' rt li h t x b args timeout tokens cost w"
  shows "\<exists>r a k bud n. remote_authority li h t x b r a k w \<and> reserve 1 tokens cost (ru_budget (wo_run w)) = (Inr True, bud)
     \<and> n \<in> set (ca_instances a) \<and> (case hc_allowed h of None \<Rightarrow> True | Some ds \<Rightarrow> ns_deployment n \<in> ds)
     \<and> (ns_transports n = {} \<or> ns_transports n \<inter> hc_supported h \<noteq> {})
     \<and> (\<exists>w1. tr a n k args timeout w1 \<noteq> tr' a n k args timeout w1)"
proof (cases rule: checked_invoke_cases[where 'e = 'e, of li "hc_gateway h" t x b w])
  case (early out)
  with assms show ?thesis by (simp add: hybrid_invoke_def)
next
  case (resolved st s w2)
  with assms have diff: "hybrid_resolved tr rt li h x b st args timeout tokens cost w2 \<noteq> hybrid_resolved tr' rt li h x b st args timeout tokens cost w2"
    by (simp add: hybrid_invoke_def)
  then obtain r where r: "st = RemoteState r" by (cases st) (simp_all add: hybrid_resolved_def)
  show ?thesis
  proof (cases rule: invoke_remote_split[where 'e = 'e, of li h x r b args timeout tokens cost w2])
    case (stopped out)
    with diff r show ?thesis by (simp add: hybrid_resolved_def)
  next
    case (admitted a k w3 md)
    have auth: "remote_authority li h t x b r a k w"
      unfolding remote_authority_def using resolved admitted(2) r resolve_authentic by metis
    have diff2: "dispatch_remote tr li h x a k (rm_policy r) b args timeout tokens cost md w3
        \<noteq> dispatch_remote tr' li h x a k (rm_policy r) b args timeout tokens cost md w3"
      using diff admitted(1) r by (simp add: hybrid_resolved_def)
    obtain q bud where q: "reserve 1 tokens cost (ru_budget (wo_run w)) = (q, bud)" by fastforce
    have bud: "ru_budget (wo_run w3) = ru_budget (wo_run w)" using admitted(5) resolved(6) by simp
    let ?w4 = "w3\<lparr>wo_run := (wo_run w3)\<lparr>ru_budget := bud\<rparr>\<rparr>"
    obtain ordered w5 where o: "order_instances li x a k (sp_mode (rm_policy r)) (eligible_instances h a) ?w4 = (ordered, w5)" by fastforce
    have ok: "q = Inr True" and tries: "try_instances tr h x a k b args timeout (sp_failover (rm_policy r)) (ru_calls (wo_run w5)) md ordered w5
        \<noteq> try_instances tr' h x a k b args timeout (sp_failover (rm_policy r)) (ru_calls (wo_run w5)) md ordered w5"
      using diff2 q bud o by (auto simp: dispatch_remote_def Let_def split: sum.splits if_splits)
    then obtain n w1 where n: "n \<in> set ordered" "tr a n k args timeout w1 \<noteq> tr' a n k args timeout w1"
      using try_instances_same[of ordered tr a k args timeout tr' h x b "sp_failover (rm_policy r)"] by blast
    have "n \<in> set (eligible_instances h a)"
      using n(1) order_instances_set[of li x a k "sp_mode (rm_policy r)" "eligible_instances h a" ?w4] o by simp
    then have "n \<in> set (ca_instances a)" "case hc_allowed h of None \<Rightarrow> True | Some ds \<Rightarrow> ns_deployment n \<in> ds"
      "ns_transports n = {} \<or> ns_transports n \<inter> hc_supported h \<noteq> {}" by (simp_all add: eligible_instances_def)
    with n auth q ok show ?thesis by blast
  qed
qed

text \<open>
  A transport whose calls are observed: it records each instance with what the call came to.
\<close>

type_synonym 'e attempt = "agent_instance \<times> ((remote_error + 'e) + invocation_result)"

definition observed ::
  "(agent_instance \<Rightarrow> 'e attempt list \<Rightarrow> (remote_error + 'e) + invocation_result) \<Rightarrow> ('e attempt list, 'e) transport" where
  "observed ans a n k args timeout w =
     (let r = ans n (hx_ext (wo_ext w)) in
      (r, w\<lparr>wo_ext := (wo_ext w)\<lparr>hx_ext := hx_ext (wo_ext w) @ [(n, r)]\<rparr>\<rparr>))"

definition certain_failure :: "'e attempt \<Rightarrow> bool" where
  "certain_failure p \<longleftrightarrow> (case snd p of Inl (Inl e) \<Rightarrow> \<not> te_uncertain e | _ \<Rightarrow> False)"

lemma try_instances_observed:
  assumes tr: "\<And>n w. tr a n k args timeout w = (ans n (hx_ext (wo_ext w)), w\<lparr>wo_ext := (wo_ext w)\<lparr>hx_ext := hx_ext (wo_ext w) @ [(n, ans n (hx_ext (wo_ext w)))]\<rparr>\<rparr>)"
    and "try_instances tr h x a k b args timeout failover prior md ns w = (out, w')" and "ns \<noteq> []"
  shows "\<exists>tried. tried \<noteq> [] \<and> hx_ext (wo_ext w') = hx_ext (wo_ext w) @ tried
     \<and> map fst tried = take (length tried) ns \<and> list_all certain_failure (butlast tried)
     \<and> (\<not> failover \<longrightarrow> length tried = 1)
     \<and> (case snd (last tried) of Inl (Inl e) \<Rightarrow> (\<exists>msg m. out = Inr (InvocationFailure (rx_correlation_id x) msg ''RemoteTransportError'' m None))
        | Inl (Inr e) \<Rightarrow> out = Inl (RuntimeRaised e)
        | Inr res \<Rightarrow> (\<exists>m. out = Inr (replace_metadata m res)))"
  using assms(2,3)
proof (induction ns arbitrary: w)
  case (Cons n ns)
  let ?r = "ans n (hx_ext (wo_ext w))"
  let ?w1 = "w\<lparr>wo_ext := (wo_ext w)\<lparr>hx_ext := hx_ext (wo_ext w) @ [(n, ?r)]\<rparr>\<rparr>"
  show ?case
  proof (cases "\<exists>e. ?r = Inl (Inl e) \<and> failover \<and> \<not> te_uncertain e \<and> ns \<noteq> []")
    case True
    then obtain e where e: "?r = Inl (Inl e)" "failover" "\<not> te_uncertain e" "ns \<noteq> []" by blast
    then have run: "try_instances tr h x a k b args timeout failover prior md ns ?w1 = (out, w')"
      using Cons.prems(1) by (simp add: tr)
    from Cons.IH[OF run e(4)] obtain tried where tried: "tried \<noteq> []" "hx_ext (wo_ext w') = hx_ext (wo_ext w) @ [(n, ?r)] @ tried"
      "map fst tried = take (length tried) ns" "list_all certain_failure (butlast tried)"
      "case snd (last tried) of Inl (Inl e) \<Rightarrow> (\<exists>msg m. out = Inr (InvocationFailure (rx_correlation_id x) msg ''RemoteTransportError'' m None))
        | Inl (Inr e) \<Rightarrow> out = Inl (RuntimeRaised e)
        | Inr res \<Rightarrow> (\<exists>m. out = Inr (replace_metadata m res))" by auto
    moreover have "certain_failure (n, ?r)" using e by (simp add: certain_failure_def)
    ultimately show ?thesis using e by (intro exI[of _ "(n, ?r) # tried"]) simp
  next
    case False
    have same: "\<exists>m. res = replace_metadata m res" for res :: invocation_result
      by (rule exI[of _ "result_metadata res"]) (cases res; simp)
    show ?thesis
    proof (cases ?r)
      case (Inl f)
      with False Cons.prems(1) show ?thesis
        by (intro exI[of _ "[(n, ?r)]"]) (cases f; auto simp: tr split: if_splits)
    next
      case (Inr res)
      with Cons.prems(1) same[of res] show ?thesis
        by (intro exI[of _ "[(n, ?r)]"]) (auto simp: tr split: option.splits if_splits)
    qed
  qed
qed simp

lemma eligible_distinct:
  assumes "catalog_sound cfg s" and "get_agent i s = Some a"
  shows "distinct (map ns_instance_id (eligible_instances h a))"
proof -
  from assms(2) obtain g where g: "dget (ct_agents s) i = Some g" "a = public_record g" by (auto simp: get_agent_def)
  from catalog_soundD(2)[OF assms(1) g(1)] have snd: "ddistinct (gs_instances g)"
    "\<And>j n. (j, n) \<in> set (gs_instances g) \<Longrightarrow> ns_instance_id n = j"
    by (auto simp: agent_sound_def instance_sound_def ddistinct_in_set)
  have "\<forall>p \<in> set (gs_instances g). ns_instance_id (snd p) = fst p" using snd(2) by auto
  then have "map ns_instance_id (ca_instances a) = map fst (dsorted (gs_instances g))"
    by (simp add: g(2) public_record_def catalog_record_def)
  moreover have "distinct (map fst (dsorted (gs_instances g)))"
    using snd(1) by (simp add: dsorted_def ddistinct_def distinct_map)
  ultimately have "distinct (map ns_instance_id (ca_instances a))" by (simp only:)
  then have "distinct (map ns_instance_id (sort_key ns_instance_id (ca_instances a)))" by (simp add: distinct_map)
  then show ?thesis unfolding eligible_instances_def by (rule distinct_map_filter)
qed

text \<open>A snapshot has no agent with an instance that is not healthy.\<close>

lemma unpublished: "n \<in> set (ca_instances a) \<Longrightarrow> \<not> ns_healthy n \<Longrightarrow> a \<notin> set (cs_agents (catalog_snapshot_at now s))"
  by (auto simp: catalog_snapshot_at_def eligible_record_def catalog_record_def Let_def List.map_filter_def split: if_splits)

lemma success_replaced: "replace_metadata m res = InvocationSuccess c v u m' \<Longrightarrow> \<exists>m0. res = InvocationSuccess c v u m0"
  by (cases res) auto

text \<open>
  C9. Failover never repeats work that may have been accepted.  In a gateway over a catalog that was built by its
  operations, an invocation of a remote binding tries each instance at most once, goes on to another only after a failure
  that proves the last one did not accept the request, and only if the policy stored with the binding allows failover.
  If it succeeds, the success is the answer of the last instance that was tried.
\<close>

theorem failover_at_most_once:
  fixes ans :: "agent_instance \<Rightarrow> 'e attempt list \<Rightarrow> (remote_error + 'e) + invocation_result"
  assumes "mk_catalog cfg clk hs = Inr c0" and "hx_catalog (wo_ext w) = perform_all cfg ops c0"
    and "resolve (li_mac li) (li_float li) (gc_authority (hc_gateway h)) b (wo_bindings w) = (Inr (RemoteState r), s)"
    and "hybrid_invoke (observed ans) rt li h t x b args timeout tokens cost w = (out, w')"
  shows "\<exists>tried. hx_ext (wo_ext w') = hx_ext (wo_ext w) @ tried \<and> distinct (map (ns_instance_id \<circ> fst) tried)
     \<and> list_all certain_failure (butlast tried) \<and> (\<not> sp_failover (rm_policy r) \<longrightarrow> length tried \<le> 1)
     \<and> (\<forall>cid v u m. out = Inr (InvocationSuccess cid v u m) \<longrightarrow>
          tried \<noteq> [] \<and> (\<exists>m'. snd (last tried) = Inr (InvocationSuccess cid v u m')))"
proof -
  have none: ?thesis if "hx_ext (wo_ext w') = hx_ext (wo_ext w)" "\<And>cid v u m. out \<noteq> Inr (InvocationSuccess cid v u m)"
    using that by (intro exI[of _ "[]"]) simp
  show ?thesis
  proof (cases rule: checked_invoke_cases[where 'e = 'e, of li "hc_gateway h" t x b w])
    case (early q)
    with assms(4) show ?thesis by (intro none) (auto simp: hybrid_invoke_def)
  next
    case (resolved st s' w2)
    then have st: "st = RemoteState r" using assms(3) by simp
    then have run: "invoke_remote (observed ans) li h x r b args timeout tokens cost w2 = (out, w')"
      using assms(4) resolved(1) by (simp add: hybrid_invoke_def hybrid_resolved_def)
    show ?thesis
    proof (cases rule: invoke_remote_split[where 'e = 'e, of li h x r b args timeout tokens cost w2])
      case (stopped q)
      with run resolved(5) show ?thesis by (intro none) auto
    next
      case (admitted a k w3 md)
      obtain q bud where q: "reserve 1 tokens cost (ru_budget (wo_run w3)) = (q, bud)" by fastforce
      let ?w4 = "w3\<lparr>wo_run := (wo_run w3)\<lparr>ru_budget := bud\<rparr>\<rparr>" and ?ns = "eligible_instances h a"
      have ext: "wo_ext w3 = wo_ext w" using admitted(4) resolved(5) by simp
      show ?thesis
      proof (cases "q = Inr True \<and> ?ns \<noteq> []")
        case False
        with run admitted(1) q ext show ?thesis
          by (intro none) (auto simp: dispatch_remote_def Let_def split: sum.splits if_splits)
      next
        case True
        obtain ordered w5 where o: "order_instances li x a k (sp_mode (rm_policy r)) ?ns ?w4 = (ordered, w5)" by fastforce
        have tries: "try_instances (observed ans) h x a k b args timeout (sp_failover (rm_policy r)) (ru_calls (wo_run w5)) md ordered w5 = (out, w')"
          using run admitted(1) q True o by (simp add: dispatch_remote_def Let_def)
        have sound: "catalog_sound cfg (hx_catalog (wo_ext w))"
          unfolding assms(2) by (rule sound.always[OF start_invariants(1)[OF assms(1)]])
        have "get_agent (bd_agent_id b) (hx_catalog (wo_ext w)) = Some a" using admitted(2) resolved(5) by (simp add: remote_target_def)
        from eligible_distinct[OF sound this] have d: "distinct (map ns_instance_id ordered)"
          using order_instances_distinct[of ?ns li x a k "sp_mode (rm_policy r)" ?w4] o by simp
        have "ordered \<noteq> []" using True order_instances_set[of li x a k "sp_mode (rm_policy r)" ?ns ?w4] o by auto
        from try_instances_observed[OF _ tries this] obtain tried where tried: "tried \<noteq> []" "hx_ext (wo_ext w') = hx_ext (wo_ext w5) @ tried"
          "map fst tried = take (length tried) ordered" "list_all certain_failure (butlast tried)"
          "\<not> sp_failover (rm_policy r) \<longrightarrow> length tried = 1"
          "case snd (last tried) of Inl (Inl e) \<Rightarrow> (\<exists>msg m. out = Inr (InvocationFailure (rx_correlation_id x) msg ''RemoteTransportError'' m None))
             | Inl (Inr e) \<Rightarrow> out = Inl (RuntimeRaised e) | Inr res \<Rightarrow> (\<exists>m. out = Inr (replace_metadata m res))"
          by (auto simp: observed_def Let_def)
        have "distinct (map (ns_instance_id \<circ> fst) tried)"
          using d tried(3) by (metis distinct_take map_map take_map)
        moreover have "hx_ext (wo_ext w5) = hx_ext (wo_ext w)" using order_instances_world[OF o] ext by simp
        moreover have "\<exists>m'. snd (last tried) = Inr (InvocationSuccess cid v u m')" if "out = Inr (InvocationSuccess cid v u m)" for cid v u m
          using tried(6) that by (auto split: sum.splits dest: success_replaced[OF sym])
        ultimately show ?thesis using tried by (intro exI[of _ tried]) auto
      qed
    qed
  qed
qed

text \<open>
  C36. Dispatch does not look at health.  Let a caller that is authorized invoke a remote binding, and let the catalog
  hold the target's agent with a single instance that is not healthy: its lease was found expired, or it was
  drained, removed from its ledger or revoked.  The snapshot of discovery offers no such instance, but
  the invocation is dispatched to it, although the failover policy speaks of healthy instances.
\<close>

theorem unhealthy_instance_dispatched:
  fixes ans :: "agent_instance \<Rightarrow> 'e attempt list \<Rightarrow> (remote_error + 'e) + invocation_result"
  assumes "active t x w" and "resolve (li_mac li) (li_float li) (gc_authority (hc_gateway h)) b (wo_bindings w) = (Inr (RemoteState r), s)"
    and "(bd_agent_id b, bd_capability_id b) \<notin> set (rx_path x)" and "has_budget x (wo_run w)" and "rx_deadline x = None"
    and "get_agent (bd_agent_id b) (hx_catalog (wo_ext w)) = Some a" and "ca_lifecycle a = CAT_ACTIVE"
    and "ca_generation a = ca_generation (rm_agent r)"
    and "List.find (\<lambda>k. kc_name k = bd_capability_id b) (ca_capabilities a) = Some k"
    and "to_capability_descriptor (li_digest li) (li_float li) (ca_agent_id a) (kc_version k) k = Inr d"
    and "cd_schema_digest d = bd_schema_digest b" and "authorized (gc_policy (hc_gateway h)) x d"
    and "hc_remote_policy h = None" and "reserve 1 tokens cost (ru_budget (wo_run w)) = (Inr True, bud)"
    and "ca_instances a = [n]" and "hc_allowed h = None" and "ns_transports n = {}"
    and "\<not> ns_healthy n"
  shows "a \<notin> set (cs_agents (catalog_snapshot_at now (hx_catalog (wo_ext w))))
     \<and> hx_ext (wo_ext (snd (hybrid_invoke (observed ans) rt li h t x b args timeout tokens cost w)))
        = hx_ext (wo_ext w) @ [(n, ans n (hx_ext (wo_ext w)))]"
proof
  show "a \<notin> set (cs_agents (catalog_snapshot_at now (hx_catalog (wo_ext w))))"
    using assms(15,18) unpublished[of n a now "hx_catalog (wo_ext w)"] by auto
  let ?u = "wo_run w" and ?w1 = "w\<lparr>wo_bindings := s\<rparr>"
  have bud: "context_budget x ?u = (snapshot (ru_budget ?u) (int (length (rx_path x))) None, ?u)"
    using assms(5) by (simp add: context_budget_def context_remaining_timeout_def)
  have depth: "\<not> rb_depth (snapshot (ru_budget ?u) (int (length (rx_path x))) None) < 1"
    and calls: "\<not> rb_calls (snapshot (ru_budget ?u) (int (length (rx_path x))) None) < 1"
    using assms(4) by (simp_all add: has_budget_def snapshot_def)
  have perm: "permits (gc_policy (hc_gateway h)) x True d ?u = (Inr True, ?u)"
    using assms(12) bud depth calls by (simp add: permits_def authorized_def snapshot_def)
  have el: "eligible_instances h a = [n]" using assms(15-17) by (simp add: eligible_instances_def)
  have "hybrid_invoke (observed ans) rt li h t x b args timeout tokens cost w
      = invoke_remote (observed ans) li h x r b args timeout tokens cost ?w1"
    using assms(1-3) bud depth by (simp add: hybrid_invoke_def checked_invoke_def hybrid_resolved_def Let_def)
  also have "\<dots> = dispatch_remote (observed ans) li h x a k (rm_policy r) b args timeout tokens cost (plain_metadata x ?u) ?w1"
    using assms(5-13) perm by (simp add: invoke_remote_def Let_def context_remaining_timeout_def)
  finally have run: "hybrid_invoke (observed ans) rt li h t x b args timeout tokens cost w
      = dispatch_remote (observed ans) li h x a k (rm_policy r) b args timeout tokens cost (plain_metadata x ?u) ?w1" .
  let ?w2 = "?w1\<lparr>wo_run := (wo_run ?w1)\<lparr>ru_budget := bud\<rparr>\<rparr>"
  obtain ordered w3 where o: "order_instances li x a k (sp_mode (rm_policy r)) [n] ?w2 = (ordered, w3)" by fastforce
  have "set ordered = {n}" "length ordered = 1"
    using order_instances_set[of li x a k "sp_mode (rm_policy r)" "[n]" ?w2] order_instances_length[of li x a k "sp_mode (rm_policy r)" "[n]" ?w2] o by simp_all
  then have "ordered = [n]" by (cases ordered) auto
  then show "hx_ext (wo_ext (snd (hybrid_invoke (observed ans) rt li h t x b args timeout tokens cost w)))
        = hx_ext (wo_ext w) @ [(n, ans n (hx_ext (wo_ext w)))]"
    using run assms(14) el o order_instances_world[OF o]
    by (simp add: dispatch_remote_def Let_def observed_def split: sum.splits option.splits)
qed

text \<open>Selecting only reads the catalog.\<close>

definition only_read :: "'h hybrid_world \<Rightarrow> 'h hybrid_world \<Rightarrow> bool" where
  "only_read w w' \<longleftrightarrow> hx_catalog (wo_ext w') = hx_catalog (wo_ext w)
     \<or> hx_catalog (wo_ext w') = snd (catalog_snapshot (hx_catalog (wo_ext w)))"

lemma candidates_only_read:
  assumes "hybrid_candidates li h x q w = (r, w')"
  shows "only_read w w'"
proof -
  obtain r1 v where f: "find_matches li (hc_gateway h) x q w = (r1, v)" by fastforce
  then have v: "wo_ext v = wo_ext w" by (auto simp: find_matches_def split: prod.splits)
  obtain r2 v2 where c: "remote_candidates li h x q v = (r2, v2)" by fastforce
  then have "only_read v v2"
    by (auto simp: remote_candidates_def take_snapshot_def only_read_def split: prod.splits sum.splits if_splits)
  with assms f v c show ?thesis by (cases r1; cases r2) (auto simp: hybrid_candidates_def only_read_def)
qed

lemma selected_match_ext: "selected_match li h c m v = (so, v') \<Longrightarrow> wo_ext v' = wo_ext v"
  by (auto simp: selected_match_def issue_match_def split: prod.splits)

lemma select_match_catalog: "select_match li h x q ms v = (r, v') \<Longrightarrow> hx_catalog (wo_ext v') = hx_catalog (wo_ext v)"
  by (auto simp: select_match_def next_selection_index_def Let_def split: selection_mode.splits option.splits)

lemma select_only_read:
  assumes "hybrid_select li h t x q w = (out, w')"
  shows "only_read w w'"
proof (cases "active t x w")
  case False
  with assms show ?thesis by (simp add: hybrid_select_def only_read_def)
next
  case act: True
  obtain r w1 where c: "hybrid_candidates li h x q w = (r, w1)" by fastforce
  note w1 = candidates_only_read[OF c]
  have same: ?thesis if "hx_catalog (wo_ext w') = hx_catalog (wo_ext w1)" using w1 that by (simp add: only_read_def)
  show ?thesis
  proof (cases r)
    case (Inl e)
    with assms act c w1 show ?thesis by (cases e) (simp_all add: hybrid_select_def)
  next
    case (Inr cs)
    show ?thesis
    proof (cases "hs_matches cs")
      case Nil
      with Inr assms act c w1 show ?thesis by (simp add: hybrid_select_def)
    next
      case (Cons m ms)
      show ?thesis
      proof (cases "ms = [] \<or> preferred_hybrid (hc_gateway h) (hs_matches cs) \<noteq> None")
        case True
        with Inr Cons assms act c show ?thesis
          by (intro same) (auto simp: hybrid_select_def dest!: selected_match_ext split: prod.splits list.splits)
      next
        case False
        then obtain m2 ms2 where ms: "ms = m2 # ms2" by (cases ms) auto
        obtain p w2 where p: "select_match li h x q (hs_matches cs) w1 = (p, w2)" by fastforce
        have "wo_ext w' = wo_ext w2"
          using Inr Cons ms assms act c False p
          by (auto simp: hybrid_select_def dest!: selected_match_ext split: prod.splits sum.splits option.splits)
        with select_match_catalog[OF p] show ?thesis by (intro same) simp
      qed
    qed
  qed
qed

section \<open>A concrete composed gateway\<close>

definition remote_find :: catalog_capability where
  "remote_find = \<lparr>kc_capability_id = ''find'', kc_name = ''find'', kc_description = None, kc_tags = {}, kc_input_schema = VProxy [],
     kc_output_schema = None, kc_version = ''1.2'', kc_modality = ''text/plain'', kc_required_scopes = [], kc_approval_required = False,
     kc_policy = empty_policy, kc_data_sources = []\<rparr>"

definition prepare_find :: "catalog_entry \<Rightarrow> catalog_error + prepared" where
  "prepare_find e = Inr \<lparr>pr_card_name = ''card'', pr_card_digest = ''d'', pr_capabilities = [remote_find], pr_logical_digest = ''l''\<rparr>"

definition find_config :: catalog_config where
  "find_config = sample_catalog_config\<lparr>cc_prepare := prepare_find\<rparr>"

definition sample_hybrid :: hybrid_config where
  "sample_hybrid = \<lparr>hc_gateway = sample_gateway, hc_remote_policy = None, hc_allowed = None,
     hc_selection = \<lparr>sp_mode = MODE_AMBIGUOUS, sp_failover = True\<rparr>, hc_supported = {}, hc_boundary = ''a2a''\<rparr>"

definition hybrid_sample_world :: "catalog_op list \<Rightarrow> (unit attempt list) hybrid_world" where
  "hybrid_sample_world ops = \<lparr>wo_registry = init_registry [],
     wo_bindings = \<lparr>bs_store = [], bs_clock = \<lparr>readings = of_nat, reads = 0\<rparr>, bs_nonces = (\<lambda>n. replicate (Suc n) CHR ''x''), bs_next = 0\<rparr>,
     wo_run = sample_run_state, wo_ext = \<lparr>hx_catalog = perform_all find_config ops empty_catalog, hx_counters = [], hx_ext = []\<rparr>\<rparr>"

text \<open>A caller selects the capability, then the catalog moves on.\<close>

definition remote_selection :: "catalog_op list \<Rightarrow> (unit gateway_error + selection_outcome) \<times> (unit attempt list) hybrid_world" where
  "remote_selection ops = hybrid_select sample_library sample_hybrid 0 sample_caller sample_query (hybrid_sample_world ops)"

definition remote_binding :: capability_binding where
  "remote_binding = \<lparr>bd_agent_id = ''a'', bd_capability_id = ''find'', bd_schema_digest = ''d'', bd_registry_revision = 1,
     bd_generation = 1, bd_runtime_id = ''runtime'', bd_issued_at = Finite 0, bd_expires_at = Finite 10, bd_nonce = ''x'',
     bd_signature = replicate 64 CHR ''a''\<rparr>"

definition second_answer :: "agent_instance \<Rightarrow> unit attempt list \<Rightarrow> (remote_error + unit) + invocation_result" where
  "second_answer n tried = (if tried = [] then Inl (Inl \<lparr>te_boundary = ''a2a'', te_uncertain = False\<rparr>)
     else Inr (InvocationSuccess ''corr'' (VInt 1) unknown_usage None))"

definition no_runtime :: "(bound_state, (unit attempt list) hybrid_part, unit) runtime_invoke" where
  "no_runtime agent cap args timeout corr w = (Inl GatewayInactive, w)"

definition two_instances :: "catalog_op list" where
  "two_instances = [DoAdmit sample_entry, DoAdmit second_entry]"

definition two_binding :: capability_binding where
  "two_binding = remote_binding\<lparr>bd_registry_revision := 2, bd_generation := 2\<rparr>"

definition two_world :: "(unit attempt list) hybrid_world" where
  "two_world = snd (remote_selection two_instances)"

definition uncertain_answer :: "agent_instance \<Rightarrow> unit attempt list \<Rightarrow> (remote_error + unit) + invocation_result" where
  "uncertain_answer n tried = Inl (Inl \<lparr>te_boundary = ''a2a'', te_uncertain = True\<rparr>)"

definition two_run :: "(agent_instance \<Rightarrow> unit attempt list \<Rightarrow> (remote_error + unit) + invocation_result)
    \<Rightarrow> (unit gateway_error + invocation_result) \<times> (unit attempt list) hybrid_world" where
  "two_run ans = hybrid_invoke (observed ans) no_runtime sample_library sample_hybrid 0 sample_caller two_binding (VDict []) None 0 (Finite 0) two_world"

lemma two_tried: "map (ns_instance_id \<circ> fst) (hx_ext (wo_ext (snd (two_run second_answer)))) = [''i'', ''j'']"
  by code_simp

lemma one_tried: "map (ns_instance_id \<circ> fst) (hx_ext (wo_ext (snd (two_run uncertain_answer)))) = [''i'']"
  by code_simp

theorem remote_work_needs_authority_witness:
  "\<exists>r a k n. remote_authority sample_library sample_hybrid 0 sample_caller two_binding r a k two_world \<and> n \<in> set (ca_instances a)"
proof -
  have "two_run second_answer \<noteq> two_run uncertain_answer" using two_tried one_tried by force
  from remote_work_needs_authority[OF this[unfolded two_run_def]] show ?thesis by blast
qed

lemma two_resolved:
  "\<exists>r s. resolve (li_mac sample_library) (li_float sample_library) (gc_authority (hc_gateway sample_hybrid)) two_binding (wo_bindings two_world)
     = (Inr (RemoteState r), s)"
proof -
  have "case fst (resolve (li_mac sample_library) (li_float sample_library) (gc_authority (hc_gateway sample_hybrid)) two_binding (wo_bindings two_world))
    of Inl _ \<Rightarrow> False | Inr st \<Rightarrow> st \<noteq> LocalState" by code_simp
  then show ?thesis
    by (cases "resolve (li_mac sample_library) (li_float sample_library) (gc_authority (hc_gateway sample_hybrid)) two_binding (wo_bindings two_world)")
      (auto split: sum.splits, metis bound_state.exhaust)
qed

theorem failover_at_most_once_witness:
  "\<exists>p q. hx_ext (wo_ext (snd (two_run second_answer))) = [p, q] \<and> certain_failure p \<and> ns_instance_id (fst p) \<noteq> ns_instance_id (fst q)"
proof -
  have start: "mk_catalog find_config catalog_clock sample_handles = Inr empty_catalog"
    using sample_starts by (simp add: find_config_def mk_catalog_def sample_catalog_config_def)
  have "only_read (hybrid_sample_world two_instances) two_world"
    by (rule select_only_read[where out = "fst (remote_selection two_instances)"]) (simp add: two_world_def remote_selection_def)
  then obtain ops where ops: "hx_catalog (wo_ext two_world) = perform_all find_config ops empty_catalog"
    using that[of two_instances] that[of "two_instances @ [DoSnapshot]"]
    by (auto simp: only_read_def hybrid_sample_world_def perform_all_def)
  obtain r s where res: "resolve (li_mac sample_library) (li_float sample_library) (gc_authority (hc_gateway sample_hybrid)) two_binding (wo_bindings two_world)
     = (Inr (RemoteState r), s)" using two_resolved by blast
  obtain out w' where run: "two_run second_answer = (out, w')" by fastforce
  have "hx_ext (wo_ext two_world) = []" by code_simp
  with failover_at_most_once[OF start ops res run[unfolded two_run_def]] obtain tried
    where tried: "hx_ext (wo_ext w') = tried" "distinct (map (ns_instance_id \<circ> fst) tried)" "list_all certain_failure (butlast tried)" by auto
  have "map (ns_instance_id \<circ> fst) tried = [''i'', ''j'']" using two_tried run tried(1) by simp
  then obtain p q where "tried = [p, q]" by auto
  with tried run show ?thesis by auto
qed

text \<open>The instance is revoked after the selection.\<close>

definition revoked_world :: "(unit attempt list) hybrid_world" where
  "revoked_world = (let w = snd (remote_selection [DoManage sample_register]) in
     w\<lparr>wo_ext := (wo_ext w)\<lparr>hx_catalog := perform find_config (DoManage sample_revoke) (hx_catalog (wo_ext w))\<rparr>\<rparr>)"

lemma revoked_target:
  "case get_agent ''a'' (hx_catalog (wo_ext revoked_world)) of None \<Rightarrow> False
     | Some a \<Rightarrow> ca_lifecycle a = CAT_ACTIVE \<and> ca_generation a = 1 \<and> ca_capabilities a = [remote_find] \<and> ca_agent_id a = ''a''
         \<and> (case ca_instances a of [n] \<Rightarrow> \<not> ns_healthy n \<and> ns_transports n = {} \<and> ns_instance_id n = ''i'' | _ \<Rightarrow> False)"
  by code_simp

lemma revoked_record: "map_option mg_state (dget (ct_managed (hx_catalog (wo_ext revoked_world))) (''a'', ''i'')) = Some INST_REVOKED"
  by code_simp

lemma revoked_resolved:
  "case fst (resolve (li_mac sample_library) (li_float sample_library) (gc_authority (hc_gateway sample_hybrid)) remote_binding (wo_bindings revoked_world))
    of Inl _ \<Rightarrow> False | Inr LocalState \<Rightarrow> False | Inr (RemoteState r) \<Rightarrow> ca_generation (rm_agent r) = 1"
  by code_simp

lemma revoked_authorized:
  "case to_capability_descriptor (li_digest sample_library) (li_float sample_library) ''a'' (kc_version remote_find) remote_find of Inl _ \<Rightarrow> False
    | Inr d \<Rightarrow> cd_schema_digest d = bd_schema_digest remote_binding \<and> authorized (gc_policy (hc_gateway sample_hybrid)) sample_caller d"
  by code_simp

theorem unhealthy_instance_dispatched_witness:
  "\<exists>n ans. dget (ct_managed (hx_catalog (wo_ext revoked_world))) (''a'', ns_instance_id n) \<noteq> None \<and> \<not> ns_healthy n
     \<and> hx_ext (wo_ext (snd (hybrid_invoke (observed ans) no_runtime sample_library sample_hybrid 0 sample_caller remote_binding
          (VDict []) None 0 (Finite 0) revoked_world))) = [(n, ans n [])]"
proof -
  obtain a n where a: "get_agent ''a'' (hx_catalog (wo_ext revoked_world)) = Some a" "ca_lifecycle a = CAT_ACTIVE" "ca_generation a = 1"
    "ca_capabilities a = [remote_find]" "ca_agent_id a = ''a''" "ca_instances a = [n]" "\<not> ns_healthy n" "ns_transports n = {}" "ns_instance_id n = ''i''"
    using revoked_target by (auto split: option.splits list.splits)
  obtain r s where r: "resolve (li_mac sample_library) (li_float sample_library) (gc_authority (hc_gateway sample_hybrid)) remote_binding
      (wo_bindings revoked_world) = (Inr (RemoteState r), s)" "ca_generation (rm_agent r) = 1"
    using revoked_resolved
    by (cases "resolve (li_mac sample_library) (li_float sample_library) (gc_authority (hc_gateway sample_hybrid)) remote_binding (wo_bindings revoked_world)")
      (auto split: sum.splits bound_state.splits)
  obtain d where d: "to_capability_descriptor (li_digest sample_library) (li_float sample_library) ''a'' (kc_version remote_find) remote_find = Inr d"
    "cd_schema_digest d = bd_schema_digest remote_binding" "authorized (gc_policy (hc_gateway sample_hybrid)) sample_caller d"
    using revoked_authorized by (auto split: sum.splits)
  have act: "active 0 sample_caller revoked_world" "has_budget sample_caller (wo_run revoked_world)" "hx_ext (wo_ext revoked_world) = []"
    by code_simp+
  have found: "List.find (\<lambda>k. kc_name k = bd_capability_id remote_binding) (ca_capabilities a) = Some remote_find"
    by (simp add: a(4) remote_binding_def remote_find_def)
  have desc: "to_capability_descriptor (li_digest sample_library) (li_float sample_library) (ca_agent_id a) (kc_version remote_find) remote_find = Inr d"
    using d(1) a(5) by simp
  have bud: "case reserve 1 0 (Finite 0) (ru_budget (wo_run revoked_world)) of (Inr ok, _) \<Rightarrow> ok | _ \<Rightarrow> False" by code_simp
  then obtain bud where bud: "reserve 1 0 (Finite 0) (ru_budget (wo_run revoked_world)) = (Inr True, bud)"
    by (auto split: prod.splits sum.splits)
  have "hx_ext (wo_ext (snd (hybrid_invoke (observed uncertain_answer) no_runtime sample_library sample_hybrid 0 sample_caller remote_binding
          (VDict []) None 0 (Finite 0) revoked_world))) = hx_ext (wo_ext revoked_world) @ [(n, uncertain_answer n (hx_ext (wo_ext revoked_world)))]"
    by (rule unhealthy_instance_dispatched[OF act(1) r(1) _ act(2) _ _ a(2) _ found desc d(2,3) _ bud a(6) _ a(8,7), THEN conjunct2])
      (use a r in \<open>simp_all add: remote_binding_def sample_caller_def sample_hybrid_def\<close>)
  moreover have "dget (ct_managed (hx_catalog (wo_ext revoked_world))) (''a'', ns_instance_id n) \<noteq> None"
    using revoked_record a(9) by auto
  ultimately show ?thesis using a(7) act(3) by (intro exI[of _ n] exI[of _ uncertain_answer]) simp
qed

end
