(* ===== verification/TaskStore.thy ===== *)
theory TaskStore
  imports InvocationResults Json
begin

text \<open>
  The tasks of the A2A protocol and their persistence: \<open>transport/tasks.py\<close>, with the transition rule and the message limits of
  \<open>core/a2a_profile.py\<close>.  Protocol messages are records of the fields that the code reads; a snapshot is a value.  Every method of
  the in-memory repository holds its lock for all it does to the tasks, hence is one atomic operation.  The \<open>TaskRepository\<close>
  protocol is the record of operations \<open>task_ops\<close>, with the laws that the host relies on in the locale \<open>task_repository\<close>.
\<close>

section \<open>Tasks\<close>

datatype task_state =
    TASK_UNSPECIFIED | TASK_SUBMITTED | TASK_WORKING | TASK_COMPLETED | TASK_FAILED | TASK_CANCELED
  | TASK_INPUT_REQUIRED | TASK_REJECTED | TASK_AUTH_REQUIRED

text \<open>A part holds text (\<open>Some\<close>) or other content.\<close>

record message_part =
  pt_text :: "string option"
  pt_media_type :: string

record a2a_message =
  ms_id :: string
  ms_context :: string
  ms_task :: string
  ms_parts :: "message_part list"
  ms_references :: "string list"
  ms_metadata :: "(string, pyval) dict"

record artifact =
  af_id :: string
  af_name :: string
  af_parts :: "string list"

record a2a_task =
  tk_id :: string
  tk_context :: string
  tk_state :: task_state
  tk_status_text :: string
  tk_history :: "a2a_message list"
  tk_artifacts :: "artifact list"
  tk_metadata :: "(string, pyval) dict"

definition terminal_task :: "task_state \<Rightarrow> bool" where
  "terminal_task st \<longleftrightarrow> st \<in> {TASK_COMPLETED, TASK_FAILED, TASK_CANCELED, TASK_REJECTED}"

text \<open>\<open>RemoteTaskError\<close> with its message as a reason; \<open>LimitExceededError\<close>.\<close>

datatype task_error =
    TaskIdRequired | TaskExists | BadPageToken | TaskNotFound | StaleTransition | TerminalImmutable | DuplicateTransition
  | NotCancelable | PageSizeError

text \<open>A terminal task may not change its state.\<close>

definition validate_task_transition :: "task_state \<Rightarrow> task_state \<Rightarrow> bool" where
  "validate_task_transition cur nxt \<longleftrightarrow> \<not> (terminal_task cur \<and> nxt \<noteq> cur)"

section \<open>The limits of the profile\<close>

datatype profile_error = UnsupportedMediaType | PartsExceeded | ProfileMetadataExceeded | MetadataNotJson

definition validate_metadata_size :: "(pyfloat \<Rightarrow> string) \<Rightarrow> (string, pyval) dict \<Rightarrow> profile_error + unit" where
  "validate_metadata_size fr m =
     (if m = [] then Inr ()
      else case canonical_json fr (VDict m) of
          None \<Rightarrow> Inl MetadataNotJson
        | Some t \<Rightarrow> if 4096 < length t then Inl ProfileMetadataExceeded else Inr ())"

text \<open>\<open>parse_message\<close> of the payload of a message that has been parsed already; an empty media type is none.\<close>

definition check_message :: "(pyfloat \<Rightarrow> string) \<Rightarrow> a2a_message \<Rightarrow> profile_error + unit" where
  "check_message fr m =
     (if 16 < length (ms_parts m) then Inl PartsExceeded
      else case validate_metadata_size fr (ms_metadata m) of
          Inl e \<Rightarrow> Inl e
        | Inr _ \<Rightarrow>
            if list_ex (\<lambda>p. pt_text p = None \<or> (pt_media_type p \<noteq> [] \<and> pt_media_type p \<noteq> ''text/plain'')) (ms_parts m)
            then Inl UnsupportedMediaType else Inr ())"

section \<open>The in-memory repository\<close>

text \<open>\<open>ts_evicted\<close>: the arguments of the calls of \<open>on_evict\<close>.\<close>

record task_store =
  ts_max :: int
  ts_tasks :: "(string, a2a_task) dict"
  ts_evicted :: "a2a_task list"

type_synonym ('s, 'a) task_op = "('s, task_error, 'a) prog"

definition init_task_store :: "int \<Rightarrow> py_error + task_store" where
  "init_task_store n = (if n \<le> 0 then Inl ValueError else Inr \<lparr>ts_max = n, ts_tasks = [], ts_evicted = []\<rparr>)"

definition task_create :: "a2a_task \<Rightarrow> (task_store, a2a_task) task_op" where
  "task_create t s =
     (if tk_id t = [] then (Inl TaskIdRequired, s)
      else if dget (ts_tasks s) (tk_id t) \<noteq> None then (Inl TaskExists, s)
      else
        let full = ts_max s \<le> int (length (ts_tasks s)) \<and> ts_tasks s \<noteq> [];
            kept = (if full then ddel (fst (hd (ts_tasks s))) (ts_tasks s) else ts_tasks s) in
        (Inr t, s\<lparr>ts_tasks := dset (tk_id t) t kept,
                  ts_evicted := ts_evicted s @ (if full then [snd (hd (ts_tasks s))] else [])\<rparr>))"

definition task_get :: "string \<Rightarrow> (task_store, a2a_task option) task_op" where
  "task_get i s = (Inr (dget (ts_tasks s) i), s)"

text \<open>The index after the task named by the page token.\<close>

fun after_token :: "string \<Rightarrow> a2a_task list \<Rightarrow> nat option" where
  "after_token tok [] = None"
| "after_token tok (t # ts) = (if tk_id t = tok then Some 1 else map_option Suc (after_token tok ts))"

definition task_list :: "string \<Rightarrow> int \<Rightarrow> string \<Rightarrow> (task_store, a2a_task list \<times> string) task_op" where
  "task_list ctx n token s =
     (if n \<le> 0 then (Inl PageSizeError, s)
      else
        let ts = sort_key tk_id (filter (\<lambda>t. ctx = [] \<or> tk_context t = ctx) (map snd (ts_tasks s))) in
        (case (if token = [] then Some 0 else after_token token ts) of
           None \<Rightarrow> (Inl BadPageToken, s)
         | Some start \<Rightarrow>
             let page = take (nat n) (drop start ts) in
             (Inr (page, if start + nat n < length ts then tk_id (last page) else []), s)))"

definition task_transition :: "string \<Rightarrow> task_state \<Rightarrow> task_state \<Rightarrow> (task_store, a2a_task) task_op" where
  "task_transition i expected nxt s =
     (case dget (ts_tasks s) i of
        None \<Rightarrow> (Inl TaskNotFound, s)
      | Some t \<Rightarrow>
          if tk_state t \<noteq> expected then (Inl StaleTransition, s)
          else if \<not> validate_task_transition expected nxt then (Inl TerminalImmutable, s)
          else if expected = nxt then (Inl DuplicateTransition, s)
          else let t' = t\<lparr>tk_state := nxt\<rparr> in (Inr t', s\<lparr>ts_tasks := dset i t' (ts_tasks s)\<rparr>))"

definition task_update :: "string \<Rightarrow> task_state \<Rightarrow> a2a_task \<Rightarrow> (task_store, a2a_task) task_op" where
  "task_update i expected t s =
     (case dget (ts_tasks s) i of
        None \<Rightarrow> (Inl TaskNotFound, s)
      | Some cur \<Rightarrow>
          if tk_state cur \<noteq> expected then (Inl StaleTransition, s)
          else if \<not> validate_task_transition expected (tk_state t) then (Inl TerminalImmutable, s)
          else if expected = tk_state t then (Inl DuplicateTransition, s)
          else let t' = t\<lparr>tk_id := i\<rparr> in (Inr t', s\<lparr>ts_tasks := dset i t' (ts_tasks s)\<rparr>))"

definition task_cancel :: "string \<Rightarrow> (task_store, a2a_task) task_op" where
  "task_cancel i s =
     (case dget (ts_tasks s) i of
        None \<Rightarrow> (Inl TaskNotFound, s)
      | Some t \<Rightarrow>
          if terminal_task (tk_state t) then (Inl NotCancelable, s)
          else let t' = t\<lparr>tk_state := TASK_CANCELED\<rparr> in (Inr t', s\<lparr>ts_tasks := dset i t' (ts_tasks s)\<rparr>))"

section \<open>The repository as an interface\<close>

record 's task_ops =
  to_create :: "a2a_task \<Rightarrow> ('s, a2a_task) task_op"
  to_get :: "string \<Rightarrow> ('s, a2a_task option) task_op"
  to_list :: "string \<Rightarrow> int \<Rightarrow> string \<Rightarrow> ('s, a2a_task list \<times> string) task_op"
  to_transition :: "string \<Rightarrow> task_state \<Rightarrow> task_state \<Rightarrow> ('s, a2a_task) task_op"
  to_update :: "string \<Rightarrow> task_state \<Rightarrow> a2a_task \<Rightarrow> ('s, a2a_task) task_op"
  to_cancel :: "string \<Rightarrow> ('s, a2a_task) task_op"

definition memory_tasks :: "task_store task_ops" where
  "memory_tasks = \<lparr>to_create = task_create, to_get = task_get, to_list = task_list, to_transition = task_transition,
     to_update = task_update, to_cancel = task_cancel\<rparr>"

text \<open>
  The laws of a repository over the map of the tasks it retains: what a success says of the task before and
  after, that a refusal changes no task, and that creating one may only evict others.
\<close>

locale task_repository =
  fixes ops :: "'s task_ops" and retained :: "'s \<Rightarrow> string \<rightharpoonup> a2a_task"
  assumes get_law: "to_get ops i s = (Inr (retained s i), s)"
    and list_law: "snd (to_list ops ctx pages tok s) = s"
    and create_law: "to_create ops t s = (r, s') \<Longrightarrow>
      (case r of Inl _ \<Rightarrow> s' = s
       | Inr u \<Rightarrow> u = t \<and> retained s (tk_id t) = None \<and> retained s' (tk_id t) = Some t
           \<and> (\<forall>j. j \<noteq> tk_id t \<longrightarrow> retained s' j = retained s j \<or> retained s' j = None))"
    and transition_law: "to_transition ops i e n s = (r, s') \<Longrightarrow>
      (case r of Inl _ \<Rightarrow> s' = s
       | Inr u \<Rightarrow> \<exists>t. retained s i = Some t \<and> tk_state t = e \<and> \<not> terminal_task e \<and> e \<noteq> n
           \<and> u = t\<lparr>tk_state := n\<rparr> \<and> retained s' = (retained s)(i \<mapsto> u))"
    and update_law: "to_update ops i e t s = (r, s') \<Longrightarrow>
      (case r of Inl _ \<Rightarrow> s' = s
       | Inr u \<Rightarrow> \<exists>t0. retained s i = Some t0 \<and> tk_state t0 = e \<and> \<not> terminal_task e \<and> e \<noteq> tk_state t
           \<and> u = t\<lparr>tk_id := i\<rparr> \<and> retained s' = (retained s)(i \<mapsto> u))"
    and cancel_law: "to_cancel ops i s = (r, s') \<Longrightarrow>
      (case r of Inl _ \<Rightarrow> s' = s
       | Inr u \<Rightarrow> \<exists>t. retained s i = Some t \<and> \<not> terminal_task (tk_state t)
           \<and> u = t\<lparr>tk_state := TASK_CANCELED\<rparr> \<and> retained s' = (retained s)(i \<mapsto> u))"
begin

text \<open>A terminal task stays what it is as long as it is retained.\<close>

definition settles :: "'s \<Rightarrow> 's \<Rightarrow> bool" where
  "settles s s' \<longleftrightarrow> (\<forall>i t. retained s i = Some t \<and> terminal_task (tk_state t) \<longrightarrow> retained s' i \<in> {None, Some t})"

lemma create_settles: "settles s (snd (to_create ops t s))"
proof (cases "to_create ops t s")
  case (Pair r s')
  show ?thesis
  proof (cases r)
    case (Inl e)
    with create_law[OF Pair] Pair show ?thesis by (simp add: settles_def)
  next
    case (Inr u)
    with create_law[OF Pair] have new: "retained s (tk_id t) = None"
      and others: "j \<noteq> tk_id t \<Longrightarrow> retained s' j = retained s j \<or> retained s' j = None" for j by simp_all
    have "retained s' i \<in> {None, Some x}" if "retained s i = Some x" for i x
      using that new others[of i] by (cases "i = tk_id t") auto
    with Pair show ?thesis by (auto simp: settles_def)
  qed
qed

lemma transition_settles: "settles s (snd (to_transition ops i e n s))"
  using transition_law[of i e n s "fst (to_transition ops i e n s)" "snd (to_transition ops i e n s)"]
  by (auto simp: settles_def split: sum.splits if_splits)

lemma update_settles: "settles s (snd (to_update ops i e t s))"
  using update_law[of i e t s "fst (to_update ops i e t s)" "snd (to_update ops i e t s)"]
  by (auto simp: settles_def split: sum.splits if_splits)

lemma cancel_settles: "settles s (snd (to_cancel ops i s))"
  using cancel_law[of i s "fst (to_cancel ops i s)" "snd (to_cancel ops i s)"]
  by (auto simp: settles_def split: sum.splits if_splits)

end

abbreviation memory_retained :: "task_store \<Rightarrow> string \<rightharpoonup> a2a_task" where
  "memory_retained s \<equiv> map_of (ts_tasks s)"

interpretation mem_tasks: task_repository memory_tasks memory_retained
proof unfold_locales
  fix t s r s'
  assume "to_create memory_tasks t s = (r, s')"
  then show "case r of Inl _ \<Rightarrow> s' = s
       | Inr u \<Rightarrow> u = t \<and> memory_retained s (tk_id t) = None \<and> memory_retained s' (tk_id t) = Some t
           \<and> (\<forall>j. j \<noteq> tk_id t \<longrightarrow> memory_retained s' j = memory_retained s j \<or> memory_retained s' j = None)"
    by (auto simp: memory_tasks_def task_create_def Let_def split: if_splits)
qed (auto simp: memory_tasks_def task_get_def task_list_def task_transition_def task_update_def task_cancel_def Let_def
    map_of_dset validate_task_transition_def split: if_splits option.splits)

text \<open>The pages of a listing, read until no token is left, are the retained tasks of the context in the order of their identifiers.\<close>

text \<open>The bound of the in-memory repository.\<close>

definition task_store_wf :: "task_store \<Rightarrow> bool" where
  "task_store_wf s \<longleftrightarrow> ddistinct (ts_tasks s) \<and> 0 < ts_max s \<and> int (length (ts_tasks s)) \<le> ts_max s
     \<and> (\<forall>(k, t)\<in>set (ts_tasks s). tk_id t = k \<and> k \<noteq> [])"

end
