(* ===== verification/Hardening.thy ===== *)
theory Hardening
  imports Json
begin

text \<open>
  The boundary that inspects an inbound HTTP request before anything else happens, \<open>a2a/hardening.py\<close>: the validated host
  configuration, the transport facts that are derived from one ASGI scope, and the scope that the application sees.
  Header bytes decode as Latin-1, so a decoded text is a list of characters below 256; case mapping, blanks and digits are
  those of Python on these characters, and the regular expressions are written out as predicates.
  \<open>IPv4Address\<close> and \<open>IPv6Address\<close> of the standard library are modelled as recognizers.
\<close>

section \<open>Texts\<close>

abbreviation ord :: "char \<Rightarrow> nat" where
  "ord c \<equiv> of_char c"

definition in_range :: "nat \<Rightarrow> nat \<Rightarrow> char \<Rightarrow> bool" where
  "in_range lo hi c \<longleftrightarrow> lo \<le> ord c \<and> ord c \<le> hi"

definition is_blank :: "char \<Rightarrow> bool" where
  "is_blank c \<longleftrightarrow> is_space c \<or> ord c = 133 \<or> ord c = 160"

definition strip_by :: "(char \<Rightarrow> bool) \<Rightarrow> string \<Rightarrow> string" where
  "strip_by p s = rev (dropWhile p (rev (dropWhile p s)))"

abbreviation strip_text :: "string \<Rightarrow> string" where
  "strip_text \<equiv> strip_by is_blank"

definition latin_lower_char :: "char \<Rightarrow> char" where
  "latin_lower_char c = (if in_range 65 90 c \<or> in_range 192 214 c \<or> in_range 216 222 c then char_of (ord c + 32) else c)"

definition latin_lower :: "string \<Rightarrow> string" where
  "latin_lower s = map latin_lower_char s"

text \<open>Upper case; the two characters whose upper case is not Latin-1 stay.\<close>

definition latin_upper :: "string \<Rightarrow> string" where
  "latin_upper s = concat (map (\<lambda>c. if in_range 97 122 c \<or> in_range 224 246 c \<or> in_range 248 254 c then [char_of (ord c - 32)]
     else if ord c = 223 then ''SS'' else [c]) s)"

definition ascii_digit :: "char \<Rightarrow> bool" where
  "ascii_digit c \<longleftrightarrow> in_range 48 57 c"

text \<open>\<open>str.isdigit\<close> also accepts the superscripts, which \<open>int\<close> rejects; \<open>int\<close> also rejects more than 4300 digits.\<close>

definition is_digits :: "string \<Rightarrow> bool" where
  "is_digits s \<longleftrightarrow> s \<noteq> [] \<and> list_all (\<lambda>c. ascii_digit c \<or> ord c \<in> {178, 179, 185}) s"

definition digits_number :: "string \<Rightarrow> nat" where
  "digits_number s = foldl (\<lambda>n c. 10 * n + (ord c - 48)) 0 s"

datatype host_error = Rejected string nat | HostRaised py_error | BadConfig string | PayloadLimit string

definition to_int :: "string \<Rightarrow> host_error + nat" where
  "to_int s = (if list_all ascii_digit s \<and> length s \<le> 4300 then Inr (digits_number s) else Inl (HostRaised ValueError))"

definition bindE :: "('e + 'a) \<Rightarrow> ('a \<Rightarrow> 'e + 'b) \<Rightarrow> 'e + 'b" where
  "bindE x f = (case x of Inl e \<Rightarrow> Inl e | Inr y \<Rightarrow> f y)"

definition reject_if :: "bool \<Rightarrow> string \<Rightarrow> nat \<Rightarrow> host_error + unit" where
  "reject_if b reason status = (if b then Inl (Rejected reason status) else Inr ())"

fun split_on :: "char \<Rightarrow> string \<Rightarrow> string list" where
  "split_on d [] = [[]]"
| "split_on d (c # s) = (if c = d then [] # split_on d s
     else (case split_on d s of [] \<Rightarrow> [[c]] | t # ts \<Rightarrow> (c # t) # ts))"

definition before :: "char \<Rightarrow> string \<Rightarrow> string" where
  "before d s = takeWhile (\<lambda>c. c \<noteq> d) s"

definition after :: "char \<Rightarrow> string \<Rightarrow> string" where
  "after d s = drop 1 (dropWhile (\<lambda>c. c \<noteq> d) s)"

text \<open>\<open>rpartition\<close> at a character that occurs.\<close>

definition before_last :: "char \<Rightarrow> string \<Rightarrow> string" where
  "before_last d s = rev (after d (rev s))"

definition after_last :: "char \<Rightarrow> string \<Rightarrow> string" where
  "after_last d s = rev (before d (rev s))"

section \<open>Addresses\<close>

definition ipv4_octet :: "string \<Rightarrow> bool" where
  "ipv4_octet s \<longleftrightarrow> s \<noteq> [] \<and> list_all ascii_digit s \<and> length s \<le> 3 \<and> (s = ''0'' \<or> hd s \<noteq> CHR ''0'') \<and> digits_number s \<le> 255"

definition is_ipv4 :: "string \<Rightarrow> bool" where
  "is_ipv4 s \<longleftrightarrow> CHR ''/'' \<notin> set s \<and> length (split_on CHR ''.'' s) = 4 \<and> list_all ipv4_octet (split_on CHR ''.'' s)"

definition is_hextet :: "string \<Rightarrow> bool" where
  "is_hextet s \<longleftrightarrow> s \<noteq> [] \<and> length s \<le> 4 \<and> list_all (\<lambda>c. ascii_digit c \<or> in_range 97 102 c \<or> in_range 65 70 c) s"

text \<open>The groups of an IPv6 address, the last two of which may be written as an IPv4 address.\<close>

definition ipv6_groups :: "string \<Rightarrow> string list option" where
  "ipv6_groups s =
     (let ps = split_on CHR '':'' s in
      if length ps < 3 then None
      else if CHR ''.'' \<in> set (last ps) then (if is_ipv4 (last ps) then Some (butlast ps @ [''0'', ''0'']) else None)
      else Some ps)"

definition ipv6_parts :: "string list \<Rightarrow> bool" where
  "ipv6_parts ps =
     (if 9 < length ps then False
      else (case filter (\<lambda>i. ps ! i = []) [1..<length ps - 1] of
          [] \<Rightarrow> length ps = 8 \<and> list_all is_hextet ps
        | [i] \<Rightarrow>
            let hi = take i ps; lo = drop (Suc i) ps;
                hi' = (if hd ps = [] then tl hi else hi); lo' = (if last ps = [] then butlast lo else lo) in
            (hd ps = [] \<longrightarrow> hi' = []) \<and> (last ps = [] \<longrightarrow> lo' = []) \<and> length hi' + length lo' < 8
            \<and> list_all is_hextet hi' \<and> list_all is_hextet lo'
        | _ \<Rightarrow> False))"

definition is_ipv6 :: "string \<Rightarrow> bool" where
  "is_ipv6 s \<longleftrightarrow> CHR ''/'' \<notin> set s
     \<and> (CHR ''%'' \<in> set s \<longrightarrow> after CHR ''%'' s \<noteq> [] \<and> CHR ''%'' \<notin> set (after CHR ''%'' s))
     \<and> (case ipv6_groups (before CHR ''%'' s) of None \<Rightarrow> False | Some ps \<Rightarrow> ipv6_parts ps)"

definition is_ip :: "string \<Rightarrow> bool" where
  "is_ip s \<longleftrightarrow> is_ipv4 s \<or> is_ipv6 s"

definition host_char :: "char \<Rightarrow> bool" where
  "host_char c \<longleftrightarrow> in_range 97 122 c \<or> ascii_digit c"

definition host_label :: "string \<Rightarrow> bool" where
  "host_label s \<longleftrightarrow> s \<noteq> [] \<and> host_char (hd s) \<and> host_char (last s) \<and> list_all (\<lambda>c. host_char c \<or> c = CHR ''-'') s"

definition valid_host :: "string \<Rightarrow> bool" where
  "valid_host h =
     (if h \<noteq> [] \<and> hd h = CHR ''['' \<and> last h = CHR '']'' then is_ipv6 (butlast (tl h))
      else is_ip h \<or> (list_all host_label (split_on CHR ''.'' h) \<and> length h \<le> 253))"

definition parse_port :: "string \<Rightarrow> host_error + nat" where
  "parse_port s = bindE (reject_if (\<not> is_digits s) ''invalid_host'' 400) (\<lambda>_.
     bindE (to_int s) (\<lambda>p. if 1 \<le> p \<and> p \<le> 65535 then Inr p else Inl (Rejected ''invalid_host'' 400)))"

definition split_authority :: "string \<Rightarrow> host_error + (string \<times> nat option)" where
  "split_authority a =
     (let v = latin_lower (strip_text a) in
      if v = [] \<or> 255 < length v then Inl (Rejected ''invalid_host'' 400)
      else bindE
        (if hd v = CHR ''['' then
           (if CHR '']'' \<notin> set v then Inl (Rejected ''invalid_host'' 400)
            else
              let h = before CHR '']'' v @ '']''; rest = after CHR '']'' v in
              if rest = [] then Inr (h, None)
              else if hd rest \<noteq> CHR '':'' then Inl (Rejected ''invalid_host'' 400)
              else bindE (parse_port (tl rest)) (\<lambda>p. Inr (h, Some p)))
         else if CHR '':'' \<in> set v then bindE (parse_port (after_last CHR '':'' v)) (\<lambda>p. Inr (before_last CHR '':'' v, Some p))
         else Inr (v, None))
        (\<lambda>(h, p). if valid_host h then Inr (h, p) else Inl (Rejected ''invalid_host'' 400)))"

definition authority_text :: "string \<times> nat option \<Rightarrow> string" where
  "authority_text hp = (case snd hp of None \<Rightarrow> fst hp | Some p \<Rightarrow> fst hp @ '':'' @ nat_digits p)"

section \<open>Configuration\<close>

record host_config =
  a2_schemes :: "string set"
  a2_hosts :: "string set"
  a2_ports :: "int set"
  a2_authorities :: "string set"
  a2_paths :: "string set"
  a2_methods :: "string set"
  a2_content_types :: "string set"
  a2_proxies :: "string set"
  a2_trust_host :: bool
  a2_trust_proto :: bool
  a2_trust_for :: bool
  a2_reject_untrusted :: bool
  a2_max_header_count :: int
  a2_max_header_bytes :: int
  a2_max_authorization :: int
  a2_max_correlation :: int
  a2_max_trace :: int
  a2_max_body :: int
  a2_max_chunks :: int
  a2_max_response :: int
  a2_max_metadata :: int
  a2_max_message_parts :: int
  a2_max_artifact_parts :: int
  a2_max_artifacts :: int
  a2_max_history :: int
  a2_max_page :: int
  a2_max_retained :: int
  a2_max_accepted :: int
  a2_max_caller :: int
  a2_max_capability :: int
  a2_request_deadline :: pyfloat
  a2_capability_deadline :: pyfloat
  a2_cancellation_deadline :: pyfloat
  a2_startup_deadline :: pyfloat
  a2_shutdown_deadline :: pyfloat
  a2_drain_deadline :: pyfloat
  a2_flush_deadline :: pyfloat
  a2_liveness :: "string option"
  a2_readiness :: "string option"

definition normalize_schemes :: "string set \<Rightarrow> host_error + string set" where
  "normalize_schemes vs = (let n = (latin_lower \<circ> strip_text) ` vs in
     if n \<subseteq> {''http'', ''https''} then Inr n else Inl (BadConfig ''schemes''))"

definition normalize_hosts :: "string set \<Rightarrow> host_error + string set" where
  "normalize_hosts vs = (let n = (latin_lower \<circ> strip_text) ` vs in
     if \<forall>h \<in> n. h \<noteq> [] \<and> valid_host h then Inr n else Inl (BadConfig ''hosts''))"

definition normalize_ports :: "int set \<Rightarrow> host_error + int set" where
  "normalize_ports vs = (if \<forall>p \<in> vs. 1 \<le> p \<and> p \<le> 65535 then Inr vs else Inl (BadConfig ''ports''))"

text \<open>What \<open>_split_authority\<close> raises other than a rejection escapes.\<close>

definition config_authority :: "string \<Rightarrow> host_error + string" where
  "config_authority v = (case split_authority (latin_lower (strip_text v)) of
     Inl (Rejected r st) \<Rightarrow> Inl (BadConfig ''authorities'') | Inl e \<Rightarrow> Inl e | Inr hp \<Rightarrow> Inr (authority_text hp))"

definition is_left :: "'e + 'a \<Rightarrow> bool" where
  "is_left x = (case x of Inl _ \<Rightarrow> True | Inr _ \<Rightarrow> False)"

text \<open>The error of a set is the error of some member of it; it is chosen by the order of the members.\<close>

definition normalize_authorities :: "string set \<Rightarrow> host_error + string set" where
  "normalize_authorities vs =
     (case filter is_left (map config_authority (sorted_list_of_set vs)) of
        Inl e # _ \<Rightarrow> Inl e
      | _ \<Rightarrow> Inr {a. \<exists>v \<in> vs. config_authority v = Inr a})"

definition normalize_proxies :: "string set \<Rightarrow> host_error + string set" where
  "normalize_proxies vs = (if \<forall>p \<in> strip_text ` vs. is_ip p then Inr (strip_text ` vs) else Inl (BadConfig ''proxies''))"

definition valid_path :: "string \<Rightarrow> bool" where
  "valid_path p \<longleftrightarrow> p \<noteq> [] \<and> hd p = CHR ''/'' \<and> p = strip_text p
     \<and> list_all (\<lambda>c. c \<notin> {CHR ''?'', CHR ''#'', CHR '' ''} \<and> ord c \<noteq> 13 \<and> ord c \<noteq> 10) p"

definition is_letter :: "char \<Rightarrow> bool" where
  "is_letter c \<longleftrightarrow> in_range 65 90 c \<or> in_range 97 122 c \<or> ord c \<in> {170, 181, 186} \<or> in_range 192 214 c \<or> in_range 216 246 c \<or> in_range 248 255 c"

definition normalize_methods :: "string set \<Rightarrow> host_error + string set" where
  "normalize_methods vs = (let n = (latin_upper \<circ> strip_text) ` vs in
     if \<forall>m \<in> n. m \<noteq> [] \<and> list_all is_letter m then Inr n else Inl (BadConfig ''methods''))"

definition normalize_types :: "string set \<Rightarrow> host_error + string set" where
  "normalize_types vs = (let n = (latin_lower \<circ> strip_text) ` vs in
     if \<forall>m \<in> n. CHR ''/'' \<in> set m \<and> CHR '';'' \<notin> set m then Inr n else Inl (BadConfig ''content_types''))"

definition int_limits :: "host_config \<Rightarrow> int list" where
  "int_limits c = [a2_max_header_count c, a2_max_header_bytes c, a2_max_authorization c, a2_max_correlation c, a2_max_trace c,
     a2_max_body c, a2_max_chunks c, a2_max_response c, a2_max_metadata c, a2_max_message_parts c, a2_max_artifact_parts c,
     a2_max_artifacts c, a2_max_history c, a2_max_page c, a2_max_retained c, a2_max_accepted c, a2_max_caller c, a2_max_capability c]"

definition deadlines :: "host_config \<Rightarrow> pyfloat list" where
  "deadlines c = [a2_request_deadline c, a2_capability_deadline c, a2_cancellation_deadline c, a2_startup_deadline c,
     a2_shutdown_deadline c, a2_drain_deadline c, a2_flush_deadline c]"

definition config_if :: "bool \<Rightarrow> string \<Rightarrow> host_error + unit" where
  "config_if ok what = (if ok then Inr () else Inl (BadConfig what))"

definition mk_host_config :: "host_config \<Rightarrow> host_error + host_config" where
  "mk_host_config c =
     bindE (normalize_schemes (a2_schemes c)) (\<lambda>schemes.
     bindE (normalize_hosts (a2_hosts c)) (\<lambda>hosts.
     bindE (normalize_ports (a2_ports c)) (\<lambda>ports.
     bindE (normalize_authorities (a2_authorities c)) (\<lambda>auths.
     bindE (config_if (\<forall>p \<in> a2_paths c. valid_path p) ''paths'') (\<lambda>_.
     bindE (normalize_methods (a2_methods c)) (\<lambda>methods.
     bindE (normalize_types (a2_content_types c)) (\<lambda>types.
     bindE (normalize_proxies (a2_proxies c)) (\<lambda>proxies.
     bindE (config_if (methods \<noteq> {}) ''methods'') (\<lambda>_.
     bindE (config_if (types \<noteq> {}) ''content_types'') (\<lambda>_.
     bindE (config_if (schemes \<noteq> {}) ''schemes'') (\<lambda>_.
     bindE (config_if (\<not> ((a2_trust_host c \<or> a2_trust_proto c \<or> a2_trust_for c) \<and> proxies = {})) ''proxies'') (\<lambda>_.
     bindE (config_if (list_all (\<lambda>n. 0 < n) (int_limits c)) ''limits'') (\<lambda>_.
     bindE (config_if (list_all (\<lambda>d. isfinite d \<and> 0 < fin_val d) (deadlines c)) ''deadlines'') (\<lambda>_.
     bindE (config_if (case a2_liveness c of None \<Rightarrow> True | Some p \<Rightarrow> valid_path p) ''liveness_path'') (\<lambda>_.
     bindE (config_if (case a2_readiness c of None \<Rightarrow> True | Some p \<Rightarrow> valid_path p) ''readiness_path'') (\<lambda>_.
     bindE (config_if (a2_liveness c = None \<or> a2_liveness c \<noteq> a2_readiness c) ''probe_paths'') (\<lambda>_.
       Inr (c\<lparr>a2_schemes := schemes, a2_hosts := hosts, a2_ports := ports, a2_authorities := auths, a2_methods := methods,
              a2_content_types := types, a2_proxies := proxies\<rparr>))))))))))))))))))"

text \<open>The size of metadata is that of its canonical text; \<open>fr\<close> is the text of floats.\<close>

definition enforce_metadata_limit :: "(pyfloat \<Rightarrow> string) \<Rightarrow> pyval \<Rightarrow> host_config \<Rightarrow> host_error + unit" where
  "enforce_metadata_limit fr m c =
     (if m = VNone then Inr ()
      else case canonical_json fr m of
          None \<Rightarrow> Inl (HostRaised TypeError)
        | Some t \<Rightarrow> if a2_max_metadata c < int (length t) then Inl (PayloadLimit ''metadata_bytes_exceeded'') else Inr ())"

section \<open>Headers\<close>

type_synonym headers = "(string \<times> string) list"

record asgi_scope =
  sc_method :: "string option"
  sc_scheme :: "string option"
  sc_path :: "string option"
  sc_client :: "string option"
  sc_headers :: headers

record facts =
  fa_method :: string
  fa_path :: string
  fa_scheme :: string
  fa_host :: string
  fa_port :: "nat option"
  fa_peer :: "string option"
  fa_client :: "string option"
  fa_via_proxy :: bool
  fa_bearer :: bool
  fa_traceparent :: string
  fa_tracestate :: string
  fa_correlation :: string
  fa_subject :: "string option"
  fa_dropped :: "string set"

definition fa_authority :: "facts \<Rightarrow> string" where
  "fa_authority f = authority_text (fa_host f, fa_port f)"

definition non_empty :: "string option \<Rightarrow> string option" where
  "non_empty v = (case v of None \<Rightarrow> None | Some s \<Rightarrow> if s = [] then None else Some s)"

definition caller_key :: "facts \<Rightarrow> string" where
  "caller_key f = (case non_empty (fa_subject f) of Some s \<Rightarrow> ''mtls:'' @ s
     | None \<Rightarrow> ''peer:'' @ (case non_empty (fa_client f) of Some c \<Rightarrow> c
         | None \<Rightarrow> (case non_empty (fa_peer f) of Some p \<Rightarrow> p | None \<Rightarrow> ''unknown'')))"

definition reserved_headers :: "string set" where
  "reserved_headers = {''x-conducto-mtls-subject'', ''x-conducto-client-address''}"

definition forwarded_headers :: "string set" where
  "forwarded_headers = {''forwarded'', ''x-forwarded-for'', ''x-forwarded-host'', ''x-forwarded-port'', ''x-forwarded-proto''}"

text \<open>The loop over the raw headers, with the bytes seen so far.\<close>

fun decode_items :: "int \<Rightarrow> headers \<Rightarrow> int \<Rightarrow> host_error + headers" where
  "decode_items limit [] seen = Inr []"
| "decode_items limit ((k, v) # hs) seen =
     (let seen' = seen + int (length k) + int (length v) + 2 in
      if limit < seen' then Inl (Rejected ''header_bytes_exceeded'' 431)
      else bindE (decode_items limit hs seen') (\<lambda>ds. Inr ((latin_lower k, strip_text v) # ds)))"

definition decode_headers :: "headers \<Rightarrow> host_config \<Rightarrow> host_error + headers" where
  "decode_headers raw c = bindE (reject_if (a2_max_header_count c < int (length raw)) ''header_count_exceeded'' 431) (\<lambda>_.
     decode_items (a2_max_header_bytes c) raw 0)"

text \<open>The values of a name, in order: the dictionary of lists of the code.\<close>

definition header_values :: "string \<Rightarrow> headers \<Rightarrow> string list" where
  "header_values name hs = map snd (filter (\<lambda>(k, _). k = name) hs)"

definition single :: "string \<Rightarrow> headers \<Rightarrow> host_error + string option" where
  "single name hs = (case header_values name hs of [] \<Rightarrow> Inr None | [v] \<Rightarrow> Inr (Some v) | _ \<Rightarrow> Inl (Rejected ''ambiguous_header'' 400))"

definition forwarded_dropped :: "headers \<Rightarrow> host_config \<Rightarrow> bool \<Rightarrow> host_error + string set" where
  "forwarded_dropped hs c via =
     (let present = {n \<in> forwarded_headers. header_values n hs \<noteq> []} in
      if present = {} then Inr {}
      else if \<not> via then (if a2_reject_untrusted c then Inl (Rejected ''untrusted_forwarded_header'' 400) else Inr present)
      else Inr (present - ((if a2_trust_host c then {''x-forwarded-host''} else {})
        \<union> (if a2_trust_proto c then {''x-forwarded-proto''} else {}) \<union> (if a2_trust_for c then {''x-forwarded-for''} else {}))))"

definition effective_scheme :: "asgi_scope \<Rightarrow> headers \<Rightarrow> host_config \<Rightarrow> bool \<Rightarrow> host_error + string" where
  "effective_scheme sc hs c via =
     bindE (if via \<and> a2_trust_proto c then single ''x-forwarded-proto'' hs else Inr None) (\<lambda>fwd.
       let s = (case non_empty fwd of Some f \<Rightarrow> latin_lower (strip_text (before CHR '','' f))
                | None \<Rightarrow> latin_lower (case sc_scheme sc of None \<Rightarrow> ''http'' | Some s \<Rightarrow> s)) in
       if s \<in> a2_schemes c then Inr s else Inl (Rejected ''scheme_not_allowed'' 400))"

definition effective_authority :: "headers \<Rightarrow> host_config \<Rightarrow> bool \<Rightarrow> host_error + (string \<times> nat option)" where
  "effective_authority hs c via =
     bindE (single ''host'' hs) (\<lambda>direct.
     bindE (if via \<and> a2_trust_host c then single ''x-forwarded-host'' hs else Inr None) (\<lambda>fwd.
       let a = (case non_empty fwd of Some f \<Rightarrow> Some (strip_text (before CHR '','' f)) | None \<Rightarrow> direct) in
       (case non_empty a of None \<Rightarrow> Inl (Rejected ''missing_host'' 400)
        | Some t \<Rightarrow> bindE (split_authority t) (\<lambda>(h, p).
            if a2_authorities c \<noteq> {} then
              (if authority_text (h, p) \<in> a2_authorities c then Inr (h, p) else Inl (Rejected ''authority_not_allowed'' 400))
            else if a2_hosts c \<noteq> {} \<and> h \<notin> a2_hosts c then Inl (Rejected ''host_not_allowed'' 400)
            else if a2_ports c \<noteq> {} \<and> (case p of None \<Rightarrow> 0 | Some n \<Rightarrow> int n) \<notin> a2_ports c then Inl (Rejected ''port_not_allowed'' 400)
            else Inr (h, p)))))"

definition request_path :: "asgi_scope \<Rightarrow> host_config \<Rightarrow> host_error + string" where
  "request_path sc c =
     (let p = (case non_empty (sc_path sc) of None \<Rightarrow> ''/'' | Some p \<Rightarrow> p) in
      if hd p \<noteq> CHR ''/'' \<or> list_ex (\<lambda>ch. ord ch \<in> {13, 10, 32}) p then Inl (Rejected ''invalid_path'' 400)
      else if a2_paths c \<noteq> {} \<and> p \<notin> a2_paths c then Inl (Rejected ''path_not_allowed'' 404)
      else Inr p)"

definition bad_charset :: "string \<Rightarrow> bool" where
  "bad_charset param \<longleftrightarrow> latin_lower (strip_text (before CHR ''='' param)) = ''charset''
     \<and> latin_lower (strip_by (\<lambda>c. ord c = 34) (strip_text (after CHR ''='' param))) \<notin> {''utf-8'', ''utf8''}"

definition validate_content :: "headers \<Rightarrow> host_config \<Rightarrow> string \<Rightarrow> host_error + unit" where
  "validate_content hs c method =
     bindE (single ''content-encoding'' hs) (\<lambda>enc.
     bindE (reject_if (case non_empty enc of None \<Rightarrow> False | Some e \<Rightarrow> latin_lower e \<noteq> ''identity'') ''unsupported_content_encoding'' 415) (\<lambda>_.
     bindE (single ''content-length'' hs) (\<lambda>len.
     bindE (case len of None \<Rightarrow> Inr ()
            | Some l \<Rightarrow> bindE (reject_if (\<not> is_digits l) ''invalid_content_length'' 400) (\<lambda>_.
                bindE (to_int l) (\<lambda>n. reject_if (a2_max_body c < int n) ''request_body_too_large'' 413))) (\<lambda>_.
       if method \<notin> {''POST'', ''PUT'', ''PATCH''} then Inr ()
       else bindE (single ''content-type'' hs) (\<lambda>ct.
         (case ct of None \<Rightarrow> Inl (Rejected ''missing_content_type'' 415)
          | Some t \<Rightarrow>
              bindE (reject_if (latin_lower (strip_text (before CHR '';'' t)) \<notin> a2_content_types c) ''unsupported_media_type'' 415) (\<lambda>_.
                reject_if (list_ex bad_charset (split_on CHR '';'' (after CHR '';'' t))) ''unsupported_charset'' 415)))))))"

definition token_char :: "char \<Rightarrow> bool" where
  "token_char c \<longleftrightarrow> in_range 65 90 c \<or> in_range 97 122 c \<or> ascii_digit c \<or> c \<in> set ''-._~+/''"

definition is_token :: "string \<Rightarrow> bool" where
  "is_token s \<longleftrightarrow> (let body = rev (dropWhile (\<lambda>c. c = CHR ''='') (rev s)) in body \<noteq> [] \<and> list_all token_char body)"

definition validate_authorization :: "headers \<Rightarrow> host_config \<Rightarrow> host_error + bool" where
  "validate_authorization hs c =
     bindE (single ''authorization'' hs) (\<lambda>h.
       (case h of None \<Rightarrow> Inr False
        | Some v \<Rightarrow>
            if a2_max_authorization c < int (length v) then Inl (Rejected ''authorization_header_too_large'' 431)
            else if latin_lower (before CHR '' '' v) \<noteq> ''bearer'' \<or> \<not> is_token (strip_text (after CHR '' '' v))
            then Inl (Rejected ''invalid_authorization'' 400)
            else Inr True))"

definition printable_id :: "nat \<Rightarrow> string \<Rightarrow> bool" where
  "printable_id lo s \<longleftrightarrow> s \<noteq> [] \<and> length s \<le> 256 \<and> list_all (in_range lo 126) s"

definition validate_correlation :: "headers \<Rightarrow> host_config \<Rightarrow> host_error + string" where
  "validate_correlation hs c =
     bindE (single ''x-correlation-id'' hs) (\<lambda>h.
       (case h of None \<Rightarrow> Inr []
        | Some v \<Rightarrow>
            if a2_max_correlation c < int (length v) then Inl (Rejected ''correlation_header_too_large'' 431)
            else if \<not> printable_id 33 v then Inl (Rejected ''invalid_correlation_header'' 400)
            else Inr v))"

definition lower_hex :: "nat \<Rightarrow> string \<Rightarrow> bool" where
  "lower_hex n s \<longleftrightarrow> length s = n \<and> list_all (\<lambda>c. ascii_digit c \<or> in_range 97 102 c) s"

definition valid_traceparent :: "string \<Rightarrow> bool" where
  "valid_traceparent s = (case split_on CHR ''-'' s of
     [v, t, p, f] \<Rightarrow> lower_hex 2 v \<and> lower_hex 32 t \<and> lower_hex 16 p \<and> lower_hex 2 f
        \<and> v \<noteq> ''ff'' \<and> t \<noteq> replicate 32 CHR ''0'' \<and> p \<noteq> replicate 16 CHR ''0''
   | _ \<Rightarrow> False)"

definition trace_key_char :: "char \<Rightarrow> bool" where
  "trace_key_char c \<longleftrightarrow> in_range 97 122 c \<or> ascii_digit c \<or> c \<in> set ''_-*/''"

definition trace_key :: "string \<Rightarrow> bool" where
  "trace_key s \<longleftrightarrow> s \<noteq> [] \<and>
     (if CHR ''@'' \<in> set s then
        (let t = before CHR ''@'' s; v = after CHR ''@'' s in
         t \<noteq> [] \<and> (in_range 97 122 (hd t) \<or> ascii_digit (hd t)) \<and> list_all trace_key_char t \<and> length t \<le> 241
         \<and> v \<noteq> [] \<and> in_range 97 122 (hd v) \<and> list_all trace_key_char v \<and> length v \<le> 14)
      else in_range 97 122 (hd s) \<and> list_all trace_key_char s \<and> length s \<le> 256)"

definition trace_value :: "string \<Rightarrow> bool" where
  "trace_value s \<longleftrightarrow> s = [] \<or> (length s \<le> 256 \<and> list_all (\<lambda>c. in_range 32 126 c \<and> c \<noteq> CHR '','' \<and> c \<noteq> CHR ''='') s \<and> last s \<noteq> CHR '' '')"

definition valid_tracestate :: "string \<Rightarrow> bool" where
  "valid_tracestate s =
     (let ms = map strip_text (split_on CHR '','' s) in
      length ms \<le> 32 \<and> list_all (\<lambda>m. CHR ''='' \<in> set m \<and> trace_key (before CHR ''='' m) \<and> trace_value (after CHR ''='' m)) ms
      \<and> distinct (map (before CHR ''='') ms))"

definition validate_trace :: "headers \<Rightarrow> host_config \<Rightarrow> host_error + (string \<times> string \<times> string set)" where
  "validate_trace hs c =
     bindE (single ''traceparent'' hs) (\<lambda>tp. bindE (single ''tracestate'' hs) (\<lambda>ts.
       let p = (case tp of None \<Rightarrow> [] | Some v \<Rightarrow> v); s = (case ts of None \<Rightarrow> [] | Some v \<Rightarrow> v) in
       if p \<noteq> [] \<and> a2_max_trace c < int (length p) \<or> s \<noteq> [] \<and> a2_max_trace c < int (length s) then Inl (Rejected ''trace_header_too_large'' 431)
       else
         let bad = p \<noteq> [] \<and> \<not> valid_traceparent p; p' = (if bad then [] else p); s' = (if bad then [] else s);
             bads = s' \<noteq> [] \<and> \<not> valid_tracestate s' in
         Inr (p', if bads then [] else s',
              (if bad then {''traceparent'', ''tracestate''} else {}) \<union> (if bads then {''tracestate''} else {}))))"

text \<open>\<open>None\<close>: no extractor is configured.\<close>

definition mtls_subject :: "asgi_scope \<Rightarrow> (asgi_scope \<Rightarrow> string option) option \<Rightarrow> host_error + string option" where
  "mtls_subject sc ex = (case ex of None \<Rightarrow> Inr None
     | Some f \<Rightarrow> (case f sc of None \<Rightarrow> Inr None
         | Some s \<Rightarrow> if printable_id 32 s then Inr (Some s) else Inl (Rejected ''invalid_peer_identity'' 400)))"

definition effective_client :: "headers \<Rightarrow> string option \<Rightarrow> host_config \<Rightarrow> bool \<Rightarrow> host_error + string option" where
  "effective_client hs peer c via =
     bindE (if via \<and> a2_trust_for c then single ''x-forwarded-for'' hs else Inr None) (\<lambda>fwd.
       Inr (case non_empty fwd of None \<Rightarrow> peer
            | Some f \<Rightarrow> (case non_empty (Some (strip_text (before CHR '','' f))) of None \<Rightarrow> peer | Some a \<Rightarrow> Some a)))"

definition evaluate_request :: "(asgi_scope \<Rightarrow> string option) option \<Rightarrow> host_config \<Rightarrow> asgi_scope \<Rightarrow> host_error + facts" where
  "evaluate_request ex c sc =
     (let method = latin_upper (case sc_method sc of None \<Rightarrow> ''GET'' | Some m \<Rightarrow> m) in
      bindE (reject_if (method \<notin> a2_methods c) ''method_not_allowed'' 405) (\<lambda>_.
      bindE (decode_headers (sc_headers sc) c) (\<lambda>hs.
      let peer = sc_client sc; via = (case peer of None \<Rightarrow> False | Some p \<Rightarrow> p \<in> a2_proxies c) in
      bindE (forwarded_dropped hs c via) (\<lambda>dropped.
      bindE (effective_scheme sc hs c via) (\<lambda>scheme.
      bindE (effective_authority hs c via) (\<lambda>(host, port).
      bindE (request_path sc c) (\<lambda>path.
      bindE (validate_content hs c method) (\<lambda>_.
      bindE (validate_authorization hs c) (\<lambda>bearer.
      bindE (validate_correlation hs c) (\<lambda>corr.
      bindE (validate_trace hs c) (\<lambda>(tp, ts, trace_dropped).
      bindE (mtls_subject sc ex) (\<lambda>subject.
      bindE (effective_client hs peer c via) (\<lambda>client.
        Inr \<lparr>fa_method = method, fa_path = path, fa_scheme = scheme, fa_host = host, fa_port = port, fa_peer = peer, fa_client = client,
          fa_via_proxy = via, fa_bearer = bearer, fa_traceparent = tp, fa_tracestate = ts, fa_correlation = corr, fa_subject = subject,
          fa_dropped = dropped \<union> trace_dropped \<union> reserved_headers\<rparr>)))))))))))))"

definition added_header :: "string \<Rightarrow> string option \<Rightarrow> headers" where
  "added_header name v = (case non_empty v of None \<Rightarrow> [] | Some s \<Rightarrow> [(name, s)])"

definition sanitize_scope :: "asgi_scope \<Rightarrow> facts \<Rightarrow> asgi_scope" where
  "sanitize_scope sc f = sc\<lparr>sc_headers :=
       filter (\<lambda>(k, _). latin_lower k \<notin> fa_dropped f \<and> latin_lower k \<noteq> ''host'') (sc_headers sc)
       @ [(''host'', fa_authority f)] @ added_header ''x-conducto-client-address'' (fa_client f)
       @ added_header ''x-conducto-mtls-subject'' (fa_subject f),
     sc_scheme := Some (fa_scheme f)\<rparr>"

end
