(* ===== verification/HardeningProperties.thy ===== *)
theory HardeningProperties
  imports Hardening JsonText
begin

text \<open>What the boundary lets through, what the application then sees, and what escapes it.\<close>

section \<open>Checks\<close>

lemma bindE_Inr: "bindE x f = Inr y \<longleftrightarrow> (\<exists>a. x = Inr a \<and> f a = Inr y)"
  by (simp add: bindE_def split: sum.splits)

lemma bindE_Inl: "bindE x f = Inl e \<longleftrightarrow> x = Inl e \<or> (\<exists>a. x = Inr a \<and> f a = Inl e)"
  by (simp add: bindE_def split: sum.splits)

lemma reject_if_Inr [simp]: "reject_if b r st = Inr u \<longleftrightarrow> \<not> b"
  by (simp add: reject_if_def)

lemma reject_if_Inl [simp]: "reject_if b r st = Inl e \<longleftrightarrow> b \<and> e = Rejected r st"
  by (auto simp: reject_if_def)

lemmas bindE_iff = bindE_Inr bindE_Inl

lemma evaluate_accepted:
  assumes "evaluate_request ex c sc = Inr f"
  obtains hs dropped trace_dropped where
    "fa_method f = latin_upper (case sc_method sc of None \<Rightarrow> ''GET'' | Some m \<Rightarrow> m)" "fa_method f \<in> a2_methods c"
    "decode_headers (sc_headers sc) c = Inr hs" "fa_peer f = sc_client sc"
    "fa_via_proxy f \<longleftrightarrow> (case sc_client sc of None \<Rightarrow> False | Some p \<Rightarrow> p \<in> a2_proxies c)"
    "forwarded_dropped hs c (fa_via_proxy f) = Inr dropped" "effective_scheme sc hs c (fa_via_proxy f) = Inr (fa_scheme f)"
    "effective_authority hs c (fa_via_proxy f) = Inr (fa_host f, fa_port f)" "request_path sc c = Inr (fa_path f)"
    "validate_content hs c (fa_method f) = Inr ()" "validate_authorization hs c = Inr (fa_bearer f)"
    "validate_correlation hs c = Inr (fa_correlation f)"
    "validate_trace hs c = Inr (fa_traceparent f, fa_tracestate f, trace_dropped)" "mtls_subject sc ex = Inr (fa_subject f)"
    "effective_client hs (sc_client sc) c (fa_via_proxy f) = Inr (fa_client f)"
    "fa_dropped f = dropped \<union> trace_dropped \<union> reserved_headers"
  using assms that by (auto simp: evaluate_request_def bindE_Inr Let_def split: prod.splits)

text \<open>The raw values of a header, whatever the case of its name.\<close>

definition raw_values :: "string \<Rightarrow> headers \<Rightarrow> string list" where
  "raw_values name hs = map snd (filter (\<lambda>(k, _). latin_lower k = name) hs)"

lemma decode_items_values: "decode_items limit raw seen = Inr hs \<Longrightarrow> header_values name hs = map strip_text (raw_values name raw)"
  by (induction limit raw seen arbitrary: hs rule: decode_items.induct)
    (auto simp: bindE_Inr Let_def header_values_def raw_values_def split: if_splits)

lemma decode_headers_values: "decode_headers raw c = Inr hs \<Longrightarrow> header_values name hs = map strip_text (raw_values name raw)"
  by (auto simp: decode_headers_def bindE_Inr dest: decode_items_values)

text \<open>The size of the raw headers as the boundary counts it.\<close>

definition header_size :: "headers \<Rightarrow> int" where
  "header_size raw = sum_list (map (\<lambda>(k, v). int (length k) + int (length v) + 2) raw)"

lemma header_size_simps [simp]:
  "header_size [] = 0" "header_size ((k, v) # hs) = int (length k) + int (length v) + 2 + header_size hs"
  by (simp_all add: header_size_def)

lemma decode_items_bytes: "decode_items limit raw seen = Inr hs \<Longrightarrow> raw = [] \<or> seen + header_size raw \<le> limit"
proof (induction raw arbitrary: seen hs)
  case (Cons h raw)
  obtain k v where h: "h = (k, v)" by fastforce
  show ?case
    using Cons.prems Cons.IH[of "seen + int (length k) + int (length v) + 2"]
    by (auto simp: h bindE_Inr Let_def split: if_splits)
qed simp

lemma raw_values_simps [simp]:
  "raw_values n [] = []" "raw_values n ((m, v) # hs) = (if latin_lower m = n then v # raw_values n hs else raw_values n hs)"
  by (simp_all add: raw_values_def)

lemma raw_values_append [simp]: "raw_values n (xs @ ys) = raw_values n xs @ raw_values n ys"
  by (simp add: raw_values_def)

lemma raw_values_dropped:
  "raw_values n (filter (\<lambda>(k, _). latin_lower k \<notin> D \<and> latin_lower k \<noteq> h) hs) = (if n \<in> D \<or> n = h then [] else raw_values n hs)"
  by (induction hs) (auto simp: raw_values_def)

lemma raw_values_added: "raw_values n (added_header m v) = (if latin_lower m = n then (case non_empty v of None \<Rightarrow> [] | Some s \<Rightarrow> [s]) else [])"
  by (simp add: added_header_def raw_values_def split: option.splits)

lemma added_names [simp]:
  "latin_lower ''host'' = ''host''" "latin_lower ''x-conducto-client-address'' = ''x-conducto-client-address''"
  "latin_lower ''x-conducto-mtls-subject'' = ''x-conducto-mtls-subject''"
  by code_simp+

lemma trace_dropped_names: "validate_trace hs c = Inr (p, s, d) \<Longrightarrow> d \<subseteq> {''traceparent'', ''tracestate''}"
  by (auto simp: validate_trace_def bindE_Inr Let_def split: if_splits)

section \<open>What the application sees\<close>

text \<open>
  C4. Transport identity is asserted by the server alone.  Of an accepted request, whatever headers the client sent and however
  it wrote their names, the scope that the application sees has exactly one host header, the authorized authority; it names a
  peer subject only if the server's own extractor verified one, and then exactly that one; it names a client
  address exactly once, the effective client; and it keeps a forwarded header only of a trusted proxy that may assert it.  Without a
  trusted proxy the effective client is the transport peer and the scheme is the one of the scope.
\<close>

theorem transport_identity_asserted:
  assumes "evaluate_request ex c sc = Inr f" and "sc' = sanitize_scope sc f"
  shows "raw_values ''host'' (sc_headers sc') = [fa_authority f]
     \<and> raw_values ''x-conducto-mtls-subject'' (sc_headers sc') = (case ex of None \<Rightarrow> [] | Some g \<Rightarrow> (case g sc of None \<Rightarrow> [] | Some s \<Rightarrow> [s]))
     \<and> raw_values ''x-conducto-client-address'' (sc_headers sc') = (case non_empty (fa_client f) of None \<Rightarrow> [] | Some a \<Rightarrow> [a])
     \<and> (\<forall>n\<in>forwarded_headers. raw_values n (sc_headers sc') \<noteq> [] \<longrightarrow> fa_via_proxy f \<and>
          (n = ''x-forwarded-host'' \<and> a2_trust_host c \<or> n = ''x-forwarded-proto'' \<and> a2_trust_proto c \<or> n = ''x-forwarded-for'' \<and> a2_trust_for c))
     \<and> (\<not> fa_via_proxy f \<longrightarrow> fa_client f = sc_client sc \<and> fa_scheme f = latin_lower (case sc_scheme sc of None \<Rightarrow> ''http'' | Some s \<Rightarrow> s))"
proof -
  obtain hs dropped trace_dropped where a:
    "decode_headers (sc_headers sc) c = Inr hs" "forwarded_dropped hs c (fa_via_proxy f) = Inr dropped"
    "effective_scheme sc hs c (fa_via_proxy f) = Inr (fa_scheme f)"
    "validate_trace hs c = Inr (fa_traceparent f, fa_tracestate f, trace_dropped)" "mtls_subject sc ex = Inr (fa_subject f)"
    "effective_client hs (sc_client sc) c (fa_via_proxy f) = Inr (fa_client f)" "fa_dropped f = dropped \<union> trace_dropped \<union> reserved_headers"
    by (rule evaluate_accepted[OF assms(1)])
  have hdr: "raw_values n (sc_headers sc') = (if n \<in> fa_dropped f \<or> n = ''host'' then [] else raw_values n (sc_headers sc))
      @ (if n = ''host'' then [fa_authority f] else [])
      @ (if n = ''x-conducto-client-address'' then (case non_empty (fa_client f) of None \<Rightarrow> [] | Some s \<Rightarrow> [s]) else [])
      @ (if n = ''x-conducto-mtls-subject'' then (case non_empty (fa_subject f) of None \<Rightarrow> [] | Some s \<Rightarrow> [s]) else [])" for n
    unfolding assms(2) sanitize_scope_def by (simp add: raw_values_dropped raw_values_added eq_commute)
  have sub: "(case non_empty (fa_subject f) of None \<Rightarrow> [] | Some s \<Rightarrow> [s]) = (case ex of None \<Rightarrow> [] | Some g \<Rightarrow> (case g sc of None \<Rightarrow> [] | Some s \<Rightarrow> [s]))"
    using a(5) by (auto simp: mtls_subject_def non_empty_def printable_id_def split: option.splits if_splits)
  have present: "header_values n hs \<noteq> [] \<longleftrightarrow> raw_values n (sc_headers sc) \<noteq> []" for n
    using decode_headers_values[OF a(1)] by simp
  have fwd: "fa_via_proxy f \<and> (n = ''x-forwarded-host'' \<and> a2_trust_host c \<or> n = ''x-forwarded-proto'' \<and> a2_trust_proto c
      \<or> n = ''x-forwarded-for'' \<and> a2_trust_for c)"
    if n: "n \<in> forwarded_headers" "raw_values n (sc_headers sc') \<noteq> []" for n
  proof -
    have "n \<noteq> ''host''" "n \<noteq> ''x-conducto-client-address''" "n \<noteq> ''x-conducto-mtls-subject''"
      using n(1) by (auto simp: forwarded_headers_def)
    with hdr[of n] n(2) have "n \<notin> dropped" "header_values n hs \<noteq> []" using a(7) present by (auto split: if_splits)
    with n(1) a(2) show ?thesis by (auto simp: forwarded_dropped_def Let_def split: if_splits)
  qed
  have direct: "fa_client f = sc_client sc \<and> fa_scheme f = latin_lower (case sc_scheme sc of None \<Rightarrow> ''http'' | Some s \<Rightarrow> s)" if "\<not> fa_via_proxy f"
    using a(3,6) that by (auto simp: effective_client_def effective_scheme_def bindE_def non_empty_def Let_def split: if_splits)
  have "''host'' \<notin> reserved_headers" "''x-conducto-mtls-subject'' \<in> fa_dropped f" "''x-conducto-client-address'' \<in> fa_dropped f"
    using a(7) by (simp_all add: reserved_headers_def)
  with hdr sub fwd direct show ?thesis by simp
qed

text \<open>What each check guarantees when it passes.\<close>

lemma single_values: "single n hs = Inr v \<Longrightarrow> header_values n hs = (case v of None \<Rightarrow> [] | Some x \<Rightarrow> [x])"
  by (auto simp: single_def split: list.splits)

lemma effective_scheme_allowed: "effective_scheme sc hs c via = Inr s \<Longrightarrow> s \<in> a2_schemes c"
  by (auto simp: effective_scheme_def bindE_Inr Let_def split: if_splits)

lemma request_path_allowed: "request_path sc c = Inr p \<Longrightarrow> a2_paths c = {} \<or> p \<in> a2_paths c"
  by (auto simp: request_path_def Let_def split: if_splits)

lemma effective_authority_allowed:
  assumes "effective_authority hs c via = Inr (h, p)"
  shows "if a2_authorities c \<noteq> {} then authority_text (h, p) \<in> a2_authorities c
      else (a2_hosts c = {} \<or> h \<in> a2_hosts c) \<and> (a2_ports c = {} \<or> (case p of None \<Rightarrow> 0 | Some p \<Rightarrow> int p) \<in> a2_ports c)"
proof -
  obtain t where "(case non_empty t of None \<Rightarrow> Inl (Rejected ''missing_host'' 400)
        | Some t \<Rightarrow> bindE (split_authority t) (\<lambda>(h, p).
            if a2_authorities c \<noteq> {} then
              (if authority_text (h, p) \<in> a2_authorities c then Inr (h, p) else Inl (Rejected ''authority_not_allowed'' 400))
            else if a2_hosts c \<noteq> {} \<and> h \<notin> a2_hosts c then Inl (Rejected ''host_not_allowed'' 400)
            else if a2_ports c \<noteq> {} \<and> (case p of None \<Rightarrow> 0 | Some n \<Rightarrow> int n) \<notin> a2_ports c then Inl (Rejected ''port_not_allowed'' 400)
            else Inr (h, p))) = Inr (h, p)"
    using assms unfolding effective_authority_def bindE_Inr Let_def by (elim exE conjE) (rule that)
  then show ?thesis by (cases "non_empty t") (auto simp: bindE_Inr split: if_splits)
qed

text \<open>The two last checks of the content, when the content is accepted.\<close>

lemma validate_content_accepted:
  assumes "validate_content hs c m = Inr ()"
  shows "\<exists>len. single ''content-length'' hs = Inr len
       \<and> (\<forall>l. len = Some l \<longrightarrow> is_digits l \<and> (\<exists>n. to_int l = Inr n \<and> int n \<le> a2_max_body c))"
    and "m \<in> {''POST'', ''PUT'', ''PATCH''} \<Longrightarrow> \<exists>t. single ''content-type'' hs = Inr (Some t)
       \<and> latin_lower (strip_text (before CHR '';'' t)) \<in> a2_content_types c"
proof -
  obtain enc len u where *: "single ''content-encoding'' hs = Inr enc" "single ''content-length'' hs = Inr len"
    "(case len of None \<Rightarrow> Inr ()
      | Some l \<Rightarrow> bindE (reject_if (\<not> is_digits l) ''invalid_content_length'' 400) (\<lambda>_.
          bindE (to_int l) (\<lambda>n. reject_if (a2_max_body c < int n) ''request_body_too_large'' 413))) = Inr u"
    "(if m \<notin> {''POST'', ''PUT'', ''PATCH''} then Inr ()
      else bindE (single ''content-type'' hs) (\<lambda>ct.
         (case ct of None \<Rightarrow> Inl (Rejected ''missing_content_type'' 415)
          | Some t \<Rightarrow>
              bindE (reject_if (latin_lower (strip_text (before CHR '';'' t)) \<notin> a2_content_types c) ''unsupported_media_type'' 415) (\<lambda>_.
                reject_if (list_ex bad_charset (split_on CHR '';'' (after CHR '';'' t))) ''unsupported_charset'' 415)))) = Inr ()"
    using assms unfolding validate_content_def bindE_Inr by blast
  show "\<exists>len. single ''content-length'' hs = Inr len
       \<and> (\<forall>l. len = Some l \<longrightarrow> is_digits l \<and> (\<exists>n. to_int l = Inr n \<and> int n \<le> a2_max_body c))"
    by (rule exI[of _ len]) (use *(2,3) in \<open>auto simp: bindE_Inr\<close>)
  show "\<exists>t. single ''content-type'' hs = Inr (Some t) \<and> latin_lower (strip_text (before CHR '';'' t)) \<in> a2_content_types c"
    if m: "m \<in> {''POST'', ''PUT'', ''PATCH''}"
  proof -
    from *(4) m obtain ct where "single ''content-type'' hs = Inr ct"
      "(case ct of None \<Rightarrow> Inl (Rejected ''missing_content_type'' 415)
          | Some t \<Rightarrow>
              bindE (reject_if (latin_lower (strip_text (before CHR '';'' t)) \<notin> a2_content_types c) ''unsupported_media_type'' 415) (\<lambda>_.
                reject_if (list_ex bad_charset (split_on CHR '';'' (after CHR '';'' t))) ''unsupported_charset'' 415)) = Inr ()"
      by (simp only: not_not if_not_P bindE_Inr) blast
    then show ?thesis by (cases ct) (auto simp: bindE_Inr)
  qed
qed

lemma validate_content_length:
  assumes "validate_content hs c m = Inr ()" and "l \<in> set (header_values ''content-length'' hs)"
  shows "int (digits_number l) \<le> a2_max_body c"
  using validate_content_accepted(1)[OF assms(1)] assms(2)
  by (auto simp: to_int_def dest!: single_values split: option.splits if_splits)

lemma validate_content_type:
  assumes "validate_content hs c m = Inr ()" and "m \<in> {''POST'', ''PUT'', ''PATCH''}"
  shows "\<exists>t. header_values ''content-type'' hs = [t] \<and> latin_lower (strip_text (before CHR '';'' t)) \<in> a2_content_types c"
  using validate_content_accepted(2)[OF assms] by (auto dest: single_values)

lemma decode_headers_size:
  assumes "decode_headers raw c = Inr hs"
  shows "int (length raw) \<le> a2_max_header_count c \<and> (raw = [] \<or> header_size raw \<le> a2_max_header_bytes c)"
  using assms decode_items_bytes[of "a2_max_header_bytes c" raw 0] by (auto simp: decode_headers_def bindE_Inr)

text \<open>
  C5. An accepted request is within the policy.  Its method, scheme, path and authority are allowed ones, its headers are
  within the configured count and size, the announced length of its body is, and a request with a body
  has one of the allowed media types.
\<close>

theorem accepted_request_within_policy:
  assumes "evaluate_request ex c sc = Inr f"
  shows "fa_method f \<in> a2_methods c \<and> fa_scheme f \<in> a2_schemes c \<and> (a2_paths c = {} \<or> fa_path f \<in> a2_paths c)
     \<and> (if a2_authorities c \<noteq> {} then fa_authority f \<in> a2_authorities c
        else (a2_hosts c = {} \<or> fa_host f \<in> a2_hosts c) \<and> (a2_ports c = {} \<or> (case fa_port f of None \<Rightarrow> 0 | Some p \<Rightarrow> int p) \<in> a2_ports c))
     \<and> int (length (sc_headers sc)) \<le> a2_max_header_count c
     \<and> (sc_headers sc = [] \<or> header_size (sc_headers sc) \<le> a2_max_header_bytes c)
     \<and> (\<forall>l\<in>set (raw_values ''content-length'' (sc_headers sc)). int (digits_number (strip_text l)) \<le> a2_max_body c)
     \<and> (fa_method f \<in> {''POST'', ''PUT'', ''PATCH''} \<longrightarrow> (\<exists>t. raw_values ''content-type'' (sc_headers sc) = [t]
          \<and> latin_lower (strip_text (before CHR '';'' (strip_text t))) \<in> a2_content_types c))"
proof -
  obtain hs dropped trace_dropped where a:
    "fa_method f \<in> a2_methods c" "decode_headers (sc_headers sc) c = Inr hs"
    "effective_scheme sc hs c (fa_via_proxy f) = Inr (fa_scheme f)"
    "effective_authority hs c (fa_via_proxy f) = Inr (fa_host f, fa_port f)" "request_path sc c = Inr (fa_path f)"
    "validate_content hs c (fa_method f) = Inr ()"
    by (rule evaluate_accepted[OF assms])
  note vals = decode_headers_values[OF a(2)]
  have len: "\<forall>l\<in>set (raw_values ''content-length'' (sc_headers sc)). int (digits_number (strip_text l)) \<le> a2_max_body c"
    using validate_content_length[OF a(6)] vals by simp
  have kind: "fa_method f \<in> {''POST'', ''PUT'', ''PATCH''} \<longrightarrow> (\<exists>t. raw_values ''content-type'' (sc_headers sc) = [t]
          \<and> latin_lower (strip_text (before CHR '';'' (strip_text t))) \<in> a2_content_types c)"
    using validate_content_type[OF a(6)] vals by (auto simp: map_eq_Cons_conv)
  show ?thesis
    using a(1) effective_scheme_allowed[OF a(3)] effective_authority_allowed[OF a(4)] request_path_allowed[OF a(5)]
      decode_headers_size[OF a(2)] len kind
    unfolding fa_authority_def by blast
qed

section \<open>What escapes\<close>

text \<open>A rejection with one of the statuses of the boundary; a text on which \<open>int\<close> may fail although \<open>isdigit\<close> holds.\<close>

fun is_rejection :: "host_error \<Rightarrow> bool" where
  "is_rejection (Rejected r st) \<longleftrightarrow> st \<in> {400, 404, 405, 413, 415, 431}"
| "is_rejection (HostRaised e) \<longleftrightarrow> False"
| "is_rejection (BadConfig w) \<longleftrightarrow> False"
| "is_rejection (PayloadLimit w) \<longleftrightarrow> False"

definition odd_number :: "string \<Rightarrow> bool" where
  "odd_number s \<longleftrightarrow> 4300 < length s \<or> (\<exists>c\<in>set s. ord c \<in> {178, 179, 185})"

lemma latin_lower_char_odd: "ord (latin_lower_char c) \<in> {178, 179, 185} \<longleftrightarrow> ord c \<in> {178, 179, 185}"
  by (auto simp: latin_lower_char_def in_range_def of_char_of take_bit_eq_mod)

lemma odd_number_lower [simp]: "odd_number (latin_lower s) \<longleftrightarrow> odd_number s"
  using latin_lower_char_odd by (auto simp: odd_number_def latin_lower_def)

text \<open>A text cut out of another one.\<close>

lemma odd_number_drop: "odd_number (drop n s) \<Longrightarrow> odd_number s"
  by (auto simp: odd_number_def dest: in_set_dropD)

lemma odd_number_take: "odd_number (take n s) \<Longrightarrow> odd_number s"
  by (auto simp: odd_number_def dest: in_set_takeD)

lemma odd_number_rev [simp]: "odd_number (rev s) \<longleftrightarrow> odd_number s"
  by (simp add: odd_number_def)

lemma odd_number_dropWhile: "odd_number (dropWhile p s) \<Longrightarrow> odd_number s"
  by (subst (asm) dropWhile_eq_drop) (rule odd_number_drop)

lemma odd_number_strip: "odd_number (strip_by p s) \<Longrightarrow> odd_number s"
  by (auto simp: strip_by_def dest!: odd_number_dropWhile)

lemma odd_number_before: "odd_number (before d s) \<Longrightarrow> odd_number s"
  unfolding before_def by (subst (asm) takeWhile_eq_take) (rule odd_number_take)

lemma odd_number_after: "odd_number (after d s) \<Longrightarrow> odd_number s"
  by (auto simp: after_def dest!: odd_number_drop odd_number_dropWhile)

lemma odd_number_after_last: "odd_number (after_last d s) \<Longrightarrow> odd_number s"
  by (auto simp: after_last_def dest!: odd_number_before)

lemma odd_number_tl: "odd_number (tl s) \<Longrightarrow> odd_number s"
  by (cases s) (auto simp: odd_number_def)

lemmas odd_number_parts = odd_number_strip odd_number_before odd_number_after odd_number_after_last odd_number_tl

lemma single_error: "single n hs = Inl e \<Longrightarrow> is_rejection e"
  by (auto simp: single_def split: list.splits)

lemma decode_items_error: "decode_items limit raw seen = Inl e \<Longrightarrow> is_rejection e"
  by (induction limit raw seen rule: decode_items.induct) (auto simp: bindE_Inl Let_def split: if_splits)

lemma decode_headers_error: "decode_headers raw c = Inl e \<Longrightarrow> is_rejection e"
  by (auto simp: decode_headers_def bindE_Inl dest: decode_items_error)

lemma to_int_error: "is_digits s \<Longrightarrow> to_int s = Inl e \<Longrightarrow> e = HostRaised ValueError \<and> odd_number s"
  by (auto simp: to_int_def is_digits_def odd_number_def list_all_iff list_ex_iff split: if_splits)

lemma parse_port_error: "parse_port s = Inl e \<Longrightarrow> is_rejection e \<or> e = HostRaised ValueError \<and> odd_number s"
  by (auto simp: parse_port_def bindE_Inl dest: to_int_error split: if_splits)

text \<open>What a request may carry that makes \<open>int\<close> fail: a value of the host headers or of the content length.\<close>

lemma split_authority_error:
  assumes "split_authority a = Inl e"
  shows "is_rejection e \<or> e = HostRaised ValueError \<and> odd_number a"
proof -
  have *: "odd_number v \<Longrightarrow> odd_number a" if "v = latin_lower (strip_text a)" for v
    using that by (auto dest: odd_number_strip)
  from assms show ?thesis
    by (auto simp: split_authority_def Let_def bindE_Inl dest!: parse_port_error *[OF refl, OF odd_number_after]
        *[OF refl, OF odd_number_after_last] odd_number_tl split: if_splits prod.splits)
qed

lemma effective_scheme_error: "effective_scheme sc hs c via = Inl e \<Longrightarrow> is_rejection e"
  by (auto simp: effective_scheme_def bindE_Inl Let_def dest: single_error split: if_splits)

lemma forwarded_dropped_error: "forwarded_dropped hs c via = Inl e \<Longrightarrow> is_rejection e"
  by (auto simp: forwarded_dropped_def Let_def split: if_splits)

lemma request_path_error: "request_path sc c = Inl e \<Longrightarrow> is_rejection e"
  by (auto simp: request_path_def Let_def split: if_splits)

lemma validate_authorization_error:
  assumes "validate_authorization hs c = Inl e"
  shows "is_rejection e"
proof (cases "single ''authorization'' hs")
  case (Inl e')
  then show ?thesis using assms single_error[OF Inl] by (simp add: validate_authorization_def bindE_def)
next
  case (Inr h)
  then show ?thesis using assms by (cases h) (auto simp: validate_authorization_def bindE_def split: if_splits)
qed

lemma validate_correlation_error:
  assumes "validate_correlation hs c = Inl e"
  shows "is_rejection e"
proof (cases "single ''x-correlation-id'' hs")
  case (Inl e')
  then show ?thesis using assms single_error[OF Inl] by (simp add: validate_correlation_def bindE_def)
next
  case (Inr h)
  then show ?thesis using assms by (cases h) (auto simp: validate_correlation_def bindE_def split: if_splits)
qed

lemma validate_trace_error: "validate_trace hs c = Inl e \<Longrightarrow> is_rejection e"
  by (auto simp: validate_trace_def bindE_Inl Let_def dest: single_error split: if_splits)

lemma mtls_subject_error: "mtls_subject sc ex = Inl e \<Longrightarrow> is_rejection e"
  by (auto simp: mtls_subject_def split: if_splits option.splits)

lemma effective_client_error: "effective_client hs peer c via = Inl e \<Longrightarrow> is_rejection e"
  by (auto simp: effective_client_def bindE_Inl dest: single_error split: if_splits)

lemma validate_content_error:
  assumes "validate_content hs c m = Inl e"
  shows "is_rejection e \<or> e = HostRaised ValueError \<and> (\<exists>l\<in>set (header_values ''content-length'' hs). odd_number l)"
proof -
  have content: "is_rejection e" if "bindE (single ''content-type'' hs) (\<lambda>ct.
         (case ct of None \<Rightarrow> Inl (Rejected ''missing_content_type'' 415)
          | Some t \<Rightarrow>
              bindE (reject_if (latin_lower (strip_text (before CHR '';'' t)) \<notin> a2_content_types c) ''unsupported_media_type'' 415) (\<lambda>_.
                reject_if (list_ex bad_charset (split_on CHR '';'' (after CHR '';'' t))) ''unsupported_charset'' 415))) = Inl e"
    using that single_error[of "''content-type''" hs]
    by (cases "single ''content-type'' hs") (auto simp: bindE_Inl bindE_def split: option.splits sum.splits)
  have len: "is_rejection e \<or> e = HostRaised ValueError \<and> (\<exists>l\<in>set (header_values ''content-length'' hs). odd_number l)"
    if "single ''content-length'' hs = Inr len" and "(case len of None \<Rightarrow> Inr ()
            | Some l \<Rightarrow> bindE (reject_if (\<not> is_digits l) ''invalid_content_length'' 400) (\<lambda>_.
                bindE (to_int l) (\<lambda>n. reject_if (a2_max_body c < int n) ''request_body_too_large'' 413))) = Inl e" for len
    using that single_values[OF that(1)] by (cases len) (auto simp: bindE_Inl dest: to_int_error)
  from assms[unfolded validate_content_def bindE_Inl[of "single ''content-encoding'' hs"]
      bindE_Inl[of "reject_if _ ''unsupported_content_encoding'' 415"] bindE_Inl[of "single ''content-length'' hs"]
      bindE_Inl[of "case_option _ _ _"]]
  show ?thesis using content len single_error by (fastforce split: if_splits)
qed

lemma effective_authority_error:
  assumes "effective_authority hs c via = Inl e"
  shows "is_rejection e \<or> e = HostRaised ValueError \<and>
    (\<exists>n\<in>{''host'', ''x-forwarded-host''}. \<exists>v\<in>set (header_values n hs). odd_number v)"
proof (cases "single ''host'' hs")
  case (Inl e')
  then show ?thesis using assms single_error by (fastforce simp: effective_authority_def bindE_def)
next
  case (Inr direct)
  show ?thesis
  proof (cases "if via \<and> a2_trust_host c then single ''x-forwarded-host'' hs else Inr None")
    case (Inl e')
    then show ?thesis using assms Inr by (auto simp: effective_authority_def bindE_def dest: single_error split: if_splits)
  next
    case fwd: (Inr fwd)
    let ?a = "case non_empty fwd of Some f \<Rightarrow> Some (strip_text (before CHR '','' f)) | None \<Rightarrow> direct"
    have odd: "\<exists>n\<in>{''host'', ''x-forwarded-host''}. \<exists>v\<in>set (header_values n hs). odd_number v"
      if t: "?a = Some t" "odd_number t" for t
    proof (cases "non_empty fwd")
      case None
      with t Inr show ?thesis by (auto dest!: single_values)
    next
      case (Some f)
      then have "fwd = Some f" by (auto simp: non_empty_def split: option.splits if_splits)
      with fwd have "header_values ''x-forwarded-host'' hs = [f]" by (auto dest!: single_values split: if_splits)
      with t Some show ?thesis by (auto dest!: odd_number_strip odd_number_before)
    qed
    show ?thesis
    proof (cases "non_empty ?a")
      case None
      with assms Inr fwd show ?thesis by (auto simp: effective_authority_def bindE_def)
    next
      case (Some t)
      then have a: "?a = Some t" by (auto simp: non_empty_def split: option.splits if_splits)
      show ?thesis
      proof (cases "split_authority t")
        case (Inl e')
        with assms Inr fwd Some have "e' = e" by (simp add: effective_authority_def bindE_def)
        with split_authority_error[OF Inl] odd[OF a] show ?thesis by blast
      next
        case s: (Inr hp)
        with assms Inr fwd Some show ?thesis
          by (cases hp) (auto simp: effective_authority_def bindE_def split: if_splits)
      qed
    qed
  qed
qed

lemma odd_values:
  assumes "decode_headers raw c = Inr hs" and "v \<in> set (header_values n hs)" and "odd_number v"
  shows "\<exists>v\<in>set (raw_values n raw). odd_number v"
  using assms by (auto simp: decode_headers_values dest: odd_number_strip)

text \<open>The errors of the checks, in the order in which a request meets them.\<close>

lemma evaluate_error:
  assumes "evaluate_request ex c sc = Inl e"
  obtains "is_rejection e"
  | hs via where "decode_headers (sc_headers sc) c = Inr hs" "effective_authority hs c via = Inl e"
  | hs m where "decode_headers (sc_headers sc) c = Inr hs" "validate_content hs c m = Inl e"
proof -
  let ?via = "case sc_client sc of None \<Rightarrow> False | Some p \<Rightarrow> p \<in> a2_proxies c"
  show thesis
  proof (cases "decode_headers (sc_headers sc) c")
    case (Inl e')
    then show thesis
      using assms that(1) decode_headers_error[OF Inl]
      by (auto simp: evaluate_request_def bindE_def Let_def reject_if_def split: if_splits)
  next
    case (Inr hs)
    show thesis
      using assms that(1) that(2,3)[OF Inr]
      by (simp add: evaluate_request_def bindE_Inl Let_def Inr split: prod.splits)
        (metis effective_scheme_error forwarded_dropped_error request_path_error validate_authorization_error
          validate_correlation_error validate_trace_error mtls_subject_error effective_client_error is_rejection.simps(1)
          insert_iff)
  qed
qed

text \<open>
  C38. The boundary answers a request that it does not accept with one of its statuses, or a \<open>ValueError\<close> escapes from
  it; and the latter only for a host header or an announced length with a superscript digit or more than 4300 characters, on
  which \<open>isdigit\<close> and \<open>int\<close> disagree.
\<close>

theorem only_malformed_numbers_escape:
  assumes "evaluate_request ex c sc = Inl e"
  shows "is_rejection e \<or> e = HostRaised ValueError
    \<and> (\<exists>n\<in>{''host'', ''x-forwarded-host'', ''content-length''}. \<exists>v\<in>set (raw_values n (sc_headers sc)). odd_number v)"
  using assms
  by (rule evaluate_error) (blast dest: effective_authority_error validate_content_error odd_values)+

text \<open>A host with two trusted names, a request to it, and one whose length is written with a superscript.\<close>

definition sample_host :: host_config where
  "sample_host = \<lparr>a2_schemes = {''https''}, a2_hosts = {''agents.example''}, a2_ports = {}, a2_authorities = {}, a2_paths = {},
     a2_methods = {''POST''}, a2_content_types = {''application/json''}, a2_proxies = {''10.0.0.1''}, a2_trust_host = False,
     a2_trust_proto = True, a2_trust_for = True, a2_reject_untrusted = False, a2_max_header_count = 64, a2_max_header_bytes = 8192,
     a2_max_authorization = 4096, a2_max_correlation = 128, a2_max_trace = 512, a2_max_body = 1000, a2_max_chunks = 16,
     a2_max_response = 1000, a2_max_metadata = 1000, a2_max_message_parts = 16, a2_max_artifact_parts = 16, a2_max_artifacts = 16,
     a2_max_history = 16, a2_max_page = 16, a2_max_retained = 16, a2_max_accepted = 4, a2_max_caller = 2, a2_max_capability = 4,
     a2_request_deadline = Finite 30, a2_capability_deadline = Finite 20, a2_cancellation_deadline = Finite 5, a2_startup_deadline = Finite 5,
     a2_shutdown_deadline = Finite 5, a2_drain_deadline = Finite 5, a2_flush_deadline = Finite 5, a2_liveness = None, a2_readiness = None\<rparr>"

definition sample_request :: "string \<Rightarrow> asgi_scope" where
  "sample_request len = \<lparr>sc_method = Some ''post'', sc_scheme = Some ''http'', sc_path = Some ''/rpc'', sc_client = Some ''10.0.0.1'',
     sc_headers = [(''Host'', ''agents.example''), (''content-type'', ''application/json; charset=utf-8''), (''Content-Length'', len),
       (''X-Forwarded-Proto'', ''https''), (''x-forwarded-for'', ''203.0.113.7, 10.0.0.9''), (''x-conducto-mtls-subject'', ''admin'')]\<rparr>"

theorem only_malformed_numbers_escape_witness:
  "\<exists>e. evaluate_request None sample_host (sample_request [CHR 0xB2]) = Inl e \<and> \<not> is_rejection e \<and> e = HostRaised ValueError"
proof -
  have "evaluate_request None sample_host (sample_request [CHR 0xB2]) = Inl (HostRaised ValueError)"
    by code_simp
  then show ?thesis using only_malformed_numbers_escape[of None sample_host "sample_request [CHR 0xB2]"] by auto
qed

text \<open>The accepted request of the proxy: its headers claim a subject that the application does not see.\<close>

definition sample_facts :: facts where
  "sample_facts = \<lparr>fa_method = ''POST'', fa_path = ''/rpc'', fa_scheme = ''https'', fa_host = ''agents.example'', fa_port = None,
     fa_peer = Some ''10.0.0.1'', fa_client = Some ''203.0.113.7'', fa_via_proxy = True, fa_bearer = False, fa_traceparent = [],
     fa_tracestate = [], fa_correlation = [], fa_subject = Some ''CN=caller'', fa_dropped = {''x-conducto-mtls-subject'', ''x-conducto-client-address''}\<rparr>"

lemma sample_accepted: "evaluate_request (Some (\<lambda>_. Some ''CN=caller'')) sample_host (sample_request ''12'') = Inr sample_facts"
  by code_simp

theorem transport_identity_asserted_witness:
  "raw_values ''x-conducto-mtls-subject'' (sc_headers (sanitize_scope (sample_request ''12'') sample_facts)) = [''CN=caller'']
   \<and> raw_values ''x-conducto-client-address'' (sc_headers (sanitize_scope (sample_request ''12'') sample_facts)) = [''203.0.113.7'']"
  using transport_identity_asserted[OF sample_accepted refl] by (simp add: sample_facts_def non_empty_def)

theorem accepted_request_within_policy_witness:
  "fa_host sample_facts \<in> a2_hosts sample_host \<and> header_size (sc_headers (sample_request ''12'')) \<le> a2_max_header_bytes sample_host"
  using accepted_request_within_policy[OF sample_accepted] by (auto simp: sample_host_def sample_request_def)

end
