(* ===== verification/HostLifecycle.thy ===== *)
theory HostLifecycle
  imports TaskStore HardeningProperties
begin

text \<open>
  The operational state of an A2A host, \<open>a2a/lifecycle.py\<close>: the concurrency limiter, the lifecycle with its startup, drain and
  close, and the sweep of the tasks that a shutdown leaves active.  The limiter and the lifecycle never await while they
  change their state, so each part of an operation between two awaits is a function; what an operation awaits (the startup
  check, the end of cancelled requests, the closers) is given to its next part as a value.
\<close>

section \<open>The limiter\<close>

record limiter =
  lm_limit :: int
  lm_key_limit :: "int option"
  lm_held :: int
  lm_keys :: "(string, int) dict"

definition mk_limiter :: "int \<Rightarrow> int option \<Rightarrow> py_error + limiter" where
  "mk_limiter n k =
     (if n \<le> 0 then Inl ValueError
      else if (case k of None \<Rightarrow> False | Some m \<Rightarrow> m \<le> 0) then Inl ValueError
      else Inr \<lparr>lm_limit = n, lm_key_limit = k, lm_held = 0, lm_keys = []\<rparr>)"

definition key_count :: "limiter \<Rightarrow> string \<Rightarrow> int" where
  "key_count l k = (case dget (lm_keys l) k of None \<Rightarrow> 0 | Some n \<Rightarrow> n)"

definition try_acquire :: "string \<Rightarrow> limiter \<Rightarrow> bool \<times> limiter" where
  "try_acquire k l =
     (if lm_limit l \<le> lm_held l then (False, l)
      else case lm_key_limit l of
          None \<Rightarrow> (True, l\<lparr>lm_held := lm_held l + 1\<rparr>)
        | Some m \<Rightarrow>
            if m \<le> key_count l k then (False, l)
            else (True, l\<lparr>lm_held := lm_held l + 1, lm_keys := dset k (key_count l k + 1) (lm_keys l)\<rparr>))"

definition release :: "string \<Rightarrow> limiter \<Rightarrow> limiter" where
  "release k l =
     (let l' = (if 0 < lm_held l then l\<lparr>lm_held := lm_held l - 1\<rparr> else l) in
      if lm_key_limit l = None then l'
      else
        let remaining = key_count l k - 1 in
        if 0 < remaining then l'\<lparr>lm_keys := dset k remaining (lm_keys l)\<rparr> else l'\<lparr>lm_keys := ddel k (lm_keys l)\<rparr>)"

text \<open>The slots of the limiter are those of the callers in service: \<open>hs\<close> holds the key of each.\<close>

definition occupancy :: "string list \<Rightarrow> string \<rightharpoonup> int" where
  "occupancy hs k = (if k \<in> set hs then Some (int (count_list hs k)) else None)"

definition limits_hold :: "limiter \<Rightarrow> string list \<Rightarrow> bool" where
  "limits_hold l hs \<longleftrightarrow> lm_held l = int (length hs) \<and> int (length hs) \<le> lm_limit l
     \<and> (case lm_key_limit l of None \<Rightarrow> True
        | Some m \<Rightarrow> map_of (lm_keys l) = occupancy hs \<and> (\<forall>k. int (count_list hs k) \<le> m))"

lemma occupancy_Nil [simp]: "occupancy [] = Map.empty"
  by (auto simp: occupancy_def)

lemma occupancy_Cons: "occupancy (k # hs) = (occupancy hs)(k \<mapsto> int (count_list hs k) + 1)"
  by (auto simp: occupancy_def)

lemma count_list_remove1: "k \<in> set hs \<Longrightarrow> count_list (remove1 k hs) x = count_list hs x - (if x = k then 1 else 0)"
  by (induction hs) (auto simp: count_list_0_iff)

lemma count_list_pos: "0 < count_list hs k \<longleftrightarrow> k \<in> set hs"
  by (metis count_list_0_iff neq0_conv)

lemma occupancy_remove1:
  assumes "k \<in> set hs"
  shows "occupancy (remove1 k hs) = (if count_list hs k = 1 then (occupancy hs)(k := None)
     else (occupancy hs)(k \<mapsto> int (count_list hs k) - 1))"
proof
  fix x
  have "x \<in> set (remove1 k hs) \<longleftrightarrow> 0 < count_list hs x - (if x = k then 1 else 0)"
    using count_list_remove1[OF assms, of x] count_list_pos[of "remove1 k hs" x] by simp
  then show "occupancy (remove1 k hs) x = (if count_list hs k = 1 then (occupancy hs)(k := None)
     else (occupancy hs)(k \<mapsto> int (count_list hs k) - 1)) x"
    using assms count_list_pos[of hs x] count_list_pos[of hs k] count_list_remove1[OF assms, of x]
    by (cases "x = k") (auto simp: occupancy_def of_nat_diff)
qed

lemma limits_hold_init: "mk_limiter n k = Inr l \<Longrightarrow> limits_hold l [] \<and> lm_limit l = n \<and> lm_key_limit l = k"
  by (auto simp: mk_limiter_def limits_hold_def split: if_splits option.splits)

lemma key_count_held: "limits_hold l hs \<Longrightarrow> lm_key_limit l = Some m \<Longrightarrow> key_count l k = int (count_list hs k)"
  by (simp add: limits_hold_def key_count_def occupancy_def count_list_0_iff)

lemma acquire_limits [simp]:
  "lm_limit (snd (try_acquire k l)) = lm_limit l" "lm_key_limit (snd (try_acquire k l)) = lm_key_limit l"
  "lm_limit (release k l) = lm_limit l" "lm_key_limit (release k l) = lm_key_limit l"
  by (simp_all add: try_acquire_def release_def Let_def split: option.splits)

lemma acquire_holds:
  assumes "limits_hold l hs" and "try_acquire k l = (True, l')"
  shows "limits_hold l' (k # hs)"
proof (cases "lm_key_limit l")
  case None
  with assms show ?thesis by (auto simp: try_acquire_def limits_hold_def split: if_splits)
next
  case (Some m)
  have l': "l' = l\<lparr>lm_held := int (length hs) + 1, lm_keys := dset k (int (count_list hs k) + 1) (lm_keys l)\<rparr>"
    and "int (length hs) < lm_limit l" "int (count_list hs k) < m"
    using assms Some key_count_held[OF assms(1) Some] by (auto simp: try_acquire_def limits_hold_def split: if_splits)
  with assms(1) Some show ?thesis by (simp add: limits_hold_def map_of_dset occupancy_Cons)
qed

lemma acquire_refused: "try_acquire k l = (False, l') \<Longrightarrow> l' = l"
  by (auto simp: try_acquire_def split: if_splits option.splits)

lemma release_holds:
  assumes "limits_hold l hs" and "k \<in> set hs"
  shows "limits_hold (release k l) (remove1 k hs)"
proof -
  have n: "0 < length hs" by (rule length_pos_if_in_set[OF assms(2)])
  then have len: "int (length (remove1 k hs)) = int (length hs) - 1"
    using assms(2) by (simp add: length_remove1 of_nat_diff Suc_leI)
  have held: "lm_held l = int (length hs)" "int (length hs) \<le> lm_limit l" using assms(1) by (simp_all add: limits_hold_def)
  show ?thesis
  proof (cases "lm_key_limit l")
    case None
    with n len held show ?thesis by (simp add: release_def limits_hold_def)
  next
    case (Some m)
    have keys: "map_of (lm_keys l) = occupancy hs" and le: "\<And>x. int (count_list hs x) \<le> m"
      using assms(1) Some by (simp_all add: limits_hold_def)
    have le': "int (count_list (remove1 k hs) x) \<le> m" for x
      using le[of x] count_list_remove1[OF assms(2), of x] by linarith
    have "map_of (ddel k (lm_keys l)) = (occupancy hs)(k := None)"
      by (rule ext) (simp add: keys)
    with n len held Some keys le' key_count_held[OF assms(1) Some, of k] assms(2) count_list_pos[of hs k] show ?thesis
      by (simp add: release_def limits_hold_def Let_def map_of_dset occupancy_remove1)
  qed
qed

text \<open>Whether a slot is granted.\<close>

lemma acquire_granted:
  assumes "limits_hold l hs"
  shows "fst (try_acquire k l) \<longleftrightarrow> int (length hs) < lm_limit l
    \<and> (case lm_key_limit l of None \<Rightarrow> True | Some m \<Rightarrow> int (count_list hs k) < m)"
  using assms key_count_held[OF assms] by (auto simp: try_acquire_def limits_hold_def split: option.splits)

section \<open>The lifecycle\<close>

datatype host_state = HOST_CREATED | HOST_READY | HOST_DRAINING | HOST_CLOSED | HOST_FAILED

text \<open>The executions in flight are named by numbers; \<open>lc_idle\<close> is the event of the same name.\<close>

record lifecycle =
  lc_state :: host_state
  lc_inflight :: "nat set"
  lc_idle :: bool

definition init_lifecycle :: lifecycle where
  "init_lifecycle = \<lparr>lc_state = HOST_CREATED, lc_inflight = {}, lc_idle = True\<rparr>"

datatype lifecycle_error = StartupError string | ShutdownError "string list"

definition host_state_value :: "host_state \<Rightarrow> string" where
  "host_state_value st = (case st of HOST_CREATED \<Rightarrow> ''created'' | HOST_READY \<Rightarrow> ''ready'' | HOST_DRAINING \<Rightarrow> ''draining''
     | HOST_CLOSED \<Rightarrow> ''closed'' | HOST_FAILED \<Rightarrow> ''failed'')"

definition mark_ready :: "lifecycle \<Rightarrow> lifecycle" where
  "mark_ready l = (if lc_state l = HOST_CREATED then l\<lparr>lc_state := HOST_READY\<rparr> else l)"

definition host_alive :: "lifecycle \<Rightarrow> bool" where
  "host_alive l \<longleftrightarrow> lc_state l \<noteq> HOST_CLOSED"

definition host_ready :: "lifecycle \<Rightarrow> bool" where
  "host_ready l \<longleftrightarrow> lc_state l = HOST_READY"

text \<open>The two parts of \<open>startup\<close>, before and after the awaited check; without a check they run together.\<close>

datatype startup_end = CheckPassed | CheckTimeout | CheckRaised

definition startup_begin :: "(lifecycle, lifecycle_error, unit) prog" where
  "startup_begin l =
     (if lc_state l \<in> {HOST_CLOSED, HOST_DRAINING, HOST_FAILED}
      then (Inl (StartupError (host_state_value (lc_state l))), l) else (Inr (), l))"

definition startup_finish :: "startup_end \<Rightarrow> (lifecycle, lifecycle_error, unit) prog" where
  "startup_finish e l = (case e of
       CheckPassed \<Rightarrow> (Inr (), l\<lparr>lc_state := HOST_READY\<rparr>)
     | CheckTimeout \<Rightarrow> (Inl (StartupError ''startup_timeout''), l\<lparr>lc_state := HOST_FAILED\<rparr>)
     | CheckRaised \<Rightarrow> (Inl (StartupError ''startup_failed''), l\<lparr>lc_state := HOST_FAILED\<rparr>))"

definition track :: "nat \<Rightarrow> lifecycle \<Rightarrow> lifecycle" where
  "track x l = l\<lparr>lc_inflight := insert x (lc_inflight l), lc_idle := False\<rparr>"

definition untrack :: "nat \<Rightarrow> lifecycle \<Rightarrow> lifecycle" where
  "untrack x l = (let l' = l\<lparr>lc_inflight := lc_inflight l - {x}\<rparr> in
     if lc_inflight l' = {} then l'\<lparr>lc_idle := True\<rparr> else l')"

text \<open>The first parts of \<open>drain\<close> and \<open>aclose\<close>; the result tells whether there is more to do.\<close>

definition drain_begin :: "lifecycle \<Rightarrow> bool \<times> lifecycle" where
  "drain_begin l = (if lc_state l = HOST_CLOSED then (False, l) else (True, l\<lparr>lc_state := HOST_DRAINING\<rparr>))"

definition close_begin :: "lifecycle \<Rightarrow> bool \<times> lifecycle" where
  "close_begin l = (if lc_state l = HOST_CLOSED then (False, l) else (True, l\<lparr>lc_state := HOST_CLOSED\<rparr>))"

text \<open>The wait for the last request needs no time when there is none.\<close>

definition await_idle :: "lifecycle \<Rightarrow> bool \<Rightarrow> bool" where
  "await_idle l in_time \<longleftrightarrow> lc_inflight l = {} \<or> in_time"

section \<open>The sweep\<close>

definition active_task :: "task_state \<Rightarrow> bool" where
  "active_task st \<longleftrightarrow> st \<in> {TASK_SUBMITTED, TASK_WORKING}"

text \<open>A refused transition is suppressed.\<close>

definition fail_if_active :: "'s task_ops \<Rightarrow> a2a_task \<Rightarrow> 's \<Rightarrow> 's" where
  "fail_if_active ops t s = (if active_task (tk_state t) then snd (to_transition ops (tk_id t) (tk_state t) TASK_FAILED s) else s)"

text \<open>
  The loop over the pages.  \<open>n\<close> bounds the number of pages: \<open>None\<close> means that the time limit around the sweep cancelled it after \<open>n\<close>
  pages.  The clock is read only when the number of scanned tasks does not end the loop.
\<close>

fun sweep :: "'s task_ops \<Rightarrow> host_config \<Rightarrow> time \<Rightarrow> nat \<Rightarrow> string \<Rightarrow> int \<Rightarrow> 's \<Rightarrow> clock \<Rightarrow> (task_error + unit) option \<times> 's \<times> clock" where
  "sweep ops c deadline 0 token scanned s clk = (None, s, clk)"
| "sweep ops c deadline (Suc n) token scanned s clk =
     (if a2_max_retained c \<le> scanned then (Some (Inr ()), s, clk)
      else
        let (now, clk1) = tick clk in
        if deadline \<le> now then (Some (Inr ()), s, clk1)
        else
          (case to_list ops [] (a2_max_page c) token s of
             (Inl e, s1) \<Rightarrow> (Some (Inl e), s1, clk1)
           | (Inr (ts, next_token), s1) \<Rightarrow>
               let s2 = fold (fail_if_active ops) ts s1 in
               if next_token = [] then (Some (Inr ()), s2, clk1)
               else sweep ops c deadline n next_token (scanned + int (length ts)) s2 clk1))"

text \<open>The result is whether the flush counts as complete.\<close>

definition sweep_active :: "'s task_ops \<Rightarrow> host_config \<Rightarrow> nat \<Rightarrow> 's \<Rightarrow> clock \<Rightarrow> bool \<times> 's \<times> clock" where
  "sweep_active ops c n s clk =
     (let (now, clk1) = tick clk in
      case sweep ops c (now + fin_val (a2_flush_deadline c)) n [] 0 s clk1 of
        (None, s', clk') \<Rightarrow> (False, s', clk')
      | (Some (Inl _), s', clk') \<Rightarrow> (False, s', clk')
      | (Some (Inr _), s', clk') \<Rightarrow> (True, s', clk'))"

text \<open>The reasons of a failed close: the requests that did not end, the flush, and the closers in their order.\<close>

datatype closer_end = CloserDone | CloserTimeout | CloserRaised

fun closer_reason :: "string \<times> closer_end \<Rightarrow> string list" where
  "closer_reason (name, CloserDone) = []"
| "closer_reason (name, CloserTimeout) = [name @ ''_timeout'']"
| "closer_reason (name, CloserRaised) = [name @ ''_failed'']"

definition close_reasons :: "bool \<Rightarrow> bool \<Rightarrow> (string \<times> closer_end) list \<Rightarrow> string list" where
  "close_reasons cancelled flushed closers =
     (if cancelled then [] else [''inflight_cancellation_timeout'']) @ (if flushed then [] else [''task_store_flush_failed''])
     @ concat (map closer_reason closers)"

text \<open>The rest of \<open>aclose\<close>: \<open>cancelled\<close> tells whether every execution ended in time.\<close>

definition close_finish ::
  "'s task_ops \<Rightarrow> host_config \<Rightarrow> nat \<Rightarrow> bool \<Rightarrow> (string \<times> closer_end) list \<Rightarrow> 's \<Rightarrow> clock \<Rightarrow> (lifecycle_error + unit) \<times> 's \<times> clock" where
  "close_finish ops c n cancelled closers s clk =
     (case sweep_active ops c n s clk of (flushed, s', clk') \<Rightarrow>
        let rs = close_reasons cancelled flushed closers in
        (if rs = [] then Inr () else Inl (ShutdownError rs), s', clk'))"

text \<open>The rest of \<open>drain\<close>: what is left after the grace period is cancelled and swept.\<close>

definition drain_finish :: "'s task_ops \<Rightarrow> host_config \<Rightarrow> nat \<Rightarrow> bool \<Rightarrow> 's \<Rightarrow> clock \<Rightarrow> 's \<times> clock" where
  "drain_finish ops c n idle s clk = (if idle then (s, clk) else snd (sweep_active ops c n s clk))"

section \<open>The lifecycle as a system\<close>

text \<open>
  The operations of one lifecycle, in any order; the number counts the startups that await their check.  Operations that
  change neither (the ends of drain and close) are left out.
\<close>

inductive lifecycle_step :: "lifecycle \<times> nat \<Rightarrow> lifecycle \<times> nat \<Rightarrow> bool" where
  marked: "lifecycle_step (l, p) (mark_ready l, p)"
| started: "startup_begin l = (Inr (), l') \<Longrightarrow> lifecycle_step (l, p) (l', Suc p)"
| checked: "lifecycle_step (l, Suc p) (snd (startup_finish e l), p)"
| drained: "lifecycle_step (l, p) (snd (drain_begin l), p)"
| closed: "lifecycle_step (l, p) (snd (close_begin l), p)"
| tracked: "lifecycle_step (l, p) (track x l, p)"
| untracked: "lifecycle_step (l, p) (untrack x l, p)"

inductive_cases lifecycle_stepE: "lifecycle_step a b"

abbreviation lifecycle_reach :: "lifecycle \<times> nat \<Rightarrow> lifecycle \<times> nat \<Rightarrow> bool" where
  "lifecycle_reach \<equiv> lifecycle_step\<^sup>*\<^sup>*"

text \<open>The idle event is set exactly when nothing is in flight.\<close>

lemma idle_step: "lifecycle_step a b \<Longrightarrow> lc_idle (fst a) = (lc_inflight (fst a) = {}) \<Longrightarrow> lc_idle (fst b) = (lc_inflight (fst b) = {})"
  by (induction rule: lifecycle_step.induct)
    (auto simp: mark_ready_def startup_begin_def startup_finish_def drain_begin_def close_begin_def track_def untrack_def
      Let_def split: startup_end.splits if_splits)

lemma idle_event: "lifecycle_reach (init_lifecycle, 0) b \<Longrightarrow> lc_idle (fst b) = (lc_inflight (fst b) = {})"
proof (induction rule: rtranclp_induct)
  case base
  show ?case by (simp add: init_lifecycle_def)
next
  case (step b c)
  then show ?case using idle_step by blast
qed

definition stopped :: "lifecycle \<times> nat \<Rightarrow> bool" where
  "stopped a \<longleftrightarrow> snd a = 0 \<and> lc_state (fst a) \<in> {HOST_DRAINING, HOST_CLOSED, HOST_FAILED}"

lemma stopped_step: "lifecycle_step a b \<Longrightarrow> stopped a \<Longrightarrow> stopped b \<and> (lc_state (fst a) = HOST_CLOSED \<longrightarrow> lc_state (fst b) = HOST_CLOSED)"
  by (induction rule: lifecycle_step.induct)
    (auto simp: stopped_def mark_ready_def startup_begin_def drain_begin_def close_begin_def track_def untrack_def Let_def split: if_splits)

text \<open>
  A host that stopped while no startup was awaiting its check stays stopped, whatever is called on it: it is never ready
  again, and once closed it is closed.
\<close>

theorem stopped_host_stays_stopped:
  assumes "lifecycle_reach (l, 0) (l', p)" and "lc_state l \<in> {HOST_DRAINING, HOST_CLOSED, HOST_FAILED}"
  shows "\<not> host_ready l' \<and> p = 0 \<and> (\<not> host_alive l \<longrightarrow> \<not> host_alive l')"
proof -
  have "stopped (l, 0)" using assms(2) by (simp add: stopped_def)
  have "stopped b \<and> (lc_state l = HOST_CLOSED \<longrightarrow> lc_state (fst b) = HOST_CLOSED)" if "lifecycle_reach (l, 0) b" for b
    using that
  proof (induction rule: rtranclp_induct)
    case base
    show ?case using \<open>stopped (l, 0)\<close> by simp
  next
    case (step b c)
    then show ?case using stopped_step by blast
  qed
  from this[OF assms(1)] show ?thesis by (auto simp: stopped_def host_ready_def host_alive_def)
qed

text \<open>
  But the startup check is awaited between the test of the state and its change: a host that is closed meanwhile is ready
  again when the check passes.
\<close>

theorem closed_host_revived:
  "\<exists>l1 l2. lifecycle_reach (init_lifecycle, 0) (l1, Suc 0) \<and> \<not> host_alive l1 \<and> lifecycle_step (l1, Suc 0) (l2, 0) \<and> host_ready l2"
proof -
  let ?closed = "snd (close_begin init_lifecycle)"
  have "lifecycle_step (init_lifecycle, 0) (init_lifecycle, Suc 0)"
    by (rule started) (simp add: startup_begin_def init_lifecycle_def)
  moreover have "lifecycle_step (init_lifecycle, Suc 0) (?closed, Suc 0)" by (rule closed)
  ultimately have "lifecycle_reach (init_lifecycle, 0) (?closed, Suc 0)" by (meson r_into_rtranclp rtranclp_trans)
  moreover have "lifecycle_step (?closed, Suc 0) (snd (startup_finish CheckPassed ?closed), 0)" by (rule checked)
  ultimately show ?thesis
    by (intro exI[of _ ?closed] exI[of _ "snd (startup_finish CheckPassed ?closed)"] conjI)
      (simp_all add: host_alive_def host_ready_def close_begin_def startup_finish_def init_lifecycle_def)
qed

section \<open>The sweep of the in-memory repository\<close>

text \<open>The tasks after those named by \<open>ids\<close> have been swept.\<close>

definition failed_in :: "string set \<Rightarrow> a2a_task \<Rightarrow> a2a_task" where
  "failed_in ids t = (if tk_id t \<in> ids \<and> active_task (tk_state t) then t\<lparr>tk_state := TASK_FAILED\<rparr> else t)"

definition fail_tasks :: "string set \<Rightarrow> task_store \<Rightarrow> task_store" where
  "fail_tasks ids s = s\<lparr>ts_tasks := map (\<lambda>(k, t). (k, failed_in ids t)) (ts_tasks s)\<rparr>"

definition listed :: "task_store \<Rightarrow> a2a_task list" where
  "listed s = sort_key tk_id (map snd (ts_tasks s))"

lemma failed_in_id [simp]: "tk_id (failed_in ids t) = tk_id t"
  by (simp add: failed_in_def)

lemma fail_tasks_empty [simp]: "fail_tasks {} s = s"
  by (cases s) (simp add: fail_tasks_def failed_in_def case_prod_beta)

lemma dset_in_place: "ddistinct d \<Longrightarrow> k \<in> fst ` set d \<Longrightarrow> dset k v d = map (\<lambda>(k', v'). (k', if k' = k then v else v')) d"
proof (induction d)
  case (Cons x d)
  obtain k' v' where x: "x = (k', v')" by fastforce
  have "map (\<lambda>(k', v'). (k', if k' = k then v else v')) d = d" if "k \<notin> fst ` set d"
    using that by (intro map_idI) force
  with Cons show ?case by (cases "k' = k") (auto simp: x dset_def ddistinct_def)
qed simp

lemma sort_key_map: "(\<And>x. f (g x) = f x) \<Longrightarrow> sort_key f (map g xs) = map g (sort_key f xs)"
proof (induction xs)
  case (Cons x xs)
  have "insort_key f (g x) (map g ys) = map g (insort_key f x ys)" for ys
    using Cons.prems by (induction ys) auto
  with Cons show ?case by simp
qed simp

lemma listed_fail: "listed (fail_tasks ids s) = map (failed_in ids) (listed s)"
proof -
  have "map snd (ts_tasks (fail_tasks ids s)) = map (failed_in ids) (map snd (ts_tasks s))"
    by (simp add: fail_tasks_def case_prod_beta comp_def)
  then show ?thesis unfolding listed_def by (simp only: sort_key_map failed_in_id)
qed

lemma set_listed: "task_store_wf s \<Longrightarrow> t \<in> set (listed s) \<longleftrightarrow> dget (ts_tasks s) (tk_id t) = Some t"
  by (force simp: listed_def task_store_wf_def ddistinct_in_set[symmetric])

lemma distinct_listed:
  assumes "task_store_wf s"
  shows "distinct (map tk_id (listed s))"
proof -
  have "map tk_id (map snd (ts_tasks s)) = map fst (ts_tasks s)"
    using assms by (auto simp: task_store_wf_def)
  moreover have "distinct (map fst (ts_tasks s))" using assms by (simp add: task_store_wf_def ddistinct_def)
  ultimately have "distinct (map tk_id (map snd (ts_tasks s)))" by (simp only:)
  then show ?thesis unfolding listed_def by (simp only: distinct_map distinct_sort set_sort)
qed

lemma fail_one:
  assumes "task_store_wf s" and "t \<in> set (listed s)" and "tk_id t \<notin> ids"
  shows "fail_if_active memory_tasks t (fail_tasks ids s) = fail_tasks (insert (tk_id t) ids) s"
proof -
  have d: "ddistinct (ts_tasks s)" and keys: "\<And>k u. (k, u) \<in> set (ts_tasks s) \<Longrightarrow> tk_id u = k"
    using assms(1) by (auto simp: task_store_wf_def)
  have t: "dget (ts_tasks s) (tk_id t) = Some t" using set_listed[OF assms(1)] assms(2) by simp
  have only: "u = t" if "(k, u) \<in> set (ts_tasks s)" "tk_id u = tk_id t" for k u
    using ddistinct_in_set[OF d, of k u] keys[OF that(1)] that t by simp
  show ?thesis
  proof (cases "active_task (tk_state t)")
    case False
    then have "failed_in (insert (tk_id t) ids) u = failed_in ids u" if "(k, u) \<in> set (ts_tasks s)" for k u
      using only[OF that] by (auto simp: failed_in_def)
    then have "map (\<lambda>(k, u). (k, failed_in ids u)) (ts_tasks s) = map (\<lambda>(k, u). (k, failed_in (insert (tk_id t) ids) u)) (ts_tasks s)"
      by (intro map_cong) auto
    with False show ?thesis by (simp add: fail_if_active_def fail_tasks_def)
  next
    case True
    let ?d = "map (\<lambda>(k, u). (k, failed_in ids u)) (ts_tasks s)"
    have dk: "map fst ?d = map fst (ts_tasks s)" by (simp add: case_prod_beta comp_def)
    then have dd: "ddistinct ?d" using d unfolding ddistinct_def by (simp only:)
    have "(tk_id t, failed_in ids t) \<in> set ?d" using t d by (force simp: ddistinct_in_set[symmetric])
    moreover have "failed_in ids t = t" using assms(3) by (simp add: failed_in_def)
    ultimately have get: "dget ?d (tk_id t) = Some t" using ddistinct_in_set[OF dd, of "tk_id t" t] by simp
    then have "tk_id t \<in> fst ` set ?d" by (metis dget_None_keys option.distinct(1))
    then have "dset (tk_id t) (t\<lparr>tk_state := TASK_FAILED\<rparr>) ?d
      = map (\<lambda>(k, u). (k, if k = tk_id t then t\<lparr>tk_state := TASK_FAILED\<rparr> else failed_in ids u)) (ts_tasks s)"
      by (simp add: dset_in_place[OF dd] comp_def case_prod_beta)
    also have "\<dots> = map (\<lambda>(k, u). (k, failed_in (insert (tk_id t) ids) u)) (ts_tasks s)"
    proof -
      have "(if k = tk_id t then t\<lparr>tk_state := TASK_FAILED\<rparr> else failed_in ids u) = failed_in (insert (tk_id t) ids) u"
        if u: "(k, u) \<in> set (ts_tasks s)" for k u
      proof (cases "k = tk_id t")
        case k: True
        with keys[OF u] only[OF u] have "u = t" by simp
        with True k show ?thesis by (simp add: failed_in_def)
      next
        case False
        with keys[OF u] show ?thesis by (simp add: failed_in_def)
      qed
      then show ?thesis by (intro map_cong) auto
    qed
    finally have "dset (tk_id t) (t\<lparr>tk_state := TASK_FAILED\<rparr>) ?d = map (\<lambda>(k, u). (k, failed_in (insert (tk_id t) ids) u)) (ts_tasks s)" .
    with True get show ?thesis
      by (auto simp: fail_if_active_def memory_tasks_def task_transition_def fail_tasks_def active_task_def
          validate_task_transition_def terminal_task_def)
  qed
qed

lemma fail_page:
  assumes "task_store_wf s"
  shows "set ts \<subseteq> set (listed s) \<Longrightarrow> distinct (map tk_id ts) \<Longrightarrow> set (map tk_id ts) \<inter> ids = {} \<Longrightarrow>
    fold (fail_if_active memory_tasks) ts (fail_tasks ids s) = fail_tasks (ids \<union> set (map tk_id ts)) s"
proof (induction ts arbitrary: ids)
  case (Cons t ts)
  then show ?case using fail_one[OF assms, of t ids] by (simp add: insert_commute)
qed simp

lemma after_token_nth: "i < length ts \<Longrightarrow> distinct (map tk_id ts) \<Longrightarrow> after_token (tk_id (ts ! i)) ts = Some (Suc i)"
proof (induction ts arbitrary: i)
  case (Cons t ts)
  then show ?case by (cases i) (auto dest: nth_mem)
qed simp

text \<open>The state of the sweep after the first \<open>m\<close> tasks of the listing.\<close>

abbreviation swept :: "task_store \<Rightarrow> nat \<Rightarrow> task_store" where
  "swept s m \<equiv> fail_tasks (set (map tk_id (take m (listed s)))) s"

lemma list_swept:
  assumes "task_store_wf s" and "0 < sz" and "m < length (listed s) \<or> m = 0"
  shows "task_list [] sz (if m = 0 then [] else tk_id (listed s ! (m - 1))) (swept s m)
    = (Inr (take (nat sz) (drop m (listed s)),
            if m + nat sz < length (listed s) then tk_id (listed s ! (m + nat sz - 1)) else []), swept s m)"
proof -
  define F where "F = failed_in (set (map tk_id (take m (listed s))))"
  define tok where "tok = (if m = 0 then [] else tk_id (listed s ! (m - 1)))"
  define S where "S = swept s m"
  have d: "distinct (map tk_id (listed s))" by (rule distinct_listed[OF assms(1)])
  have ids: "map tk_id (map F (listed s)) = map tk_id (listed s)" by (simp add: F_def)
  have nonempty: "tk_id t \<noteq> []" if "t \<in> set (listed s)" for t
    using that assms(1) by (force simp: listed_def task_store_wf_def)
  have sorted: "sort_key tk_id (map snd (ts_tasks S)) = map F (listed s)"
    using listed_fail[of _ s] unfolding S_def F_def listed_def .
  have start: "(if tok = [] then Some 0 else after_token tok (map F (listed s))) = Some m"
  proof (cases m)
    case (Suc i)
    with assms(3) have i: "i < length (listed s)" by simp
    have "tk_id (F (listed s ! i)) = tk_id (listed s ! i)" by (simp add: F_def)
    then show ?thesis
      using after_token_nth[of i "map F (listed s)", unfolded ids, OF _ d] nonempty[of "listed s ! i"] i Suc by (simp add: tok_def)
  qed (simp add: tok_def)
  have rest: "drop m (map F (listed s)) = drop m (listed s)"
  proof -
    have "F t = t" if "t \<in> set (drop m (listed s))" for t
    proof -
      have "distinct (map tk_id (take m (listed s)) @ map tk_id (drop m (listed s)))"
        using d by (metis append_take_drop_id map_append)
      with that have "tk_id t \<notin> set (map tk_id (take m (listed s)))" by auto
      then show ?thesis by (simp add: F_def failed_in_def)
    qed
    then show ?thesis by (simp add: drop_map map_idI)
  qed
  have lastid: "tk_id (last (take (nat sz) (drop m (listed s)))) = tk_id (listed s ! (m + nat sz - 1))"
    if "m + nat sz < length (listed s)"
    using that assms(2) by (subst last_conv_nth) (auto simp: min_def algebra_simps)
  have "task_list [] sz tok S
    = (Inr (take (nat sz) (drop m (listed s)),
            if m + nat sz < length (listed s) then tk_id (listed s ! (m + nat sz - 1)) else []), S)"
    using assms(2) lastid by (simp add: task_list_def Let_def sorted start rest)
  then show ?thesis unfolding tok_def S_def .
qed

lemma sweep_swept:
  assumes wf: "task_store_wf s" and page: "0 < a2_max_page c" and retained: "int (length (listed s)) \<le> a2_max_retained c" "0 < a2_max_retained c"
    and early: "\<And>i. readings clk i < deadline"
  shows "m < length (listed s) \<or> m = 0 \<Longrightarrow> length (listed s) - m < n \<Longrightarrow> readings clk' = readings clk \<Longrightarrow>
    \<exists>clk2. sweep memory_tasks c deadline n (if m = 0 then [] else tk_id (listed s ! (m - 1))) (int m) (swept s m) clk'
      = (Some (Inr ()), swept s (length (listed s)), clk2)"
proof (induction n arbitrary: m clk')
  case (Suc n)
  let ?k = "nat (a2_max_page c)" and ?L = "listed s"
  let ?page = "take ?k (drop m ?L)"
  have not_done: "\<not> a2_max_retained c \<le> int m" using Suc.prems(1) retained by auto
  have now: "\<not> deadline \<le> fst (tick clk')" using early[of "reads clk'"] Suc.prems(3) by (simp add: tick_def)
  have clk': "readings (snd (tick clk')) = readings clk" using Suc.prems(3) by (simp add: tick_def)
  have split: "take (m + ?k) ?L = take m ?L @ ?page" by (simp add: take_add)
  have d: "distinct (map tk_id ?L)" by (rule distinct_listed[OF wf])
  have "distinct (map tk_id (take (m + ?k) ?L))" using distinct_take[OF d, of "m + ?k"] by (simp only: take_map)
  then have "distinct (map tk_id (take m ?L @ ?page))" by (simp only: split)
  then have fold: "fold (fail_if_active memory_tasks) ?page (swept s m) = swept s (m + ?k)"
    using fail_page[OF wf, of ?page "set (map tk_id (take m ?L))"] by (auto simp: split dest: in_set_takeD in_set_dropD)
  have step: "sweep memory_tasks c deadline (Suc n) (if m = 0 then [] else tk_id (?L ! (m - 1))) (int m) (swept s m) clk'
    = (if m + ?k < length ?L
       then sweep memory_tasks c deadline n (tk_id (?L ! (m + ?k - 1))) (int m + int (length ?page)) (swept s (m + ?k)) (snd (tick clk'))
       else (Some (Inr ()), swept s (m + ?k), snd (tick clk')))"
  proof -
    have "tk_id (?L ! (m + ?k - 1)) \<noteq> []" if "m + ?k < length ?L"
    proof -
      have "?L ! (m + ?k - 1) \<in> set ?L" using that by (intro nth_mem) simp
      then show ?thesis using wf by (force simp: listed_def task_store_wf_def)
    qed
    moreover define P where "P = ?page"
    moreover define S where "S = swept s m"
    moreover define S' where "S' = swept s (m + ?k)"
    moreover define tok where "tok = (if m = 0 then [] else tk_id (?L ! (m - 1)))"
    moreover define nxt where "nxt = (if m + ?k < length ?L then tk_id (?L ! (m + ?k - 1)) else [])"
    moreover have "to_list memory_tasks = task_list" by (simp add: memory_tasks_def)
    ultimately have "sweep memory_tasks c deadline (Suc n) tok (int m) S clk'
      = (if nxt = [] then (Some (Inr ()), S', snd (tick clk'))
         else sweep memory_tasks c deadline n nxt (int m + int (length P)) S' (snd (tick clk')))"
      and "nxt = [] \<longleftrightarrow> \<not> m + ?k < length ?L"
      using not_done now list_swept[OF wf page Suc.prems(1)] fold by (simp_all add: case_prod_beta Let_def)
    then show ?thesis by (simp only: P_def S_def S'_def tok_def nxt_def not_not split: if_split) simp
  qed
  show ?case
  proof (cases "m + ?k < length ?L")
    case True
    then have len: "int m + int (length ?page) = int (m + ?k)" by simp
    have fuel: "length ?L - (m + ?k) < n" and nz: "m + ?k \<noteq> 0" using Suc.prems(2) page True by auto
    show ?thesis using Suc.IH[OF disjI1[OF True] fuel clk'] unfolding step len if_P[OF True] if_not_P[OF nz] .
  next
    case False
    then have "take (m + ?k) ?L = take (length ?L) ?L" by simp
    with False show ?thesis unfolding step by simp
  qed
qed simp

text \<open>
  The sweep of a shutdown completes and leaves no task ambiguous: over the in-memory repository with no more
  tasks than the host is configured for, as long as the clock stays before the deadline, it ends within as many pages as
  there are tasks, every task that was submitted or working has failed, and no other task has changed.
\<close>

theorem sweep_fails_active_tasks:
  assumes "task_store_wf s" and "0 < a2_max_page c" and "0 < a2_max_retained c" and "int (length (ts_tasks s)) \<le> a2_max_retained c"
    and "\<And>i. readings clk i < readings clk (reads clk) + fin_val (a2_flush_deadline c)" and "length (ts_tasks s) < n"
  shows "\<exists>clk'. sweep_active memory_tasks c n s clk
     = (True, s\<lparr>ts_tasks := map (\<lambda>(k, t). (k, if active_task (tk_state t) then t\<lparr>tk_state := TASK_FAILED\<rparr> else t)) (ts_tasks s)\<rparr>, clk')"
proof -
  have len: "length (listed s) = length (ts_tasks s)" by (simp add: listed_def)
  have all: "swept s (length (listed s))
    = s\<lparr>ts_tasks := map (\<lambda>(k, t). (k, if active_task (tk_state t) then t\<lparr>tk_state := TASK_FAILED\<rparr> else t)) (ts_tasks s)\<rparr>"
  proof -
    have "map (\<lambda>(k, t). (k, failed_in (set (map tk_id (take (length (listed s)) (listed s)))) t)) (ts_tasks s)
      = map (\<lambda>(k, t). (k, if active_task (tk_state t) then t\<lparr>tk_state := TASK_FAILED\<rparr> else t)) (ts_tasks s)"
      by (intro map_cong) (force simp: failed_in_def listed_def)+
    then show ?thesis by (simp only: fail_tasks_def)
  qed
  have "\<exists>clk2. sweep memory_tasks c (readings clk (reads clk) + fin_val (a2_flush_deadline c)) n [] 0 s (snd (tick clk))
      = (Some (Inr ()), swept s (length (listed s)), clk2)"
    using sweep_swept[OF assms(1,2), of clk "readings clk (reads clk) + fin_val (a2_flush_deadline c)" 0 n "snd (tick clk)"] assms len
    by (simp add: tick_def)
  then show ?thesis unfolding all by (auto simp: sweep_active_def tick_def)
qed

text \<open>
  The flush of a close does not tell when its own clock has run out: the loop then ends as if every page had been read.  A
  host whose clock reaches the deadline before the first page closes with success although no task has been swept.
\<close>

theorem incomplete_flush_reported:
  assumes "readings clk (reads clk) + fin_val (a2_flush_deadline c) \<le> readings clk (Suc (reads clk))" and "0 < n"
  shows "\<exists>clk'. close_finish ops c n True [] s clk = (Inr (), s, clk')"
proof -
  obtain k where "n = Suc k" using assms(2) by (cases n) auto
  with assms(1) show ?thesis by (simp add: close_finish_def sweep_active_def tick_def close_reasons_def)
qed

text \<open>A repository with a task that is being worked on and one that has completed.\<close>

definition sample_task :: "string \<Rightarrow> task_state \<Rightarrow> a2a_task" where
  "sample_task i st = \<lparr>tk_id = i, tk_context = ''c'', tk_state = st, tk_status_text = [], tk_history = [], tk_artifacts = [], tk_metadata = []\<rparr>"

definition sample_tasks :: task_store where
  "sample_tasks = \<lparr>ts_max = 8, ts_tasks = [(''t2'', sample_task ''t2'' TASK_WORKING), (''t1'', sample_task ''t1'' TASK_COMPLETED)], ts_evicted = []\<rparr>"

theorem sweep_fails_active_tasks_witness:
  "\<exists>clk'. sweep_active memory_tasks sample_host 3 sample_tasks \<lparr>readings = (\<lambda>_. 0), reads = 0\<rparr>
     = (True, sample_tasks\<lparr>ts_tasks := [(''t2'', sample_task ''t2'' TASK_FAILED), (''t1'', sample_task ''t1'' TASK_COMPLETED)]\<rparr>, clk')"
proof -
  have "task_store_wf sample_tasks" by (simp add: task_store_wf_def sample_tasks_def sample_task_def ddistinct_def)
  then show ?thesis
    using sweep_fails_active_tasks[of sample_tasks sample_host "\<lparr>readings = (\<lambda>_. 0), reads = 0\<rparr>" 3]
    by (simp add: sample_host_def) (simp add: sample_tasks_def sample_task_def active_task_def)
qed

theorem incomplete_flush_reported_witness:
  "\<exists>clk'. close_finish memory_tasks sample_host 3 True [] sample_tasks \<lparr>readings = of_nat \<circ> (\<lambda>n. 5 * n), reads = 0\<rparr> = (Inr (), sample_tasks, clk')"
  using incomplete_flush_reported[of "\<lparr>readings = of_nat \<circ> (\<lambda>n. 5 * n), reads = 0\<rparr>" sample_host 3 memory_tasks sample_tasks]
  by (simp add: sample_host_def)

theorem stopped_host_stays_stopped_witness:
  "\<not> host_ready (mark_ready (snd (close_begin init_lifecycle))) \<and> \<not> host_alive (mark_ready (snd (close_begin init_lifecycle)))"
proof -
  have "lifecycle_reach (snd (close_begin init_lifecycle), 0) (mark_ready (snd (close_begin init_lifecycle)), 0)"
    by (intro r_into_rtranclp marked)
  then show ?thesis
    using stopped_host_stays_stopped by (simp add: close_begin_def init_lifecycle_def host_alive_def)
qed

end
