(* ===== verification/HostGuard.thy ===== *)
theory HostGuard
  imports HostLifecycle "HOL-Library.Multiset"
begin

text \<open>
  The boundary around the protocol application, \<open>a2a/guard.py\<close>: bounded bodies, the decision whether a request is served, and what
  is answered however its execution ends.  The application is a parameter: \<open>serve_end\<close> tells which of the events that are
  waited for came first, \<open>app_end\<close> how the execution ended.  Log events are omitted.
\<close>

section \<open>The request channel\<close>

text \<open>Of a body message only the length of its body matters.\<close>

datatype inbound = BodyChunk nat | Disconnect

record channel =
  cn_max_bytes :: int
  cn_max_chunks :: int
  cn_seen :: int
  cn_chunks :: int
  cn_queue :: "inbound list"
  cn_disconnected :: bool
  cn_exceeded :: bool
  cn_done :: bool

definition init_channel :: "host_config \<Rightarrow> channel" where
  "init_channel c = \<lparr>cn_max_bytes = a2_max_body c, cn_max_chunks = a2_max_chunks c, cn_seen = 0, cn_chunks = 0, cn_queue = [],
     cn_disconnected = False, cn_exceeded = False, cn_done = False\<rparr>"

text \<open>One round of the pump; after it has returned nothing is read.\<close>

definition pump :: "inbound \<Rightarrow> channel \<Rightarrow> channel" where
  "pump m ch =
     (if cn_done ch then ch
      else case m of
          Disconnect \<Rightarrow> ch\<lparr>cn_disconnected := True, cn_queue := cn_queue ch @ [m], cn_done := True\<rparr>
        | BodyChunk n \<Rightarrow>
            let ch' = ch\<lparr>cn_seen := cn_seen ch + int n, cn_chunks := cn_chunks ch + 1\<rparr> in
            if cn_max_bytes ch < cn_seen ch' \<or> cn_max_chunks ch < cn_chunks ch' then ch'\<lparr>cn_exceeded := True, cn_done := True\<rparr>
            else ch'\<lparr>cn_queue := cn_queue ch @ [m]\<rparr>)"

text \<open>\<open>receive\<close> takes the next message of the queue, if there is one.\<close>

definition receive :: "channel \<Rightarrow> (inbound \<times> channel) option" where
  "receive ch = (case cn_queue ch of [] \<Rightarrow> None | m # ms \<Rightarrow> Some (m, ch\<lparr>cn_queue := ms\<rparr>))"

section \<open>The response\<close>

record response =
  rs_status :: nat
  rs_body :: string

datatype outbound = ResponseStart nat | ResponseBody string | OtherMessage

record buffer =
  bf_max :: int
  bf_start :: "nat option"
  bf_chunks :: "string list"
  bf_total :: int
  bf_emitted :: bool

definition init_buffer :: "host_config \<Rightarrow> buffer" where
  "init_buffer c = \<lparr>bf_max = a2_max_response c, bf_start = None, bf_chunks = [], bf_total = 0, bf_emitted = False\<rparr>"

text \<open>\<open>Inl\<close> is \<open>_ResponseLimitExceeded\<close>.\<close>

definition buffer_send :: "outbound \<Rightarrow> buffer \<Rightarrow> (unit + unit) \<times> buffer" where
  "buffer_send m b = (case m of
       ResponseStart st \<Rightarrow> (Inr (), b\<lparr>bf_start := Some st\<rparr>)
     | OtherMessage \<Rightarrow> (Inr (), b)
     | ResponseBody s \<Rightarrow>
         let b' = b\<lparr>bf_total := bf_total b + int (length s)\<rparr> in
         if bf_max b < bf_total b' then (Inl (), b'\<lparr>bf_chunks := []\<rparr>)
         else (Inr (), b'\<lparr>bf_chunks := bf_chunks b @ [s]\<rparr>))"

definition flush_buffer :: "buffer \<Rightarrow> response list \<times> buffer" where
  "flush_buffer b =
     (case bf_start b of
        None \<Rightarrow> ([], b)
      | Some st \<Rightarrow> if bf_emitted b then ([], b)
          else ([\<lparr>rs_status = st, rs_body = concat (bf_chunks b)\<rparr>], b\<lparr>bf_emitted := True\<rparr>))"

text \<open>A JSON object with one text, as \<open>json.dumps\<close> writes it; the ceiling of 512 bytes is the one of the code.\<close>

definition small_object :: "string \<Rightarrow> string \<Rightarrow> string" where
  "small_object k v = ''{'' @ json_string k @ '': '' @ json_string v @ ''}''"

definition respond :: "nat \<Rightarrow> string \<Rightarrow> string \<Rightarrow> response" where
  "respond st k v =
     (let body = small_object k v in
      if 512 < length body then \<lparr>rs_status = 500, rs_body = small_object ''reason'' ''response_too_large''\<rparr>
      else \<lparr>rs_status = st, rs_body = body\<rparr>)"

abbreviation reject :: "nat \<Rightarrow> string \<Rightarrow> response" where
  "reject st reason \<equiv> respond st ''reason'' reason"

section \<open>Admission\<close>

datatype admission = Answered response | Escaped host_error | Served asgi_scope string

text \<open>\<open>_serve_probe\<close>: the answer of a probe, if the path is one.\<close>

definition serve_probe :: "host_config \<Rightarrow> lifecycle \<Rightarrow> facts \<Rightarrow> response option" where
  "serve_probe c lc f =
     (if a2_liveness c = Some (fa_path f)
      then Some (respond (if host_alive lc then 200 else 503) ''status'' (if host_alive lc then ''alive'' else ''closed''))
      else if a2_readiness c = Some (fa_path f)
      then Some (respond (if host_ready lc then 200 else 503) ''status'' (if host_ready lc then ''ready'' else ''unready''))
      else None)"

text \<open>What happens before the application runs, without an await: the answer, or a slot and the sanitized scope.\<close>

definition admit :: "(asgi_scope \<Rightarrow> string option) option \<Rightarrow> host_config \<Rightarrow> asgi_scope \<Rightarrow> lifecycle \<Rightarrow> limiter \<Rightarrow> admission \<times> limiter" where
  "admit ex c sc lc lm =
     (case evaluate_request ex c sc of
        Inl (Rejected reason st) \<Rightarrow> (Answered (reject st reason), lm)
      | Inl e \<Rightarrow> (Escaped e, lm)
      | Inr f \<Rightarrow>
          (case serve_probe c lc f of
             Some r \<Rightarrow> (Answered r, lm)
           | None \<Rightarrow>
               if \<not> host_ready lc then (Answered (reject 503 ''service_unavailable''), lm)
               else
                 (case try_acquire (caller_key f) lm of
                    (False, lm') \<Rightarrow> (Answered (reject 429 ''concurrency_limit_reached''), lm')
                  | (True, lm') \<Rightarrow> (Served (sanitize_scope sc f) (caller_key f), lm'))))"

section \<open>Service\<close>

text \<open>How the execution ends, and which event ends the wait for it.\<close>

datatype app_end = AppReturned | AppCancelled | AppRaised | AppOverflowed

datatype serve_end = Executed app_end | BodyExceeded | ClientGone | DeadlinePassed | GuardCancelled

definition complete_response :: "app_end \<Rightarrow> buffer \<Rightarrow> response list \<times> buffer" where
  "complete_response e b = (case e of
       AppCancelled \<Rightarrow> ([reject 503 ''request_cancelled''], b)
     | AppOverflowed \<Rightarrow> ([reject 500 ''response_too_large''], b)
     | AppRaised \<Rightarrow> ([reject 500 ''internal_error''], b)
     | AppReturned \<Rightarrow> flush_buffer b)"

text \<open>The responses that are sent, whether the execution is cancelled, and whether the cancellation of the guard is raised.\<close>

definition serve_response :: "serve_end \<Rightarrow> buffer \<Rightarrow> response list \<times> bool \<times> bool" where
  "serve_response e b = (case e of
       Executed a \<Rightarrow> (fst (complete_response a b), False, False)
     | BodyExceeded \<Rightarrow> ([reject 413 ''request_body_too_large''], True, False)
     | ClientGone \<Rightarrow> ([], True, False)
     | DeadlinePassed \<Rightarrow> ([reject 504 ''request_deadline_exceeded''], True, False)
     | GuardCancelled \<Rightarrow> ([], True, True))"

section \<open>Bounded traffic\<close>

primrec chunk_bytes :: "inbound \<Rightarrow> int" where
  "chunk_bytes (BodyChunk n) = int n"
| "chunk_bytes Disconnect = 0"

definition chunks :: "inbound list \<Rightarrow> inbound list" where
  "chunks ms = filter (\<lambda>m. m \<noteq> Disconnect) ms"

text \<open>What is buffered has been counted, and what has been counted is within the limits unless the channel has given up.\<close>

definition channel_ok :: "channel \<Rightarrow> bool" where
  "channel_ok ch \<longleftrightarrow> sum_list (map chunk_bytes (cn_queue ch)) \<le> cn_max_bytes ch \<and> int (length (chunks (cn_queue ch))) \<le> cn_max_chunks ch
     \<and> (\<not> cn_done ch \<longrightarrow> sum_list (map chunk_bytes (cn_queue ch)) \<le> cn_seen ch \<and> int (length (chunks (cn_queue ch))) \<le> cn_chunks ch)"

lemma chunks_simps [simp]:
  "chunks [] = []" "chunks (ms @ ms') = chunks ms @ chunks ms'" "chunks (Disconnect # ms) = chunks ms" "chunks (BodyChunk n # ms) = BodyChunk n # chunks ms"
  by (simp_all add: chunks_def)

lemma pump_ok: "channel_ok ch \<Longrightarrow> channel_ok (pump m ch)"
  by (cases m) (auto simp: channel_ok_def pump_def Let_def)

lemma receive_ok:
  assumes "channel_ok ch" and "receive ch = Some (m, ch')"
  shows "channel_ok ch'"
proof -
  from assms(2) obtain ms where "cn_queue ch = m # ms" "ch' = ch\<lparr>cn_queue := ms\<rparr>"
    by (auto simp: receive_def split: list.splits)
  moreover have "0 \<le> chunk_bytes m" by (cases m) auto
  ultimately show ?thesis using assms(1) by (cases m) (auto simp: channel_ok_def)
qed

text \<open>The channel of a request under the messages of the client and the reads of the application.\<close>

inductive channel_reach :: "host_config \<Rightarrow> channel \<Rightarrow> bool" for c where
  opened: "channel_reach c (init_channel c)"
| pumped: "channel_reach c ch \<Longrightarrow> channel_reach c (pump m ch)"
| received: "channel_reach c ch \<Longrightarrow> receive ch = Some (m, ch') \<Longrightarrow> channel_reach c ch'"

lemma pump_limits [simp]: "cn_max_bytes (pump m ch) = cn_max_bytes ch" "cn_max_chunks (pump m ch) = cn_max_chunks ch"
  by (cases m; simp add: pump_def Let_def)+

lemma receive_limits: "receive ch = Some (m, ch') \<Longrightarrow> cn_max_bytes ch' = cn_max_bytes ch \<and> cn_max_chunks ch' = cn_max_chunks ch"
  by (auto simp: receive_def split: list.splits)

lemma channel_reach_ok:
  assumes "channel_reach c ch" and "0 < a2_max_body c" and "0 < a2_max_chunks c"
  shows "channel_ok ch \<and> cn_max_bytes ch = a2_max_body c \<and> cn_max_chunks ch = a2_max_chunks c"
  using assms(1)
proof induction
  case opened
  show ?case using assms(2,3) by (simp add: channel_ok_def init_channel_def)
next
  case (pumped ch m)
  then show ?case using pump_ok by simp
next
  case (received ch m ch')
  then show ?case using receive_ok receive_limits by metis
qed

text \<open>The buffer under the messages of the application.\<close>

definition buffer_ok :: "buffer \<Rightarrow> bool" where
  "buffer_ok b \<longleftrightarrow> int (length (concat (bf_chunks b))) \<le> bf_max b \<and> int (length (concat (bf_chunks b))) \<le> bf_total b"

lemma buffer_send_ok: "buffer_ok b \<Longrightarrow> 0 \<le> bf_max b \<Longrightarrow> buffer_ok (snd (buffer_send m b)) \<and> bf_max (snd (buffer_send m b)) = bf_max b"
  by (cases m) (auto simp: buffer_ok_def buffer_send_def Let_def)

lemma buffer_sends_ok:
  assumes "0 < a2_max_response c"
  shows "buffer_ok (fold (\<lambda>m b. snd (buffer_send m b)) ms (init_buffer c)) \<and> bf_max (fold (\<lambda>m b. snd (buffer_send m b)) ms (init_buffer c)) = a2_max_response c"
proof (induction ms rule: rev_induct)
  case Nil
  show ?case using assms by (simp add: buffer_ok_def init_buffer_def)
next
  case (snoc m ms)
  then show ?case using buffer_send_ok assms by simp
qed

lemma respond_bounded: "length (rs_body (respond st k v)) \<le> 512"
proof -
  have "length (small_object ''reason'' ''response_too_large'') \<le> 512" by code_simp
  then show ?thesis by (simp add: respond_def Let_def)
qed

text \<open>
  The traffic of a request is bounded.  However many messages a client sends, the bytes and the chunks that wait for
  the application stay within the limits of the host; and however the execution ends and whatever the application has sent,
  at most one response is sent, whose body is within the limit of the host or the ceiling of 512 bytes of its own answers.
\<close>

theorem request_traffic_bounded:
  assumes "channel_reach c ch" and "0 < a2_max_body c" and "0 < a2_max_chunks c" and "0 < a2_max_response c"
  shows "sum_list (map chunk_bytes (cn_queue ch)) \<le> a2_max_body c \<and> int (length (chunks (cn_queue ch))) \<le> a2_max_chunks c
    \<and> (let rs = fst (serve_response e (fold (\<lambda>m b. snd (buffer_send m b)) ms (init_buffer c))) in
        length rs \<le> 1 \<and> (\<forall>r\<in>set rs. int (length (rs_body r)) \<le> max 512 (a2_max_response c)))"
proof -
  define b where "b = fold (\<lambda>m b. snd (buffer_send m b)) ms (init_buffer c)"
  have "int (length (concat (bf_chunks b))) \<le> a2_max_response c"
    using buffer_sends_ok[OF assms(4), of ms] by (auto simp: b_def buffer_ok_def)
  then have flush: "length (fst (flush_buffer b)) \<le> 1 \<and> (\<forall>r\<in>set (fst (flush_buffer b)). int (length (rs_body r)) \<le> max 512 (a2_max_response c))"
    by (auto simp: flush_buffer_def split: option.splits)
  have own: "int (length (rs_body (respond st k v))) \<le> max 512 (a2_max_response c)" for st k v
    using respond_bounded[of st k v] by linarith
  have "length (fst (serve_response e b)) \<le> 1 \<and> (\<forall>r\<in>set (fst (serve_response e b)). int (length (rs_body r)) \<le> max 512 (a2_max_response c))"
    using flush own by (auto simp: serve_response_def complete_response_def split: serve_end.splits app_end.splits)
  then show ?thesis using channel_reach_ok[OF assms(1-3)] by (simp add: channel_ok_def Let_def b_def)
qed

section \<open>The host as a system\<close>

text \<open>
  The lifecycle with its awaiting startups, the admission limiter, the requests in service with their keys, and the executions that
  outlived the wait for their cancellation.
\<close>

record host =
  ho_life :: lifecycle
  ho_pending :: nat
  ho_limiter :: limiter
  ho_serving :: "(nat \<times> string) list"
  ho_orphans :: "nat set"

definition mk_host :: "host_config \<Rightarrow> bool \<Rightarrow> py_error + host" where
  "mk_host c has_check =
     (case mk_limiter (a2_max_accepted c) (Some (a2_max_caller c)) of
        Inl e \<Rightarrow> Inl e
      | Inr lm \<Rightarrow> Inr \<lparr>ho_life = (if has_check then init_lifecycle else mark_ready init_lifecycle), ho_pending = 0, ho_limiter = lm,
          ho_serving = [], ho_orphans = {}\<rparr>)"

text \<open>
  A request that is served is tracked before anything is awaited; when its guard returns, its slot is released, and its execution is
  untracked at once or, if it is still running, when it ends.
\<close>

inductive host_step :: "(asgi_scope \<Rightarrow> string option) option \<Rightarrow> host_config \<Rightarrow> host \<Rightarrow> host \<Rightarrow> bool" for ex c where
  served: "admit ex c sc (ho_life h) (ho_limiter h) = (Served sc' k, lm) \<Longrightarrow> r \<notin> fst ` set (ho_serving h) \<union> ho_orphans h \<Longrightarrow>
    host_step ex c h (h\<lparr>ho_limiter := lm, ho_life := track r (ho_life h), ho_serving := (r, k) # ho_serving h\<rparr>)"
| answered: "admit ex c sc (ho_life h) (ho_limiter h) = (Answered a, lm) \<Longrightarrow> host_step ex c h (h\<lparr>ho_limiter := lm\<rparr>)"
| escaped: "admit ex c sc (ho_life h) (ho_limiter h) = (Escaped e, lm) \<Longrightarrow> host_step ex c h (h\<lparr>ho_limiter := lm\<rparr>)"
| finished: "(r, k) \<in> set (ho_serving h) \<Longrightarrow>
    host_step ex c h (h\<lparr>ho_limiter := release k (ho_limiter h), ho_life := untrack r (ho_life h), ho_serving := remove1 (r, k) (ho_serving h)\<rparr>)"
| left_running: "(r, k) \<in> set (ho_serving h) \<Longrightarrow>
    host_step ex c h (h\<lparr>ho_limiter := release k (ho_limiter h), ho_serving := remove1 (r, k) (ho_serving h), ho_orphans := insert r (ho_orphans h)\<rparr>)"
| reaped: "r \<in> ho_orphans h \<Longrightarrow> host_step ex c h (h\<lparr>ho_life := untrack r (ho_life h), ho_orphans := ho_orphans h - {r}\<rparr>)"
| operated: "lifecycle_step (ho_life h, ho_pending h) (l, p) \<Longrightarrow> lc_inflight l = lc_inflight (ho_life h) \<Longrightarrow> host_step ex c h (h\<lparr>ho_life := l, ho_pending := p\<rparr>)"

abbreviation host_reach :: "(asgi_scope \<Rightarrow> string option) option \<Rightarrow> host_config \<Rightarrow> host \<Rightarrow> host \<Rightarrow> bool" where
  "host_reach ex c \<equiv> (host_step ex c)\<^sup>*\<^sup>*"

definition host_ok :: "host_config \<Rightarrow> host \<Rightarrow> bool" where
  "host_ok c h \<longleftrightarrow> limits_hold (ho_limiter h) (map snd (ho_serving h)) \<and> lm_limit (ho_limiter h) = a2_max_accepted c
     \<and> lm_key_limit (ho_limiter h) = Some (a2_max_caller c)
     \<and> distinct (map fst (ho_serving h)) \<and> fst ` set (ho_serving h) \<inter> ho_orphans h = {}
     \<and> lc_inflight (ho_life h) = fst ` set (ho_serving h) \<union> ho_orphans h"

lemma admit_limiter:
  "admit ex c sc lc lm = (a, lm') \<Longrightarrow> (case a of Served sc' k \<Rightarrow> try_acquire k lm = (True, lm') \<and> host_ready lc | _ \<Rightarrow> lm' = lm)"
  by (auto simp: admit_def dest: acquire_refused split: sum.splits host_error.splits option.splits if_splits prod.splits bool.splits)

text \<open>The order of the requests in service does not matter to the limiter.\<close>

lemma limits_hold_mset: "mset hs = mset hs' \<Longrightarrow> limits_hold l hs \<longleftrightarrow> limits_hold l hs'"
proof -
  assume m: "mset hs = mset hs'"
  then have "length hs = length hs'" by (metis size_mset)
  moreover have c: "count_list hs k = count_list hs' k" for k using m by (metis count_mset)
  moreover have "occupancy hs = occupancy hs'" using c mset_eq_setD[OF m] by (simp add: occupancy_def fun_eq_iff)
  ultimately show ?thesis by (cases "lm_key_limit l") (simp_all add: limits_hold_def)
qed

lemma serving_remove:
  assumes "(r, k) \<in> set sv" and "distinct (map fst sv)"
  shows "distinct (map fst (remove1 (r, k) sv))" and "fst ` set (remove1 (r, k) sv) = fst ` set sv - {r}"
    and "limits_hold l (map snd sv) \<Longrightarrow> limits_hold (release k l) (map snd (remove1 (r, k) sv))"
proof -
  have fst: "map fst (remove1 (r, k) sv) = remove1 r (map fst sv)"
    using assms by (induction sv) (auto simp: rev_image_eqI)
  show "distinct (map fst (remove1 (r, k) sv))" using assms(2) fst by simp
  have "fst ` set (remove1 (r, k) sv) = set (map fst (remove1 (r, k) sv))" by simp
  then show "fst ` set (remove1 (r, k) sv) = fst ` set sv - {r}" using assms(2) unfolding fst by simp
  have k: "k \<in> set (map snd sv)" using assms(1) by force
  have "mset (map snd (remove1 (r, k) sv)) = mset (remove1 k (map snd sv))"
    using assms(1) by (simp add: image_mset_Diff)
  then show "limits_hold (release k l) (map snd (remove1 (r, k) sv))" if "limits_hold l (map snd sv)"
    using release_holds[OF that k] limits_hold_mset by blast
qed

lemma host_step_ok: "host_step ex c h h' \<Longrightarrow> host_ok c h \<Longrightarrow> host_ok c h'"
proof (induction rule: host_step.induct)
  case (served sc h sc' k lm r)
  from admit_limiter[OF served.hyps(1)] have a: "try_acquire k (ho_limiter h) = (True, lm)" by simp
  then have "lm_limit lm = lm_limit (ho_limiter h)" "lm_key_limit lm = lm_key_limit (ho_limiter h)"
    using acquire_limits(1,2)[of k "ho_limiter h"] by simp_all
  moreover have "limits_hold lm (k # map snd (ho_serving h))"
    using acquire_holds[OF _ a] served.prems by (simp add: host_ok_def)
  ultimately show ?case using served by (auto simp: host_ok_def track_def)
next
  case (answered sc h a lm)
  from admit_limiter[OF answered.hyps(1)] show ?case using answered.prems by (simp add: host_ok_def)
next
  case (escaped sc h e lm)
  from admit_limiter[OF escaped.hyps(1)] show ?case using escaped.prems by (simp add: host_ok_def)
next
  case (finished r k h)
  then show ?case using serving_remove[of r k "ho_serving h"] by (auto simp: host_ok_def untrack_def Let_def)
next
  case (left_running r k h)
  then have "r \<in> fst ` set (ho_serving h)" by force
  with left_running show ?case using serving_remove[of r k "ho_serving h"] by (auto simp: host_ok_def)
next
  case (reaped r h)
  then show ?case by (auto simp: host_ok_def untrack_def Let_def)
next
  case (operated h l p)
  then show ?case by (simp add: host_ok_def)
qed

text \<open>
  The accepted concurrency is bounded.  Whatever requests arrive and end in whatever order, and whatever is done to the
  lifecycle, no more requests are in service than the host allows, none of its callers has more of them than a
  caller may have, the limiter holds exactly their slots, and what is tracked is exactly the executions that have not
  ended.
\<close>

theorem accepted_concurrency_bounded:
  assumes "mk_host c has_check = Inr h0" and "host_reach ex c h0 h"
  shows "int (length (ho_serving h)) \<le> a2_max_accepted c
    \<and> (\<forall>k. int (count_list (map snd (ho_serving h)) k) \<le> a2_max_caller c)
    \<and> lm_held (ho_limiter h) = int (length (ho_serving h))
    \<and> lc_inflight (ho_life h) = fst ` set (ho_serving h) \<union> ho_orphans h"
proof -
  have "host_ok c h0"
  proof -
    from assms(1) obtain lm where lm: "mk_limiter (a2_max_accepted c) (Some (a2_max_caller c)) = Inr lm" and
      h0: "h0 = \<lparr>ho_life = (if has_check then init_lifecycle else mark_ready init_lifecycle), ho_pending = 0, ho_limiter = lm,
          ho_serving = [], ho_orphans = {}\<rparr>" by (auto simp: mk_host_def split: sum.splits)
    show ?thesis using limits_hold_init[OF lm] by (simp add: host_ok_def h0 init_lifecycle_def mark_ready_def)
  qed
  from assms(2) have "host_ok c h"
  proof (induction rule: rtranclp_induct)
    case base
    show ?case by (rule \<open>host_ok c h0\<close>)
  next
    case (step h1 h2)
    then show ?case by (blast intro: host_step_ok)
  qed
  then show ?thesis unfolding host_ok_def limits_hold_def by auto
qed

text \<open>
  A request reaches the application exactly when the boundary accepts it, it is no probe, the host is ready, and the host and its
  caller have a free slot; the application then sees the sanitized scope.
\<close>

theorem served_exactly:
  assumes "limits_hold lm hs" and "lm_key_limit lm = Some m"
  shows "(\<exists>lm'. admit ex c sc lc lm = (Served sc' k, lm')) \<longleftrightarrow>
    (\<exists>f. evaluate_request ex c sc = Inr f \<and> a2_liveness c \<noteq> Some (fa_path f) \<and> a2_readiness c \<noteq> Some (fa_path f)
       \<and> lc_state lc = HOST_READY \<and> k = caller_key f \<and> int (length hs) < lm_limit lm \<and> int (count_list hs k) < m \<and> sc' = sanitize_scope sc f)"
proof (cases "evaluate_request ex c sc")
  case (Inl e)
  then show ?thesis by (cases e) (simp_all add: admit_def)
next
  case (Inr f)
  obtain b lm' where a: "try_acquire (caller_key f) lm = (b, lm')" by fastforce
  then have "b \<longleftrightarrow> int (length hs) < lm_limit lm \<and> int (count_list hs (caller_key f)) < m"
    using acquire_granted[OF assms(1), of "caller_key f"] assms(2) by simp
  with Inr a show ?thesis by (cases b) (auto simp: admit_def serve_probe_def host_ready_def)
qed

text \<open>The sample host is ready, and serves a request of the proxy.\<close>

definition sample_limiter :: limiter where
  "sample_limiter = \<lparr>lm_limit = 4, lm_key_limit = Some 2, lm_held = 0, lm_keys = []\<rparr>"

definition sample_ready :: host where
  "sample_ready = \<lparr>ho_life = mark_ready init_lifecycle, ho_pending = 0, ho_limiter = sample_limiter, ho_serving = [], ho_orphans = {}\<rparr>"

abbreviation sample_extractor :: "(asgi_scope \<Rightarrow> string option) option" where
  "sample_extractor \<equiv> Some (\<lambda>_. Some ''CN=caller'')"

lemma sample_mk_host: "mk_host sample_host False = Inr sample_ready"
  by code_simp

lemma sample_admitted:
  "fst (admit sample_extractor sample_host (sample_request ''12'') (ho_life sample_ready) (ho_limiter sample_ready))
   = Served (sanitize_scope (sample_request ''12'') sample_facts) ''mtls:CN=caller''"
proof -
  have "serve_probe sample_host (ho_life sample_ready) sample_facts = None" "host_ready (ho_life sample_ready)"
    "fst (try_acquire (caller_key sample_facts) (ho_limiter sample_ready))" "caller_key sample_facts = ''mtls:CN=caller''"
    by code_simp+
  then show ?thesis
    by (cases "try_acquire (caller_key sample_facts) (ho_limiter sample_ready)") (simp add: admit_def sample_accepted)
qed

theorem served_exactly_witness:
  "\<exists>lm'. admit sample_extractor sample_host (sample_request ''12'') (mark_ready init_lifecycle) sample_limiter
    = (Served (sanitize_scope (sample_request ''12'') sample_facts) ''mtls:CN=caller'', lm')"
proof -
  have "limits_hold sample_limiter []" by (simp add: limits_hold_def sample_limiter_def)
  then show ?thesis
    using served_exactly[of sample_limiter "[]" 2 sample_extractor sample_host "sample_request ''12''" "mark_ready init_lifecycle"
        "sanitize_scope (sample_request ''12'') sample_facts" "''mtls:CN=caller''"] sample_accepted
    by (simp add: sample_limiter_def sample_host_def[THEN arg_cong[where f = a2_liveness]] sample_host_def[THEN arg_cong[where f = a2_readiness]]
        mark_ready_def init_lifecycle_def caller_key_def sample_facts_def non_empty_def)
qed

theorem accepted_concurrency_bounded_witness:
  "\<exists>h. host_reach sample_extractor sample_host sample_ready h \<and> length (ho_serving h) = 1
     \<and> int (length (ho_serving h)) \<le> a2_max_accepted sample_host \<and> lc_inflight (ho_life h) = {7}"
proof -
  obtain lm' where a: "admit sample_extractor sample_host (sample_request ''12'') (ho_life sample_ready) (ho_limiter sample_ready)
    = (Served (sanitize_scope (sample_request ''12'') sample_facts) ''mtls:CN=caller'', lm')"
    using sample_admitted by (metis prod.collapse)
  have "host_reach sample_extractor sample_host sample_ready
    (sample_ready\<lparr>ho_limiter := lm', ho_life := track 7 (ho_life sample_ready), ho_serving := [(7, ''mtls:CN=caller'')]\<rparr>)"
    using served[OF a, of 7] by (simp add: sample_ready_def)
  from this accepted_concurrency_bounded[OF sample_mk_host this] show ?thesis
    by (intro exI conjI) (assumption, simp_all add: sample_ready_def)
qed

theorem request_traffic_bounded_witness:
  "channel_reach sample_host (pump (BodyChunk 2000) (pump (BodyChunk 10) (init_channel sample_host)))
   \<and> int (length (chunks (cn_queue (pump (BodyChunk 2000) (pump (BodyChunk 10) (init_channel sample_host)))))) \<le> 16"
proof -
  have r: "channel_reach sample_host (pump (BodyChunk 2000) (pump (BodyChunk 10) (init_channel sample_host)))"
    by (intro pumped opened)
  then show ?thesis using request_traffic_bounded[OF r] by (simp add: sample_host_def)
qed

end
