(* ===== verification/Spec2Isabelle.thy ===== *)
theory Spec2Isabelle
  imports Pipeline Schema Delegation NestedInvocation HybridSafety HostGuard
begin

text \<open>
  A verification development for the Conducto agent runtime (Python, \<open>src/src/conducto\<close>).
\<close>

end
